(* ===== verification/Prelude.thy ===== *)
theory Prelude
  imports Main "HOL-Library.State_Monad" "HOL-Library.AList"
    "HOL-Library.List_Lexorder" "HOL-Library.Char_ord"
begin

text \<open>
  What every theory of the development shares: Go's byte strings and byte
  slices, Go's time and duration arithmetic, facts on association lists (the
  model of a Go map whose code ranges over it), and a small weakest-precondition
  calculus over \<open>State_Monad\<close>, in which the room manager's background loop
  is written and its invariants are proved.
\<close>

section \<open>Bytes\<close>

text \<open>
  A Go \<open>string\<close> and a non-nil \<open>[]byte\<close> are lists of bytes. HOL's
  \<open>char\<close> is one byte, and the order on \<open>char list\<close> of
  \<open>List_Lexorder\<close> over \<open>Char_ord\<close> is Go's bytewise string order.
  A slice that the code compares with nil is an option: \<open>None\<close> is nil.
\<close>

type_synonym bytes = "char list"

text \<open>
  \<open>append([]byte(nil), data...)\<close>, the idiom the code clones a slice with.
  Appending nothing to a nil slice leaves it nil.
\<close>

definition clone_bytes :: "bytes \<Rightarrow> bytes option" where
  "clone_bytes data = (if data = [] then None else Some data)"

text \<open>The content a reader over a possibly nil slice yields.\<close>

definition slice_bytes :: "bytes option \<Rightarrow> bytes" where
  "slice_bytes b = (case b of None \<Rightarrow> [] | Some d \<Rightarrow> d)"

lemma slice_bytes_simps [simp]:
  "slice_bytes None = []" "slice_bytes (Some d) = d"
  by (simp_all add: slice_bytes_def)

lemma slice_clone [simp]: "slice_bytes (clone_bytes d) = d"
  by (simp add: slice_bytes_def clone_bytes_def)

lemma clone_bytes_Some [simp]: "d \<noteq> [] \<Longrightarrow> clone_bytes d = Some d"
  by (simp add: clone_bytes_def)

lemma clone_bytes_eq_Some [simp]: "clone_bytes d = Some e \<longleftrightarrow> d = e \<and> d \<noteq> []"
  by (auto simp: clone_bytes_def)

section \<open>Time\<close>

text \<open>
  A \<open>time.Time\<close> is the number of nanoseconds since Go's zero time, so
  \<open>IsZero\<close> is a comparison with 0. A \<open>time.Duration\<close> is a signed
  64-bit number of nanoseconds; \<open>Time.Sub\<close> saturates at its bounds.
\<close>

type_synonym time = int
type_synonym duration = int

definition zero_time :: time where
  "zero_time = 0"

definition is_zero :: "time \<Rightarrow> bool" where
  "is_zero t \<longleftrightarrow> t = zero_time"

definition max_duration :: duration where
  "max_duration = 2 ^ 63 - 1"

definition min_duration :: duration where
  "min_duration = - (2 ^ 63)"

definition time_sub :: "time \<Rightarrow> time \<Rightarrow> duration" where
  "time_sub t u = max min_duration (min max_duration (t - u))"

definition second :: duration where
  "second = 1000000000"

definition minute :: duration where
  "minute = 60 * second"

definition hour :: duration where
  "hour = 60 * minute"

lemmas duration_defs = second_def minute_def hour_def

text \<open>The Unix epoch.\<close>

definition unixEpoch :: time where
  "unixEpoch = 62135596800 * second"

lemma is_zero_simps [simp]: "is_zero zero_time" "is_zero 0"
  by (simp_all add: is_zero_def zero_time_def)

lemma second_pos [simp]: "0 < second" "0 \<le> second"
  by (simp_all add: second_def)

text \<open>Below the saturation bound a comparison with a \<open>Sub\<close> is exact.\<close>

lemma time_sub_ge [simp]:
  "min_duration < d \<Longrightarrow> d \<le> max_duration \<Longrightarrow> d \<le> time_sub t u \<longleftrightarrow> u + d \<le> t"
  by (auto simp: time_sub_def)

lemma time_sub_less [simp]:
  "min_duration < d \<Longrightarrow> d \<le> max_duration \<Longrightarrow> time_sub t u < d \<longleftrightarrow> t < u + d"
  by (auto simp: time_sub_def)

lemma time_sub_le:
  "min_duration \<le> d \<Longrightarrow> d < max_duration \<Longrightarrow> time_sub t u \<le> d \<longleftrightarrow> t \<le> u + d"
  by (auto simp: time_sub_def)

lemma duration_in_range:
  "0 \<le> n \<Longrightarrow> n \<le> 9000000000 \<Longrightarrow> n * second \<le> max_duration \<and> min_duration < n * second"
  by (simp add: second_def max_duration_def min_duration_def)

section \<open>Association lists\<close>

text \<open>
  A Go map whose code ranges over its entries is an association list with
  distinct keys; the list order stands for the order the runtime picks, which
  the language leaves open, so facts are proved for every order.
\<close>

lemma map_of_update [simp]: "map_of (AList.update k v al) = (map_of al)(k \<mapsto> v)"
  by (rule update_conv')

lemma keys_update [simp]: "fst ` set (AList.update k v al) = insert k (fst ` set al)"
  by (simp add: dom_update)

lemma distinct_filter_fst: "distinct (map fst al) \<Longrightarrow> distinct (map fst (filter P al))"
  by (rule distinct_map_filter)

lemma map_of_filter_fst:
  "distinct (map fst al) \<Longrightarrow>
     map_of (filter P al) k = (case map_of al k of None \<Rightarrow> None
                               | Some v \<Rightarrow> if P (k, v) then Some v else None)"
proof (induction al)
  case Nil
  then show ?case by simp
next
  case (Cons a al)
  obtain k' v where a: "a = (k', v)" by (cases a)
  have "k' \<notin> fst ` set (filter P al)" if "k' \<notin> fst ` set al"
    using that by auto
  with Cons a show ?case
    by (auto split: option.splits simp: map_of_eq_None_iff)
qed

lemma sorted_key_list_unique:
  fixes xs ys :: "'a list" and f :: "'a \<Rightarrow> 'b::linorder"
  assumes "sorted (map f xs)" "sorted (map f ys)" "distinct (map f xs)" "distinct (map f ys)"
    and "set xs = set ys"
  shows "xs = ys"
proof (rule map_inj_on [where f = f])
  have "set (map f xs) = set (map f ys)" using assms(5) by simp
  then show "map f xs = map f ys"
    using assms(1-4) by (simp add: sorted_distinct_set_unique)
  have "inj_on f (set xs)" using assms(3) by (simp add: distinct_map)
  then show "inj_on f (set xs \<union> set ys)" using assms(5) by simp
qed

section \<open>Weakest preconditions over the state monad\<close>

text \<open>
  \<open>wp m Q s\<close>: run from \<open>s\<close>, \<open>m\<close> ends with a result and a state that
  satisfy \<open>Q\<close>. The monad is total and deterministic, so one predicate
  transformer serves both partial and total correctness. \<open>keeps I m\<close> says
  that \<open>I\<close> is an invariant of \<open>m\<close>; its rules, collected in
  \<open>keeps_intros\<close>, split a do-block into its steps.
\<close>

abbreviation ret :: "'a \<Rightarrow> ('s, 'a) state" where
  "ret \<equiv> State_Monad.return"

definition gets :: "('s \<Rightarrow> 'a) \<Rightarrow> ('s, 'a) state" where
  "gets f = State (\<lambda>s. (f s, s))"

definition modify :: "('s \<Rightarrow> 's) \<Rightarrow> ('s, unit) state" where
  "modify f = State (\<lambda>s. ((), f s))"

definition when_do :: "bool \<Rightarrow> ('s, unit) state \<Rightarrow> ('s, unit) state" where
  "when_do b m = (if b then m else ret ())"

lemma run_state_gets [simp]: "run_state (gets f) s = (f s, s)"
  by (simp add: gets_def)

lemma run_state_modify [simp]: "run_state (modify f) s = ((), f s)"
  by (simp add: modify_def)

lemma run_state_when [simp]:
  "run_state (when_do b m) s = (if b then run_state m s else ((), s))"
  by (simp add: when_do_def)

definition exec :: "('s, 'a) state \<Rightarrow> 's \<Rightarrow> 's" where
  "exec m s = snd (run_state m s)"

definition wp :: "('s, 'a) state \<Rightarrow> ('a \<Rightarrow> 's \<Rightarrow> bool) \<Rightarrow> 's \<Rightarrow> bool" where
  "wp m Q s = (case run_state m s of (a, t) \<Rightarrow> Q a t)"

named_theorems wp_simps \<open>weakest preconditions of the model's steps\<close>
named_theorems keeps_intros \<open>steps that keep an invariant\<close>

lemma wp_ret [simp, wp_simps]: "wp (ret a) Q s = Q a s"
  by (simp add: wp_def)

lemma wp_bind [simp, wp_simps]: "wp (State_Monad.bind m f) Q s = wp m (\<lambda>a. wp (f a) Q) s"
  by (simp add: wp_def split: prod.splits)

lemma wp_gets [simp, wp_simps]: "wp (gets f) Q s = Q (f s) s"
  by (simp add: wp_def)

lemma wp_modify [simp, wp_simps]: "wp (modify f) Q s = Q () (f s)"
  by (simp add: wp_def)

lemma wp_when [simp, wp_simps]: "wp (when_do b m) Q s = (if b then wp m Q s else Q () s)"
  by (simp add: when_do_def)

lemma wp_state [simp, wp_simps]: "wp (State f) Q s = (case f s of (a, t) \<Rightarrow> Q a t)"
  by (simp add: wp_def)

lemma wp_mono: "wp m Q s \<Longrightarrow> (\<And>a t. Q a t \<Longrightarrow> R a t) \<Longrightarrow> wp m R s"
  by (auto simp: wp_def split: prod.splits)

lemma wp_conj: "wp m (\<lambda>a t. Q a t \<and> R a t) s \<longleftrightarrow> wp m Q s \<and> wp m R s"
  by (auto simp: wp_def split: prod.splits)

lemma wp_exec: "wp m (\<lambda>_. P) s \<longleftrightarrow> P (exec m s)"
  by (simp add: wp_def exec_def split: prod.splits)

definition keeps :: "('s \<Rightarrow> bool) \<Rightarrow> ('s, 'a) state \<Rightarrow> bool" where
  "keeps I m \<longleftrightarrow> (\<forall>s. I s \<longrightarrow> wp m (\<lambda>_. I) s)"

lemma keepsI: "(\<And>s. I s \<Longrightarrow> wp m (\<lambda>_. I) s) \<Longrightarrow> keeps I m"
  by (simp add: keeps_def)

lemma keepsD: "keeps I m \<Longrightarrow> I s \<Longrightarrow> wp m (\<lambda>_. I) s"
  by (simp add: keeps_def)

lemma keeps_exec: "keeps I m \<Longrightarrow> I s \<Longrightarrow> I (exec m s)"
  by (simp add: keeps_def wp_exec)

lemma keeps_ret [keeps_intros]: "keeps I (ret a)"
  by (simp add: keeps_def)

lemma keeps_bind [keeps_intros]:
  "keeps I m \<Longrightarrow> (\<And>a. keeps I (f a)) \<Longrightarrow> keeps I (State_Monad.bind m f)"
  by (auto simp: keeps_def intro: wp_mono)

lemma keeps_gets [keeps_intros]: "keeps I (gets f)"
  by (simp add: keeps_def)

lemma keeps_modify: "(\<And>s. I s \<Longrightarrow> I (f s)) \<Longrightarrow> keeps I (modify f)"
  by (simp add: keeps_def)

lemma keeps_if [keeps_intros]:
  "(b \<Longrightarrow> keeps I m) \<Longrightarrow> (\<not> b \<Longrightarrow> keeps I n) \<Longrightarrow> keeps I (if b then m else n)"
  by simp

lemma keeps_when [keeps_intros]: "(b \<Longrightarrow> keeps I m) \<Longrightarrow> keeps I (when_do b m)"
  by (simp add: keeps_def)

lemma keeps_option [keeps_intros]:
  "(x = None \<Longrightarrow> keeps I m) \<Longrightarrow> (\<And>a. x = Some a \<Longrightarrow> keeps I (f a)) \<Longrightarrow>
     keeps I (case x of None \<Rightarrow> m | Some a \<Rightarrow> f a)"
  by (cases x) auto

lemma keeps_sum [keeps_intros]:
  "(\<And>a. x = Inl a \<Longrightarrow> keeps I (f a)) \<Longrightarrow> (\<And>b. x = Inr b \<Longrightarrow> keeps I (g b)) \<Longrightarrow>
     keeps I (case x of Inl a \<Rightarrow> f a | Inr b \<Rightarrow> g b)"
  by (cases x) auto

lemma keeps_list [keeps_intros]:
  "(x = [] \<Longrightarrow> keeps I m) \<Longrightarrow> (\<And>a as. x = a # as \<Longrightarrow> keeps I (f a as)) \<Longrightarrow>
     keeps I (case x of [] \<Rightarrow> m | a # as \<Rightarrow> f a as)"
  by (cases x) auto

lemma keeps_prod [keeps_intros]:
  "(\<And>a b. x = (a, b) \<Longrightarrow> keeps I (f a b)) \<Longrightarrow> keeps I (case x of (a, b) \<Rightarrow> f a b)"
  by (cases x) auto

lemma wp_from_keeps:
  "keeps I m \<Longrightarrow> I s \<Longrightarrow> (\<And>a t. I t \<Longrightarrow> Q a t) \<Longrightarrow> wp m Q s"
  by (auto simp: keeps_def intro: wp_mono)

text \<open>A loop over a list for its effects.\<close>

primrec each :: "('a \<Rightarrow> ('s, unit) state) \<Rightarrow> 'a list \<Rightarrow> ('s, unit) state" where
  "each f [] = ret ()"
| "each f (x # xs) = State_Monad.bind (f x) (\<lambda>_. each f xs)"

lemma keeps_each [keeps_intros]: "(\<And>x. x \<in> set xs \<Longrightarrow> keeps I (f x)) \<Longrightarrow> keeps I (each f xs)"
  by (induction xs) (auto intro: keeps_intros)

end
