(* ===== verification/Sha256.thy ===== *)
theory Sha256
  imports Prelude "HOL-Library.Word"
begin

text \<open>
  The part of Go's standard library that the lock value (\<open>internal/room\<close>)
  and the rendezvous score (\<open>internal/peers\<close>) are computed with:
  \<open>crypto/sha256\<close>'s \<open>Sum256\<close> (FIPS 180-4), \<open>encoding/hex\<close>'s
  \<open>EncodeToString\<close> and \<open>encoding/binary\<close>'s big-endian readers and
  writers, on machine words.
\<close>

unbundle bit_operations_syntax

type_synonym u32 = "32 word"
type_synonym u64 = "64 word"

section \<open>Big-endian bytes\<close>

definition be_word :: "bytes \<Rightarrow> 'a::len word" where
  "be_word bs = fold (\<lambda>c w. push_bit 8 w OR word_of_int (of_char c)) bs 0"

definition byte_at :: "nat \<Rightarrow> 'a::len word \<Rightarrow> char" where
  "byte_at k w = char_of (uint (take_bit 8 (drop_bit (8 * k) w)))"

definition be_bytes4 :: "u32 \<Rightarrow> bytes" where
  "be_bytes4 w = map (\<lambda>k. byte_at k w) [3, 2, 1, 0]"

definition be_bytes8 :: "u64 \<Rightarrow> bytes" where
  "be_bytes8 w = map (\<lambda>k. byte_at k w) [7, 6, 5, 4, 3, 2, 1, 0]"

lemma length_be_bytes [simp]: "length (be_bytes4 w) = 4" "length (be_bytes8 v) = 8"
  by (simp_all add: be_bytes4_def be_bytes8_def)

section \<open>Hexadecimal\<close>

definition hex_digit :: "nat \<Rightarrow> char" where
  "hex_digit n = ''0123456789abcdef'' ! (n mod 16)"

definition hex_encode :: "bytes \<Rightarrow> string" where
  "hex_encode bs = concat (map (\<lambda>c. [hex_digit (of_char c div 16), hex_digit (of_char c)]) bs)"

lemma length_hex_encode [simp]: "length (hex_encode bs) = 2 * length bs"
  by (induction bs) (simp_all add: hex_encode_def)

lemma hex_digit_range: "hex_digit n \<in> set ''0123456789abcdef''"
  unfolding hex_digit_def by (rule nth_mem) simp

lemma set_hex_encode: "set (hex_encode bs) \<subseteq> set ''0123456789abcdef''"
proof
  fix x assume "x \<in> set (hex_encode bs)"
  then obtain n where "x = hex_digit n" by (auto simp: hex_encode_def)
  then show "x \<in> set ''0123456789abcdef''" by (simp only: hex_digit_range)
qed

section \<open>SHA-256\<close>

text \<open>The round constants and the initial state of FIPS 180-4, in decimal.\<close>

definition sha_k :: "u32 list" where
  "sha_k =
    [1116352408, 1899447441, 3049323471, 3921009573, 961987163, 1508970993, 2453635748,
     2870763221, 3624381080, 310598401, 607225278, 1426881987, 1925078388, 2162078206,
     2614888103, 3248222580, 3835390401, 4022224774, 264347078, 604807628, 770255983,
     1249150122, 1555081692, 1996064986, 2554220882, 2821834349, 2952996808, 3210313671,
     3336571891, 3584528711, 113926993, 338241895, 666307205, 773529912, 1294757372,
     1396182291, 1695183700, 1986661051, 2177026350, 2456956037, 2730485921, 2820302411,
     3259730800, 3345764771, 3516065817, 3600352804, 4094571909, 275423344, 430227734,
     506948616, 659060556, 883997877, 958139571, 1322822218, 1537002063, 1747873779,
     1955562222, 2024104815, 2227730452, 2361852424, 2428436474, 2756734187, 3204031479,
     3329325298]"

type_synonym sha_state = "u32 \<times> u32 \<times> u32 \<times> u32 \<times> u32 \<times> u32 \<times> u32 \<times> u32"

definition sha_init :: sha_state where
  "sha_init = (1779033703, 3144134277, 1013904242, 2773480762,
               1359893119, 2600822924, 528734635, 1541459225)"

definition sha_pad :: "bytes \<Rightarrow> bytes" where
  "sha_pad m = m @ [char_of (128::nat)]
     @ replicate ((119 - length m mod 64) mod 64) (char_of (0::nat))
     @ be_bytes8 (word_of_int (8 * int (length m)))"

fun sha_words :: "bytes \<Rightarrow> u32 list" where
  "sha_words (a # b # c # d # bs) = be_word [a, b, c, d] # sha_words bs"
| "sha_words _ = []"

text \<open>The message schedule, newest word first.\<close>

fun sha_extend :: "nat \<Rightarrow> u32 list \<Rightarrow> u32 list" where
  "sha_extend 0 ws = ws"
| "sha_extend (Suc n) ws =
     (let a = ws ! 14; b = ws ! 1;
          s0 = word_rotr 7 a XOR word_rotr 18 a XOR drop_bit 3 a;
          s1 = word_rotr 17 b XOR word_rotr 19 b XOR drop_bit 10 b
      in sha_extend n ((ws ! 15 + s0 + ws ! 6 + s1) # ws))"

definition sha_round :: "u32 \<times> u32 \<Rightarrow> sha_state \<Rightarrow> sha_state" where
  "sha_round kw st =
     (case kw of (k, w) \<Rightarrow> case st of (a, b, c, d, e, f, g, h) \<Rightarrow>
        let s1 = word_rotr 6 e XOR word_rotr 11 e XOR word_rotr 25 e;
            ch = (e AND f) XOR (NOT e AND g);
            t1 = h + s1 + ch + k + w;
            s0 = word_rotr 2 a XOR word_rotr 13 a XOR word_rotr 22 a;
            maj = (a AND b) XOR (a AND c) XOR (b AND c)
        in (t1 + s0 + maj, a, b, c, d + t1, e, f, g))"

definition sha_block :: "u32 list \<Rightarrow> sha_state \<Rightarrow> sha_state" where
  "sha_block ws st =
     (case fold sha_round (zip sha_k (rev (sha_extend 48 (rev ws)))) st of
        (a', b', c', d', e', f', g', h') \<Rightarrow> case st of (a, b, c, d, e, f, g, h) \<Rightarrow>
          (a + a', b + b', c + c', d + d', e + e', f + f', g + g', h + h'))"

text \<open>One block of sixteen words at a time; the fuel is the number of blocks.\<close>

fun sha_blocks :: "nat \<Rightarrow> u32 list \<Rightarrow> sha_state \<Rightarrow> sha_state" where
  "sha_blocks 0 ws st = st"
| "sha_blocks (Suc n) ws st = sha_blocks n (drop 16 ws) (sha_block (take 16 ws) st)"

definition sum256 :: "bytes \<Rightarrow> bytes" where
  "sum256 m =
     (let ws = sha_words (sha_pad m)
      in case sha_blocks (length ws div 16) ws sha_init of
           (a, b, c, d, e, f, g, h) \<Rightarrow> concat (map be_bytes4 [a, b, c, d, e, f, g, h]))"

text \<open>A digest is 32 bytes, so it has 64 hexadecimal digits and a leading 64-bit word.\<close>

lemma length_sum256 [simp]: "length (sum256 m) = 32"
  by (simp add: sum256_def Let_def split: prod.split)

text \<open>The FIPS 180-4 test vector, evaluated by the kernel.\<close>

lemma sum256_abc:
  "hex_encode (sum256 ''abc'') = ''ba7816bf8f01cfea414140de5dae2223b00361a396177a9cb410ff61f20015ad''"
  by code_simp

end
