(* ===== verification/WopiTypes.thy ===== *)
theory WopiTypes
  imports Prelude
begin

text \<open>
  \<open>internal/wopiclient/types.go\<close> and \<open>internal/hostadapter/drive.go\<close>: the
  typed errors of a WOPI call, the \<open>CheckFileInfo\<close> response, and the profile
  of La Suite Drive that maps a response status to an error.
\<close>

section \<open>CheckFileInfo responses and errors\<close>

record fileInfo =
  fi_BaseFileName :: string
  fi_OwnerID :: string
  fi_UserFriendlyName :: string
  fi_Size :: int
  fi_UserID :: string
  fi_Version :: string
  fi_UserCanWrite :: bool
  fi_ReadOnly :: bool
  fi_SupportsUpdate :: bool
  fi_SupportsGetLock :: bool
  fi_SupportsLocks :: bool

text \<open>
  The error values a WOPI call returns. \<open>OtherError\<close> is every error that is
  not one of the package's own types: an unparsable URL, a transport failure, a
  timeout, an undecodable body.
\<close>

datatype wopi_error =
    ErrLockConflict (CurrentLock: string)
  | ErrTokenRejected
  | ErrNoWriteAccess
  | ErrProofRejected
  | ErrTooLarge
  | ErrNotFound
  | HTTPError string int string
  | OtherError string

text \<open>\<open>errors.AsType[wopiclient.ErrLockConflict](err)\<close> and its two siblings.\<close>

fun as_lock_conflict :: "wopi_error \<Rightarrow> string option" where
  "as_lock_conflict (ErrLockConflict l) = Some l"
| "as_lock_conflict _ = None"

fun is_token_rejected :: "wopi_error \<Rightarrow> bool" where
  "is_token_rejected ErrTokenRejected = True"
| "is_token_rejected _ = False"

fun is_no_write_access :: "wopi_error \<Rightarrow> bool" where
  "is_no_write_access ErrNoWriteAccess = True"
| "is_no_write_access _ = False"

lemma as_lock_conflict_Some [simp]: "as_lock_conflict e = Some l \<longleftrightarrow> e = ErrLockConflict l"
  by (cases e) auto

lemma as_lock_conflict_None: "as_lock_conflict e = None \<longleftrightarrow> (\<forall>l. e \<noteq> ErrLockConflict l)"
  by (cases e) auto

lemma is_token_rejected_iff [simp]: "is_token_rejected e \<longleftrightarrow> e = ErrTokenRejected"
  by (cases e) auto

lemma is_no_write_access_iff [simp]: "is_no_write_access e \<longleftrightarrow> e = ErrNoWriteAccess"
  by (cases e) auto

section \<open>The Drive host profile\<close>

definition ClientSaveInterval :: duration where "ClientSaveInterval = 10 * second"
definition ServerSaveInterval :: duration where "ServerSaveInterval = 60 * second"
definition LockRefreshInterval :: duration where "LockRefreshInterval = 10 * minute"
definition LockTTL :: duration where "LockTTL = 30 * minute"

definition StatusOK :: int where "StatusOK = 200"
definition StatusUnauthorized :: int where "StatusUnauthorized = 401"
definition StatusForbidden :: int where "StatusForbidden = 403"
definition StatusNotFound :: int where "StatusNotFound = 404"
definition StatusConflict :: int where "StatusConflict = 409"
definition StatusPreconditionFailed :: int where "StatusPreconditionFailed = 412"
definition StatusRequestEntityTooLarge :: int where "StatusRequestEntityTooLarge = 413"
definition StatusInternalServerError :: int where "StatusInternalServerError = 500"

lemmas status_defs = StatusOK_def StatusUnauthorized_def StatusForbidden_def StatusNotFound_def
  StatusConflict_def StatusPreconditionFailed_def StatusRequestEntityTooLarge_def
  StatusInternalServerError_def

definition MapError :: "string \<Rightarrow> int \<Rightarrow> string \<Rightarrow> wopi_error option" where
  "MapError op status wopiLockHeader =
     (if status = StatusForbidden then Some ErrTokenRejected
      else if status = StatusUnauthorized then Some ErrNoWriteAccess
      else if status = StatusConflict then Some (ErrLockConflict wopiLockHeader)
      else if status = StatusNotFound then Some ErrNotFound
      else if status = StatusPreconditionFailed \<or> status = StatusRequestEntityTooLarge
        then Some ErrTooLarge
      else if status = StatusInternalServerError then Some ErrProofRejected
      else None)"

text \<open>
  The client's \<open>mapErr\<close> (\<open>wopiclient/client.go\<close>) with the Drive profile: the
  profile's typed error, or a generic \<open>HTTPError\<close>.
\<close>

definition mapErr :: "string \<Rightarrow> int \<Rightarrow> string \<Rightarrow> string \<Rightarrow> wopi_error" where
  "mapErr op status lockHeader body =
     (case MapError op status lockHeader of
        Some e \<Rightarrow> e
      | None \<Rightarrow> HTTPError op status body)"

lemma mapErr_simps [simp]:
  "mapErr op 403 l b = ErrTokenRejected"
  "mapErr op 401 l b = ErrNoWriteAccess"
  "mapErr op 409 l b = ErrLockConflict l"
  "mapErr op 404 l b = ErrNotFound"
  "mapErr op 500 l b = ErrProofRejected"
  by (simp_all add: mapErr_def MapError_def status_defs)

text \<open>Only a 409 is read as a lock conflict, and it carries the header's value.\<close>

lemma mapErr_conflict_iff: "mapErr op st l b = ErrLockConflict l' \<longleftrightarrow> st = 409 \<and> l' = l"
  by (auto simp: mapErr_def MapError_def status_defs)

lemma mapErr_rejected_iff: "mapErr op st l b = ErrTokenRejected \<longleftrightarrow> st = 403"
  by (auto simp: mapErr_def MapError_def status_defs)

lemma mapErr_no_write_iff: "mapErr op st l b = ErrNoWriteAccess \<longleftrightarrow> st = 401"
  by (auto simp: mapErr_def MapError_def status_defs)

text \<open>A lock refresh comes well before the host would let the lock expire.\<close>

lemma lock_refresh_before_ttl: "2 * LockRefreshInterval < LockTTL"
  by (simp add: LockRefreshInterval_def LockTTL_def duration_defs)

end
