(* ===== verification/RoomState.thy ===== *)
theory RoomState
  imports Sha256 WopiTypes "HOL-Library.Multiset"
begin

text \<open>
  \<open>internal/room/roomstate.go\<close> and \<open>lockvalue.go\<close>: the bookkeeping of one
  room, the token ladder a write walks, and the file's deterministic lock value.
\<close>

section \<open>Lock values\<close>

definition lockValuePrefix :: string where
  "lockValuePrefix = ''excalidraw-wopi-''"

definition lockValueFor :: "string \<Rightarrow> string" where
  "lockValueFor fileID = lockValuePrefix @ take 16 (hex_encode (sum256 fileID))"

lemma length_lockValueFor [simp]: "length (lockValueFor f) = 32"
  by (simp add: lockValueFor_def lockValuePrefix_def)

lemma lockValueFor_nonempty [simp]: "lockValueFor f \<noteq> []"
  by (simp add: lockValueFor_def lockValuePrefix_def)

section \<open>Tokens and rooms\<close>

record tokenInfo =
  ti_token :: string
  ti_expiresAt :: time
  ti_canWrite :: bool
  ti_warned :: bool

record tokenCandidate =
  tc_userID :: string
  tc_token :: string

text \<open>
  One field per field of the Go struct. \<open>rs_tokens\<close> is an association list,
  since the code ranges over that map; \<open>rs_scene\<close> is an option, since the code
  compares the slice with nil.
\<close>

record roomState =
  rs_wopiSrc :: string
  rs_wopiSrcs :: "string set"
  rs_fileID :: string
  rs_scene :: "bytes option"
  rs_dirty :: bool
  rs_lastPutSceneAt :: time
  rs_lastWriterUserID :: string
  rs_sceneSeq :: u64
  rs_tokens :: "(string \<times> tokenInfo) list"
  rs_failedTokens :: "string \<rightharpoonup> time"
  rs_liveUserCount :: int
  rs_lockValue :: string
  rs_haveLock :: bool
  rs_lastLockAt :: time
  rs_forceUnlockValue :: string
  rs_skipVersionCheckOnce :: bool
  rs_expectedVersion :: string
  rs_haveVersion :: bool
  rs_pendingVersionCheck :: bool
  rs_conflict :: bool
  rs_conflictForeignLock :: string
  rs_lastReportedConflict :: bool
  rs_lastReportedSaveStalled :: bool
  rs_lastSaveAttemptAt :: time
  rs_backoff :: duration
  rs_nextRetryAt :: time
  rs_firstSaveDone :: bool
  rs_firstFailedSaveAt :: time
  rs_writeLost :: bool
  rs_closing :: bool
  rs_closeAt :: time
  rs_idleSince :: time
  rs_lastStuckLogAt :: time
  rs_inFlight :: bool

definition failedTokenTTL :: duration where
  "failedTokenTTL = 2 * minute"

section \<open>The token ladder\<close>

definition tokenRecentlyFailedLocked :: "roomState \<Rightarrow> string \<Rightarrow> time \<Rightarrow> bool" where
  "tokenRecentlyFailedLocked rs token now =
     (case rs_failedTokens rs token of
        None \<Rightarrow> False
      | Some failedAt \<Rightarrow> time_sub now failedAt < failedTokenTTL)"

text \<open>The loop's \<open>continue\<close> guard, negated: the entries a write may try.\<close>

definition tokenUsable :: "roomState \<Rightarrow> time \<Rightarrow> tokenInfo \<Rightarrow> bool" where
  "tokenUsable rs now info \<longleftrightarrow>
     \<not> (\<not> ti_canWrite info \<or> \<not> now < ti_expiresAt info
         \<or> tokenRecentlyFailedLocked rs (ti_token info) now)"

definition candidateOf :: "string \<times> tokenInfo \<Rightarrow> tokenCandidate" where
  "candidateOf e = \<lparr>tc_userID = fst e, tc_token = ti_token (snd e)\<rparr>"

definition tokenLadder :: "roomState \<Rightarrow> time \<Rightarrow> tokenCandidate list" where
  "tokenLadder rs now =
     (let usable = filter (\<lambda>e. tokenUsable rs now (snd e)) (rs_tokens rs);
          head = filter (\<lambda>e. fst e = rs_lastWriterUserID rs) usable;
          rest = filter (\<lambda>e. fst e \<noteq> rs_lastWriterUserID rs) usable;
          sorted_rest = sort_key tc_userID (map candidateOf rest)
      in (case rev head of
            [] \<Rightarrow> sorted_rest
          | c # _ \<Rightarrow> candidateOf c # sorted_rest))"

text \<open>The empty string is "no token".\<close>

definition anyLiveToken :: "roomState \<Rightarrow> time \<Rightarrow> string" where
  "anyLiveToken rs now =
     (case tokenLadder rs now of
        cand # _ \<Rightarrow> tc_token cand
      | [] \<Rightarrow> (case filter (\<lambda>e. now < ti_expiresAt (snd e)) (rs_tokens rs) of
                 e # _ \<Rightarrow> ti_token (snd e)
               | [] \<Rightarrow> []))"

section \<open>Facts on the ladder\<close>

text \<open>A Go map holds one entry per key.\<close>

definition tokens_ok :: "roomState \<Rightarrow> bool" where
  "tokens_ok rs \<longleftrightarrow> distinct (map fst (rs_tokens rs))"

lemma tc_candidateOf [simp]:
  "tc_userID (candidateOf e) = fst e" "tc_token (candidateOf e) = ti_token (snd e)"
  by (simp_all add: candidateOf_def)

lemma candidateOf_inject:
  "candidateOf e = c \<longleftrightarrow> fst e = tc_userID c \<and> ti_token (snd e) = tc_token c"
  by (cases c) (auto simp: candidateOf_def)

lemma mem_candidateOf_image:
  "c \<in> candidateOf ` A \<longleftrightarrow> (\<exists>info. (tc_userID c, info) \<in> A \<and> tc_token c = ti_token info)"
proof
  assume "c \<in> candidateOf ` A"
  then obtain e where "e \<in> A" "c = candidateOf e" by blast
  then show "\<exists>info. (tc_userID c, info) \<in> A \<and> tc_token c = ti_token info"
    by (intro exI [of _ "snd e"]) simp
next
  assume "\<exists>info. (tc_userID c, info) \<in> A \<and> tc_token c = ti_token info"
  then obtain info where i: "(tc_userID c, info) \<in> A" "tc_token c = ti_token info" by blast
  then have "candidateOf (tc_userID c, info) = c" by (simp add: candidateOf_inject)
  with i(1) show "c \<in> candidateOf ` A" by force
qed

lemma map_userID_candidateOf [simp]: "map tc_userID (map candidateOf es) = map fst es"
  by (simp add: comp_def)

lemma recently_failed_iff:
  "tokenRecentlyFailedLocked rs tok now \<longleftrightarrow>
     (\<exists>at. rs_failedTokens rs tok = Some at \<and> now < at + failedTokenTTL)"
  by (simp add: tokenRecentlyFailedLocked_def failedTokenTTL_def duration_defs
      min_duration_def max_duration_def split: option.splits)

lemma tokenUsable_iff:
  "tokenUsable rs now info \<longleftrightarrow>
     ti_canWrite info \<and> now < ti_expiresAt info
     \<and> \<not> tokenRecentlyFailedLocked rs (ti_token info) now"
  by (auto simp: tokenUsable_def)

lemma set_tokenLadder_subset:
  assumes "c \<in> set (tokenLadder rs now)"
  shows "\<exists>info. (tc_userID c, info) \<in> set (rs_tokens rs) \<and> tokenUsable rs now info
            \<and> tc_token c = ti_token info"
proof -
  let ?u = "filter (\<lambda>e. tokenUsable rs now (snd e)) (rs_tokens rs)"
  have "c \<in> candidateOf ` set ?u"
  proof (cases "rev (filter (\<lambda>e. fst e = rs_lastWriterUserID rs) ?u)")
    case Nil
    with assms show ?thesis by (auto simp: tokenLadder_def Let_def)
  next
    case (Cons e es)
    then have "e \<in> set (rev (filter (\<lambda>e. fst e = rs_lastWriterUserID rs) ?u))" by simp
    then have "e \<in> set ?u" by simp
    with assms Cons show ?thesis by (auto simp: tokenLadder_def Let_def)
  qed
  then obtain e where "e \<in> set ?u" "c = candidateOf e" by blast
  then show ?thesis by (intro exI [of _ "snd e"]) simp
qed

text \<open>Keys are distinct, so at most one entry is the last writer's.\<close>

lemma filter_key_distinct:
  assumes "distinct (map fst al)"
  shows "filter (\<lambda>e. fst e = k) al = (case map_of al k of None \<Rightarrow> [] | Some v \<Rightarrow> [(k, v)])"
  using assms
proof (induction al)
  case Nil
  then show ?case by simp
next
  case (Cons a al)
  show ?case
  proof (cases "fst a = k")
    case True
    with Cons.prems have "map_of al k = None" by (auto simp: map_of_eq_None_iff)
    with Cons True show ?thesis by (cases a) auto
  next
    case False
    with Cons show ?thesis by (cases a) auto
  qed
qed

text \<open>The ladder, with the map order gone: the last writer, if usable, then the rest sorted.\<close>

definition usableRest :: "roomState \<Rightarrow> time \<Rightarrow> tokenCandidate list" where
  "usableRest rs now =
     sort_key tc_userID
       (map candidateOf (filter (\<lambda>e. tokenUsable rs now (snd e) \<and> fst e \<noteq> rs_lastWriterUserID rs)
                           (rs_tokens rs)))"

lemma tokenLadder_eq:
  assumes "tokens_ok rs"
  shows "tokenLadder rs now =
     (case map_of (rs_tokens rs) (rs_lastWriterUserID rs) of
        Some info \<Rightarrow>
          if tokenUsable rs now info
          then \<lparr>tc_userID = rs_lastWriterUserID rs, tc_token = ti_token info\<rparr> # usableRest rs now
          else usableRest rs now
      | None \<Rightarrow> usableRest rs now)"
proof -
  let ?u = "filter (\<lambda>e. tokenUsable rs now (snd e)) (rs_tokens rs)"
  have d: "distinct (map fst (rs_tokens rs))" using assms by (simp add: tokens_ok_def)
  have "distinct (map fst ?u)" using d by (rule distinct_filter_fst)
  then have h: "filter (\<lambda>e. fst e = rs_lastWriterUserID rs) ?u =
      (case map_of ?u (rs_lastWriterUserID rs) of None \<Rightarrow> [] | Some v \<Rightarrow> [(rs_lastWriterUserID rs, v)])"
    by (rule filter_key_distinct)
  have r: "usableRest rs now =
      sort_key tc_userID (map candidateOf (filter (\<lambda>e. fst e \<noteq> rs_lastWriterUserID rs) ?u))"
    by (simp add: usableRest_def conj_commute)
  show ?thesis
    unfolding tokenLadder_def Let_def h r [symmetric] map_of_filter_fst [OF d]
    by (simp add: candidateOf_def split: option.split)
qed

lemma usableRest_props:
  assumes "tokens_ok rs"
  shows "sorted (map tc_userID (usableRest rs now))"
    and "distinct (map tc_userID (usableRest rs now))"
    and "set (usableRest rs now) =
           {c. tc_userID c \<noteq> rs_lastWriterUserID rs \<and>
               (\<exists>info. map_of (rs_tokens rs) (tc_userID c) = Some info
                      \<and> tokenUsable rs now info \<and> tc_token c = ti_token info)}"
proof -
  have d: "distinct (map fst (rs_tokens rs))" using assms by (simp add: tokens_ok_def)
  show "sorted (map tc_userID (usableRest rs now))" by (simp add: usableRest_def)
  let ?f = "filter (\<lambda>e. tokenUsable rs now (snd e) \<and> fst e \<noteq> rs_lastWriterUserID rs) (rs_tokens rs)"
  have df: "distinct (map fst ?f)" using d by (rule distinct_filter_fst)
  have "mset (usableRest rs now) = mset (map candidateOf ?f)"
    by (simp only: usableRest_def mset_sort)
  then have "mset (map tc_userID (usableRest rs now)) = mset (map tc_userID (map candidateOf ?f))"
    by (simp only: mset_map)
  then have "mset (map tc_userID (usableRest rs now)) = mset (map fst ?f)"
    by (simp only: map_userID_candidateOf)
  then show "distinct (map tc_userID (usableRest rs now))"
    using df mset_eq_imp_distinct_iff by blast
  show "set (usableRest rs now) =
           {c. tc_userID c \<noteq> rs_lastWriterUserID rs \<and>
               (\<exists>info. map_of (rs_tokens rs) (tc_userID c) = Some info
                      \<and> tokenUsable rs now info \<and> tc_token c = ti_token info)}"
  proof (rule set_eqI)
    fix c
    have "c \<in> set (usableRest rs now) \<longleftrightarrow>
        (\<exists>info. (tc_userID c, info) \<in> set ?f \<and> tc_token c = ti_token info)"
      unfolding usableRest_def set_sort set_map by (rule mem_candidateOf_image)
    moreover have "(tc_userID c, info) \<in> set ?f \<longleftrightarrow>
        tc_userID c \<noteq> rs_lastWriterUserID rs \<and> tokenUsable rs now info
        \<and> map_of (rs_tokens rs) (tc_userID c) = Some info" for info
      using d by (auto simp: map_of_eq_Some_iff)
    ultimately show "c \<in> set (usableRest rs now) \<longleftrightarrow>
        c \<in> {c. tc_userID c \<noteq> rs_lastWriterUserID rs \<and>
               (\<exists>info. map_of (rs_tokens rs) (tc_userID c) = Some info
                      \<and> tokenUsable rs now info \<and> tc_token c = ti_token info)}"
      by auto
  qed
qed

end
