(* ===== verification/Session.thy ===== *)
theory Session
  imports Prelude
begin

text \<open>
  \<open>internal/session/session.go\<close>: the claims a verified session JWT carries.
\<close>

record claims =
  cl_FileID :: string
  cl_WOPISrc :: string
  cl_UserID :: string
  cl_UserName :: string
  cl_CanWrite :: bool
  cl_AccessToken :: string
  cl_ExpiresAt :: time

end
