(* ===== verification/RoomManager.thy ===== *)
theory RoomManager
  imports RoomState Session
begin

text \<open>
  \<open>internal/room/manager.go\<close>, \<open>client.go\<close>, \<open>errors.go\<close> and \<open>clock.go\<close>: the
  manager's state and every operation another goroutine may run while the
  background loop waits for the WOPI host.
\<close>

section \<open>Constants\<close>

definition idleFlushInterval :: duration where "idleFlushInterval = 30 * second"
definition initialBackoff :: duration where "initialBackoff = 1 * second"
definition maxBackoff :: duration where "maxBackoff = 5 * minute"
definition closeGrace :: duration where "closeGrace = 10 * second"
definition tokenExpiryWarnWindow :: duration where "tokenExpiryWarnWindow = 10 * minute"
definition saveStalledWindow :: duration where "saveStalledWindow = 5 * minute"
definition gcIdleTimeout :: duration where "gcIdleTimeout = 15 * minute"
definition stuckConflictLogInterval :: duration where "stuckConflictLogInterval = hour"

lemmas interval_defs = idleFlushInterval_def initialBackoff_def maxBackoff_def closeGrace_def
  tokenExpiryWarnWindow_def saveStalledWindow_def gcIdleTimeout_def stuckConflictLogInterval_def
  failedTokenTTL_def ServerSaveInterval_def LockRefreshInterval_def LockTTL_def
  duration_defs

datatype room_error =
    ErrSceneTooLarge
  | ErrShutdownFlushIncomplete
  | ErrNoUsableToken
  | ErrContextDone

section \<open>The WOPI client interface\<close>

text \<open>
  The \<open>Client\<close> interface the manager calls, over a host of any type \<open>'h\<close>. A
  call may read the time and change the host; a cancelled or timed-out context is
  one of the errors it may return.
\<close>

record 'h client =
  cli_CheckFileInfo :: "time \<Rightarrow> string \<Rightarrow> string \<Rightarrow> 'h \<Rightarrow> (wopi_error + fileInfo) \<times> 'h"
  cli_PutFile :: "time \<Rightarrow> string \<Rightarrow> string \<Rightarrow> string \<Rightarrow> bytes \<Rightarrow> 'h \<Rightarrow> (wopi_error + string) \<times> 'h"
  cli_Lock :: "time \<Rightarrow> string \<Rightarrow> string \<Rightarrow> string \<Rightarrow> 'h \<Rightarrow> wopi_error option \<times> 'h"
  cli_RefreshLock :: "time \<Rightarrow> string \<Rightarrow> string \<Rightarrow> string \<Rightarrow> 'h \<Rightarrow> wopi_error option \<times> 'h"
  cli_Unlock :: "time \<Rightarrow> string \<Rightarrow> string \<Rightarrow> string \<Rightarrow> 'h \<Rightarrow> wopi_error option \<times> 'h"
  cli_UnlockAndRelock :: "time \<Rightarrow> string \<Rightarrow> string \<Rightarrow> string \<Rightarrow> string \<Rightarrow> 'h \<Rightarrow> wopi_error option \<times> 'h"

section \<open>State\<close>

text \<open>
  Rooms are shared by pointer: several \<open>WOPISrc\<close> keys and the file id index may
  name one room, and a goroutine holds on to a room that another one drops from
  the maps. So rooms live in a heap, and the maps hold addresses.
\<close>

type_synonym rid = nat

text \<open>The calls of the manager's hooks, in order, with the room they concern.\<close>

datatype hook_call =
    OnTokenExpiring rid string string
  | OnConflictChange rid string bool bool
  | OnReloadRequired string

text \<open>The WOPI calls made, in order, with their results.\<close>

datatype wopi_call =
    CallCheckFileInfo rid string string "wopi_error + fileInfo"
  | CallPutFile rid string string string bytes "wopi_error + string"
  | CallLock rid string string string "wopi_error option"
  | CallRefreshLock rid string string string "wopi_error option"
  | CallUnlock rid string string string "wopi_error option"
  | CallUnlockAndRelock rid string string string string "wopi_error option"

text \<open>
  What another goroutine may do in one critical section. \<open>ResolveConflict\<close> has
  two, and its reload hook runs after them, so it is three events.
\<close>

datatype event =
    EvPutScene string bytes string
  | EvObserve claims
  | EvOnJoin string string bool
  | EvOnLeave string string bool
  | EvResolve string bool
  | EvNotify rid
  | EvReload string
  | EvTick nat

record 'h sys =
  m_maxSceneBytes :: int
  m_hookExpiring :: bool
  m_hookConflict :: bool
  m_hookReload :: bool
  m_rooms :: "(string \<times> rid) list"
  m_byFileID :: "string \<rightharpoonup> rid"
  m_heap :: "rid \<Rightarrow> roomState"
  m_next :: rid
  m_woken :: bool
  m_clock :: time
  m_host :: 'h
  m_sched :: "event list list"
  m_hooks :: "hook_call list"
  m_calls :: "wopi_call list"
  m_puts :: nat

text \<open>
  The last four fields are not in the Go struct: \<open>m_sched\<close> is the interference
  still to come, \<open>m_hooks\<close> and \<open>m_calls\<close> log what the manager told its
  hooks and the host, and \<open>m_puts\<close> counts the scenes ever accepted (so that the
  wrap-around of the 64-bit \<open>sceneSeq\<close> can be stated).
\<close>

definition newRoom :: "string \<Rightarrow> roomState" where
  "newRoom wopiSrc =
     \<lparr>rs_wopiSrc = wopiSrc, rs_wopiSrcs = {}, rs_fileID = [], rs_scene = None,
      rs_dirty = False, rs_lastPutSceneAt = zero_time, rs_lastWriterUserID = [],
      rs_sceneSeq = 0, rs_tokens = [], rs_failedTokens = Map.empty, rs_liveUserCount = 0,
      rs_lockValue = [], rs_haveLock = False, rs_lastLockAt = zero_time,
      rs_forceUnlockValue = [], rs_skipVersionCheckOnce = False, rs_expectedVersion = [],
      rs_haveVersion = False, rs_pendingVersionCheck = False, rs_conflict = False,
      rs_conflictForeignLock = [], rs_lastReportedConflict = False,
      rs_lastReportedSaveStalled = False, rs_lastSaveAttemptAt = zero_time,
      rs_backoff = 0, rs_nextRetryAt = zero_time, rs_firstSaveDone = False,
      rs_firstFailedSaveAt = zero_time, rs_writeLost = False, rs_closing = False,
      rs_closeAt = zero_time, rs_idleSince = zero_time, rs_lastStuckLogAt = zero_time,
      rs_inFlight = False\<rparr>"

text \<open>\<open>NewManager\<close>: no room, an empty wake channel.\<close>

definition newManager :: "int \<Rightarrow> bool \<Rightarrow> bool \<Rightarrow> bool \<Rightarrow> time \<Rightarrow> 'h \<Rightarrow> 'h sys" where
  "newManager maxBytes hexp hconf hrel now host =
     \<lparr>m_maxSceneBytes = maxBytes, m_hookExpiring = hexp, m_hookConflict = hconf,
      m_hookReload = hrel, m_rooms = [], m_byFileID = Map.empty, m_heap = (\<lambda>_. newRoom []),
      m_next = 0, m_woken = False, m_clock = now, m_host = host, m_sched = [],
      m_hooks = [], m_calls = [], m_puts = 0\<rparr>"

definition clock_now :: "('h sys, time) state" where
  "clock_now = gets m_clock"

definition room_get :: "rid \<Rightarrow> (roomState \<Rightarrow> 'a) \<Rightarrow> ('h sys, 'a) state" where
  "room_get r f = gets (\<lambda>s. f (m_heap s r))"

definition upd_room :: "rid \<Rightarrow> (roomState \<Rightarrow> roomState) \<Rightarrow> 'h sys \<Rightarrow> 'h sys" where
  "upd_room r f s = s\<lparr>m_heap := (m_heap s)(r := f (m_heap s r))\<rparr>"

definition room_upd :: "rid \<Rightarrow> (roomState \<Rightarrow> roomState) \<Rightarrow> ('h sys, unit) state" where
  "room_upd r f = modify (upd_room r f)"

definition call_hook :: "hook_call \<Rightarrow> ('h sys, unit) state" where
  "call_hook h = modify (\<lambda>s. s\<lparr>m_hooks := m_hooks s @ [h]\<rparr>)"

text \<open>\<open>wake\<close>: a non-blocking send on a channel with a buffer of one.\<close>

definition wake :: "('h sys, unit) state" where
  "wake = modify (\<lambda>s. s\<lparr>m_woken := True\<rparr>)"

section \<open>Predicates on one room\<close>

definition saveStalledLocked :: "roomState \<Rightarrow> time \<Rightarrow> bool" where
  "saveStalledLocked rs now =
     (let windowElapsed = (\<not> is_zero (rs_firstFailedSaveAt rs)
                           \<and> saveStalledWindow \<le> time_sub now (rs_firstFailedSaveAt rs))
      in rs_dirty rs \<and> (rs_writeLost rs \<or> windowElapsed))"

definition pruneTokensLocked :: "time \<Rightarrow> roomState \<Rightarrow> roomState" where
  "pruneTokensLocked now rs =
     (let kept = filter (\<lambda>e. now < ti_expiresAt (snd e)) (rs_tokens rs);
          live = (\<lambda>token. token \<in> set (map (ti_token \<circ> snd) kept))
      in rs\<lparr>rs_tokens := kept,
            rs_failedTokens := (\<lambda>token.
              case rs_failedTokens rs token of
                None \<Rightarrow> None
              | Some failedAt \<Rightarrow>
                  if \<not> live token \<or> failedTokenTTL \<le> time_sub now failedAt then None
                  else Some failedAt)\<rparr>)"

definition roomLiveLocked :: "roomState \<Rightarrow> time \<Rightarrow> bool" where
  "roomLiveLocked rs now =
     (if rs_dirty rs \<or> 0 < rs_liveUserCount rs then True
      else list_ex (\<lambda>e. now < ti_expiresAt (snd e)) (rs_tokens rs))"

definition saveDueLocked :: "roomState \<Rightarrow> time \<Rightarrow> bool" where
  "saveDueLocked rs now =
     (if \<not> rs_dirty rs \<or> rs_conflict rs then False
      else if \<not> is_zero (rs_nextRetryAt rs) then \<not> now < rs_nextRetryAt rs
      else if is_zero (rs_lastSaveAttemptAt rs) then True
      else let throttleDue = rs_lastSaveAttemptAt rs + ServerSaveInterval;
               idleDue = rs_lastPutSceneAt rs + idleFlushInterval;
               due = (if idleDue < throttleDue then idleDue else throttleDue)
           in \<not> now < due)"

definition closeSaveDueLocked :: "roomState \<Rightarrow> time \<Rightarrow> bool" where
  "closeSaveDueLocked rs now =
     (if \<not> rs_dirty rs \<or> rs_conflict rs then False
      else if \<not> is_zero (rs_nextRetryAt rs) then \<not> now < rs_nextRetryAt rs
      else True)"

section \<open>Operations of one critical section\<close>

text \<open>Find or create the room of a \<open>WOPISrc\<close>; index it by file id when that is known.\<close>

definition roomLocked :: "string \<Rightarrow> string \<Rightarrow> ('h sys, rid) state" where
  "roomLocked wopiSrc fileID = do {
     known \<leftarrow> gets (\<lambda>s. map_of (m_rooms s) wopiSrc);
     r \<leftarrow> (case known of
            Some r \<Rightarrow> ret r
          | None \<Rightarrow> do {
              existing \<leftarrow> gets (\<lambda>s. if fileID \<noteq> [] then m_byFileID s fileID else None);
              r \<leftarrow> (case existing of
                      Some r \<Rightarrow> ret r
                    | None \<Rightarrow> do {
                        r \<leftarrow> gets m_next;
                        modify (\<lambda>s. s\<lparr>m_heap := (m_heap s)(r := newRoom wopiSrc), m_next := Suc r\<rparr>);
                        ret r });
              room_upd r (\<lambda>rs. rs\<lparr>rs_wopiSrcs := insert wopiSrc (rs_wopiSrcs rs)\<rparr>);
              modify (\<lambda>s. s\<lparr>m_rooms := AList.update wopiSrc r (m_rooms s)\<rparr>);
              ret r });
     when_do (fileID \<noteq> []) (do {
       room_upd r (\<lambda>rs. rs\<lparr>rs_fileID := fileID, rs_lockValue := lockValueFor fileID\<rparr>);
       modify (\<lambda>s. s\<lparr>m_byFileID := (m_byFileID s)(fileID \<mapsto> r)\<rparr>) });
     ret r }"

definition PutScene :: "string \<Rightarrow> bytes \<Rightarrow> string \<Rightarrow> ('h sys, room_error option) state" where
  "PutScene wopiSrc data userID = do {
     limit \<leftarrow> gets m_maxSceneBytes;
     if 0 < limit \<and> limit < int (length data) then ret (Some ErrSceneTooLarge)
     else do {
       now \<leftarrow> clock_now;
       r \<leftarrow> roomLocked wopiSrc [];
       room_upd r (\<lambda>rs. rs\<lparr>rs_scene := clone_bytes data, rs_dirty := True,
                            rs_sceneSeq := rs_sceneSeq rs + 1, rs_lastPutSceneAt := now\<rparr>);
       when_do (userID \<noteq> []) (room_upd r (\<lambda>rs. rs\<lparr>rs_lastWriterUserID := userID\<rparr>));
       modify (\<lambda>s. s\<lparr>m_puts := Suc (m_puts s)\<rparr>);
       wake;
       ret None } }"

text \<open>\<open>None\<close> is the code's \<open>(nil, false)\<close>.\<close>

definition GetScene :: "string \<Rightarrow> ('h sys, bytes option) state" where
  "GetScene wopiSrc = gets (\<lambda>s.
     case map_of (m_rooms s) wopiSrc of
       None \<Rightarrow> None
     | Some r \<Rightarrow> rs_scene (m_heap s r))"

definition Observe :: "claims \<Rightarrow> ('h sys, unit) state" where
  "Observe c = do {
     r \<leftarrow> roomLocked (cl_WOPISrc c) (cl_FileID c);
     existed \<leftarrow> room_get r (\<lambda>rs. map_of (rs_tokens rs) (cl_UserID c) \<noteq> None);
     room_upd r (\<lambda>rs. rs\<lparr>rs_tokens := AList.update (cl_UserID c)
        \<lparr>ti_token = cl_AccessToken c, ti_expiresAt = cl_ExpiresAt c,
         ti_canWrite = cl_CanWrite c, ti_warned = False\<rparr> (rs_tokens rs)\<rparr>);
     now \<leftarrow> clock_now;
     room_upd r (pruneTokensLocked now);
     check \<leftarrow> room_get r (\<lambda>rs. \<not> existed \<and> rs_haveVersion rs \<and> \<not> rs_conflict rs);
     when_do check (room_upd r (\<lambda>rs. rs\<lparr>rs_pendingVersionCheck := True\<rparr>));
     wake }"

definition OnJoin :: "string \<Rightarrow> string \<Rightarrow> bool \<Rightarrow> ('h sys, unit) state" where
  "OnJoin fileID userID canWrite = do {
     found \<leftarrow> gets (\<lambda>s. m_byFileID s fileID);
     (case found of
        None \<Rightarrow> ret ()
      | Some r \<Rightarrow> do {
          room_upd r (\<lambda>rs. rs\<lparr>rs_liveUserCount := rs_liveUserCount rs + 1, rs_closing := False\<rparr>);
          wake }) }"

definition OnLeave :: "string \<Rightarrow> string \<Rightarrow> bool \<Rightarrow> ('h sys, unit) state" where
  "OnLeave fileID userID roomEmpty = do {
     found \<leftarrow> gets (\<lambda>s. m_byFileID s fileID);
     (case found of
        None \<Rightarrow> ret ()
      | Some r \<Rightarrow> do {
          room_upd r (\<lambda>rs. if 0 < rs_liveUserCount rs
                            then rs\<lparr>rs_liveUserCount := rs_liveUserCount rs - 1\<rparr> else rs);
          now \<leftarrow> clock_now;
          when_do roomEmpty
            (room_upd r (\<lambda>rs. rs\<lparr>rs_closing := True, rs_closeAt := now + closeGrace\<rparr>));
          wake }) }"

definition Conflict :: "string \<Rightarrow> ('h sys, bool) state" where
  "Conflict wopiSrc = gets (\<lambda>s.
     case map_of (m_rooms s) wopiSrc of
       None \<Rightarrow> False
     | Some r \<Rightarrow> rs_conflict (m_heap s r))"

definition SaveStalled :: "string \<Rightarrow> ('h sys, bool) state" where
  "SaveStalled wopiSrc = gets (\<lambda>s.
     case map_of (m_rooms s) wopiSrc of
       None \<Rightarrow> False
     | Some r \<Rightarrow> saveStalledLocked (m_heap s r) (m_clock s))"

text \<open>The room's side of \<open>ResolveConflict\<close>, its first critical section.\<close>

definition resolveRoom :: "bool \<Rightarrow> roomState \<Rightarrow> roomState" where
  "resolveRoom overwrite rs =
     (let foreignLock = rs_conflictForeignLock rs;
          rs1 = rs\<lparr>rs_conflict := False, rs_conflictForeignLock := []\<rparr>;
          rs2 = (if overwrite
                 then rs1\<lparr>rs_dirty := True, rs_backoff := 0, rs_nextRetryAt := zero_time,
                          rs_lastSaveAttemptAt := zero_time, rs_skipVersionCheckOnce := True\<rparr>
                 else rs1\<lparr>rs_scene := None, rs_dirty := False, rs_haveVersion := False\<rparr>)
      in if foreignLock \<noteq> [] then rs2\<lparr>rs_forceUnlockValue := foreignLock\<rparr> else rs2)"

definition resolveLocked :: "string \<Rightarrow> bool \<Rightarrow> ('h sys, (rid \<times> string) option) state" where
  "resolveLocked wopiSrc overwrite = do {
     found \<leftarrow> gets (\<lambda>s. case map_of (m_rooms s) wopiSrc of
                          None \<Rightarrow> None
                        | Some r \<Rightarrow> if rs_conflict (m_heap s r) then Some r else None);
     (case found of
        None \<Rightarrow> ret None
      | Some r \<Rightarrow> do {
          room_upd r (resolveRoom overwrite);
          fileID \<leftarrow> room_get r rs_fileID;
          ret (Some (r, fileID)) }) }"

text \<open>
  \<open>notifyState\<close>'s compute step and hook call. \<open>notifyMu\<close> holds the two
  together, so they are one step of the model.
\<close>

definition notifyLocked :: "rid \<Rightarrow> ('h sys, unit) state" where
  "notifyLocked r = do {
     now \<leftarrow> clock_now;
     inConflict \<leftarrow> room_get r rs_conflict;
     saveStalled \<leftarrow> room_get r (\<lambda>rs. saveStalledLocked rs now);
     changed \<leftarrow> room_get r (\<lambda>rs. inConflict \<noteq> rs_lastReportedConflict rs
                                   \<or> saveStalled \<noteq> rs_lastReportedSaveStalled rs);
     when_do changed (room_upd r (\<lambda>rs. rs\<lparr>rs_lastReportedConflict := inConflict,
                                             rs_lastReportedSaveStalled := saveStalled\<rparr>));
     fileID \<leftarrow> room_get r rs_fileID;
     hook \<leftarrow> gets m_hookConflict;
     when_do (changed \<and> hook) (call_hook (OnConflictChange r fileID inConflict saveStalled)) }"

definition reloadHook :: "string \<Rightarrow> ('h sys, unit) state" where
  "reloadHook fileID = do {
     hook \<leftarrow> gets m_hookReload;
     when_do hook (call_hook (OnReloadRequired fileID)) }"

section \<open>Interference\<close>

fun env_step :: "event \<Rightarrow> 'h sys \<Rightarrow> 'h sys" where
  "env_step (EvPutScene src data uid) s = exec (PutScene src data uid) s"
| "env_step (EvObserve c) s = exec (Observe c) s"
| "env_step (EvOnJoin f u w) s = exec (OnJoin f u w) s"
| "env_step (EvOnLeave f u e) s = exec (OnLeave f u e) s"
| "env_step (EvResolve src ow) s = exec (resolveLocked src ow) s"
| "env_step (EvNotify r) s = (if r < m_next s then exec (notifyLocked r) s else s)"
| "env_step (EvReload f) s = exec (reloadHook f) s"
| "env_step (EvTick d) s = s\<lparr>m_clock := m_clock s + int d\<rparr>"

text \<open>
  The background loop's \<open>m.mu.Lock()\<close>: before it gets the mutex, other
  goroutines run the critical sections that the schedule lists for this point.
  The schedule is part of the state and every fact is proved for all of them, so
  it holds for every interleaving with the loop's critical sections and WOPI calls.
\<close>

definition interfere :: "'h sys \<Rightarrow> 'h sys" where
  "interfere s = (case m_sched s of
                    [] \<Rightarrow> s
                  | evs # rest \<Rightarrow> fold env_step evs (s\<lparr>m_sched := rest\<rparr>))"

definition lock_mu :: "('h sys, unit) state" where
  "lock_mu = modify interfere"

section \<open>Operations of several critical sections\<close>

definition notifyState :: "rid \<Rightarrow> ('h sys, unit) state" where
  "notifyState r = do { lock_mu; notifyLocked r }"

definition enterConflictRoom :: "string \<Rightarrow> bool \<Rightarrow> roomState \<Rightarrow> roomState" where
  "enterConflictRoom foreignLock dropLock rs =
     (let rs1 = rs\<lparr>rs_conflict := True\<rparr>;
          rs2 = (if foreignLock \<noteq> [] then rs1\<lparr>rs_conflictForeignLock := foreignLock\<rparr> else rs1)
      in if dropLock then rs2\<lparr>rs_haveLock := False\<rparr> else rs2)"

definition enterConflict :: "rid \<Rightarrow> string \<Rightarrow> bool \<Rightarrow> ('h sys, unit) state" where
  "enterConflict r foreignLock dropLock = do {
     lock_mu;
     room_upd r (enterConflictRoom foreignLock dropLock);
     notifyState r }"

definition ResolveConflict :: "string \<Rightarrow> bool \<Rightarrow> ('h sys, room_error option) state" where
  "ResolveConflict wopiSrc overwrite = do {
     lock_mu;
     found \<leftarrow> resolveLocked wopiSrc overwrite;
     (case found of
        None \<Rightarrow> ret None
      | Some (r, fileID) \<Rightarrow> do {
          notifyState r;
          when_do (\<not> overwrite) (reloadHook fileID);
          wake;
          ret None }) }"

definition tryEnterInFlight :: "rid \<Rightarrow> ('h sys, bool) state" where
  "tryEnterInFlight r = do {
     lock_mu;
     busy \<leftarrow> room_get r rs_inFlight;
     if busy then ret False
     else do { room_upd r (\<lambda>rs. rs\<lparr>rs_inFlight := True\<rparr>); ret True } }"

definition exitInFlight :: "rid \<Rightarrow> ('h sys, unit) state" where
  "exitInFlight r = do { lock_mu; room_upd r (\<lambda>rs. rs\<lparr>rs_inFlight := False\<rparr>) }"

text \<open>
  Drop a room from every key it is aliased under and from the file id index,
  where that still names this room.
\<close>

definition deleteRoomLocked :: "rid \<Rightarrow> ('h sys, unit) state" where
  "deleteRoomLocked r = do {
     srcs \<leftarrow> room_get r rs_wopiSrcs;
     modify (\<lambda>s. s\<lparr>m_rooms := filter (\<lambda>e. fst e \<notin> srcs) (m_rooms s)\<rparr>);
     fileID \<leftarrow> room_get r rs_fileID;
     cur \<leftarrow> gets (\<lambda>s. m_byFileID s fileID);
     when_do (fileID \<noteq> [] \<and> cur = Some r)
       (modify (\<lambda>s. s\<lparr>m_byFileID := (m_byFileID s)(fileID := None)\<rparr>)) }"

end
