(* ===== verification/RoomSave.thy ===== *)
theory RoomSave
  imports RoomManager
begin

text \<open>
  \<open>internal/room/save.go\<close> and the loop of \<open>manager.go\<close>: one background pass over
  a room, the save with its token ladder, the lock state machine, close and
  garbage collection. Each \<open>lock_mu\<close> is a \<open>m.mu.Lock()\<close> of the code; WOPI calls
  run between two of them, outside the mutex.
\<close>

section \<open>WOPI calls\<close>

text \<open>A call changes the host and is logged with its result.\<close>

definition host_call :: "(time \<Rightarrow> 'h \<Rightarrow> 'r \<times> 'h) \<Rightarrow> ('r \<Rightarrow> wopi_call) \<Rightarrow> ('h sys, 'r) state" where
  "host_call f entry = do {
     now \<leftarrow> clock_now;
     h \<leftarrow> gets m_host;
     modify (\<lambda>s. s\<lparr>m_host := snd (f now h), m_calls := m_calls s @ [entry (fst (f now h))]\<rparr>);
     ret (fst (f now h)) }"

definition callCheckFileInfo :: "'h client \<Rightarrow> rid \<Rightarrow> string \<Rightarrow> ('h sys, wopi_error + fileInfo) state" where
  "callCheckFileInfo c r token = do {
     src \<leftarrow> room_get r rs_wopiSrc;
     host_call (\<lambda>now. cli_CheckFileInfo c now src token) (CallCheckFileInfo r src token) }"

definition callPutFile :: "'h client \<Rightarrow> rid \<Rightarrow> string \<Rightarrow> string \<Rightarrow> bytes option \<Rightarrow> ('h sys, wopi_error + string) state" where
  "callPutFile c r token lock scene = do {
     src \<leftarrow> room_get r rs_wopiSrc;
     host_call (\<lambda>now. cli_PutFile c now src token lock (slice_bytes scene))
       (CallPutFile r src token lock (slice_bytes scene)) }"

definition callLock :: "'h client \<Rightarrow> rid \<Rightarrow> string \<Rightarrow> string \<Rightarrow> ('h sys, wopi_error option) state" where
  "callLock c r token lock = do {
     src \<leftarrow> room_get r rs_wopiSrc;
     host_call (\<lambda>now. cli_Lock c now src token lock) (CallLock r src token lock) }"

definition callRefreshLock :: "'h client \<Rightarrow> rid \<Rightarrow> string \<Rightarrow> string \<Rightarrow> ('h sys, wopi_error option) state" where
  "callRefreshLock c r token lock = do {
     src \<leftarrow> room_get r rs_wopiSrc;
     host_call (\<lambda>now. cli_RefreshLock c now src token lock) (CallRefreshLock r src token lock) }"

definition callUnlock :: "'h client \<Rightarrow> rid \<Rightarrow> string \<Rightarrow> string \<Rightarrow> ('h sys, wopi_error option) state" where
  "callUnlock c r token lock = do {
     src \<leftarrow> room_get r rs_wopiSrc;
     host_call (\<lambda>now. cli_Unlock c now src token lock) (CallUnlock r src token lock) }"

definition callUnlockAndRelock :: "'h client \<Rightarrow> rid \<Rightarrow> string \<Rightarrow> string \<Rightarrow> string \<Rightarrow> ('h sys, wopi_error option) state" where
  "callUnlockAndRelock c r token newLock oldLock = do {
     src \<leftarrow> room_get r rs_wopiSrc;
     host_call (\<lambda>now. cli_UnlockAndRelock c now src token newLock oldLock)
       (CallUnlockAndRelock r src token newLock oldLock) }"

section \<open>Planning a pass\<close>

record passPlan =
  pp_versionCheckDue :: bool
  pp_closeDue :: bool
  pp_lockDue :: bool
  pp_gcDue :: bool
  pp_needRefresh :: bool
  pp_logStuck :: bool
  pp_haveLock :: bool
  pp_lockValue :: string
  pp_wopiSrc :: string
  pp_fileID :: string

definition versionCheckPlanLocked ::
  "roomState \<Rightarrow> time \<Rightarrow> bool \<Rightarrow> bool \<Rightarrow> (bool \<times> bool) \<times> roomState" where
  "versionCheckPlanLocked rs now live closeDue =
     (let needRefresh = (rs_haveLock rs \<and> \<not> rs_conflict rs \<and> live
                         \<and> LockRefreshInterval \<le> time_sub now (rs_lastLockAt rs));
          due0 = (if needRefresh then True else rs_pendingVersionCheck rs);
          due1 = (if rs_skipVersionCheckOnce rs then False else due0);
          rs1 = (if rs_skipVersionCheckOnce rs then rs\<lparr>rs_skipVersionCheckOnce := False\<rparr> else rs);
          rs2 = (if due1 \<and> \<not> closeDue then rs1\<lparr>rs_pendingVersionCheck := False\<rparr> else rs1)
      in ((due1, needRefresh), rs2))"

definition idleGCPlanLocked :: "roomState \<Rightarrow> time \<Rightarrow> bool \<Rightarrow> bool \<times> roomState" where
  "idleGCPlanLocked rs now live =
     (let idle = (\<not> live \<and> \<not> rs_dirty rs \<and> \<not> rs_closing rs);
          rs1 = (if idle
                 then (if is_zero (rs_idleSince rs) then rs\<lparr>rs_idleSince := now\<rparr> else rs)
                 else rs\<lparr>rs_idleSince := zero_time\<rparr>)
      in (idle \<and> gcIdleTimeout \<le> time_sub now (rs_idleSince rs1), rs1))"

definition stuckConflictPlanLocked :: "roomState \<Rightarrow> time \<Rightarrow> bool \<times> roomState" where
  "stuckConflictPlanLocked rs now =
     (let stuckConflict = (rs_conflict rs \<and> rs_dirty rs \<and> rs_liveUserCount rs = 0);
          logStuck = (stuckConflict \<and> (is_zero (rs_lastStuckLogAt rs)
                       \<or> stuckConflictLogInterval \<le> time_sub now (rs_lastStuckLogAt rs)))
      in (logStuck, if logStuck then rs\<lparr>rs_lastStuckLogAt := now\<rparr> else rs))"

text \<open>The body of \<open>planPass\<close> on the room: the plan and the room it leaves.\<close>

definition planRoom :: "roomState \<Rightarrow> time \<Rightarrow> passPlan \<times> roomState" where
  "planRoom rs0 now =
     (let rs1 = pruneTokensLocked now rs0;
          live = roomLiveLocked rs1 now;
          closeDue = (rs_closing rs1 \<and> \<not> now < rs_closeAt rs1)
      in case versionCheckPlanLocked rs1 now live closeDue of ((versionCheckDue, needRefresh), rs2) \<Rightarrow>
         let lockDue = (\<not> rs_haveLock rs2 \<and> \<not> rs_conflict rs2 \<and> \<not> closeDue
                        \<and> tokenLadder rs2 now \<noteq> [])
         in case idleGCPlanLocked rs2 now live of (gcDue, rs3) \<Rightarrow>
            case stuckConflictPlanLocked rs3 now of (logStuck, rs4) \<Rightarrow>
              (\<lparr>pp_versionCheckDue = versionCheckDue, pp_closeDue = closeDue,
                pp_lockDue = lockDue, pp_gcDue = gcDue, pp_needRefresh = needRefresh,
                pp_logStuck = logStuck, pp_haveLock = rs_haveLock rs4,
                pp_lockValue = rs_lockValue rs4, pp_wopiSrc = rs_wopiSrc rs4,
                pp_fileID = rs_fileID rs4\<rparr>, rs4))"

definition planPass :: "rid \<Rightarrow> time \<Rightarrow> ('h sys, passPlan) state" where
  "planPass r now = do {
     lock_mu;
     plan \<leftarrow> room_get r (\<lambda>rs. fst (planRoom rs now));
     room_upd r (\<lambda>rs. snd (planRoom rs now));
     ret plan }"

section \<open>Recording outcomes\<close>

definition markLocked :: "rid \<Rightarrow> time \<Rightarrow> ('h sys, unit) state" where
  "markLocked r now = do {
     lock_mu;
     room_upd r (\<lambda>rs. rs\<lparr>rs_haveLock := True, rs_lastLockAt := now\<rparr>) }"

definition markTokenFailed :: "rid \<Rightarrow> time \<Rightarrow> string \<Rightarrow> ('h sys, unit) state" where
  "markTokenFailed r now token = do {
     lock_mu;
     room_upd r (\<lambda>rs. rs\<lparr>rs_failedTokens := (rs_failedTokens rs)(token \<mapsto> now)\<rparr>) }"

definition dropWrite :: "string \<Rightarrow> string \<times> tokenInfo \<Rightarrow> string \<times> tokenInfo" where
  "dropWrite token e =
     (if ti_token (snd e) = token then (fst e, (snd e)\<lparr>ti_canWrite := False\<rparr>) else e)"

definition markTokenNoWrite :: "rid \<Rightarrow> time \<Rightarrow> string \<Rightarrow> ('h sys, unit) state" where
  "markTokenNoWrite r now token = do {
     lock_mu;
     room_upd r (\<lambda>rs. rs\<lparr>rs_failedTokens := (rs_failedTokens rs)(token \<mapsto> now),
                          rs_tokens := map (dropWrite token) (rs_tokens rs)\<rparr>) }"

record tokenAttemptResult =
  tar_rejected :: bool
  tar_noWrite :: bool
  tar_conflict :: "string option"

definition classifyTokenAttempt ::
  "rid \<Rightarrow> time \<Rightarrow> string \<Rightarrow> wopi_error \<Rightarrow> ('h sys, tokenAttemptResult) state" where
  "classifyTokenAttempt r now token err =
     (if is_token_rejected err then do {
        markTokenFailed r now token;
        ret \<lparr>tar_rejected = True, tar_noWrite = False, tar_conflict = None\<rparr> }
      else if is_no_write_access err then do {
        markTokenNoWrite r now token;
        ret \<lparr>tar_rejected = False, tar_noWrite = True, tar_conflict = None\<rparr> }
      else ret \<lparr>tar_rejected = False, tar_noWrite = False, tar_conflict = as_lock_conflict err\<rparr>)"

definition saveSuccessRoom :: "time \<Rightarrow> string \<Rightarrow> u64 \<Rightarrow> roomState \<Rightarrow> roomState" where
  "saveSuccessRoom now version seq rs =
     (let rs1 = (if rs_sceneSeq rs = seq then rs\<lparr>rs_dirty := False\<rparr> else rs)
      in rs1\<lparr>rs_lastSaveAttemptAt := now, rs_expectedVersion := version, rs_haveVersion := True,
             rs_backoff := 0, rs_nextRetryAt := zero_time, rs_firstFailedSaveAt := zero_time,
             rs_writeLost := False\<rparr>)"

definition recordSaveSuccess :: "rid \<Rightarrow> time \<Rightarrow> string \<Rightarrow> u64 \<Rightarrow> ('h sys, unit) state" where
  "recordSaveSuccess r now version seq = do {
     lock_mu;
     room_upd r (saveSuccessRoom now version seq) }"

definition nextBackoff :: "duration \<Rightarrow> duration" where
  "nextBackoff b =
     (if b = 0 then initialBackoff
      else if maxBackoff < b * 2 then maxBackoff else b * 2)"

definition saveFailureRoom :: "time \<Rightarrow> bool \<Rightarrow> roomState \<Rightarrow> roomState" where
  "saveFailureRoom now allNoWrite rs =
     (let b = nextBackoff (rs_backoff rs);
          rs1 = rs\<lparr>rs_lastSaveAttemptAt := now, rs_backoff := b, rs_nextRetryAt := now + b\<rparr>;
          rs2 = (if is_zero (rs_firstFailedSaveAt rs1)
                 then rs1\<lparr>rs_firstFailedSaveAt := now\<rparr> else rs1)
      in if allNoWrite then rs2\<lparr>rs_writeLost := True\<rparr> else rs2)"

text \<open>The error argument of the Go function is logged and nothing else.\<close>

definition recordSaveFailure :: "rid \<Rightarrow> time \<Rightarrow> bool \<Rightarrow> ('h sys, unit) state" where
  "recordSaveFailure r now allNoWrite = do {
     lock_mu;
     room_upd r (saveFailureRoom now allNoWrite) }"

section \<open>The lock state machine\<close>

definition resolveForeignLock ::
  "rid \<Rightarrow> string \<Rightarrow> string \<Rightarrow> wopi_error \<Rightarrow> time \<Rightarrow> ('h sys, wopi_error option) state" where
  "resolveForeignLock r lockValue currentLock origErr now =
     (if currentLock = lockValue then do { markLocked r now; ret None }
      else do { enterConflict r currentLock True; ret (Some origErr) })"

text \<open>The plain \<open>LOCK\<close> of \<open>ensureLocked\<close>, with its one retry on an empty 409.\<close>

definition plainLock ::
  "'h client \<Rightarrow> rid \<Rightarrow> string \<Rightarrow> string \<Rightarrow> time \<Rightarrow> ('h sys, wopi_error option) state" where
  "plainLock c r token lockValue now = do {
     err \<leftarrow> callLock c r token lockValue;
     (case err of
        None \<Rightarrow> do { markLocked r now; ret None }
      | Some e \<Rightarrow> (case as_lock_conflict e of
          None \<Rightarrow> ret (Some e)
        | Some cur \<Rightarrow>
            if cur = [] then do {
              err2 \<leftarrow> callLock c r token lockValue;
              (case err2 of
                 None \<Rightarrow> do { markLocked r now; ret None }
               | Some e2 \<Rightarrow> (case as_lock_conflict e2 of
                   None \<Rightarrow> ret (Some e2)
                 | Some cur2 \<Rightarrow>
                     if cur2 \<noteq> [] then resolveForeignLock r lockValue cur2 e2 now
                     else ret (Some e2))) }
            else resolveForeignLock r lockValue cur e now)) }"

definition ensureLocked ::
  "'h client \<Rightarrow> rid \<Rightarrow> string \<Rightarrow> time \<Rightarrow> ('h sys, wopi_error option) state" where
  "ensureLocked c r token now = do {
     lock_mu;
     lockValue \<leftarrow> room_get r rs_lockValue;
     forceUnlock \<leftarrow> room_get r rs_forceUnlockValue;
     room_upd r (\<lambda>rs. rs\<lparr>rs_forceUnlockValue := []\<rparr>);
     if forceUnlock \<noteq> [] then do {
       err \<leftarrow> callUnlockAndRelock c r token lockValue forceUnlock;
       (case err of
          None \<Rightarrow> do { markLocked r now; ret None }
        | Some e \<Rightarrow> (case as_lock_conflict e of
            Some cur \<Rightarrow>
              if cur \<noteq> [] \<and> cur \<noteq> lockValue
              then do { enterConflict r cur True; ret (Some e) }
              else plainLock c r token lockValue now
          | None \<Rightarrow> do {
              lock_mu;
              room_upd r (\<lambda>rs. rs\<lparr>rs_forceUnlockValue := forceUnlock\<rparr>);
              ret (Some e) })) }
     else plainLock c r token lockValue now }"

fun refreshLoop ::
  "'h client \<Rightarrow> rid \<Rightarrow> time \<Rightarrow> string \<Rightarrow> bool \<Rightarrow> tokenCandidate list \<Rightarrow> ('h sys, unit) state" where
  "refreshLoop c r now lockValue allNoWrite [] =
     when_do allNoWrite (do { lock_mu; room_upd r (\<lambda>rs. rs\<lparr>rs_writeLost := True\<rparr>) })"
| "refreshLoop c r now lockValue allNoWrite (cand # rest) = do {
     err \<leftarrow> callRefreshLock c r (tc_token cand) lockValue;
     (case err of
        None \<Rightarrow> markLocked r now
      | Some e \<Rightarrow> do {
          res \<leftarrow> classifyTokenAttempt r now (tc_token cand) e;
          (case tar_conflict res of
             Some cur \<Rightarrow>
               if cur = [] then do {
                 lockErr \<leftarrow> ensureLocked c r (tc_token cand) now;
                 if lockErr = None then ret ()
                 else refreshLoop c r now lockValue False rest }
               else if cur = lockValue then markLocked r now
               else enterConflict r cur True
           | None \<Rightarrow>
               if tar_rejected res then refreshLoop c r now lockValue False rest
               else if tar_noWrite res then refreshLoop c r now lockValue allNoWrite rest
               else refreshLoop c r now lockValue False rest) }) }"

definition refreshLock :: "'h client \<Rightarrow> rid \<Rightarrow> time \<Rightarrow> ('h sys, unit) state" where
  "refreshLock c r now = do {
     lock_mu;
     ladder \<leftarrow> room_get r (\<lambda>rs. tokenLadder rs now);
     lockValue \<leftarrow> room_get r rs_lockValue;
     if ladder = [] then ret ()
     else refreshLoop c r now lockValue True ladder }"

section \<open>The version check\<close>

definition checkVersion :: "'h client \<Rightarrow> rid \<Rightarrow> time \<Rightarrow> ('h sys, unit) state" where
  "checkVersion c r now = do {
     lock_mu;
     token \<leftarrow> room_get r (\<lambda>rs. anyLiveToken rs now);
     expected \<leftarrow> room_get r rs_expectedVersion;
     haveVersion \<leftarrow> room_get r rs_haveVersion;
     if token = [] \<or> \<not> haveVersion then ret ()
     else do {
       res \<leftarrow> callCheckFileInfo c r token;
       (case res of
          Inl err \<Rightarrow> ret ()
        | Inr info \<Rightarrow>
            when_do (fi_Version info \<noteq> expected) (enterConflict r [] False)) } }"

section \<open>Saving\<close>

datatype saveAttempt =
    SaveOutcomeDone
  | SaveOutcomeConflictHandled
  | SaveOutcomeTryNext wopi_error bool

definition attemptSave ::
  "'h client \<Rightarrow> rid \<Rightarrow> tokenCandidate \<Rightarrow> time \<Rightarrow> bytes option \<Rightarrow> u64 \<Rightarrow> string \<Rightarrow> bool
     \<Rightarrow> ('h sys, saveAttempt) state" where
  "attemptSave c r cand now scene seq lockValue firstEverAttempt = do {
     lockErr \<leftarrow> ensureLocked c r (tc_token cand) now;
     (case lockErr of
        Some err \<Rightarrow> do {
          res \<leftarrow> classifyTokenAttempt r now (tc_token cand) err;
          if tar_rejected res then ret (SaveOutcomeTryNext err False)
          else if tar_noWrite res then ret (SaveOutcomeTryNext err True)
          else if tar_conflict res \<noteq> None then ret SaveOutcomeConflictHandled
          else if firstEverAttempt then do {
            put \<leftarrow> callPutFile c r (tc_token cand) [] scene;
            (case put of
               Inr version \<Rightarrow> do {
                 recordSaveSuccess r now version seq;
                 ret SaveOutcomeDone }
             | Inl putErr \<Rightarrow> ret (SaveOutcomeTryNext err False)) }
          else ret (SaveOutcomeTryNext err False) }
      | None \<Rightarrow> do {
          put \<leftarrow> callPutFile c r (tc_token cand) lockValue scene;
          (case put of
             Inr version \<Rightarrow> do {
               recordSaveSuccess r now version seq;
               ret SaveOutcomeDone }
           | Inl err \<Rightarrow> do {
               res \<leftarrow> classifyTokenAttempt r now (tc_token cand) err;
               if tar_rejected res then ret (SaveOutcomeTryNext err False)
               else if tar_noWrite res then ret (SaveOutcomeTryNext err True)
               else (case tar_conflict res of
                 Some cur \<Rightarrow>
                   if cur \<noteq> [] \<and> cur \<noteq> lockValue then do {
                     enterConflict r cur True;
                     ret SaveOutcomeConflictHandled }
                   else do {
                     lock_mu;
                     room_upd r (\<lambda>rs. rs\<lparr>rs_haveLock := False\<rparr>);
                     ret (SaveOutcomeTryNext err False) }
               | None \<Rightarrow> ret (SaveOutcomeTryNext err False)) }) }) }"

fun saveLoop ::
  "'h client \<Rightarrow> rid \<Rightarrow> time \<Rightarrow> bytes option \<Rightarrow> u64 \<Rightarrow> string \<Rightarrow> bool \<Rightarrow> bool
     \<Rightarrow> tokenCandidate list \<Rightarrow> ('h sys, unit) state" where
  "saveLoop c r now scene seq lockValue firstEverAttempt allNoWrite [] =
     recordSaveFailure r now allNoWrite"
| "saveLoop c r now scene seq lockValue firstEverAttempt allNoWrite (cand # rest) = do {
     res \<leftarrow> attemptSave c r cand now scene seq lockValue firstEverAttempt;
     (case res of
        SaveOutcomeDone \<Rightarrow> ret ()
      | SaveOutcomeConflictHandled \<Rightarrow> ret ()
      | SaveOutcomeTryNext err noWrite \<Rightarrow>
          saveLoop c r now scene seq lockValue firstEverAttempt
            (if noWrite then allNoWrite else False) rest) }"

definition performSave :: "'h client \<Rightarrow> rid \<Rightarrow> time \<Rightarrow> ('h sys, unit) state" where
  "performSave c r now = do {
     lock_mu;
     skip \<leftarrow> room_get r (\<lambda>rs. \<not> rs_dirty rs \<or> rs_conflict rs);
     if skip then ret ()
     else do {
       scene \<leftarrow> room_get r rs_scene;
       seq \<leftarrow> room_get r rs_sceneSeq;
       lockValue \<leftarrow> room_get r rs_lockValue;
       ladder \<leftarrow> room_get r (\<lambda>rs. tokenLadder rs now);
       firstEverAttempt \<leftarrow> room_get r (\<lambda>rs. \<not> rs_firstSaveDone rs);
       room_upd r (\<lambda>rs. rs\<lparr>rs_firstSaveDone := True\<rparr>);
       if ladder = [] then recordSaveFailure r now False
       else saveLoop c r now scene seq lockValue firstEverAttempt True ladder } }"

section \<open>Closing and collecting rooms\<close>

definition performClose :: "'h client \<Rightarrow> rid \<Rightarrow> time \<Rightarrow> ('h sys, unit) state" where
  "performClose c r now = do {
     lock_mu;
     notClosing \<leftarrow> room_get r (\<lambda>rs. \<not> rs_closing rs \<or> now < rs_closeAt rs);
     if notClosing then ret ()
     else do {
       dirty \<leftarrow> room_get r rs_dirty;
       conflict \<leftarrow> room_get r rs_conflict;
       due \<leftarrow> room_get r (\<lambda>rs. closeSaveDueLocked rs now);
       if dirty \<and> \<not> conflict \<and> \<not> due then ret ()
       else do {
         when_do (dirty \<and> \<not> conflict) (performSave c r now);
         lock_mu;
         stillClosing \<leftarrow> room_get r (\<lambda>rs. rs_closing rs \<and> \<not> now < rs_closeAt rs);
         stillDirty \<leftarrow> room_get r rs_dirty;
         haveLock \<leftarrow> room_get r rs_haveLock;
         lockValue \<leftarrow> room_get r rs_lockValue;
         if \<not> stillClosing then ret ()
         else if stillDirty then ret ()
         else do {
           when_do haveLock (do {
             lock_mu;
             ladder \<leftarrow> room_get r (\<lambda>rs. tokenLadder rs now);
             (case ladder of
                [] \<Rightarrow> ret ()
              | cand # _ \<Rightarrow> do {
                  err \<leftarrow> callUnlock c r (tc_token cand) lockValue;
                  when_do (err = None) (do {
                    lock_mu;
                    room_upd r (\<lambda>rs. rs\<lparr>rs_haveLock := False\<rparr>) }) }) });
           lock_mu;
           deleteRoomLocked r } } } }"

text \<open>The tail of \<open>gcRoom\<close>: check again, under the mutex, before the room goes.\<close>

definition gcFinish :: "rid \<Rightarrow> ('h sys, unit) state" where
  "gcFinish r = do {
     lock_mu;
     now \<leftarrow> clock_now;
     stillIdle \<leftarrow> room_get r (\<lambda>rs. \<not> roomLiveLocked rs now \<and> \<not> rs_dirty rs \<and> \<not> rs_closing rs);
     if stillIdle then deleteRoomLocked r
     else room_upd r (\<lambda>rs. rs\<lparr>rs_idleSince := zero_time\<rparr>) }"

definition gcRoom :: "'h client \<Rightarrow> rid \<Rightarrow> bool \<Rightarrow> string \<Rightarrow> ('h sys, unit) state" where
  "gcRoom c r haveLock lockValue =
     (if haveLock then do {
        lock_mu;
        now \<leftarrow> clock_now;
        ladder \<leftarrow> room_get r (\<lambda>rs. tokenLadder rs now);
        (case ladder of
           [] \<Rightarrow> gcFinish r
         | cand # _ \<Rightarrow> do {
             err \<leftarrow> callUnlock c r (tc_token cand) lockValue;
             if err \<noteq> None then ret ()
             else do {
               lock_mu;
               room_upd r (\<lambda>rs. rs\<lparr>rs_haveLock := False\<rparr>);
               gcFinish r } }) }
      else gcFinish r)"

section \<open>The token expiry watch\<close>

definition expiryDue :: "time \<Rightarrow> tokenInfo \<Rightarrow> bool" where
  "expiryDue now info \<longleftrightarrow>
     \<not> (ti_warned info \<or> \<not> now < ti_expiresAt info)
     \<and> time_sub (ti_expiresAt info) now \<le> tokenExpiryWarnWindow"

definition markWarned :: "time \<Rightarrow> string \<times> tokenInfo \<Rightarrow> string \<times> tokenInfo" where
  "markWarned now e = (if expiryDue now (snd e) then (fst e, (snd e)\<lparr>ti_warned := True\<rparr>) else e)"

definition checkTokenExpiry :: "rid \<Rightarrow> time \<Rightarrow> ('h sys, unit) state" where
  "checkTokenExpiry r now = do {
     lock_mu;
     toWarn \<leftarrow> room_get r (\<lambda>rs. map fst (filter (\<lambda>e. expiryDue now (snd e)) (rs_tokens rs)));
     room_upd r (\<lambda>rs. rs\<lparr>rs_tokens := map (markWarned now) (rs_tokens rs)\<rparr>);
     fileID \<leftarrow> room_get r rs_fileID;
     hook \<leftarrow> gets m_hookExpiring;
     each (\<lambda>userID. when_do hook (call_hook (OnTokenExpiring r fileID userID))) toWarn }"

section \<open>One pass over a room, and over all rooms\<close>

text \<open>What \<open>evaluateRoom\<close> does with the plan of its pass.\<close>

definition runPlan :: "'h client \<Rightarrow> rid \<Rightarrow> time \<Rightarrow> passPlan \<Rightarrow> ('h sys, unit) state" where
  "runPlan c r now plan = do {
     checkTokenExpiry r now;
     (if pp_gcDue plan then gcRoom c r (pp_haveLock plan) (pp_lockValue plan)
      else do {
        when_do (pp_versionCheckDue plan \<and> \<not> pp_closeDue plan) (checkVersion c r now);
        if pp_closeDue plan then performClose c r now
        else do {
          (if pp_needRefresh plan then do {
             lock_mu;
             stillOK \<leftarrow> room_get r (\<lambda>rs. \<not> rs_conflict rs);
             when_do stillOK (refreshLock c r now) }
           else when_do (pp_lockDue plan) (do {
             lock_mu;
             ladder \<leftarrow> room_get r (\<lambda>rs. tokenLadder rs now);
             (case ladder of
                [] \<Rightarrow> ret ()
              | cand # _ \<Rightarrow> do { ensureLocked c r (tc_token cand) now; ret () }) }));
          lock_mu;
          saveDue \<leftarrow> room_get r (\<lambda>rs. saveDueLocked rs now);
          when_do saveDue (performSave c r now) } });
     notifyState r }"

definition evaluateRoom :: "'h client \<Rightarrow> rid \<Rightarrow> ('h sys, unit) state" where
  "evaluateRoom c r = do {
     now \<leftarrow> clock_now;
     plan \<leftarrow> planPass r now;
     runPlan c r now plan }"

text \<open>
  The code hands each room to one of four workers (\<open>RoomWorkers\<close> has their goroutines);
  rooms do not share state, so the pass takes them here one after the other, in the
  order the map is ranged over.
\<close>

definition evaluateAll :: "'h client \<Rightarrow> ('h sys, unit) state" where
  "evaluateAll c = do {
     lock_mu;
     rooms \<leftarrow> gets (\<lambda>s. map snd (m_rooms s));
     each (\<lambda>r. do {
       entered \<leftarrow> tryEnterInFlight r;
       when_do entered (do { evaluateRoom c r; exitInFlight r }) }) rooms }"

text \<open>
  \<open>flushAll\<close>: the context ends at \<open>deadline\<close>. \<open>firstErr\<close> is threaded through
  the loop.
\<close>

fun flushRooms ::
  "'h client \<Rightarrow> time \<Rightarrow> room_error option \<Rightarrow> rid list \<Rightarrow> ('h sys, room_error option) state" where
  "flushRooms c deadline firstErr [] = ret firstErr"
| "flushRooms c deadline firstErr (r # rest) = do {
     now \<leftarrow> clock_now;
     if deadline \<le> now then ret (Some ErrContextDone)
     else do {
       lock_mu;
       dirty \<leftarrow> room_get r (\<lambda>rs. rs_dirty rs \<and> \<not> rs_conflict rs);
       if \<not> dirty then flushRooms c deadline firstErr rest
       else do {
         entered \<leftarrow> tryEnterInFlight r;
         if \<not> entered then flushRooms c deadline firstErr rest
         else do {
           now2 \<leftarrow> clock_now;
           performSave c r now2;
           lock_mu;
           stillDirty \<leftarrow> room_get r rs_dirty;
           exitInFlight r;
           flushRooms c deadline
             (if stillDirty \<and> firstErr = None then Some ErrShutdownFlushIncomplete else firstErr)
             rest } } } }"

definition flushAll :: "'h client \<Rightarrow> time \<Rightarrow> ('h sys, room_error option) state" where
  "flushAll c deadline = do {
     lock_mu;
     rooms \<leftarrow> gets (\<lambda>s. map snd (m_rooms s));
     flushRooms c deadline None rooms }"

end
