(* ===== verification/RoomInvariants.thy ===== *)
theory RoomInvariants
  imports RoomSave
begin

text \<open>
  Invariants of the manager, proved once for every interleaving. The locale
  \<open>loop_invariant\<close> is the contract between an invariant and the background loop:
  its assumptions are one preservation law per kind of atomic step, its theorems
  say that a pass, a flush and every other operation of several critical sections
  keep the invariant. Each invariant of the model interprets it.
\<close>

section \<open>The room updates of the loop\<close>

inductive loop_update :: "(roomState \<Rightarrow> roomState) \<Rightarrow> bool" where
  upd_plan: "loop_update (\<lambda>rs. snd (planRoom rs now))"
| upd_locked: "loop_update (\<lambda>rs. rs\<lparr>rs_haveLock := True, rs_lastLockAt := now\<rparr>)"
| upd_unlocked: "loop_update (\<lambda>rs. rs\<lparr>rs_haveLock := False\<rparr>)"
| upd_failed: "loop_update (\<lambda>rs. rs\<lparr>rs_failedTokens := (rs_failedTokens rs)(tok \<mapsto> now)\<rparr>)"
| upd_noWrite: "loop_update (\<lambda>rs. rs\<lparr>rs_failedTokens := (rs_failedTokens rs)(tok \<mapsto> now),
                                   rs_tokens := map (dropWrite tok) (rs_tokens rs)\<rparr>)"
| upd_failure: "loop_update (saveFailureRoom now b)"
| upd_force: "loop_update (\<lambda>rs. rs\<lparr>rs_forceUnlockValue := v\<rparr>)"
| upd_writeLost: "loop_update (\<lambda>rs. rs\<lparr>rs_writeLost := True\<rparr>)"
| upd_firstSave: "loop_update (\<lambda>rs. rs\<lparr>rs_firstSaveDone := True\<rparr>)"
| upd_idle: "loop_update (\<lambda>rs. rs\<lparr>rs_idleSince := zero_time\<rparr>)"
| upd_warned: "loop_update (\<lambda>rs. rs\<lparr>rs_tokens := map (markWarned now) (rs_tokens rs)\<rparr>)"
| upd_conflict: "loop_update (enterConflictRoom f d)"
| upd_inFlight: "loop_update (\<lambda>rs. rs\<lparr>rs_inFlight := b\<rparr>)"

section \<open>What other goroutines do, step by step\<close>

text \<open>The updates of one critical section, as functions on the room or the state.\<close>

definition putRoom :: "bytes \<Rightarrow> time \<Rightarrow> string \<Rightarrow> roomState \<Rightarrow> roomState" where
  "putRoom data now userID rs =
     rs\<lparr>rs_scene := clone_bytes data, rs_dirty := True, rs_sceneSeq := rs_sceneSeq rs + 1,
        rs_lastPutSceneAt := now,
        rs_lastWriterUserID := (if userID \<noteq> [] then userID else rs_lastWriterUserID rs)\<rparr>"

definition observeTokens :: "claims \<Rightarrow> time \<Rightarrow> roomState \<Rightarrow> roomState" where
  "observeTokens c now rs =
     pruneTokensLocked now (rs\<lparr>rs_tokens := AList.update (cl_UserID c)
        \<lparr>ti_token = cl_AccessToken c, ti_expiresAt = cl_ExpiresAt c,
         ti_canWrite = cl_CanWrite c, ti_warned = False\<rparr> (rs_tokens rs)\<rparr>)"

inductive env_update :: "(roomState \<Rightarrow> roomState) \<Rightarrow> bool" where
  env_pending: "env_update (\<lambda>rs. rs\<lparr>rs_pendingVersionCheck := True\<rparr>)"
| env_join: "env_update (\<lambda>rs. rs\<lparr>rs_liveUserCount := rs_liveUserCount rs + 1, rs_closing := False\<rparr>)"
| env_leave: "env_update (\<lambda>rs. if 0 < rs_liveUserCount rs
                then rs\<lparr>rs_liveUserCount := rs_liveUserCount rs - 1\<rparr> else rs)"
| env_close: "env_update (\<lambda>rs. rs\<lparr>rs_closing := True, rs_closeAt := at\<rparr>)"

definition new_room :: "string \<Rightarrow> 'h sys \<Rightarrow> 'h sys" where
  "new_room src s =
     s\<lparr>m_heap := (m_heap s)(m_next s := (newRoom src)\<lparr>rs_wopiSrcs := {src}\<rparr>),
       m_next := Suc (m_next s), m_rooms := AList.update src (m_next s) (m_rooms s)\<rparr>"

definition alias_room :: "string \<Rightarrow> rid \<Rightarrow> 'h sys \<Rightarrow> 'h sys" where
  "alias_room src r s =
     (upd_room r (\<lambda>rs. rs\<lparr>rs_wopiSrcs := insert src (rs_wopiSrcs rs)\<rparr>) s)
       \<lparr>m_rooms := AList.update src r (m_rooms s)\<rparr>"

definition index_room :: "string \<Rightarrow> rid \<Rightarrow> 'h sys \<Rightarrow> 'h sys" where
  "index_room f r s =
     (upd_room r (\<lambda>rs. rs\<lparr>rs_fileID := f, rs_lockValue := lockValueFor f\<rparr>) s)
       \<lparr>m_byFileID := (m_byFileID s)(f \<mapsto> r)\<rparr>"

text \<open>
  \<open>ok\<close> says which events may happen: all of them, or for instance those whose
  claims carry a file id the launch derives from the \<open>WOPISrc\<close>.
\<close>

inductive env_atom :: "(event \<Rightarrow> bool) \<Rightarrow> 'h sys \<Rightarrow> 'h sys \<Rightarrow> bool"
  for ok :: "event \<Rightarrow> bool" where
  at_new: "map_of (m_rooms s) src = None \<Longrightarrow> env_atom ok s (new_room src s)"
| at_alias: "map_of (m_rooms s) src = None \<Longrightarrow> m_byFileID s f = Some r \<Longrightarrow>
     ok (EvObserve c) \<Longrightarrow> cl_WOPISrc c = src \<Longrightarrow> cl_FileID c = f \<Longrightarrow> env_atom ok s (alias_room src r s)"
| at_index: "map_of (m_rooms s) src = Some r \<Longrightarrow> f \<noteq> [] \<Longrightarrow>
     ok (EvObserve c) \<Longrightarrow> cl_WOPISrc c = src \<Longrightarrow> cl_FileID c = f \<Longrightarrow> env_atom ok s (index_room f r s)"
| at_tokens: "map_of (m_rooms s) (cl_WOPISrc c) = Some r \<Longrightarrow> ok (EvObserve c) \<Longrightarrow>
     cl_FileID c = [] \<or> rs_fileID (m_heap s r) = cl_FileID c \<Longrightarrow>
     env_atom ok s (upd_room r (observeTokens c now) s)"
| at_put: "map_of (m_rooms s) src = Some r \<Longrightarrow>
     env_atom ok s
       ((upd_room r (putRoom d (m_clock s) u) s)\<lparr>m_puts := Suc (m_puts s), m_woken := True\<rparr>)"
| at_room: "env_update f \<Longrightarrow> env_atom ok s (upd_room r f s)"
| at_resolve: "map_of (m_rooms s) src = Some r \<Longrightarrow> ok (EvResolve src overwrite) \<Longrightarrow>
     env_atom ok s (upd_room r (resolveRoom overwrite) s)"
| at_wake: "env_atom ok s (s\<lparr>m_woken := True\<rparr>)"
| at_reload: "env_atom ok s (s\<lparr>m_hooks := m_hooks s @ [OnReloadRequired f]\<rparr>)"
| at_notify: "r < m_next s \<Longrightarrow> env_atom ok s (exec (notifyLocked r) s)"
| at_tick: "env_atom ok s (s\<lparr>m_clock := m_clock s + int d\<rparr>)"

abbreviation env_atoms :: "(event \<Rightarrow> bool) \<Rightarrow> 'h sys \<Rightarrow> 'h sys \<Rightarrow> bool" where
  "env_atoms ok \<equiv> (env_atom ok)\<^sup>*\<^sup>*"

definition sched_ok :: "(event \<Rightarrow> bool) \<Rightarrow> event list list \<Rightarrow> bool" where
  "sched_ok ok sch \<longleftrightarrow> (\<forall>evs\<in>set sch. \<forall>e\<in>set evs. ok e)"

lemma run_simps [simp]:
  "run_state (room_upd r f) s = ((), upd_room r f s)"
  "run_state (room_get r g) s = (g (m_heap s r), s)"
  "run_state clock_now s = (m_clock s, s)"
  "run_state wake s = ((), s\<lparr>m_woken := True\<rparr>)"
  "run_state (call_hook hk) s = ((), s\<lparr>m_hooks := m_hooks s @ [hk]\<rparr>)"
  by (simp_all add: room_upd_def room_get_def clock_now_def wake_def call_hook_def)

lemma roomLocked_run:
  "run_state (roomLocked src f) s =
     (let t = (case map_of (m_rooms s) src of
                 Some r \<Rightarrow> s
               | None \<Rightarrow> (case (if f \<noteq> [] then m_byFileID s f else None) of
                           Some r \<Rightarrow> alias_room src r s
                         | None \<Rightarrow> new_room src s));
          r = the (map_of (m_rooms t) src)
      in (r, if f \<noteq> [] then index_room f r t else t))"
  by (simp add: roomLocked_def new_room_def alias_room_def index_room_def upd_room_def Let_def
      newRoom_def split: option.split)

lemma roomLocked_atoms:
  assumes "run_state (roomLocked src f) s = (r, t)" and ok: "f = [] \<or> ok (EvObserve c) \<and> cl_WOPISrc c = src \<and> cl_FileID c = f"
  shows "env_atoms ok s t \<and> map_of (m_rooms t) src = Some r
    \<and> (f \<noteq> [] \<longrightarrow> rs_fileID (m_heap t r) = f)"
proof -
  define u where "u = (case map_of (m_rooms s) src of
                 Some r \<Rightarrow> s
               | None \<Rightarrow> (case (if f \<noteq> [] then m_byFileID s f else None) of
                           Some r \<Rightarrow> alias_room src r s
                         | None \<Rightarrow> new_room src s))"
  have u: "env_atoms ok s u"
    using ok by (auto simp: u_def intro: at_new at_alias split: option.split if_splits)
  have "map_of (m_rooms u) src \<noteq> None"
    by (cases "map_of (m_rooms s) src"; cases "if f \<noteq> [] then m_byFileID s f else None")
      (auto simp: u_def new_room_def alias_room_def)
  then obtain r' where r': "map_of (m_rooms u) src = Some r'" by blast
  have rt: "r = r'" "t = (if f \<noteq> [] then index_room f r' u else u)"
    using assms(1) r' by (auto simp: roomLocked_run Let_def simp flip: u_def)
  have "map_of (m_rooms (index_room f r' u)) src = Some r'"
    "rs_fileID (m_heap (index_room f r' u) r') = f"
    using r' by (simp_all add: index_room_def upd_room_def)
  moreover have "env_atoms ok s (index_room f r' u)" if "f \<noteq> []"
    by (rule rtranclp.rtrancl_into_rtrancl [OF u at_index [OF r' that, of ok c]]) (use ok that in auto)
  ultimately show ?thesis
    unfolding rt using u r' by simp
qed

lemma atoms_step: "env_atoms ok s t \<Longrightarrow> env_atom ok t u \<Longrightarrow> env_atoms ok s u"
  by (rule rtranclp.rtrancl_into_rtrancl)

lemma PutScene_atoms: "env_atoms ok s (exec (PutScene src d u) s)"
proof (cases "0 < m_maxSceneBytes s \<and> m_maxSceneBytes s < int (length d)")
  case True
  then show ?thesis by (simp add: PutScene_def exec_def)
next
  case False
  obtain r t where rt: "run_state (roomLocked src []) s = (r, t)" by fastforce
  have "m_clock t = m_clock s"
    using rt by (auto simp: roomLocked_run new_room_def split: option.splits)
  moreover have "upd_room r (\<lambda>rs. rs\<lparr>rs_lastWriterUserID := u\<rparr>)
      (upd_room r (\<lambda>rs. rs\<lparr>rs_scene := clone_bytes d, rs_dirty := True,
          rs_sceneSeq := rs_sceneSeq rs + 1, rs_lastPutSceneAt := m_clock t\<rparr>) t)
      = upd_room r (putRoom d (m_clock t) u) t" if "u \<noteq> []"
    using that by (simp add: upd_room_def putRoom_def)
  moreover have "upd_room r (\<lambda>rs. rs\<lparr>rs_scene := clone_bytes d, rs_dirty := True,
          rs_sceneSeq := rs_sceneSeq rs + 1, rs_lastPutSceneAt := m_clock t\<rparr>) t
      = upd_room r (putRoom d (m_clock t) u) t" if "u = []"
    using that by (simp add: upd_room_def putRoom_def)
  ultimately have "exec (PutScene src d u) s =
      (upd_room r (putRoom d (m_clock t) u) t)\<lparr>m_puts := Suc (m_puts t), m_woken := True\<rparr>"
    using False rt by (auto simp: PutScene_def exec_def Let_def upd_room_def)
  then show ?thesis
    using roomLocked_atoms [OF rt, of ok undefined] by (auto intro: atoms_step at_put)
qed

lemma Observe_atoms:
  assumes ok: "ok (EvObserve c)"
  shows "env_atoms ok s (exec (Observe c) s)"
proof -
  obtain r t where rt: "run_state (roomLocked (cl_WOPISrc c) (cl_FileID c)) s = (r, t)" by fastforce
  let ?t1 = "upd_room r (observeTokens c (m_clock t)) t"
  let ?t2 = "upd_room r (\<lambda>rs. rs\<lparr>rs_pendingVersionCheck := True\<rparr>) ?t1"
  have c: "upd_room r (pruneTokensLocked (m_clock t)) (upd_room r (\<lambda>rs. rs\<lparr>rs_tokens :=
        AList.update (cl_UserID c) \<lparr>ti_token = cl_AccessToken c, ti_expiresAt = cl_ExpiresAt c,
         ti_canWrite = cl_CanWrite c, ti_warned = False\<rparr> (rs_tokens rs)\<rparr>) t) = ?t1"
    by (simp add: upd_room_def observeTokens_def)
  have k: "m_clock (upd_room r f t) = m_clock t" for f by (simp add: upd_room_def)
  have "exec (Observe c) s = ?t1\<lparr>m_woken := True\<rparr> \<or> exec (Observe c) s = ?t2\<lparr>m_woken := True\<rparr>"
    using rt by (auto simp: Observe_def exec_def c k)
  moreover have t1: "env_atoms ok s ?t1"
    using roomLocked_atoms [OF rt, of ok c] ok by (auto intro: atoms_step at_tokens)
  moreover have t2: "env_atoms ok s ?t2"
    by (rule atoms_step [OF t1 at_room [OF env_pending]])
  ultimately show ?thesis
    using atoms_step [OF t1 at_wake] atoms_step [OF t2 at_wake] by (elim disjE) simp_all
qed

lemma OnJoin_atoms: "env_atoms ok s (exec (OnJoin f u b) s)"
proof (cases "m_byFileID s f")
  case None
  then show ?thesis by (simp add: OnJoin_def exec_def)
next
  case (Some r)
  then show ?thesis
    by (auto simp: OnJoin_def exec_def intro!: atoms_step [OF _ at_wake] at_room env_join)
qed

lemma OnLeave_atoms: "env_atoms ok s (exec (OnLeave f u e) s)"
proof (cases "m_byFileID s f")
  case None
  then show ?thesis by (simp add: OnLeave_def exec_def)
next
  case (Some r)
  have "env_atoms ok s (upd_room r (\<lambda>rs. if 0 < rs_liveUserCount rs
                            then rs\<lparr>rs_liveUserCount := rs_liveUserCount rs - 1\<rparr> else rs) s)"
    by (intro r_into_rtranclp at_room env_leave)
  with Some show ?thesis
    by (auto simp: OnLeave_def exec_def intro!: atoms_step [OF _ at_wake]
        intro: atoms_step [OF _ at_room] env_close)
qed

lemma resolveLocked_atoms:
  "ok (EvResolve src b) \<Longrightarrow> env_atoms ok s (exec (resolveLocked src b) s)"
  by (auto simp: resolveLocked_def exec_def intro!: at_resolve split: option.split)

lemma env_step_atoms:
  assumes "ok e"
  shows "env_atoms ok s (env_step e s)"
  using assms
proof (cases e)
  case (EvReload f)
  then show ?thesis by (auto simp: reloadHook_def exec_def intro: at_reload)
qed (auto simp: PutScene_atoms Observe_atoms OnJoin_atoms OnLeave_atoms resolveLocked_atoms
      intro: at_notify at_tick)

lemma upd_room_simps [simp]:
  "m_calls (upd_room r f s) = m_calls s" "m_next (upd_room r f s) = m_next s"
  "m_rooms (upd_room r f s) = m_rooms s" "m_byFileID (upd_room r f s) = m_byFileID s"
  "m_puts (upd_room r f s) = m_puts s" "m_hooks (upd_room r f s) = m_hooks s"
  "m_clock (upd_room r f s) = m_clock s" "m_sched (upd_room r f s) = m_sched s"
  "m_host (upd_room r f s) = m_host s" "m_hookConflict (upd_room r f s) = m_hookConflict s"
  "m_maxSceneBytes (upd_room r f s) = m_maxSceneBytes s"
  "m_heap (upd_room r f s) = (m_heap s)(r := f (m_heap s r))"
  by (simp_all add: upd_room_def)

text \<open>Notifying compares the flags with the last reported ones, in one update.\<close>

definition reportFlags :: "time \<Rightarrow> roomState \<Rightarrow> roomState" where
  "reportFlags now rs = rs\<lparr>rs_lastReportedConflict := rs_conflict rs,
                           rs_lastReportedSaveStalled := saveStalledLocked rs now\<rparr>"

definition flagsChanged :: "time \<Rightarrow> roomState \<Rightarrow> bool" where
  "flagsChanged now rs \<longleftrightarrow> rs_conflict rs \<noteq> rs_lastReportedConflict rs
     \<or> saveStalledLocked rs now \<noteq> rs_lastReportedSaveStalled rs"

lemma notifyLocked_exec:
  "exec (notifyLocked r) s =
     (if flagsChanged (m_clock s) (m_heap s r)
      then (upd_room r (reportFlags (m_clock s)) s)
             \<lparr>m_hooks := m_hooks s @
                (if m_hookConflict s
                 then [OnConflictChange r (rs_fileID (m_heap s r)) (rs_conflict (m_heap s r))
                         (saveStalledLocked (m_heap s r) (m_clock s))]
                 else [])\<rparr>
      else s)"
  by (simp add: notifyLocked_def exec_def flagsChanged_def reportFlags_def upd_room_def)

lemma env_atom_frame:
  "env_atom ok s t \<Longrightarrow> m_calls t = m_calls s"
  "env_atom ok s t \<Longrightarrow> m_sched t = m_sched s"
  "env_atom ok s t \<Longrightarrow> m_next s \<le> m_next t"
  "env_atom ok s t \<Longrightarrow> m_puts s \<le> m_puts t"
  by (induction rule: env_atom.induct)
    (simp_all add: new_room_def alias_room_def index_room_def notifyLocked_exec)

lemma env_atoms_frame:
  "env_atoms ok s t \<Longrightarrow> m_calls t = m_calls s"
  "env_atoms ok s t \<Longrightarrow> m_sched t = m_sched s"
  "env_atoms ok s t \<Longrightarrow> m_next s \<le> m_next t"
  by (induction rule: rtranclp_induct) (auto dest: env_atom_frame)

lemma fold_env_atoms:
  "\<forall>e\<in>set evs. ok e \<Longrightarrow> env_atoms ok s (fold env_step evs s)"
  by (induction evs arbitrary: s) (auto intro: rtranclp_trans env_step_atoms)

text \<open>Before the mutex is ours: a part of the schedule is gone, and its steps have run.\<close>

lemma interfere_atoms:
  assumes "sched_ok ok (m_sched s)"
  shows "\<exists>sch. sched_ok ok sch \<and> env_atoms ok (s\<lparr>m_sched := sch\<rparr>) (interfere s)"
proof (cases "m_sched s")
  case Nil
  then show ?thesis using assms by (intro exI [of _ "[]"]) (cases s, simp add: interfere_def)
next
  case (Cons evs rest)
  then show ?thesis
    using assms by (intro exI [of _ rest]) (auto simp: interfere_def sched_ok_def intro: fold_env_atoms)
qed

lemma sched_ok_simps [simp]: "sched_ok ok []" "sched_ok (\<lambda>_. True) sch"
  by (simp_all add: sched_ok_def)

lemma interfere_calls [simp]: "m_calls (interfere s) = m_calls s"
  using interfere_atoms [of "\<lambda>_. True" s] by (auto dest: env_atoms_frame)

section \<open>The contract of one atomic step\<close>

text \<open>
  \<open>P\<close> is kept by each kind of atomic step on room \<open>r\<close>: whatever other
  goroutines do, a read of the schedule, an update of the loop, a WOPI call, a
  report of the flags.
\<close>

locale loop_steps =
  fixes ok :: "event \<Rightarrow> bool" and P :: "'h sys \<Rightarrow> bool" and r :: rid
  assumes P_alloc: "P s \<Longrightarrow> r < m_next s"
    and P_ok: "P s \<Longrightarrow> sched_ok ok (m_sched s)"
    and P_env: "env_atom ok s t \<Longrightarrow> P s \<Longrightarrow> P t"
    and P_sched: "sched_ok ok sch \<Longrightarrow> P s \<Longrightarrow> P (s\<lparr>m_sched := sch\<rparr>)"
    and P_update: "loop_update f \<Longrightarrow> P s \<Longrightarrow> P (upd_room r f s)"
    and P_call: "P s \<Longrightarrow> P (s\<lparr>m_host := h, m_calls := m_calls s @ [en]\<rparr>)"
begin

lemma P_atoms: "env_atoms ok s t \<Longrightarrow> P s \<Longrightarrow> P t"
  by (induction rule: rtranclp_induct) (auto intro: P_env)

lemma keeps_lock_mu: "keeps P lock_mu"
proof (rule keepsI)
  fix s assume s: "P s"
  obtain sch where "sched_ok ok sch" "env_atoms ok (s\<lparr>m_sched := sch\<rparr>) (interfere s)"
    using interfere_atoms [OF P_ok [OF s]] by blast
  then show "wp lock_mu (\<lambda>_. P) s"
    using s by (auto simp: lock_mu_def intro: P_atoms P_sched)
qed

lemma keeps_update: "loop_update f \<Longrightarrow> keeps P (room_upd r f)"
  by (auto simp: room_upd_def keeps_def intro: P_update)

lemma keeps_read: "keeps P (room_get r g)" "keeps P clock_now"
  by (simp_all add: room_get_def clock_now_def keeps_def)

lemma keeps_host_call: "keeps P (host_call f x)"
  by (auto simp: host_call_def clock_now_def keeps_def intro: P_call)

lemma keeps_notifyLocked: "keeps P (notifyLocked r)"
  by (auto simp: keeps_def wp_exec intro: P_env [OF at_notify] P_alloc)

lemmas basic_keeps = keeps_intros keeps_lock_mu keeps_update keeps_read keeps_host_call
  keeps_notifyLocked loop_update.intros

lemmas call_defs = callCheckFileInfo_def callPutFile_def callLock_def callRefreshLock_def
  callUnlock_def callUnlockAndRelock_def

lemma keeps_calls:
  "keeps P (callCheckFileInfo c r t)" "keeps P (callPutFile c r t l b)" "keeps P (callLock c r t l)"
  "keeps P (callRefreshLock c r t l)" "keeps P (callUnlock c r t l)"
  "keeps P (callUnlockAndRelock c r t l l2)"
  unfolding call_defs by (intro basic_keeps)+

lemma keeps_marks:
  "keeps P (markLocked r now)" "keeps P (markTokenFailed r now t)"
  "keeps P (markTokenNoWrite r now t)" "keeps P (recordSaveFailure r now b)"
  "keeps P (planPass r now)" "keeps P (exitInFlight r)" "keeps P (tryEnterInFlight r)"
  "keeps P (notifyState r)" "keeps P (enterConflict r l d)"
  unfolding markLocked_def markTokenFailed_def markTokenNoWrite_def recordSaveFailure_def
    planPass_def exitInFlight_def tryEnterInFlight_def notifyState_def enterConflict_def
  by (intro basic_keeps)+

lemma keeps_classify: "keeps P (classifyTokenAttempt r now t e)"
  unfolding classifyTokenAttempt_def by (intro basic_keeps keeps_marks)

lemma keeps_plainLock: "keeps P (plainLock c r t l now)"
  unfolding plainLock_def resolveForeignLock_def by (intro basic_keeps keeps_marks keeps_calls)

lemma keeps_ensureLocked: "keeps P (ensureLocked c r t now)"
  unfolding ensureLocked_def by (intro basic_keeps keeps_marks keeps_calls keeps_plainLock)

lemmas step_keeps = basic_keeps keeps_calls keeps_marks keeps_classify keeps_ensureLocked

lemma keeps_refreshLoop: "keeps P (refreshLoop c r now l b ladder)"
  by (induction ladder arbitrary: b) (auto intro!: step_keeps)

lemma keeps_refreshLock: "keeps P (refreshLock c r now)"
  unfolding refreshLock_def by (intro step_keeps keeps_refreshLoop)

lemma keeps_checkVersion: "keeps P (checkVersion c r now)"
  unfolding checkVersion_def by (intro step_keeps)

end

section \<open>The runs of the manager\<close>

text \<open>
  What may happen to a manager between its creation and now: an API call or a
  tick of the clock (\<open>env_step\<close>), a user's decision on a conflict, a pass of the
  background loop, the shutdown flush. The last three come with the interference
  \<open>sched\<close> that runs at their critical sections; the client \<open>c\<close>, and so what the
  host answers, is arbitrary. \<open>ok\<close> limits the events, as above.
\<close>

inductive mgr_reachable :: "(event \<Rightarrow> bool) \<Rightarrow> 'h client \<Rightarrow> 'h sys \<Rightarrow> bool"
  for ok :: "event \<Rightarrow> bool" and c :: "'h client" where
  mgr_init: "mgr_reachable ok c (newManager maxBytes hexp hconf hrel now host)"
| mgr_event: "mgr_reachable ok c s \<Longrightarrow> ok e \<Longrightarrow> mgr_reachable ok c (env_step e s)"
| mgr_resolve: "mgr_reachable ok c s \<Longrightarrow> sched_ok ok sched \<Longrightarrow> ok (EvResolve src overwrite) \<Longrightarrow>
     mgr_reachable ok c (exec (ResolveConflict src overwrite) (s\<lparr>m_sched := sched\<rparr>))"
| mgr_pass: "mgr_reachable ok c s \<Longrightarrow> sched_ok ok sched \<Longrightarrow>
     mgr_reachable ok c (exec (evaluateAll c) (s\<lparr>m_sched := sched\<rparr>))"
| mgr_flush: "mgr_reachable ok c s \<Longrightarrow> sched_ok ok sched \<Longrightarrow>
     mgr_reachable ok c (exec (flushAll c deadline) (s\<lparr>m_sched := sched\<rparr>))"

section \<open>The contract of an invariant of the manager\<close>

text \<open>
  \<open>I\<close> is the invariant between saves. \<open>J r scene seq\<close> is what holds while a
  save of room \<open>r\<close> is under way with the scene and the sequence number it took.
\<close>

locale loop_invariant =
  fixes ok :: "event \<Rightarrow> bool"
    and I :: "'h sys \<Rightarrow> bool"
    and J :: "rid \<Rightarrow> bytes option \<Rightarrow> u64 \<Rightarrow> 'h sys \<Rightarrow> bool"
  assumes I_init: "I (newManager mb hexp hconf hrel now host)"
    and I_rooms: "I s \<Longrightarrow> (src, r) \<in> set (m_rooms s) \<Longrightarrow> r < m_next s"
    and I_env: "env_atom ok s t \<Longrightarrow> I s \<Longrightarrow> I t"
    and I_sched: "I s \<Longrightarrow> I (s\<lparr>m_sched := sch\<rparr>)"
    and I_update: "loop_update f \<Longrightarrow> r < m_next s \<Longrightarrow> I s \<Longrightarrow> I (upd_room r f s)"
    and I_call: "I s \<Longrightarrow> I (s\<lparr>m_host := h, m_calls := m_calls s @ [en]\<rparr>)"
    and I_expiring: "I s \<Longrightarrow> I (s\<lparr>m_hooks := m_hooks s @ [OnTokenExpiring r fid usr]\<rparr>)"
    and I_delete: "r < m_next s \<Longrightarrow> I s \<Longrightarrow> I (exec (deleteRoomLocked r) s)"
    and J_start: "r < m_next s \<Longrightarrow> I s \<Longrightarrow>
           J r (rs_scene (m_heap s r)) (rs_sceneSeq (m_heap s r)) s"
    and J_end: "J r sc q s \<Longrightarrow> I s"
    and J_env: "env_atom ok s t \<Longrightarrow> r < m_next s \<Longrightarrow> J r sc q s \<Longrightarrow> J r sc q t"
    and J_sched: "J r sc q s \<Longrightarrow> J r sc q (s\<lparr>m_sched := sch\<rparr>)"
    and J_update: "loop_update f \<Longrightarrow> r < m_next s \<Longrightarrow> J r sc q s \<Longrightarrow> J r sc q (upd_room r f s)"
    and J_call: "J r sc q s \<Longrightarrow> J r sc q (s\<lparr>m_host := h, m_calls := m_calls s @ [en]\<rparr>)"
    and J_saved: "r < m_next s \<Longrightarrow> J r sc q s \<Longrightarrow>
           CallPutFile r src tok lock (slice_bytes sc) (Inr v) \<in> set (m_calls s) \<Longrightarrow>
           J r sc q (upd_room r (saveSuccessRoom now v q) s)"
begin

definition IN :: "nat \<Rightarrow> 'h sys \<Rightarrow> bool" where 
  "IN n s \<longleftrightarrow> I s \<and> n \<le> m_next s \<and> sched_ok ok (m_sched s)"

definition JN :: "nat \<Rightarrow> rid \<Rightarrow> bytes option \<Rightarrow> u64 \<Rightarrow> 'h sys \<Rightarrow> bool" where
  "JN n r sc q s \<longleftrightarrow> J r sc q s \<and> n \<le> m_next s \<and> sched_ok ok (m_sched s)"

lemma steps_I: "r < n \<Longrightarrow> loop_steps ok (IN n) r"
  by unfold_locales
    (auto simp: IN_def intro: I_env I_sched I_update I_call dest: env_atom_frame)

lemma steps_J: "r < n \<Longrightarrow> loop_steps ok (JN n r sc q) r"
  by unfold_locales
    (auto simp: JN_def intro: J_env J_sched J_update J_call dest: env_atom_frame)

lemma keeps_put:
  assumes r: "r < n" and k: "\<And>e. keeps (JN n r sc q) (f e)"
  shows "keeps (JN n r sc q)
    (do { put \<leftarrow> callPutFile c r tok lock sc;
          (case put of
             Inr v \<Rightarrow> do { recordSaveSuccess r now v q; ret SaveOutcomeDone }
           | Inl e \<Rightarrow> f e) })"
proof (rule keepsI)
  fix s assume s: "JN n r sc q s"
  let ?P = "\<lambda>v t. JN n r sc q t
      \<and> (\<exists>src. CallPutFile r src tok lock (slice_bytes sc) (Inr v) \<in> set (m_calls t))"
  have lk: "?P v (interfere t)" if "?P v t" for v t
    using keepsD [OF loop_steps.keeps_lock_mu [OF steps_J [OF r]], of sc q t] that
    by (simp add: lock_mu_def)
  have up: "JN n r sc q (upd_room r (saveSuccessRoom now v q) t)" if "?P v t" for v t
    using that r by (auto simp: JN_def intro: J_saved)
  have "JN n r sc q (s\<lparr>m_host := h, m_calls := m_calls s @ [en]\<rparr>)" for h en
    using s by (auto simp: JN_def intro: J_call)
  then show "wp (do { put \<leftarrow> callPutFile c r tok lock sc;
          (case put of
             Inr v \<Rightarrow> do { recordSaveSuccess r now v q; ret SaveOutcomeDone }
           | Inl e \<Rightarrow> f e) }) (\<lambda>_. JN n r sc q) s"
    using keepsD [OF k]
    by (auto simp: callPutFile_def host_call_def recordSaveSuccess_def lock_mu_def room_upd_def
        room_get_def clock_now_def split: sum.split intro!: up lk)
qed

lemma keeps_attemptSave:
  assumes "r < n"
  shows "keeps (JN n r sc q) (attemptSave c r cand now sc q l b)"
  unfolding attemptSave_def
  by (intro loop_steps.step_keeps [OF steps_J [OF assms]] keeps_put [OF assms])

lemma keeps_saveLoop:
  assumes "r < n"
  shows "keeps (JN n r sc q) (saveLoop c r now sc q l b a ladder)"
proof (induction ladder arbitrary: a)
  case Nil
  then show ?case by (simp add: loop_steps.step_keeps [OF steps_J [OF assms]])
next
  case (Cons cand ladder)
  have "keeps (JN n r sc q) (case x of SaveOutcomeDone \<Rightarrow> ret () | SaveOutcomeConflictHandled \<Rightarrow> ret ()
      | SaveOutcomeTryNext e w \<Rightarrow> saveLoop c r now sc q l b (if w then a else False) ladder)" for x a
    by (cases x) (simp_all only: saveAttempt.case keeps_ret Cons.IH)
  then show ?case
    unfolding saveLoop.simps by (intro keeps_bind keeps_attemptSave [OF assms])
qed

lemma keeps_performSave:
  assumes "r < n"
  shows "keeps (IN n) (performSave c r now)"
proof (rule keepsI)
  fix s assume s: "IN n s"
  let ?J = "\<lambda>s. JN n r (rs_scene (m_heap s r)) (rs_sceneSeq (m_heap s r))"
  let ?u = "upd_room r (\<lambda>rs. rs\<lparr>rs_firstSaveDone := True\<rparr>)"
  have lk: "IN n (interfere s)"
    using keepsD [OF loop_steps.keeps_lock_mu [OF steps_I [OF assms]] s] by (simp add: lock_mu_def)
  have st: "?J t (?u t)" if "IN n t" for t
    using that assms by (auto simp: JN_def IN_def intro!: J_update upd_firstSave J_start)
  have ji: "JN n r sc q t \<Longrightarrow> IN n t" for sc q t by (auto simp: JN_def IN_def intro: J_end)
  have "wp (recordSaveFailure r now b) (\<lambda>_. IN n) (?u t)" if "IN n t" for b t
    by (rule wp_mono [OF keepsD [OF loop_steps.keeps_marks(4) [OF steps_J [OF assms]] st [OF that]]])
      (rule ji)
  moreover have "wp (saveLoop c r now (rs_scene (m_heap t r)) (rs_sceneSeq (m_heap t r)) l b a ladder)
      (\<lambda>_. IN n) (?u t)" if "IN n t" for l b a ladder t
    by (rule wp_mono [OF keepsD [OF keeps_saveLoop [OF assms] st [OF that]]]) (rule ji)
  ultimately show "wp (performSave c r now) (\<lambda>_. IN n) s"
    using lk by (simp add: performSave_def lock_mu_def room_get_def room_upd_def)
qed

lemma keeps_deleteRoom: "r < n \<Longrightarrow> keeps (IN n) (deleteRoomLocked r)"
proof (rule keepsI)
  fix s assume r: "r < n" "IN n s"
  have "m_next (exec (deleteRoomLocked r) s) = m_next s"
    "m_sched (exec (deleteRoomLocked r) s) = m_sched s"
    by (simp_all add: deleteRoomLocked_def exec_def)
  then show "wp (deleteRoomLocked r) (\<lambda>_. IN n) s"
    using r by (auto simp: wp_exec IN_def intro: I_delete)
qed

lemma keeps_expiring: "keeps (IN n) (call_hook (OnTokenExpiring r f u))"
  by (auto simp: call_hook_def keeps_def IN_def intro: I_expiring)

lemma keeps_performClose:
  assumes "r < n"
  shows "keeps (IN n) (performClose c r now)"
  unfolding performClose_def
  by (intro loop_steps.step_keeps [OF steps_I [OF assms]] keeps_performSave keeps_deleteRoom assms)

lemma keeps_gcRoom:
  assumes "r < n"
  shows "keeps (IN n) (gcRoom c r h l)"
  unfolding gcRoom_def gcFinish_def
  by (intro loop_steps.step_keeps [OF steps_I [OF assms]] keeps_deleteRoom assms)

lemma keeps_checkTokenExpiry:
  assumes "r < n"
  shows "keeps (IN n) (checkTokenExpiry r now)"
  unfolding checkTokenExpiry_def
  by (intro loop_steps.step_keeps [OF steps_I [OF assms]] keeps_expiring)

lemma keeps_evaluateRoom:
  assumes "r < n"
  shows "keeps (IN n) (evaluateRoom c r)"
  unfolding evaluateRoom_def runPlan_def
  by (intro loop_steps.step_keeps [OF steps_I [OF assms]] keeps_performSave keeps_performClose
      keeps_gcRoom keeps_checkTokenExpiry loop_steps.keeps_checkVersion [OF steps_I [OF assms]]
      loop_steps.keeps_refreshLock [OF steps_I [OF assms]] assms)

lemma keeps_lock_any: "keeps (IN 0) lock_mu"
proof (rule keepsI)
  fix s assume s: "IN 0 s"
  have "env_atoms ok t u \<Longrightarrow> IN 0 t \<Longrightarrow> IN 0 u" for t u
    by (induction rule: rtranclp_induct) (auto simp: IN_def intro: I_env dest: env_atom_frame)
  moreover obtain sch where "sched_ok ok sch" "env_atoms ok (s\<lparr>m_sched := sch\<rparr>) (interfere s)"
    using interfere_atoms [of ok s] s by (auto simp: IN_def)
  moreover have "IN 0 (s\<lparr>m_sched := sch\<rparr>)" if "sched_ok ok sch" for sch
    using s that by (simp add: IN_def I_sched)
  ultimately show "wp lock_mu (\<lambda>_. IN 0) s" by (simp add: lock_mu_def)
qed

text \<open>A loop over the rooms read from the map, with the invariant of each of its steps.\<close>

lemma over_rooms:
  assumes "IN 0 s" and "\<And>n. (\<And>r. r \<in> set (map snd (m_rooms s)) \<Longrightarrow> r < n) \<Longrightarrow> keeps (IN n) m"
  shows "wp m (\<lambda>_. IN 0) s"
proof -
  have "keeps (IN (m_next s)) m"
    by (rule assms(2)) (use assms(1) I_rooms in \<open>auto simp: IN_def\<close>)
  moreover have "IN (m_next s) s" using assms(1) by (simp add: IN_def)
  ultimately show ?thesis by (rule wp_from_keeps) (simp add: IN_def)
qed

lemma evaluateAll_keeps: "keeps (IN 0) (evaluateAll c)"
proof (rule keepsI)
  fix s assume s: "IN 0 s"
  have "keeps (IN n) (each (\<lambda>r. do { entered \<leftarrow> tryEnterInFlight r;
      when_do entered (do { evaluateRoom c r; exitInFlight r }) }) rooms)"
    if "\<And>r. r \<in> set rooms \<Longrightarrow> r < n" for n rooms
  proof (rule keeps_each)
    fix r assume "r \<in> set rooms"
    then have r: "r < n" by (rule that)
    show "keeps (IN n) (do { entered \<leftarrow> tryEnterInFlight r;
      when_do entered (do { evaluateRoom c r; exitInFlight r }) })"
      by (intro loop_steps.step_keeps [OF steps_I [OF r]] keeps_evaluateRoom r)
  qed
  then show "wp (evaluateAll c) (\<lambda>_. IN 0) s"
    using keepsD [OF keeps_lock_any s]
    by (auto simp: evaluateAll_def lock_mu_def intro!: over_rooms)
qed

lemma keeps_flushRooms:
  "(\<And>r. r \<in> set rooms \<Longrightarrow> r < n) \<Longrightarrow> keeps (IN n) (flushRooms c d e rooms)"
proof (induction rooms arbitrary: e)
  case Nil
  then show ?case by (simp add: keeps_ret)
next
  case (Cons r rooms)
  then have r: "r < n" by simp
  show ?case
    using Cons
    by (auto intro!: loop_steps.step_keeps [OF steps_I [OF r]] keeps_performSave simp: clock_now_def)
qed

lemma flushAll_keeps: "keeps (IN 0) (flushAll c d)"
proof (rule keepsI)
  fix s assume s: "IN 0 s"
  then show "wp (flushAll c d) (\<lambda>_. IN 0) s"
    using keepsD [OF keeps_lock_any s]
    by (auto simp: flushAll_def lock_mu_def intro!: over_rooms keeps_flushRooms)
qed

lemma ResolveConflict_keeps:
  assumes "ok (EvResolve src b)"
  shows "keeps (IN 0) (ResolveConflict src b)"
proof (rule keepsI)
  fix s assume s: "IN 0 s"
  have f: "wp (do { notifyState r; when_do (\<not> b) (reloadHook f); wake; ret None }) (\<lambda>_. IN 0) t"
    if "IN 0 t" "r < m_next t" for r f t
  proof -
    have "keeps (IN (m_next t)) (call_hook (OnReloadRequired f))" "keeps (IN (m_next t)) wake"
      by (auto simp: keeps_def call_hook_def wake_def IN_def intro: I_env [OF at_reload] I_env [OF at_wake])
    then have "keeps (IN (m_next t)) (do { notifyState r; when_do (\<not> b) (reloadHook f); wake; ret None })"
      unfolding reloadHook_def by (intro loop_steps.step_keeps [OF steps_I [OF that(2)]])
    moreover have "IN (m_next t) t" using that by (simp add: IN_def)
    ultimately show ?thesis by (rule wp_from_keeps) (simp add: IN_def)
  qed
  have "wp (resolveLocked src b) (\<lambda>found t. IN 0 t \<and> (\<forall>r f. found = Some (r, f) \<longrightarrow> r < m_next t)) t"
    if "IN 0 t" for t
    using that I_rooms [OF _ map_of_SomeD, of t src] assms
    by (auto simp: resolveLocked_def room_upd_def room_get_def IN_def split: option.split
        intro: I_env [OF at_resolve])
  then have "wp (resolveLocked src b) (\<lambda>found. wp (case found of None \<Rightarrow> ret None
      | Some (r, fileID) \<Rightarrow> do { notifyState r; when_do (\<not> b) (reloadHook fileID); wake; ret None })
      (\<lambda>_. IN 0)) t" if "IN 0 t" for t
    by (rule wp_mono [OF _ ]) (use that f in \<open>auto split: option.split\<close>)
  then show "wp (ResolveConflict src b) (\<lambda>_. IN 0) s"
    using keepsD [OF keeps_lock_any s] by (simp add: ResolveConflict_def lock_mu_def)
qed

theorem reachable_I: "mgr_reachable ok c s \<Longrightarrow> I s"
proof (induction rule: mgr_reachable.induct)
  case (mgr_event s e)
  have "env_atoms ok s t \<Longrightarrow> I s \<Longrightarrow> I t" for t
    by (induction rule: rtranclp_induct) (auto intro: I_env)
  with mgr_event show ?case by (auto intro: env_step_atoms)
next
  case (mgr_resolve s sched src ow)
  then have "IN 0 (s\<lparr>m_sched := sched\<rparr>)" by (simp add: IN_def I_sched)
  then show ?case using keeps_exec [OF ResolveConflict_keeps [OF mgr_resolve(3)]] by (auto simp: IN_def)
next
  case (mgr_pass s sched)
  then have "IN 0 (s\<lparr>m_sched := sched\<rparr>)" by (simp add: IN_def I_sched)
  then show ?case using keeps_exec [OF evaluateAll_keeps] by (auto simp: IN_def)
next
  case (mgr_flush s sched d)
  then have "IN 0 (s\<lparr>m_sched := sched\<rparr>)" by (simp add: IN_def I_sched)
  then show ?case using keeps_exec [OF flushAll_keeps] by (auto simp: IN_def)
qed (auto intro: I_init)

end

section \<open>Well-formed maps\<close>

text \<open>
  The room map has one entry per key and names allocated rooms only, each of
  which knows the key it is stored under, and the file id index names allocated
  rooms. (That every \<open>WOPISrc\<close> a room knows still leads to it is not an invariant:
  a dropped room keeps its set.)
\<close>

definition mgr_wf :: "'h sys \<Rightarrow> bool" where
  "mgr_wf s \<longleftrightarrow>
     distinct (map fst (m_rooms s))
     \<and> (\<forall>src r. map_of (m_rooms s) src = Some r \<longrightarrow> r < m_next s \<and> src \<in> rs_wopiSrcs (m_heap s r))
     \<and> (\<forall>f r. m_byFileID s f = Some r \<longrightarrow> r < m_next s)"

lemma mgr_wf_rooms: "mgr_wf s \<Longrightarrow> (src, r) \<in> set (m_rooms s) \<Longrightarrow> r < m_next s"
  by (auto simp: mgr_wf_def map_of_eq_Some_iff)

inductive room_step :: "(roomState \<Rightarrow> roomState) \<Rightarrow> bool" where
  step_env: "env_update f \<Longrightarrow> room_step f"
| step_tokens: "room_step (observeTokens c now)"
| step_resolve: "room_step (resolveRoom overwrite)"
| step_loop: "loop_update f \<Longrightarrow> room_step f"
| step_put: "room_step (putRoom d now u)"
| step_index: "f \<noteq> [] \<Longrightarrow> room_step (\<lambda>rs. rs\<lparr>rs_fileID := f, rs_lockValue := lockValueFor f\<rparr>)"
| step_report: "room_step (reportFlags now)"
| step_saved: "room_step (saveSuccessRoom now v q)"

section \<open>What a plan leaves alone\<close>

lemma prune_fields [simp]:
  "rs_wopiSrc (pruneTokensLocked now rs) = rs_wopiSrc rs"
  "rs_wopiSrcs (pruneTokensLocked now rs) = rs_wopiSrcs rs"
  "rs_fileID (pruneTokensLocked now rs) = rs_fileID rs"
  "rs_scene (pruneTokensLocked now rs) = rs_scene rs"
  "rs_dirty (pruneTokensLocked now rs) = rs_dirty rs"
  "rs_lastPutSceneAt (pruneTokensLocked now rs) = rs_lastPutSceneAt rs"
  "rs_lastWriterUserID (pruneTokensLocked now rs) = rs_lastWriterUserID rs"
  "rs_sceneSeq (pruneTokensLocked now rs) = rs_sceneSeq rs"
  "rs_liveUserCount (pruneTokensLocked now rs) = rs_liveUserCount rs"
  "rs_lockValue (pruneTokensLocked now rs) = rs_lockValue rs"
  "rs_haveLock (pruneTokensLocked now rs) = rs_haveLock rs"
  "rs_lastLockAt (pruneTokensLocked now rs) = rs_lastLockAt rs"
  "rs_forceUnlockValue (pruneTokensLocked now rs) = rs_forceUnlockValue rs"
  "rs_skipVersionCheckOnce (pruneTokensLocked now rs) = rs_skipVersionCheckOnce rs"
  "rs_expectedVersion (pruneTokensLocked now rs) = rs_expectedVersion rs"
  "rs_haveVersion (pruneTokensLocked now rs) = rs_haveVersion rs"
  "rs_pendingVersionCheck (pruneTokensLocked now rs) = rs_pendingVersionCheck rs"
  "rs_conflict (pruneTokensLocked now rs) = rs_conflict rs"
  "rs_conflictForeignLock (pruneTokensLocked now rs) = rs_conflictForeignLock rs"
  "rs_lastReportedConflict (pruneTokensLocked now rs) = rs_lastReportedConflict rs"
  "rs_lastReportedSaveStalled (pruneTokensLocked now rs) = rs_lastReportedSaveStalled rs"
  "rs_lastSaveAttemptAt (pruneTokensLocked now rs) = rs_lastSaveAttemptAt rs"
  "rs_backoff (pruneTokensLocked now rs) = rs_backoff rs"
  "rs_nextRetryAt (pruneTokensLocked now rs) = rs_nextRetryAt rs"
  "rs_firstSaveDone (pruneTokensLocked now rs) = rs_firstSaveDone rs"
  "rs_firstFailedSaveAt (pruneTokensLocked now rs) = rs_firstFailedSaveAt rs"
  "rs_writeLost (pruneTokensLocked now rs) = rs_writeLost rs"
  "rs_closing (pruneTokensLocked now rs) = rs_closing rs"
  "rs_closeAt (pruneTokensLocked now rs) = rs_closeAt rs"
  "rs_idleSince (pruneTokensLocked now rs) = rs_idleSince rs"
  "rs_lastStuckLogAt (pruneTokensLocked now rs) = rs_lastStuckLogAt rs"
  "rs_inFlight (pruneTokensLocked now rs) = rs_inFlight rs"
  by (simp_all add: pruneTokensLocked_def Let_def)

lemma versionPlan_fields [simp]:
  "rs_wopiSrc (snd (versionCheckPlanLocked rs now live c)) = rs_wopiSrc rs"
  "rs_wopiSrcs (snd (versionCheckPlanLocked rs now live c)) = rs_wopiSrcs rs"
  "rs_fileID (snd (versionCheckPlanLocked rs now live c)) = rs_fileID rs"
  "rs_scene (snd (versionCheckPlanLocked rs now live c)) = rs_scene rs"
  "rs_dirty (snd (versionCheckPlanLocked rs now live c)) = rs_dirty rs"
  "rs_lastPutSceneAt (snd (versionCheckPlanLocked rs now live c)) = rs_lastPutSceneAt rs"
  "rs_lastWriterUserID (snd (versionCheckPlanLocked rs now live c)) = rs_lastWriterUserID rs"
  "rs_sceneSeq (snd (versionCheckPlanLocked rs now live c)) = rs_sceneSeq rs"
  "rs_tokens (snd (versionCheckPlanLocked rs now live c)) = rs_tokens rs"
  "rs_failedTokens (snd (versionCheckPlanLocked rs now live c)) = rs_failedTokens rs"
  "rs_liveUserCount (snd (versionCheckPlanLocked rs now live c)) = rs_liveUserCount rs"
  "rs_lockValue (snd (versionCheckPlanLocked rs now live c)) = rs_lockValue rs"
  "rs_haveLock (snd (versionCheckPlanLocked rs now live c)) = rs_haveLock rs"
  "rs_lastLockAt (snd (versionCheckPlanLocked rs now live c)) = rs_lastLockAt rs"
  "rs_forceUnlockValue (snd (versionCheckPlanLocked rs now live c)) = rs_forceUnlockValue rs"
  "rs_expectedVersion (snd (versionCheckPlanLocked rs now live c)) = rs_expectedVersion rs"
  "rs_haveVersion (snd (versionCheckPlanLocked rs now live c)) = rs_haveVersion rs"
  "rs_conflict (snd (versionCheckPlanLocked rs now live c)) = rs_conflict rs"
  "rs_conflictForeignLock (snd (versionCheckPlanLocked rs now live c)) = rs_conflictForeignLock rs"
  "rs_lastReportedConflict (snd (versionCheckPlanLocked rs now live c)) = rs_lastReportedConflict rs"
  "rs_lastReportedSaveStalled (snd (versionCheckPlanLocked rs now live c)) = rs_lastReportedSaveStalled rs"
  "rs_lastSaveAttemptAt (snd (versionCheckPlanLocked rs now live c)) = rs_lastSaveAttemptAt rs"
  "rs_backoff (snd (versionCheckPlanLocked rs now live c)) = rs_backoff rs"
  "rs_nextRetryAt (snd (versionCheckPlanLocked rs now live c)) = rs_nextRetryAt rs"
  "rs_firstSaveDone (snd (versionCheckPlanLocked rs now live c)) = rs_firstSaveDone rs"
  "rs_firstFailedSaveAt (snd (versionCheckPlanLocked rs now live c)) = rs_firstFailedSaveAt rs"
  "rs_writeLost (snd (versionCheckPlanLocked rs now live c)) = rs_writeLost rs"
  "rs_closing (snd (versionCheckPlanLocked rs now live c)) = rs_closing rs"
  "rs_closeAt (snd (versionCheckPlanLocked rs now live c)) = rs_closeAt rs"
  "rs_idleSince (snd (versionCheckPlanLocked rs now live c)) = rs_idleSince rs"
  "rs_lastStuckLogAt (snd (versionCheckPlanLocked rs now live c)) = rs_lastStuckLogAt rs"
  "rs_inFlight (snd (versionCheckPlanLocked rs now live c)) = rs_inFlight rs"
  by (simp_all add: versionCheckPlanLocked_def Let_def)

lemma idlePlan_fields [simp]:
  "rs_wopiSrc (snd (idleGCPlanLocked rs now live)) = rs_wopiSrc rs"
  "rs_wopiSrcs (snd (idleGCPlanLocked rs now live)) = rs_wopiSrcs rs"
  "rs_fileID (snd (idleGCPlanLocked rs now live)) = rs_fileID rs"
  "rs_scene (snd (idleGCPlanLocked rs now live)) = rs_scene rs"
  "rs_dirty (snd (idleGCPlanLocked rs now live)) = rs_dirty rs"
  "rs_lastPutSceneAt (snd (idleGCPlanLocked rs now live)) = rs_lastPutSceneAt rs"
  "rs_lastWriterUserID (snd (idleGCPlanLocked rs now live)) = rs_lastWriterUserID rs"
  "rs_sceneSeq (snd (idleGCPlanLocked rs now live)) = rs_sceneSeq rs"
  "rs_tokens (snd (idleGCPlanLocked rs now live)) = rs_tokens rs"
  "rs_failedTokens (snd (idleGCPlanLocked rs now live)) = rs_failedTokens rs"
  "rs_liveUserCount (snd (idleGCPlanLocked rs now live)) = rs_liveUserCount rs"
  "rs_lockValue (snd (idleGCPlanLocked rs now live)) = rs_lockValue rs"
  "rs_haveLock (snd (idleGCPlanLocked rs now live)) = rs_haveLock rs"
  "rs_lastLockAt (snd (idleGCPlanLocked rs now live)) = rs_lastLockAt rs"
  "rs_forceUnlockValue (snd (idleGCPlanLocked rs now live)) = rs_forceUnlockValue rs"
  "rs_skipVersionCheckOnce (snd (idleGCPlanLocked rs now live)) = rs_skipVersionCheckOnce rs"
  "rs_expectedVersion (snd (idleGCPlanLocked rs now live)) = rs_expectedVersion rs"
  "rs_haveVersion (snd (idleGCPlanLocked rs now live)) = rs_haveVersion rs"
  "rs_pendingVersionCheck (snd (idleGCPlanLocked rs now live)) = rs_pendingVersionCheck rs"
  "rs_conflict (snd (idleGCPlanLocked rs now live)) = rs_conflict rs"
  "rs_conflictForeignLock (snd (idleGCPlanLocked rs now live)) = rs_conflictForeignLock rs"
  "rs_lastReportedConflict (snd (idleGCPlanLocked rs now live)) = rs_lastReportedConflict rs"
  "rs_lastReportedSaveStalled (snd (idleGCPlanLocked rs now live)) = rs_lastReportedSaveStalled rs"
  "rs_lastSaveAttemptAt (snd (idleGCPlanLocked rs now live)) = rs_lastSaveAttemptAt rs"
  "rs_backoff (snd (idleGCPlanLocked rs now live)) = rs_backoff rs"
  "rs_nextRetryAt (snd (idleGCPlanLocked rs now live)) = rs_nextRetryAt rs"
  "rs_firstSaveDone (snd (idleGCPlanLocked rs now live)) = rs_firstSaveDone rs"
  "rs_firstFailedSaveAt (snd (idleGCPlanLocked rs now live)) = rs_firstFailedSaveAt rs"
  "rs_writeLost (snd (idleGCPlanLocked rs now live)) = rs_writeLost rs"
  "rs_closing (snd (idleGCPlanLocked rs now live)) = rs_closing rs"
  "rs_closeAt (snd (idleGCPlanLocked rs now live)) = rs_closeAt rs"
  "rs_lastStuckLogAt (snd (idleGCPlanLocked rs now live)) = rs_lastStuckLogAt rs"
  "rs_inFlight (snd (idleGCPlanLocked rs now live)) = rs_inFlight rs"
  by (simp_all add: idleGCPlanLocked_def Let_def)

lemma stuckPlan_fields [simp]:
  "rs_wopiSrc (snd (stuckConflictPlanLocked rs now)) = rs_wopiSrc rs"
  "rs_wopiSrcs (snd (stuckConflictPlanLocked rs now)) = rs_wopiSrcs rs"
  "rs_fileID (snd (stuckConflictPlanLocked rs now)) = rs_fileID rs"
  "rs_scene (snd (stuckConflictPlanLocked rs now)) = rs_scene rs"
  "rs_dirty (snd (stuckConflictPlanLocked rs now)) = rs_dirty rs"
  "rs_lastPutSceneAt (snd (stuckConflictPlanLocked rs now)) = rs_lastPutSceneAt rs"
  "rs_lastWriterUserID (snd (stuckConflictPlanLocked rs now)) = rs_lastWriterUserID rs"
  "rs_sceneSeq (snd (stuckConflictPlanLocked rs now)) = rs_sceneSeq rs"
  "rs_tokens (snd (stuckConflictPlanLocked rs now)) = rs_tokens rs"
  "rs_failedTokens (snd (stuckConflictPlanLocked rs now)) = rs_failedTokens rs"
  "rs_liveUserCount (snd (stuckConflictPlanLocked rs now)) = rs_liveUserCount rs"
  "rs_lockValue (snd (stuckConflictPlanLocked rs now)) = rs_lockValue rs"
  "rs_haveLock (snd (stuckConflictPlanLocked rs now)) = rs_haveLock rs"
  "rs_lastLockAt (snd (stuckConflictPlanLocked rs now)) = rs_lastLockAt rs"
  "rs_forceUnlockValue (snd (stuckConflictPlanLocked rs now)) = rs_forceUnlockValue rs"
  "rs_skipVersionCheckOnce (snd (stuckConflictPlanLocked rs now)) = rs_skipVersionCheckOnce rs"
  "rs_expectedVersion (snd (stuckConflictPlanLocked rs now)) = rs_expectedVersion rs"
  "rs_haveVersion (snd (stuckConflictPlanLocked rs now)) = rs_haveVersion rs"
  "rs_pendingVersionCheck (snd (stuckConflictPlanLocked rs now)) = rs_pendingVersionCheck rs"
  "rs_conflict (snd (stuckConflictPlanLocked rs now)) = rs_conflict rs"
  "rs_conflictForeignLock (snd (stuckConflictPlanLocked rs now)) = rs_conflictForeignLock rs"
  "rs_lastReportedConflict (snd (stuckConflictPlanLocked rs now)) = rs_lastReportedConflict rs"
  "rs_lastReportedSaveStalled (snd (stuckConflictPlanLocked rs now)) = rs_lastReportedSaveStalled rs"
  "rs_lastSaveAttemptAt (snd (stuckConflictPlanLocked rs now)) = rs_lastSaveAttemptAt rs"
  "rs_backoff (snd (stuckConflictPlanLocked rs now)) = rs_backoff rs"
  "rs_nextRetryAt (snd (stuckConflictPlanLocked rs now)) = rs_nextRetryAt rs"
  "rs_firstSaveDone (snd (stuckConflictPlanLocked rs now)) = rs_firstSaveDone rs"
  "rs_firstFailedSaveAt (snd (stuckConflictPlanLocked rs now)) = rs_firstFailedSaveAt rs"
  "rs_writeLost (snd (stuckConflictPlanLocked rs now)) = rs_writeLost rs"
  "rs_closing (snd (stuckConflictPlanLocked rs now)) = rs_closing rs"
  "rs_closeAt (snd (stuckConflictPlanLocked rs now)) = rs_closeAt rs"
  "rs_idleSince (snd (stuckConflictPlanLocked rs now)) = rs_idleSince rs"
  "rs_inFlight (snd (stuckConflictPlanLocked rs now)) = rs_inFlight rs"
  by (simp_all add: stuckConflictPlanLocked_def Let_def)

lemma planRoom_snd:
  "snd (planRoom rs now) =
     (let rs1 = pruneTokensLocked now rs;
          live = roomLiveLocked rs1 now;
          rs2 = snd (versionCheckPlanLocked rs1 now live (rs_closing rs1 \<and> \<not> now < rs_closeAt rs1))
      in snd (stuckConflictPlanLocked (snd (idleGCPlanLocked rs2 now live)) now))"
  by (simp add: planRoom_def Let_def split: prod.split)

lemma planRoom_fields [simp]:
  "rs_wopiSrc (snd (planRoom rs now)) = rs_wopiSrc rs"
  "rs_wopiSrcs (snd (planRoom rs now)) = rs_wopiSrcs rs"
  "rs_fileID (snd (planRoom rs now)) = rs_fileID rs"
  "rs_scene (snd (planRoom rs now)) = rs_scene rs"
  "rs_dirty (snd (planRoom rs now)) = rs_dirty rs"
  "rs_lastPutSceneAt (snd (planRoom rs now)) = rs_lastPutSceneAt rs"
  "rs_lastWriterUserID (snd (planRoom rs now)) = rs_lastWriterUserID rs"
  "rs_sceneSeq (snd (planRoom rs now)) = rs_sceneSeq rs"
  "rs_liveUserCount (snd (planRoom rs now)) = rs_liveUserCount rs"
  "rs_lockValue (snd (planRoom rs now)) = rs_lockValue rs"
  "rs_haveLock (snd (planRoom rs now)) = rs_haveLock rs"
  "rs_lastLockAt (snd (planRoom rs now)) = rs_lastLockAt rs"
  "rs_forceUnlockValue (snd (planRoom rs now)) = rs_forceUnlockValue rs"
  "rs_expectedVersion (snd (planRoom rs now)) = rs_expectedVersion rs"
  "rs_haveVersion (snd (planRoom rs now)) = rs_haveVersion rs"
  "rs_conflict (snd (planRoom rs now)) = rs_conflict rs"
  "rs_conflictForeignLock (snd (planRoom rs now)) = rs_conflictForeignLock rs"
  "rs_lastReportedConflict (snd (planRoom rs now)) = rs_lastReportedConflict rs"
  "rs_lastReportedSaveStalled (snd (planRoom rs now)) = rs_lastReportedSaveStalled rs"
  "rs_lastSaveAttemptAt (snd (planRoom rs now)) = rs_lastSaveAttemptAt rs"
  "rs_backoff (snd (planRoom rs now)) = rs_backoff rs"
  "rs_nextRetryAt (snd (planRoom rs now)) = rs_nextRetryAt rs"
  "rs_firstSaveDone (snd (planRoom rs now)) = rs_firstSaveDone rs"
  "rs_firstFailedSaveAt (snd (planRoom rs now)) = rs_firstFailedSaveAt rs"
  "rs_writeLost (snd (planRoom rs now)) = rs_writeLost rs"
  "rs_closing (snd (planRoom rs now)) = rs_closing rs"
  "rs_closeAt (snd (planRoom rs now)) = rs_closeAt rs"
  "rs_inFlight (snd (planRoom rs now)) = rs_inFlight rs"
  by (simp_all add: planRoom_snd Let_def)

lemma planRoom_tokens [simp]:
  "rs_tokens (snd (planRoom rs now)) = filter (\<lambda>e. now < ti_expiresAt (snd e)) (rs_tokens rs)"
  by (simp add: planRoom_snd Let_def pruneTokensLocked_def)

lemmas update_defs = pruneTokensLocked_def Let_def saveFailureRoom_def saveSuccessRoom_def enterConflictRoom_def
  resolveRoom_def observeTokens_def putRoom_def reportFlags_def

text \<open>Only aliasing changes the set of keys a room knows.\<close>

lemma room_step_srcs: "room_step f \<Longrightarrow> rs_wopiSrcs (f rs) = rs_wopiSrcs rs"
  by (erule room_step.cases env_update.cases loop_update.cases; simp add: update_defs)+

lemma mgr_wf_upd: "rs_wopiSrcs (m_heap s r) \<subseteq> rs_wopiSrcs (f (m_heap s r)) \<Longrightarrow>
  mgr_wf s \<Longrightarrow> mgr_wf (upd_room r f s)"
  by (auto simp: mgr_wf_def)

lemma mgr_wf_report [simp]: "mgr_wf (upd_room r (reportFlags now) s) = mgr_wf s"
  by (auto simp: mgr_wf_def reportFlags_def)

lemma mgr_wf_hooks [simp]:
  "mgr_wf (s\<lparr>m_hooks := hs\<rparr>) = mgr_wf s" "mgr_wf (s\<lparr>m_sched := sch\<rparr>) = mgr_wf s"
  "mgr_wf (s\<lparr>m_host := h\<rparr>) = mgr_wf s" "mgr_wf (s\<lparr>m_calls := cs\<rparr>) = mgr_wf s"
  "mgr_wf (s\<lparr>m_woken := w\<rparr>) = mgr_wf s" "mgr_wf (s\<lparr>m_clock := now\<rparr>) = mgr_wf s"
  "mgr_wf (s\<lparr>m_puts := n\<rparr>) = mgr_wf s"
  by (simp_all add: mgr_wf_def)

lemma mgr_wf_step: "room_step f \<Longrightarrow> mgr_wf s \<Longrightarrow> mgr_wf (upd_room r f s)"
  by (rule mgr_wf_upd) (simp_all add: room_step_srcs)

lemma mgr_wf_atom: "env_atom ok s t \<Longrightarrow> mgr_wf s \<Longrightarrow> mgr_wf t"
proof (induction rule: env_atom.induct)
  case (at_new s src)
  then have "map_of (m_rooms s) k \<noteq> Some (m_next s)" for k
    unfolding mgr_wf_def by (metis less_irrefl)
  with at_new show ?case
    unfolding mgr_wf_def new_room_def
    by (auto simp: distinct_update less_Suc_eq simp del: map_of_eq_Some_iff split: if_splits)
next
  case (at_alias s src f r)
  then show ?case
    by (auto simp: mgr_wf_def alias_room_def distinct_update split: if_splits)
next
  case (at_index s src r f)
  then have "mgr_wf (upd_room r (\<lambda>rs. rs\<lparr>rs_fileID := f, rs_lockValue := lockValueFor f\<rparr>) s)"
    by (intro mgr_wf_step step_index)
  then show ?case
    using at_index by (auto simp: mgr_wf_def index_room_def)
next
  case (at_notify r s)
  then show ?case by (simp add: notifyLocked_exec)
qed (auto intro: mgr_wf_step step_put step_tokens step_resolve step_env)

lemma deleteRoom_exec:
  "exec (deleteRoomLocked r) s =
     s\<lparr>m_rooms := filter (\<lambda>e. fst e \<notin> rs_wopiSrcs (m_heap s r)) (m_rooms s),
       m_byFileID := (if rs_fileID (m_heap s r) \<noteq> []
                         \<and> m_byFileID s (rs_fileID (m_heap s r)) = Some r
                      then (m_byFileID s)(rs_fileID (m_heap s r) := None)
                      else m_byFileID s)\<rparr>"
  by (simp add: deleteRoomLocked_def exec_def)

lemma map_of_filter_key:
  "distinct (map fst al) \<Longrightarrow> map_of (filter (\<lambda>e. fst e \<notin> A) al) k = (if k \<in> A then None else map_of al k)"
  by (simp add: map_of_filter_fst split: option.split)

lemma mgr_wf_delete: "mgr_wf s \<Longrightarrow> mgr_wf (exec (deleteRoomLocked r) s)"
  by (auto simp: mgr_wf_def deleteRoom_exec map_of_filter_key distinct_filter_fst split: if_splits)

section \<open>Invariants of one room\<close>

text \<open>
  A predicate on rooms that a new room satisfies and every update of the code
  keeps holds of every room of every reachable manager.
\<close>

locale room_local =
  fixes R :: "roomState \<Rightarrow> bool"
  assumes R_new: "R ((newRoom src)\<lparr>rs_wopiSrcs := A\<rparr>)"
    and R_srcs: "R rs \<Longrightarrow> R (rs\<lparr>rs_wopiSrcs := A\<rparr>)"
    and R_step: "room_step f \<Longrightarrow> R rs \<Longrightarrow> R (f rs)"
begin

definition RI :: "'h sys \<Rightarrow> bool" where
  "RI s \<longleftrightarrow> mgr_wf s \<and> (\<forall>r. R (m_heap s r))"

lemma RI_step: "room_step f \<Longrightarrow> RI s \<Longrightarrow> RI (upd_room r f s)"
  by (auto simp: RI_def mgr_wf_step R_step)

lemma RI_atom: "env_atom ok s t \<Longrightarrow> RI s \<Longrightarrow> RI t"
proof -
  assume a: "env_atom ok s t" "RI s"
  then have "mgr_wf t" by (simp add: RI_def mgr_wf_atom)
  moreover have "\<forall>q. R (m_heap t q)"
    using a by (induction rule: env_atom.induct)
      (auto simp: RI_def new_room_def alias_room_def index_room_def notifyLocked_exec
        intro: R_new R_srcs R_step step_index step_put step_tokens step_resolve step_env step_report)
  ultimately show ?thesis by (simp add: RI_def)
qed

lemma newRoom_R: "R (newRoom src)"
  using R_new [where src = src and A = "{}"] by (simp add: newRoom_def)

sublocale inv: loop_invariant ok RI "\<lambda>r sc q s. RI s"
proof unfold_locales
  show "RI (newManager mb hexp hconf hrel now host)" for mb hexp hconf hrel now host
    by (simp add: RI_def newManager_def mgr_wf_def newRoom_R)
  show "RI (exec (deleteRoomLocked r) s)" if "RI s" for r s
    using that mgr_wf_delete [of s r] by (simp add: RI_def) (simp add: deleteRoom_exec)
qed (auto simp: RI_def intro: mgr_wf_rooms mgr_wf_atom RI_atom [unfolded RI_def, THEN conjunct2, rule_format]
      R_step step_loop step_saved mgr_wf_step)

lemma reachable_R:
  assumes "mgr_reachable ok c s"
  shows "mgr_wf s \<and> R (m_heap s r)"
  using inv.reachable_I [OF assms] by (simp add: RI_def)

end

end
