(* ===== verification/RoomSafety.thy ===== *)
theory RoomSafety
  imports RoomInvariants
begin

text \<open>
  What holds of every manager in every reachable state: the well-formedness of
  its maps, the invariants of one room, no accepted edit without a save to come or
  a save that took exactly it, and the reports of the conflict hook.
\<close>

section \<open>Invariants of one room\<close>

lemmas room_step_elims = room_step.cases env_update.cases loop_update.cases

lemma fst_token_updates [simp]:
  "fst (dropWrite tok e) = fst e" "fst (markWarned now e) = fst e"
  "map (\<lambda>x. fst (dropWrite tok x)) al = map fst al"
  "map (\<lambda>x. fst (markWarned now x)) al = map fst al"
  by (simp_all add: dropWrite_def markWarned_def)

interpretation tok: room_local tokens_ok
proof unfold_locales
  show "tokens_ok (f rs)" if "room_step f" "tokens_ok rs" for f rs
    using that
    by (elim room_step_elims)
      (auto simp: tokens_ok_def update_defs distinct_update comp_def intro!: distinct_filter_fst)
qed (simp_all add: tokens_ok_def newRoom_def)

text \<open>The lock value is a function of the file id, and empty until that is known.\<close>

definition lock_value_ok :: "roomState \<Rightarrow> bool" where
  "lock_value_ok rs \<longleftrightarrow>
     rs_lockValue rs = (if rs_fileID rs = [] then [] else lockValueFor (rs_fileID rs))"

interpretation lockv: room_local lock_value_ok
proof unfold_locales
  show "lock_value_ok (f rs)" if "room_step f" "lock_value_ok rs" for f rs
    using that by (elim room_step_elims) (auto simp: lock_value_ok_def update_defs)
qed (simp_all add: lock_value_ok_def newRoom_def)

text \<open>
  A retry is pending exactly when there is a backoff, and then it is due that
  long after the last attempt; the backoff doubles from one second to its bound.
\<close>

definition backoff_ok :: "roomState \<Rightarrow> bool" where
  "backoff_ok rs \<longleftrightarrow>
     (rs_backoff rs = 0 \<and> rs_nextRetryAt rs = zero_time)
     \<or> ((\<exists>k. rs_backoff rs = min maxBackoff (2 ^ k * initialBackoff))
        \<and> rs_nextRetryAt rs = rs_lastSaveAttemptAt rs + rs_backoff rs)"

lemma nextBackoff_step:
  assumes "b = 0 \<or> (\<exists>k. b = min maxBackoff (2 ^ k * initialBackoff))"
  shows "\<exists>k. nextBackoff b = min maxBackoff (2 ^ k * initialBackoff)"
  using assms
proof
  assume "b = 0"
  then have "nextBackoff b = min maxBackoff (2 ^ 0 * initialBackoff)"
    by (simp add: nextBackoff_def interval_defs)
  then show ?thesis by blast
next
  assume "\<exists>k. b = min maxBackoff (2 ^ k * initialBackoff)"
  then obtain k where "b = min maxBackoff (2 ^ k * initialBackoff)" by blast
  moreover have "(1::int) \<le> 2 ^ k" by simp
  ultimately have "nextBackoff b = min maxBackoff (2 ^ Suc k * initialBackoff)"
    by (auto simp: nextBackoff_def interval_defs min_def)
  then show ?thesis by blast
qed

interpretation backoff: room_local backoff_ok
proof unfold_locales
  show "backoff_ok (f rs)" if "room_step f" "backoff_ok rs" for f rs
    using that nextBackoff_step [of "rs_backoff rs"]
    by (elim room_step_elims) (auto simp: backoff_ok_def update_defs)
qed (simp_all add: backoff_ok_def newRoom_def)

text \<open>A foreign lock is on record only while the room is in conflict; users are counted from zero.\<close>

definition conflict_ok :: "roomState \<Rightarrow> bool" where
  "conflict_ok rs \<longleftrightarrow> (rs_conflictForeignLock rs \<noteq> [] \<longrightarrow> rs_conflict rs) \<and> 0 \<le> rs_liveUserCount rs"

interpretation confl: room_local conflict_ok
proof unfold_locales
  show "conflict_ok (f rs)" if "room_step f" "conflict_ok rs" for f rs
    using that by (elim room_step_elims) (auto simp: conflict_ok_def update_defs)
qed (simp_all add: conflict_ok_def newRoom_def)

section \<open>No accepted edit is lost\<close>

text \<open>
  The host accepted exactly the room's scene, in a save whose version is the one
  the room expects, or a save is still to come.
\<close>

definition saved_as :: "wopi_call list \<Rightarrow> rid \<Rightarrow> roomState \<Rightarrow> bool" where
  "saved_as calls r rs \<longleftrightarrow>
     (\<exists>src tok lock. CallPutFile r src tok lock (slice_bytes (rs_scene rs))
                       (Inr (rs_expectedVersion rs)) \<in> set calls)"

definition saved_or_dirty :: "wopi_call list \<Rightarrow> rid \<Rightarrow> roomState \<Rightarrow> bool" where
  "saved_or_dirty calls r rs \<longleftrightarrow> rs_dirty rs \<or> rs_scene rs = None \<or> saved_as calls r rs"

text \<open>
  While a save is under way: the sequence number has moved on exactly if the
  scene was replaced, as long as fewer than \<open>2 ^ 64\<close> scenes were put.
\<close>

definition save_track :: "bytes option \<Rightarrow> u64 \<Rightarrow> nat \<Rightarrow> roomState \<Rightarrow> bool" where
  "save_track sc q m rs \<longleftrightarrow>
     (\<exists>n0 n. q = of_nat n0 \<and> rs_sceneSeq rs = of_nat n \<and> n0 \<le> n \<and> n \<le> m
           \<and> (n = n0 \<longrightarrow> rs_scene rs = sc \<or> rs_scene rs = None)
           \<and> (n0 < n \<longrightarrow> rs_dirty rs \<or> rs_scene rs = None))"

definition seq_ok :: "nat \<Rightarrow> roomState \<Rightarrow> bool" where
  "seq_ok m rs \<longleftrightarrow> (\<exists>n\<le>m. rs_sceneSeq rs = of_nat n)"

definition SI :: "'h sys \<Rightarrow> bool" where
  "SI s \<longleftrightarrow> mgr_wf s \<and>
     (m_puts s < 2 ^ 64 \<longrightarrow> (\<forall>r<m_next s. seq_ok (m_puts s) (m_heap s r)
                                       \<and> saved_or_dirty (m_calls s) r (m_heap s r)))"

definition SJ :: "rid \<Rightarrow> bytes option \<Rightarrow> u64 \<Rightarrow> 'h sys \<Rightarrow> bool" where
  "SJ r sc q s \<longleftrightarrow> SI s \<and> (m_puts s < 2 ^ 64 \<longrightarrow> save_track sc q (m_puts s) (m_heap s r))"

lemma loop_update_frame:
  assumes "loop_update f"
  shows "rs_scene (f rs) = rs_scene rs" "rs_sceneSeq (f rs) = rs_sceneSeq rs"
    "rs_dirty (f rs) = rs_dirty rs" "rs_expectedVersion (f rs) = rs_expectedVersion rs"
  using assms by (cases; simp add: update_defs)+

lemma loop_update_saved:
  assumes "loop_update f"
  shows "seq_ok m (f rs) = seq_ok m rs" "saved_or_dirty cs r (f rs) = saved_or_dirty cs r rs"
    "save_track sc q m (f rs) = save_track sc q m rs"
  by (simp_all add: seq_ok_def saved_or_dirty_def saved_as_def save_track_def
      loop_update_frame [OF assms])

lemma env_update_saved:
  assumes "env_update f"
  shows "seq_ok m rs \<Longrightarrow> seq_ok m (f rs)"
    "saved_or_dirty cs r rs \<Longrightarrow> saved_or_dirty cs r (f rs)"
    "save_track sc q m rs \<Longrightarrow> save_track sc q m (f rs)"
  using assms by (cases; auto simp: seq_ok_def saved_or_dirty_def saved_as_def save_track_def update_defs)+

lemma resolve_saved:
  "seq_ok m rs \<Longrightarrow> seq_ok m (resolveRoom ow rs)"
  "saved_or_dirty cs r rs \<Longrightarrow> saved_or_dirty cs r (resolveRoom ow rs)"
  "save_track sc q m rs \<Longrightarrow> save_track sc q m (resolveRoom ow rs)"
  by (auto simp: seq_ok_def saved_or_dirty_def saved_as_def save_track_def resolveRoom_def Let_def)

lemma seq_ok_mono: "seq_ok m rs \<Longrightarrow> m \<le> k \<Longrightarrow> seq_ok k rs"
  by (auto simp: seq_ok_def intro: order_trans)

lemma save_track_mono: "save_track sc q m rs \<Longrightarrow> m \<le> k \<Longrightarrow> save_track sc q k rs"
  by (fastforce simp: save_track_def)

lemma put_saved:
  "seq_ok m rs \<Longrightarrow> seq_ok (Suc m) (putRoom d now u rs)"
  "saved_or_dirty cs r (putRoom d now u rs)"
  "save_track sc q m rs \<Longrightarrow> save_track sc q (Suc m) (putRoom d now u rs)"
proof -
  show "seq_ok (Suc m) (putRoom d now u rs)" if "seq_ok m rs"
  proof -
    obtain n where "n \<le> m" "rs_sceneSeq rs = of_nat n" using \<open>seq_ok m rs\<close> by (auto simp: seq_ok_def)
    then show ?thesis
      unfolding seq_ok_def by (intro exI [of _ "Suc n"]) (simp add: putRoom_def)
  qed
  show "saved_or_dirty cs r (putRoom d now u rs)"
    by (simp add: saved_or_dirty_def putRoom_def)
  show "save_track sc q (Suc m) (putRoom d now u rs)" if t: "save_track sc q m rs"
  proof -
    obtain n0 n where "q = of_nat n0" "rs_sceneSeq rs = of_nat n" "n0 \<le> n" "n \<le> m"
      using t by (auto simp: save_track_def)
    then show ?thesis
      unfolding save_track_def by (intro exI [of _ n0] exI [of _ "Suc n"]) (simp add: putRoom_def)
  qed
qed

lemma same_saved:
  "seq_ok m (rs\<lparr>rs_wopiSrcs := A\<rparr>) = seq_ok m rs"
  "saved_or_dirty cs r (rs\<lparr>rs_wopiSrcs := A\<rparr>) = saved_or_dirty cs r rs"
  "save_track sc q m (rs\<lparr>rs_wopiSrcs := A\<rparr>) = save_track sc q m rs"
  "seq_ok m (rs\<lparr>rs_fileID := f, rs_lockValue := l\<rparr>) = seq_ok m rs"
  "saved_or_dirty cs r (rs\<lparr>rs_fileID := f, rs_lockValue := l\<rparr>) = saved_or_dirty cs r rs"
  "save_track sc q m (rs\<lparr>rs_fileID := f, rs_lockValue := l\<rparr>) = save_track sc q m rs"
  "seq_ok m (reportFlags now rs) = seq_ok m rs"
  "saved_or_dirty cs r (reportFlags now rs) = saved_or_dirty cs r rs"
  "save_track sc q m (reportFlags now rs) = save_track sc q m rs"
  "seq_ok m (observeTokens c now rs) = seq_ok m rs"
  "saved_or_dirty cs r (observeTokens c now rs) = saved_or_dirty cs r rs"
  "save_track sc q m (observeTokens c now rs) = save_track sc q m rs"
  "seq_ok m (newRoom src)" "saved_or_dirty cs r (newRoom src)"
  by (simp_all add: observeTokens_def seq_ok_def saved_or_dirty_def saved_as_def save_track_def reportFlags_def
      newRoom_def exI [of _ 0])

lemma env_atom_saved:
  assumes "env_atom ok s t" "m_puts t < 2 ^ 64"
    and "\<forall>r<m_next s. seq_ok (m_puts s) (m_heap s r) \<and> saved_or_dirty (m_calls s) r (m_heap s r)"
  shows "\<forall>r<m_next t. seq_ok (m_puts t) (m_heap t r) \<and> saved_or_dirty (m_calls t) r (m_heap t r)"
  using assms
  by (induction rule: env_atom.induct)
    (auto simp: new_room_def alias_room_def index_room_def notifyLocked_exec same_saved less_Suc_eq
      intro: env_update_saved resolve_saved put_saved seq_ok_mono)

lemma env_atom_track:
  assumes "env_atom ok s t" "r < m_next s" "save_track sc q (m_puts s) (m_heap s r)"
  shows "save_track sc q (m_puts t) (m_heap t r)"
  using assms
  by (induction rule: env_atom.induct)
    (auto simp: new_room_def alias_room_def index_room_def notifyLocked_exec same_saved
      intro: env_update_saved resolve_saved put_saved save_track_mono)

lemma track_start:
  "seq_ok m rs \<Longrightarrow> save_track (rs_scene rs) (rs_sceneSeq rs) m rs"
  by (auto simp: seq_ok_def save_track_def)

text \<open>Recording a save the log holds: the dirty flag is cleared only if the scene is the saved one.\<close>

lemma success_saved:
  assumes m: "m < 2 ^ 64" and t: "save_track sc q m rs"
    and log: "CallPutFile r src tok lock (slice_bytes sc) (Inr v) \<in> set cs"
  shows "saved_or_dirty cs r (saveSuccessRoom now v q rs)"
    and "seq_ok m rs \<Longrightarrow> seq_ok m (saveSuccessRoom now v q rs)"
    and "save_track sc q m (saveSuccessRoom now v q rs)"
proof -
  obtain n0 n where n: "q = of_nat n0" "rs_sceneSeq rs = of_nat n" "n0 \<le> n" "n \<le> m"
    "n = n0 \<Longrightarrow> rs_scene rs = sc \<or> rs_scene rs = None"
    "n0 < n \<Longrightarrow> rs_dirty rs \<or> rs_scene rs = None"
    using t by (auto simp: save_track_def)
  have eq: "rs_sceneSeq rs = q \<longleftrightarrow> n = n0"
    using n m by (auto simp: of_nat_inverse word_of_nat_eq_iff take_bit_nat_eq_self)
  show "saved_or_dirty cs r (saveSuccessRoom now v q rs)"
    using n(3,5,6) eq log
    by (cases "n = n0") (auto simp: saved_or_dirty_def saved_as_def saveSuccessRoom_def)
  show "seq_ok m rs \<Longrightarrow> seq_ok m (saveSuccessRoom now v q rs)"
    by (auto simp: seq_ok_def saveSuccessRoom_def)
  show "save_track sc q m (saveSuccessRoom now v q rs)"
    unfolding save_track_def using n eq
    by (intro exI [of _ n0] exI [of _ n]) (auto simp: saveSuccessRoom_def)
qed

lemma SI_atom: "env_atom ok s t \<Longrightarrow> SI s \<Longrightarrow> SI t"
  using env_atom_saved [of ok s t] env_atom_frame(4) [of ok s t] mgr_wf_atom [of ok s t]
  by (auto simp: SI_def)

lemma saved_or_dirty_more: "saved_or_dirty cs r rs \<Longrightarrow> saved_or_dirty (cs @ new) r rs"
  by (auto simp: saved_or_dirty_def saved_as_def)

interpretation save: loop_invariant ok SI SJ for ok
proof unfold_locales
  show "SI (newManager mb hexp hconf hrel now host)" for mb hexp hconf hrel now and host :: 'h
    by (simp add: SI_def newManager_def mgr_wf_def)
  show "SI (upd_room r f s)" if "loop_update f" "r < m_next s" "SI s" for f r and s :: "'h sys"
    using that by (auto simp: SI_def loop_update_saved intro: mgr_wf_step step_loop)
  show "SI (exec (deleteRoomLocked r) s)" if "SI s" for r and s :: "'h sys"
    using that mgr_wf_delete [of s r] by (simp add: SI_def) (simp add: deleteRoom_exec)
  show "SJ r sc q (upd_room r f s)" if "loop_update f" "r < m_next s" "SJ r sc q s"
    for f r sc q and s :: "'h sys"
    using that by (auto simp: SJ_def SI_def loop_update_saved intro: mgr_wf_step step_loop)
  show "SJ r sc q t" if "env_atom ok s t" "r < m_next s" "SJ r sc q s" for r sc q and s t :: "'h sys"
    using that env_atom_track [of ok s t r sc q] env_atom_frame(4) [of ok s t] SI_atom [of ok s t]
    by (auto simp: SJ_def)
  show "SJ r sc q (upd_room r (saveSuccessRoom now v q) s)"
    if "r < m_next s" "SJ r sc q s"
      "CallPutFile r src tok lock (slice_bytes sc) (Inr v) \<in> set (m_calls s)"
    for r sc q src tok lock v now and s :: "'h sys"
    using that success_saved [OF _ _ that(3)]
    by (auto simp: SJ_def SI_def intro!: mgr_wf_step step_saved)
  show "SI t" if "env_atom ok s t" "SI s" for s t :: "'h sys"
    using that by (rule SI_atom)
qed (auto simp: SI_def SJ_def track_start saved_or_dirty_more intro: mgr_wf_rooms)

text \<open>
  C1. No edit is lost: in every reachable state of the manager (every order of
  API calls, clock ticks and passes, every interleaving with the passes' critical
  sections, every host), a room that is not dirty holds either no scene or exactly
  the bytes of a \<open>PutFile\<close> the host accepted, whose returned version is the one
  the room expects next. (Below \<open>2 ^ 64\<close> accepted scenes, the range of
  \<open>sceneSeq\<close>.)
\<close>

theorem no_edit_lost:
  assumes "mgr_reachable ok c s" and "m_puts s < 2 ^ 64"
    and "r < m_next s" and "\<not> rs_dirty (m_heap s r)" and "rs_scene (m_heap s r) = Some d"
  shows "\<exists>src tok lock. CallPutFile r src tok lock d (Inr (rs_expectedVersion (m_heap s r)))
           \<in> set (m_calls s)"
proof -
  have "saved_or_dirty (m_calls s) r (m_heap s r)"
    using save.reachable_I [OF assms(1)] assms(2,3) by (simp add: SI_def)
  with assms(4,5) show ?thesis by (simp add: saved_or_dirty_def saved_as_def)
qed

text \<open>A host of one file that takes every lock and every save, for the examples.\<close>

definition easyHost :: "bytes client" where
  "easyHost =
     \<lparr>cli_CheckFileInfo = (\<lambda>now src tok h. (Inl ErrNotFound, h)),
      cli_PutFile = (\<lambda>now src tok lock body h. (Inr ''v1'', body)),
      cli_Lock = (\<lambda>now src tok lock h. (None, h)),
      cli_RefreshLock = (\<lambda>now src tok lock h. (None, h)),
      cli_Unlock = (\<lambda>now src tok lock h. (None, h)),
      cli_UnlockAndRelock = (\<lambda>now src tok lock old h. (None, h))\<rparr>"

definition easyStart :: "bytes sys" where
  "easyStart =
     env_step (EvPutScene ''src'' ''scene'' ''u'')
      (env_step (EvObserve \<lparr>cl_FileID = ''f1'', cl_WOPISrc = ''src'', cl_UserID = ''u'',
          cl_UserName = ''U'', cl_CanWrite = True, cl_AccessToken = ''tok'',
          cl_ExpiresAt = 36000 * second\<rparr>)
        (newManager 100 True True True second []))"

definition easySaved :: "bytes sys" where
  "easySaved = exec (flushAll easyHost (60 * second)) (easyStart\<lparr>m_sched := []\<rparr>)"

lemma easyStart_reachable: "mgr_reachable (\<lambda>_. True) c easyStart"
  unfolding easyStart_def by (intro mgr_event mgr_init) simp_all

lemma easySaved_reachable: "mgr_reachable (\<lambda>_. True) easyHost easySaved"
  unfolding easySaved_def by (intro mgr_flush easyStart_reachable) simp

lemma lock_mu_run [simp]: "m_sched s = [] \<Longrightarrow> run_state lock_mu s = ((), s)"
  by (simp add: lock_mu_def interfere_def)

text \<open>The save of a host that takes the lock and the file, call by call.\<close>

lemma performSave_run:
  assumes "m_sched s = []" "rs_dirty (m_heap s r)" "\<not> rs_conflict (m_heap s r)"
    and "rs_forceUnlockValue (m_heap s r) = []"
    and "tokenLadder (m_heap s r) now = cand # rest"
    and "cli_Lock c (m_clock s) (rs_wopiSrc (m_heap s r)) (tc_token cand)
           (rs_lockValue (m_heap s r)) (m_host s) = (None, h1)"
    and "cli_PutFile c (m_clock s) (rs_wopiSrc (m_heap s r)) (tc_token cand)
           (rs_lockValue (m_heap s r)) (slice_bytes (rs_scene (m_heap s r))) h1 = (Inr v, h2)"
  shows "run_state (performSave c r now) s =
     ((), (upd_room r (\<lambda>rs. saveSuccessRoom now v (rs_sceneSeq rs)
             (rs\<lparr>rs_firstSaveDone := True, rs_forceUnlockValue := [], rs_haveLock := True,
                 rs_lastLockAt := now\<rparr>)) s)
        \<lparr>m_host := h2,
          m_calls := m_calls s @
            [CallLock r (rs_wopiSrc (m_heap s r)) (tc_token cand) (rs_lockValue (m_heap s r)) None,
             CallPutFile r (rs_wopiSrc (m_heap s r)) (tc_token cand) (rs_lockValue (m_heap s r))
               (slice_bytes (rs_scene (m_heap s r))) (Inr v)]\<rparr>)"
  using assms
  by (simp add: performSave_def attemptSave_def ensureLocked_def plainLock_def callLock_def
      callPutFile_def host_call_def markLocked_def recordSaveSuccess_def upd_room_def)

text \<open>The definitions that unfold a run on a concrete state.\<close>

lemmas room_exec_defs = exec_def roomLocked_def PutScene_def Observe_def newManager_def
  newRoom_def pruneTokensLocked_def zero_time_def clone_bytes_def
  duration_defs Let_def

lemma easyStart_room:
  "m_rooms easyStart = [(''src'', 0)]" "m_next easyStart = 1" "m_clock easyStart = second"
  "m_sched easyStart = []" "m_puts easyStart = 1" "m_calls easyStart = []"
  "rs_dirty (m_heap easyStart 0)" "\<not> rs_conflict (m_heap easyStart 0)"
  "rs_forceUnlockValue (m_heap easyStart 0) = []" "\<not> rs_inFlight (m_heap easyStart 0)"
  "rs_scene (m_heap easyStart 0) = Some ''scene''" "rs_wopiSrc (m_heap easyStart 0) = ''src''"
  "rs_tokens (m_heap easyStart 0) = [(''u'', \<lparr>ti_token = ''tok'', ti_expiresAt = 36000 * second,
      ti_canWrite = True, ti_warned = False\<rparr>)]"
  "rs_failedTokens (m_heap easyStart 0) = Map.empty"
  "rs_lastWriterUserID (m_heap easyStart 0) = ''u''"
  "rs_lockValue (m_heap easyStart 0) = lockValueFor ''f1''"
  "m_hookConflict easyStart" "m_hooks easyStart = []" "rs_fileID (m_heap easyStart 0) = ''f1''"
  "\<not> rs_lastReportedConflict (m_heap easyStart 0)" "\<not> rs_writeLost (m_heap easyStart 0)"
  "\<not> rs_lastReportedSaveStalled (m_heap easyStart 0)"
  "rs_firstFailedSaveAt (m_heap easyStart 0) = zero_time"
  "rs_lastSaveAttemptAt (m_heap easyStart 0) = 0" "rs_wopiSrcs (m_heap easyStart 0) = {''src''}"
  "rs_liveUserCount (m_heap easyStart 0) = 0" "\<not> rs_closing (m_heap easyStart 0)"
  "m_byFileID easyStart = [''f1'' \<mapsto> 0]" "m_maxSceneBytes easyStart = 100"
  "rs_nextRetryAt (m_heap easyStart 0) = zero_time"
  by (simp_all add: easyStart_def room_exec_defs cong: if_cong)

lemma easyStart_sched: "easyStart\<lparr>m_sched := []\<rparr> = easyStart"
  using easyStart_room(4) by (cases easyStart) simp

lemma easyStart_ladder: "tokenLadder (m_heap easyStart 0) second = [\<lparr>tc_userID = ''u'', tc_token = ''tok''\<rparr>]"
  by (simp add: tokenLadder_def easyStart_room tokenUsable_def tokenRecentlyFailedLocked_def candidateOf_def
      duration_defs)

lemma tokenLadder_inFlight [simp]:
  "tokenLadder (rs\<lparr>rs_inFlight := b\<rparr>) now = tokenLadder rs now"
  by (simp add: tokenLadder_def tokenUsable_def tokenRecentlyFailedLocked_def)

lemma easySaved_room:
  "m_puts easySaved = 1 \<and> m_next easySaved = 1 \<and> rs_dirty (m_heap easySaved 0) = False \<and>
  rs_scene (m_heap easySaved 0) = Some ''scene'' \<and> rs_expectedVersion (m_heap easySaved 0) = ''v1'' \<and>
  rs_fileID (m_heap easySaved 0) = ''f1'' \<and> m_rooms easySaved = [(''src'', 0)] \<and>
  m_sched easySaved = [] \<and> m_clock easySaved = second \<and> m_byFileID easySaved = [''f1'' \<mapsto> 0] \<and>
  m_maxSceneBytes easySaved = 100 \<and>
  rs_wopiSrcs (m_heap easySaved 0) = {''src''} \<and> rs_liveUserCount (m_heap easySaved 0) = 0 \<and>
  \<not> rs_closing (m_heap easySaved 0) \<and> rs_haveLock (m_heap easySaved 0) \<and>
  \<not> rs_conflict (m_heap easySaved 0) \<and> rs_lastWriterUserID (m_heap easySaved 0) = ''u'' \<and>
  rs_failedTokens (m_heap easySaved 0) = Map.empty \<and>
  rs_tokens (m_heap easySaved 0) = [(''u'', \<lparr>ti_token = ''tok'', ti_expiresAt = 36000 * second,
      ti_canWrite = True, ti_warned = False\<rparr>)]"
proof -
  let ?s = "upd_room 0 (\<lambda>rs. rs\<lparr>rs_inFlight := True\<rparr>) easyStart"
  have "run_state (performSave easyHost 0 second) ?s =
     ((), (upd_room 0 (\<lambda>rs. saveSuccessRoom second ''v1'' (rs_sceneSeq rs)
             (rs\<lparr>rs_firstSaveDone := True, rs_forceUnlockValue := [], rs_haveLock := True,
                 rs_lastLockAt := second\<rparr>)) ?s)
        \<lparr>m_host := ''scene'',
          m_calls := [CallLock 0 ''src'' ''tok'' (lockValueFor ''f1'') None,
             CallPutFile 0 ''src'' ''tok'' (lockValueFor ''f1'') ''scene'' (Inr ''v1'')]\<rparr>)"
    using performSave_run [of ?s 0 second "\<lparr>tc_userID = ''u'', tc_token = ''tok''\<rparr>" "[]" easyHost
        "m_host easyStart" "''v1''" "''scene''"]
    by (simp add: easyStart_room easyStart_ladder easyHost_def)
  then show ?thesis
    by (simp add: easySaved_def flushAll_def easyStart_room easyStart_sched tryEnterInFlight_def
        exitInFlight_def exec_def saveSuccessRoom_def duration_defs)
qed

text \<open>The run that witnesses the property: observe, put, flush.\<close>

theorem no_edit_lost_witness:
  "\<exists>src tok lock. CallPutFile 0 src tok lock ''scene'' (Inr (rs_expectedVersion (m_heap easySaved 0)))
     \<in> set (m_calls easySaved)"
  using no_edit_lost [OF easySaved_reachable, of 0 "''scene''"] easySaved_room by simp

section \<open>The reports of the conflict hook\<close>

text \<open>What the hook was told of one room, in order.\<close>

fun reports :: "rid \<Rightarrow> hook_call list \<Rightarrow> (bool \<times> bool) list" where
  "reports r [] = []"
| "reports r (OnConflictChange q f c st # hs) = (if q = r then (c, st) # reports r hs else reports r hs)"
| "reports r (OnTokenExpiring q f u # hs) = reports r hs"
| "reports r (OnReloadRequired f # hs) = reports r hs"

lemma reports_append [simp]: "reports r (hs @ gs) = reports r hs @ reports r gs"
  by (induction r hs rule: reports.induct) auto

text \<open>Each report differs from the one before it, and the last is the one on record.\<close>

definition reported_ok :: "(bool \<times> bool) list \<Rightarrow> roomState \<Rightarrow> bool" where
  "reported_ok reps rs \<longleftrightarrow>
     distinct_adj ((False, False) # reps)
     \<and> last ((False, False) # reps) = (rs_lastReportedConflict rs, rs_lastReportedSaveStalled rs)"

definition NI :: "'h sys \<Rightarrow> bool" where
  "NI s \<longleftrightarrow> mgr_wf s
     \<and> (\<forall>r. m_next s \<le> r \<longrightarrow> reports r (m_hooks s) = [])
     \<and> (m_hookConflict s \<longrightarrow> (\<forall>r<m_next s. reported_ok (reports r (m_hooks s)) (m_heap s r)))"

lemma reported_same:
  "env_update f \<Longrightarrow> reported_ok reps (f rs) = reported_ok reps rs"
  "loop_update f \<Longrightarrow> reported_ok reps (f rs) = reported_ok reps rs"
  "reported_ok reps (saveSuccessRoom now v q rs) = reported_ok reps rs"
  "reported_ok reps (putRoom d now u rs) = reported_ok reps rs"
  "reported_ok reps (observeTokens c now rs) = reported_ok reps rs"
  "reported_ok reps (resolveRoom ow rs) = reported_ok reps rs"
  "reported_ok reps (rs\<lparr>rs_wopiSrcs := A\<rparr>) = reported_ok reps rs"
  "reported_ok reps (rs\<lparr>rs_fileID := fid, rs_lockValue := l\<rparr>) = reported_ok reps rs"
  "reported_ok [] (newRoom src)"
  by ((elim env_update.cases loop_update.cases)?;
      simp add: reported_ok_def update_defs newRoom_def)+

lemma reported_report:
  assumes "reported_ok reps rs" "flagsChanged now rs"
  shows "reported_ok (reps @ [(rs_conflict rs, saveStalledLocked rs now)]) (reportFlags now rs)"
proof -
  have "distinct_adj (((False, False) # reps) @ [(rs_conflict rs, saveStalledLocked rs now)])"
    using assms unfolding distinct_adj_append_iff
    by (auto simp: reported_ok_def flagsChanged_def)
  then show ?thesis by (simp add: reported_ok_def reportFlags_def)
qed

lemma NI_atom: "env_atom ok s t \<Longrightarrow> NI s \<Longrightarrow> NI t"
proof (induction rule: env_atom.induct)
  case (at_notify r s)
  then show ?case
    by (auto simp: NI_def notifyLocked_exec reported_report)
qed (auto simp: NI_def new_room_def alias_room_def index_room_def reported_same less_Suc_eq
      intro: mgr_wf_atom [OF env_atom.at_new, unfolded new_room_def]
        mgr_wf_atom [OF env_atom.at_alias, unfolded alias_room_def]
        mgr_wf_atom [OF env_atom.at_index, unfolded index_room_def]
        mgr_wf_step step_put step_tokens step_resolve step_env)

interpretation notify: loop_invariant ok NI "\<lambda>r sc q s. NI s" for ok
proof unfold_locales
  show "NI (newManager mb hexp hconf hrel now host)" for mb hexp hconf hrel now and host :: 'h
    by (simp add: NI_def newManager_def mgr_wf_def)
  show "NI (upd_room r f s)" if "loop_update f" "r < m_next s" "NI s" for f r and s :: "'h sys"
    using that by (auto simp: NI_def reported_same intro: mgr_wf_step step_loop)
  show "NI (upd_room r f s)" if "loop_update f" "r < m_next s" "NI s" for f r and s :: "'h sys"
    using that by (auto simp: NI_def reported_same intro: mgr_wf_step step_loop)
  show "NI (upd_room r (saveSuccessRoom now v q) s)" if "NI s" for r now v q and s :: "'h sys"
    using that by (auto simp: NI_def reported_same intro: mgr_wf_step step_saved)
  show "NI (exec (deleteRoomLocked r) s)" if "NI s" for r and s :: "'h sys"
    using that mgr_wf_delete [of s r] by (simp add: NI_def) (simp add: deleteRoom_exec)
  show "NI t" if "env_atom ok s t" "NI s" for s t :: "'h sys"
    using that by (rule NI_atom)
  show "NI t" if "env_atom ok s t" "NI s" for s t :: "'h sys"
    using that by (rule NI_atom)
qed (auto simp: NI_def intro: mgr_wf_rooms)

text \<open>
  C26. Clients hear of every change and of nothing else: with a conflict hook set,
  the reports on a room never repeat themselves, the first one differs from the
  initial (no conflict, not stalled), and after each \<open>notifyState\<close> the last report
  is the room's current pair of flags.
\<close>

theorem conflict_reports:
  assumes "mgr_reachable ok c s" and "m_hookConflict s" and "r < m_next s"
  shows "distinct_adj ((False, False) # reports r (m_hooks s))
    \<and> last ((False, False) # reports r (m_hooks (exec (notifyLocked r) s)))
      = (rs_conflict (m_heap s r), saveStalledLocked (m_heap s r) (m_clock s))"
proof -
  have "reported_ok (reports r (m_hooks s)) (m_heap s r)"
    using notify.reachable_I [OF assms(1)] assms(2,3) by (simp add: NI_def)
  then show ?thesis
    using assms(2) by (auto simp: reported_ok_def notifyLocked_exec flagsChanged_def)
qed

text \<open>A host whose file carries another application's lock; one flush meets it.\<close>

definition lockedHost :: "bytes client" where
  "lockedHost = easyHost\<lparr>cli_Lock := (\<lambda>now src tok lock h. (Some (ErrLockConflict ''other''), h))\<rparr>"

definition easyConflict :: "bytes sys" where
  "easyConflict = exec (flushAll lockedHost (60 * second)) (easyStart\<lparr>m_sched := []\<rparr>)"

lemma easyConflict_reachable: "mgr_reachable (\<lambda>_. True) lockedHost easyConflict"
  unfolding easyConflict_def by (intro mgr_flush easyStart_reachable) simp

lemma easyConflict_room:
  "m_hookConflict easyConflict" "m_next easyConflict = 1"
  "reports 0 (m_hooks easyConflict) = [(True, False)]"
  "rs_conflict (m_heap easyConflict 0)" "m_sched easyConflict = []"
  by (simp_all add: easyConflict_def flushAll_def easyStart_room easyStart_sched tryEnterInFlight_def exitInFlight_def exec_def performSave_def easyStart_ladder [unfolded second_def] lockedHost_def easyHost_def attemptSave_def ensureLocked_def plainLock_def callLock_def host_call_def resolveForeignLock_def enterConflict_def enterConflictRoom_def notifyState_def notifyLocked_def classifyTokenAttempt_def saveStalledLocked_def lockValueFor_def lockValuePrefix_def duration_defs)

text \<open>The hook heard of the conflict of that flush, once.\<close>

theorem conflict_reports_witness:
  "distinct_adj ((False, False) # [(True, False)])
   \<and> last ((False, False) # reports 0 (m_hooks (exec (notifyLocked 0) easyConflict)))
      = (rs_conflict (m_heap easyConflict 0),
         saveStalledLocked (m_heap easyConflict 0) (m_clock easyConflict))"
  using conflict_reports [OF easyConflict_reachable, of 0] easyConflict_room by simp

section \<open>Room invariants as properties\<close>

text \<open>
  Replicas agree on lock values: in any two reachable managers, of any two
  clients and hosts, two rooms of the same file carry the same 32-byte lock
  value, so neither takes the other's lock for a foreign one.
\<close>

theorem lock_value_agrees:
  assumes "mgr_reachable ok c s" and "mgr_reachable ok' c' s'"
    and "rs_fileID (m_heap s r) = f" and "rs_fileID (m_heap s' r') = f" and "f \<noteq> []"
  shows "rs_lockValue (m_heap s r) = rs_lockValue (m_heap s' r')
    \<and> length (rs_lockValue (m_heap s r)) = 32"
  using lockv.reachable_R [OF assms(1), of r] lockv.reachable_R [OF assms(2), of r'] assms(3-5)
  by (simp add: lock_value_ok_def)

theorem lock_value_agrees_witness:
  "rs_lockValue (m_heap easySaved 0) = rs_lockValue (m_heap easyStart 0)
    \<and> length (rs_lockValue (m_heap easySaved 0)) = 32"
  using lock_value_agrees [OF easySaved_reachable easyStart_reachable, of 0 "''f1''" 0]
    easySaved_room easyStart_room by simp

lemma backoff_always:
  assumes "mgr_reachable ok c s"
  shows "(rs_backoff (m_heap s r) = 0 \<and> is_zero (rs_nextRetryAt (m_heap s r)))
    \<or> (\<exists>k. rs_backoff (m_heap s r) = min (300 * second) (2 ^ k * second))
       \<and> rs_nextRetryAt (m_heap s r) = rs_lastSaveAttemptAt (m_heap s r) + rs_backoff (m_heap s r)"
proof -
  have "backoff_ok (m_heap s r)" using backoff.reachable_R [OF assms, of r] by simp
  then show ?thesis by (auto simp: backoff_ok_def interval_defs)
qed

text \<open>
  C28. The retry schedule: a room either has no backoff and no retry pending, or
  its backoff is one second doubled a number of times and cut at five minutes,
  and the retry is due exactly that long after the last attempt.
\<close>

theorem backoff_schedule:
  assumes "mgr_reachable ok c s"
  shows "(rs_backoff (m_heap s r) = 0 \<and> is_zero (rs_nextRetryAt (m_heap s r)))
    \<or> (\<exists>k. rs_backoff (m_heap s r) = min (300 * second) (2 ^ k * second))
       \<and> rs_nextRetryAt (m_heap s r) = rs_lastSaveAttemptAt (m_heap s r) + rs_backoff (m_heap s r)"
  by (rule backoff_always [OF assms])

theorem backoff_schedule_witness:
  "(rs_backoff (m_heap easySaved 0) = 0 \<and> is_zero (rs_nextRetryAt (m_heap easySaved 0)))
    \<or> (\<exists>k. rs_backoff (m_heap easySaved 0) = min (300 * second) (2 ^ k * second))
       \<and> rs_nextRetryAt (m_heap easySaved 0)
           = rs_lastSaveAttemptAt (m_heap easySaved 0) + rs_backoff (m_heap easySaved 0)"
  by (rule backoff_schedule [OF easySaved_reachable])

text \<open>
  A save is never put off for good: at any time at least five minutes after
  its last attempt (and idle or throttle limits after that), a dirty room that is
  not in conflict is due for a save, on the throttled path and on the close path.
\<close>

theorem dirty_room_comes_due:
  assumes "mgr_reachable ok c s" and "rs_dirty (m_heap s r)" and "\<not> rs_conflict (m_heap s r)"
    and "rs_lastSaveAttemptAt (m_heap s r) + 300 * second \<le> now"
  shows "saveDueLocked (m_heap s r) now \<and> closeSaveDueLocked (m_heap s r) now"
  using backoff_always [OF assms(1), of r] assms(2-4)
  by (auto simp: saveDueLocked_def closeSaveDueLocked_def Let_def interval_defs)

theorem dirty_room_comes_due_witness:
  "saveDueLocked (m_heap easyStart 0) (300 * second)
    \<and> closeSaveDueLocked (m_heap easyStart 0) (300 * second)"
  by (rule dirty_room_comes_due [OF easyStart_reachable]) (simp_all add: easyStart_room)

end
