(* ===== verification/RoomSaves.thy ===== *)
theory RoomSaves
  imports RoomSafety
begin

text \<open>
  Saves and locks: which WOPI calls a save makes and in which order, what a pass
  does for a room in conflict, and what closing and collecting a room may drop.
\<close>

section \<open>Runs whose claims come from the launch\<close>

text \<open>
  The launch derives the file id of a session from its \<open>WOPISrc\<close>
  (\<open>fileIDFromWOPISrc\<close>) and refuses one that yields none, so a session's claims
  carry the file id of their \<open>WOPISrc\<close>. \<open>fid\<close> is that function.
\<close>

fun launched :: "(string \<Rightarrow> string) \<Rightarrow> event \<Rightarrow> bool" where
  "launched fid (EvObserve c) = (cl_FileID c = fid (cl_WOPISrc c) \<and> cl_FileID c \<noteq> [])"
| "launched fid e = True"

definition room_ids :: "(string \<Rightarrow> string) \<Rightarrow> roomState \<Rightarrow> bool" where
  "room_ids fid rs \<longleftrightarrow>
     (\<exists>g. \<forall>a\<in>rs_wopiSrcs rs. fid a = g)
     \<and> (rs_fileID rs \<noteq> [] \<longrightarrow> (\<forall>a\<in>rs_wopiSrcs rs. fid a = rs_fileID rs))
     \<and> (rs_tokens rs \<noteq> [] \<longrightarrow> rs_fileID rs \<noteq> [])"

definition LI :: "(string \<Rightarrow> string) \<Rightarrow> 'h sys \<Rightarrow> bool" where
  "LI fid s \<longleftrightarrow> mgr_wf s \<and> (\<forall>r. room_ids fid (m_heap s r))
     \<and> (\<forall>f r. m_byFileID s f = Some r \<longrightarrow> f \<noteq> [] \<and> rs_fileID (m_heap s r) = f)"

definition same_ids :: "roomState \<Rightarrow> roomState \<Rightarrow> bool" where
  "same_ids rs rs' \<longleftrightarrow> rs_wopiSrcs rs' = rs_wopiSrcs rs \<and> rs_fileID rs' = rs_fileID rs
     \<and> (rs_tokens rs = [] \<longrightarrow> rs_tokens rs' = [])"

lemma loop_same_ids: "loop_update f \<Longrightarrow> same_ids rs (f rs)"
  by (erule loop_update.cases; simp add: same_ids_def update_defs)

lemma env_same_ids: "env_update f \<Longrightarrow> same_ids rs (f rs)"
  by (erule env_update.cases; simp add: same_ids_def update_defs)

lemma other_same_ids:
  "same_ids rs (putRoom d now u rs)" "same_ids rs (reportFlags now rs)"
  "same_ids rs (saveSuccessRoom now v q rs)" "same_ids rs (resolveRoom ow rs)"
  by (simp_all add: same_ids_def update_defs)

lemma room_ids_upd: "room_ids fid rs \<Longrightarrow> same_ids rs rs' \<Longrightarrow> room_ids fid rs'"
  by (auto simp: room_ids_def same_ids_def)

lemma LI_parts:
  assumes "LI fid s"
  shows "mgr_wf s" "room_ids fid (m_heap s r)"
    and "m_byFileID s f = Some r \<Longrightarrow> f \<noteq> [] \<and> rs_fileID (m_heap s r) = f"
  using assms by (simp_all add: LI_def)

lemma LI_upd:
  assumes "LI fid s" "mgr_wf (upd_room r f s)" "same_ids (m_heap s r) (f (m_heap s r))"
  shows "LI fid (upd_room r f s)"
  using assms room_ids_upd [OF LI_parts(2) [OF assms(1)] assms(3)]
  by (simp add: LI_def) (simp add: same_ids_def)

lemma LI_simps [simp]:
  "LI fid (s\<lparr>m_woken := w\<rparr>) = LI fid s" "LI fid (s\<lparr>m_hooks := hs\<rparr>) = LI fid s"
  "LI fid (s\<lparr>m_clock := now\<rparr>) = LI fid s" "LI fid (s\<lparr>m_puts := n\<rparr>) = LI fid s"
  "LI fid (s\<lparr>m_sched := sch\<rparr>) = LI fid s" "LI fid (s\<lparr>m_host := h\<rparr>) = LI fid s"
  "LI fid (s\<lparr>m_calls := cs\<rparr>) = LI fid s"
  by (simp_all add: LI_def)

lemma LI_atom: "env_atom (launched fid) s t \<Longrightarrow> LI fid s \<Longrightarrow> LI fid t"
proof (induction rule: env_atom.induct)
  case (at_new s src)
  have "m_byFileID s f \<noteq> Some (m_next s)" for f
    using LI_parts(1) [OF at_new(2)] unfolding mgr_wf_def by (metis less_irrefl)
  moreover have "room_ids fid ((newRoom src)\<lparr>rs_wopiSrcs := {src}\<rparr>)"
    by (simp add: room_ids_def newRoom_def)
  moreover have "mgr_wf (new_room src s)"
    by (rule mgr_wf_atom [OF env_atom.at_new [where ok = "launched fid", OF at_new(1)] LI_parts(1) [OF at_new(2)]])
  ultimately show ?case
    using LI_parts(2,3) [OF at_new(2)] by (simp add: LI_def) (simp add: new_room_def)
next
  case (at_alias s src f r c)
  have "room_ids fid (m_heap s r\<lparr>rs_wopiSrcs := insert src (rs_wopiSrcs (m_heap s r))\<rparr>)"
    using LI_parts(2,3) [OF at_alias(6), where r = r] at_alias(2-5)
    by (simp add: room_ids_def)
  moreover have "mgr_wf (alias_room src r s)"
    by (rule mgr_wf_atom [OF env_atom.at_alias [where ok = "launched fid", OF at_alias(1-5)] LI_parts(1) [OF at_alias(6)]])
  ultimately show ?case
    using LI_parts(2,3) [OF at_alias(6)] by (simp add: LI_def) (simp add: alias_room_def)
next
  case (at_index s src r f c)
  have src: "src \<in> rs_wopiSrcs (m_heap s r)"
    using at_index(1) LI_parts(1) [OF at_index(6)] by (simp add: mgr_wf_def)
  have old: "rs_fileID (m_heap s r) \<noteq> [] \<Longrightarrow> rs_fileID (m_heap s r) = f"
    using LI_parts(2) [OF at_index(6), of r] src at_index(3-5)
    by (auto simp: room_ids_def)
  have "room_ids fid (m_heap s r\<lparr>rs_fileID := f, rs_lockValue := lockValueFor f\<rparr>)"
    using LI_parts(2) [OF at_index(6), of r] src at_index(2-5)
    by (auto simp: room_ids_def)
  moreover have "mgr_wf (index_room f r s)"
    by (rule mgr_wf_atom [OF env_atom.at_index [where ok = "launched fid", OF at_index(1-5)] LI_parts(1) [OF at_index(6)]])
  ultimately show ?case
    using LI_parts(2,3) [OF at_index(6)] old at_index(2)
    by (simp add: LI_def) (auto simp: index_room_def)
next
  case (at_tokens s c r now)
  have "rs_fileID (m_heap s r) \<noteq> []" using at_tokens(2,3) by auto
  then have "room_ids fid (observeTokens c now (m_heap s r))"
    using LI_parts(2) [OF at_tokens(4), of r] by (simp add: room_ids_def observeTokens_def)
  moreover have "mgr_wf (upd_room r (observeTokens c now) s)"
    by (rule mgr_wf_step [OF step_tokens LI_parts(1) [OF at_tokens(4)]])
  ultimately show ?case
    using LI_parts(2,3) [OF at_tokens(4)] by (simp add: LI_def) (simp add: observeTokens_def)
next
  case (at_put s src r d u)
  then have "LI fid (upd_room r (putRoom d (m_clock s) u) s)"
    by (intro LI_upd other_same_ids mgr_wf_step step_put LI_parts(1))
  then show ?case by simp
next
  case (at_resolve s src r ow)
  then show ?case by (intro LI_upd other_same_ids mgr_wf_step step_resolve LI_parts(1))
next
  case (at_room f s r)
  then show ?case by (intro LI_upd env_same_ids mgr_wf_step step_env LI_parts(1))
next
  case (at_notify r s)
  then have "LI fid (upd_room r (reportFlags (m_clock s)) s)"
    by (intro LI_upd other_same_ids mgr_wf_step step_report LI_parts(1))
  with at_notify show ?case by (simp add: notifyLocked_exec)
qed simp_all

interpretation launch: loop_invariant "launched fid" "LI fid" "\<lambda>r sc q s. LI fid s" for fid
proof unfold_locales
  show "LI fid (newManager mb hexp hconf hrel now host)" for mb hexp hconf hrel now and host :: 'h
    by (simp add: LI_def newManager_def mgr_wf_def room_ids_def newRoom_def)
  show "r < m_next s" if "LI fid s" "(src, r) \<in> set (m_rooms s)" for src r and s :: "'h sys"
    using that by (auto dest: LI_parts(1) intro: mgr_wf_rooms)
  show "LI fid (exec (deleteRoomLocked r) s)" if "LI fid s" for r and s :: "'h sys"
    using mgr_wf_delete [OF LI_parts(1) [OF that], of r] LI_parts(2,3) [OF that]
    by (simp add: LI_def) (auto simp: deleteRoom_exec split: if_splits)
  show "LI fid (upd_room r f s)" if "loop_update f" "LI fid s" for f r and s :: "'h sys"
    using that by (intro LI_upd loop_same_ids mgr_wf_step step_loop LI_parts(1))
  show "LI fid (upd_room r f s)" if "loop_update f" "LI fid s" for f r and s :: "'h sys"
    using that by (intro LI_upd loop_same_ids mgr_wf_step step_loop LI_parts(1))
  show "LI fid (upd_room r (saveSuccessRoom now v q) s)" if "LI fid s" for r now v q and s :: "'h sys"
    using that by (intro LI_upd other_same_ids mgr_wf_step step_saved LI_parts(1))
qed (auto intro: LI_atom)

text \<open>
  A dropped room is unreachable: in a run whose claims come from the launch,
  once a room is deleted no \<open>WOPISrc\<close> and no file id leads to it, and every other
  room keeps the entries it had unless it was reached under one of that room's
  \<open>WOPISrc\<close> spellings.
\<close>

theorem deleted_room_unreachable:
  assumes "mgr_reachable (launched fid) c s"
  shows "map_of (m_rooms (exec (deleteRoomLocked r) s)) src \<noteq> Some r
    \<and> m_byFileID (exec (deleteRoomLocked r) s) f \<noteq> Some r
    \<and> (src \<notin> rs_wopiSrcs (m_heap s r) \<longrightarrow>
         map_of (m_rooms (exec (deleteRoomLocked r) s)) src = map_of (m_rooms s) src)"
proof -
  have li: "LI fid s" by (rule launch.reachable_I [OF assms])
  then have wf: "distinct (map fst (m_rooms s))"
    "\<And>src r. map_of (m_rooms s) src = Some r \<Longrightarrow> src \<in> rs_wopiSrcs (m_heap s r)"
    by (auto dest!: LI_parts(1) simp: mgr_wf_def)
  show ?thesis
    using wf LI_parts(3) [OF li, of f r]
    by (auto simp: deleteRoom_exec map_of_filter_key simp del: map_of_eq_Some_iff)
qed

section \<open>The calls a save makes\<close>

text \<open>
  \<open>emits Q m P\<close>: run from a state with \<open>Q\<close>, \<open>m\<close> ends with \<open>Q\<close>, having appended
  to the log calls \<open>new\<close> that satisfy \<open>P\<close> with its result.
\<close>

definition emits ::
  "('h sys \<Rightarrow> bool) \<Rightarrow> ('h sys, 'a) state \<Rightarrow> ('a \<Rightarrow> wopi_call list \<Rightarrow> bool) \<Rightarrow> bool" where
  "emits Q m P \<longleftrightarrow>
     (\<forall>s. Q s \<longrightarrow> wp m (\<lambda>a t. Q t \<and> (\<exists>new. m_calls t = m_calls s @ new \<and> P a new)) s)"

lemma emits_bind_dep:
  assumes "emits Q m P" and "\<And>a xs. P a xs \<Longrightarrow> emits Q (f a) (R a)"
    and "\<And>a b xs ys. P a xs \<Longrightarrow> R a b ys \<Longrightarrow> S b (xs @ ys)"
  shows "emits Q (State_Monad.bind m f) S"
  unfolding emits_def
proof (intro allI impI)
  fix s assume s: "Q s"
  have "wp m (\<lambda>a t. Q t \<and> (\<exists>new. m_calls t = m_calls s @ new \<and> P a new)) s"
    using assms(1) s by (simp add: emits_def)
  then have "wp m (\<lambda>a. wp (f a) (\<lambda>b u. Q u \<and> (\<exists>new. m_calls u = m_calls s @ new \<and> S b new))) s"
  proof (rule wp_mono)
    fix a t assume "Q t \<and> (\<exists>new. m_calls t = m_calls s @ new \<and> P a new)"
    then obtain xs where a: "Q t" "m_calls t = m_calls s @ xs" "P a xs" by blast
    have "wp (f a) (\<lambda>b u. Q u \<and> (\<exists>new. m_calls u = m_calls t @ new \<and> R a b new)) t"
      using assms(2) [OF a(3)] a(1) by (simp add: emits_def)
    then show "wp (f a) (\<lambda>b u. Q u \<and> (\<exists>new. m_calls u = m_calls s @ new \<and> S b new)) t"
    proof (rule wp_mono)
      fix b u assume b: "Q u \<and> (\<exists>new. m_calls u = m_calls t @ new \<and> R a b new)"
      then obtain ys where "m_calls u = m_calls t @ ys" "R a b ys" by blast
      then have "m_calls u = m_calls s @ (xs @ ys)" "S b (xs @ ys)"
        using a assms(3) by auto
      with b show "Q u \<and> (\<exists>new. m_calls u = m_calls s @ new \<and> S b new)" by blast
    qed
  qed
  then show "wp (State_Monad.bind m f) (\<lambda>b u. Q u \<and> (\<exists>new. m_calls u = m_calls s @ new \<and> S b new)) s"
    by simp
qed

lemma emits_bind:
  assumes "emits Q m P" and "\<And>a. emits Q (f a) (R a)"
    and "\<And>a b xs ys. P a xs \<Longrightarrow> R a b ys \<Longrightarrow> S b (xs @ ys)"
  shows "emits Q (State_Monad.bind m f) S"
  by (rule emits_bind_dep [where P = P and R = R]) (use assms in auto)

lemma emits_mono: "emits Q m P \<Longrightarrow> (\<And>a new. P a new \<Longrightarrow> R a new) \<Longrightarrow> emits Q m R"
  unfolding emits_def by (blast intro: wp_mono)

text \<open>A step that makes no call.\<close>

definition silent :: "('h sys, 'a) state \<Rightarrow> bool" where
  "silent m \<longleftrightarrow> (\<forall>s. wp m (\<lambda>_ t. m_calls t = m_calls s) s)"

lemma silent_rules:
  "silent (ret a)" "silent (gets f)" "silent lock_mu" "silent (room_get r g)" "silent (room_upd r u)"
  "silent clock_now" "silent wake" "silent (call_hook hk)" "silent (notifyLocked r)"
  by (simp_all add: silent_def lock_mu_def room_get_def room_upd_def clock_now_def wake_def
      call_hook_def notifyLocked_def)

lemma silent_bind: "silent m \<Longrightarrow> (\<And>a. silent (f a)) \<Longrightarrow> silent (State_Monad.bind m f)"
proof -
  assume m: "silent m" and f: "\<And>a. silent (f a)"
  have "wp m (\<lambda>a. wp (f a) (\<lambda>_ t. m_calls t = m_calls s)) s" for s
  proof (rule wp_mono [where Q = "\<lambda>_ t. m_calls t = m_calls s"])
    show "wp m (\<lambda>_ t. m_calls t = m_calls s) s" using m by (simp add: silent_def)
    show "wp (f a) (\<lambda>_ u. m_calls u = m_calls s) t" if "m_calls t = m_calls s" for a t
      using f [of a] unfolding silent_def that [symmetric] by blast
  qed
  then show ?thesis by (simp add: silent_def)
qed

lemma silent_if: "silent m \<Longrightarrow> silent n \<Longrightarrow> silent (if b then m else n)"
  by simp

lemma silent_ops:
  "silent (markLocked r now)" "silent (markTokenFailed r now t)" "silent (markTokenNoWrite r now t)"
  "silent (notifyState r)" "silent (enterConflict r l d)" "silent (classifyTokenAttempt r now t e)"
  "silent (recordSaveFailure r now b)" "silent (recordSaveSuccess r now v q)"
  "silent (resolveForeignLock r l cur e now)"
  unfolding markLocked_def markTokenFailed_def markTokenNoWrite_def notifyState_def enterConflict_def
    classifyTokenAttempt_def recordSaveFailure_def recordSaveSuccess_def resolveForeignLock_def
  by (intro silent_bind silent_rules silent_if)+

lemma emits_silent:
  "silent m \<Longrightarrow> keeps Q m \<Longrightarrow> (\<And>a. P a []) \<Longrightarrow> emits Q m P"
  unfolding emits_def silent_def keeps_def wp_def by (force split: prod.splits)

lemma emits_ret: "P a [] \<Longrightarrow> emits Q (ret a) P"
  by (simp add: emits_def)

lemma emits_then:
  assumes "silent m" "keeps Q m" "\<And>a. emits Q (f a) P"
  shows "emits Q (State_Monad.bind m f) P"
  by (rule emits_bind [where P = "\<lambda>_ new. new = []" and R = "\<lambda>_. P"])
    (use assms in \<open>auto intro: emits_silent\<close>)

lemma emits_get:
  "(\<And>s. Q s \<Longrightarrow> g (m_heap s r) = v) \<Longrightarrow> emits Q (f v) P \<Longrightarrow>
     emits Q (State_Monad.bind (room_get r g) f) P"
  by (simp add: emits_def room_get_def)

lemma emits_gets: "(\<And>a. emits Q (f a) P) \<Longrightarrow> emits Q (State_Monad.bind (room_get r g) f) P"
  by (simp add: emits_def room_get_def)

lemma emits_call:
  assumes "keeps Q (host_call h x)"
  shows "emits Q (host_call h x) (\<lambda>a new. new = [x a])"
  using assms by (simp add: emits_def keeps_def host_call_def clock_now_def)

text \<open>A call and what follows it, with the call put in front of what that emits.\<close>

lemma emits_call_then:
  assumes "\<And>src. keeps Q (host_call (h src) (x src))"
    and "\<And>a. emits Q (f a) (\<lambda>b ys. \<forall>src. P b (x src a # ys))"
  shows "emits Q (State_Monad.bind (do { src \<leftarrow> room_get r rs_wopiSrc; host_call (h src) (x src) }) f) P"
proof -
  have "emits Q (do { src \<leftarrow> room_get r rs_wopiSrc; host_call (h src) (x src) })
      (\<lambda>a new. \<exists>src. new = [x src a])"
    by (intro emits_gets emits_mono [OF emits_call [OF assms(1)]]) blast
  then show ?thesis by (rule emits_bind [OF _ assms(2)]) auto
qed

section \<open>A save goes out under the lock\<close>

text \<open>A call after which the host holds lock \<open>l\<close> for the file, seen with token \<open>tok\<close>.\<close>

fun holds_lock :: "rid \<Rightarrow> string \<Rightarrow> string \<Rightarrow> wopi_call \<Rightarrow> bool" where
  "holds_lock r tok l (CallLock q src t k res) =
     (q = r \<and> t = tok \<and> k = l
      \<and> (case res of None \<Rightarrow> True | Some e \<Rightarrow> as_lock_conflict e = Some l))"
| "holds_lock r tok l (CallUnlockAndRelock q src t k old res) = (q = r \<and> t = tok \<and> k = l \<and> res = None)"
| "holds_lock r tok l call = False"

fun is_put :: "wopi_call \<Rightarrow> bool" where
  "is_put (CallPutFile r src tok lock body res) = True"
| "is_put call = False"

definition locks_only :: "rid \<Rightarrow> string \<Rightarrow> string \<Rightarrow> wopi_error option \<Rightarrow> wopi_call list \<Rightarrow> bool" where
  "locks_only r tok l res new \<longleftrightarrow>
     (\<forall>x\<in>set new. \<not> is_put x) \<and> (res = None \<longrightarrow> new \<noteq> [] \<and> holds_lock r tok l (last new))"

text \<open>The invariant under which one save is watched: room \<open>r\<close> has file \<open>f\<close> and its lock value.\<close>

definition LV :: "(string \<Rightarrow> string) \<Rightarrow> rid \<Rightarrow> string \<Rightarrow> bool \<Rightarrow> 'h sys \<Rightarrow> bool" where
  "LV fid r f d s \<longleftrightarrow> LI fid s \<and> f \<noteq> [] \<and> r < m_next s \<and> sched_ok (launched fid) (m_sched s)
     \<and> rs_fileID (m_heap s r) = f \<and> rs_lockValue (m_heap s r) = lockValueFor f
     \<and> (d \<longrightarrow> rs_firstSaveDone (m_heap s r))"

lemma loop_update_lock:
  assumes "loop_update f"
  shows "rs_fileID (f rs) = rs_fileID rs" "rs_lockValue (f rs) = rs_lockValue rs"
    "rs_firstSaveDone rs \<Longrightarrow> rs_firstSaveDone (f rs)"
  using assms by (cases; simp add: update_defs)+

lemma env_update_lock:
  assumes "env_update f"
  shows "rs_fileID (f rs) = rs_fileID rs" "rs_lockValue (f rs) = rs_lockValue rs"
    "rs_firstSaveDone (f rs) = rs_firstSaveDone rs"
  using assms by (cases; simp add: update_defs)+

lemma LV_atom:
  assumes "env_atom (launched fid) s t" "LV fid r f d s"
  shows "LV fid r f d t"
proof -
  have li: "LI fid s" "r < m_next s" using assms(2) by (simp_all add: LV_def)
  have r: "rs_fileID (m_heap s r) = f" "f \<noteq> []" using assms(2) by (simp_all add: LV_def)
  have "rs_fileID (m_heap t r) = rs_fileID (m_heap s r)
      \<and> rs_lockValue (m_heap t r) = (if rs_lockValue (m_heap s r) = lockValueFor f then lockValueFor f
                                     else rs_lockValue (m_heap t r))
      \<and> rs_firstSaveDone (m_heap t r) = rs_firstSaveDone (m_heap s r)"
    using assms(1) li r
  proof (induction rule: env_atom.induct)
    case (at_index s src q g c)
    show ?case
    proof (cases "q = r")
      case True
      have "src \<in> rs_wopiSrcs (m_heap s r)"
        using at_index(1) LI_parts(1) [OF at_index(6)] True by (simp add: mgr_wf_def)
      then have "fid src = f"
        using LI_parts(2) [OF at_index(6), of r] at_index(8,9) by (simp add: room_ids_def)
      then show ?thesis using at_index True by (simp add: index_room_def)
    qed (simp add: index_room_def)
  qed (auto simp: new_room_def alias_room_def observeTokens_def putRoom_def env_update_lock resolveRoom_def Let_def
        notifyLocked_exec reportFlags_def)
  moreover have "LI fid t" by (rule LI_atom [OF assms(1) li(1)])
  ultimately show ?thesis
    using assms(2) env_atom_frame(2,3) [OF assms(1)] by (auto simp: LV_def split: if_splits)
qed

interpretation lv: loop_steps "launched fid" "LV fid r f d" r for fid r f d
proof unfold_locales
  show "LV fid r f d (upd_room r u s)" if "loop_update u" "LV fid r f d s" for u and s :: "'h sys"
  proof -
    have "LI fid (upd_room r u s)"
      using that by (intro LI_upd loop_same_ids mgr_wf_step step_loop LI_parts(1) [of fid])
        (simp_all add: LV_def)
    then show ?thesis using that by (simp add: LV_def loop_update_lock)
  qed
  show "LV fid r f d t" if "env_atom (launched fid) s t" "LV fid r f d s" for s t :: "'h sys"
    using that by (rule LV_atom)
qed (auto simp: LV_def)

lemma LV_lock: "LV fid r f d s \<Longrightarrow> rs_lockValue (m_heap s r) = lockValueFor f"
  by (simp add: LV_def)

lemma emits_resolveForeignLock:
  "emits (LV fid r f d) (resolveForeignLock r l cur e now)
     (\<lambda>res new. new = [] \<and> (res = None \<longrightarrow> cur = l))"
  unfolding resolveForeignLock_def
  by (auto intro!: emits_then silent_ops lv.keeps_marks emits_ret)

lemma emits_option:
  "(x = None \<Longrightarrow> emits Q m P) \<Longrightarrow> (\<And>a. x = Some a \<Longrightarrow> emits Q (f a) P) \<Longrightarrow>
     emits Q (case x of None \<Rightarrow> m | Some a \<Rightarrow> f a) P"
  by (cases x) auto

lemma emits_sum:
  "(\<And>a. x = Inl a \<Longrightarrow> emits Q (f a) P) \<Longrightarrow> (\<And>b. x = Inr b \<Longrightarrow> emits Q (g b) P) \<Longrightarrow>
     emits Q (case x of Inl a \<Rightarrow> f a | Inr b \<Rightarrow> g b) P"
  by (cases x) auto

lemma emits_if:
  "(b \<Longrightarrow> emits Q m P) \<Longrightarrow> (\<not> b \<Longrightarrow> emits Q n P) \<Longrightarrow> emits Q (if b then m else n) P"
  by simp

lemma emits_lockValue:
  "emits (LV fid r f d) (g (lockValueFor f)) P \<Longrightarrow>
     emits (LV fid r f d) (State_Monad.bind (room_get r rs_lockValue) g) P"
  by (rule emits_get [where v = "lockValueFor f"]) (simp_all add: LV_lock)

lemmas emits_rules = emits_lockValue emits_call_then emits_option emits_sum emits_if emits_ret
  emits_then [OF silent_ops(1)] emits_then [OF silent_ops(5)]
  emits_then [OF silent_rules(3)] emits_then [OF silent_rules(5)]
  lv.keeps_host_call lv.keeps_marks lv.keeps_lock_mu lv.keeps_update

lemma emits_plainLock:
  "emits (LV fid r f d) (plainLock c r tok l now) (locks_only r tok l)"
  unfolding plainLock_def callLock_def
  by (intro emits_rules emits_mono [OF emits_resolveForeignLock])
    (auto simp: locks_only_def)

lemma emits_ensureLocked:
  "emits (LV fid r f d) (ensureLocked c r tok now) (locks_only r tok (lockValueFor f))"
  unfolding ensureLocked_def callUnlockAndRelock_def
  by (intro emits_rules emits_gets emits_mono [OF emits_plainLock] upd_force)
    (auto simp: locks_only_def)

text \<open>
  What one save appends: each \<open>PutFile\<close> either carries the lock value and comes
  right after a call that made the host hold it, with the same token, or carries
  no lock, which needs the latch of the first save.
\<close>

definition put_guarded :: "rid \<Rightarrow> string \<Rightarrow> bool \<Rightarrow> wopi_call list \<Rightarrow> bool" where
  "put_guarded r l first new \<longleftrightarrow>
     (\<forall>pre q src tok lock body res post. new = pre @ CallPutFile q src tok lock body res # post \<longrightarrow>
        q = r \<and> ((lock = l \<and> pre \<noteq> [] \<and> holds_lock r tok l (last pre)) \<or> (lock = [] \<and> first)))"

lemma put_guarded_no_puts: "(\<forall>x\<in>set new. \<not> is_put x) \<Longrightarrow> put_guarded r l first new"
  by (force simp: put_guarded_def)

lemma put_guardedD:
  "put_guarded r l b new \<Longrightarrow> new = pre @ CallPutFile q src tok lock body res # post \<Longrightarrow>
     q = r \<and> ((lock = l \<and> pre \<noteq> [] \<and> holds_lock r tok l (last pre)) \<or> (lock = [] \<and> b))"
  unfolding put_guarded_def by blast

lemma put_guarded_mono: "put_guarded r l b new \<Longrightarrow> (b \<Longrightarrow> b') \<Longrightarrow> put_guarded r l b' new"
  unfolding put_guarded_def by blast

lemma put_guarded_append:
  assumes "put_guarded r l b xs" "put_guarded r l b ys"
  shows "put_guarded r l b (xs @ ys)"
  unfolding put_guarded_def
proof (intro allI impI)
  fix pre q src tok lock body res post
  assume eq: "xs @ ys = pre @ CallPutFile q src tok lock body res # post"
  consider us where "xs = pre @ CallPutFile q src tok lock body res # us"
    | us where "pre = xs @ us" "ys = us @ CallPutFile q src tok lock body res # post"
    using eq by (auto simp: append_eq_append_conv2 append_eq_Cons_conv)
  then show "q = r \<and> ((lock = l \<and> pre \<noteq> [] \<and> holds_lock r tok l (last pre)) \<or> (lock = [] \<and> b))"
  proof cases
    case 1
    from put_guardedD [OF assms(1) this] show ?thesis .
  next
    case 2
    from put_guardedD [OF assms(2) this(2)] this(1) show ?thesis by auto
  qed
qed

lemma put_guarded_locked:
  assumes "locks_only r tok l None xs"
  shows "put_guarded r l b (xs @ [CallPutFile r src tok l body res])"
  using assms
  by (auto simp: put_guarded_def locks_only_def append_eq_append_conv2 append_eq_Cons_conv
      Cons_eq_append_conv)

lemma put_guarded_unlocked:
  assumes "\<forall>x\<in>set xs. \<not> is_put x" "b"
  shows "put_guarded r l b (xs @ [CallPutFile r src tok [] body res])"
  using assms
  by (auto simp: put_guarded_def append_eq_append_conv2 append_eq_Cons_conv Cons_eq_append_conv)

lemma LV_success: "keeps (LV fid r f d) (recordSaveSuccess r now v q)"
proof -
  have "keeps (LV fid r f d) (room_upd r (saveSuccessRoom now v q))"
  proof (rule keepsI)
    fix s assume s: "LV fid r f d s"
    then have "LI fid (upd_room r (saveSuccessRoom now v q) s)"
      by (intro LI_upd other_same_ids mgr_wf_step step_saved LI_parts(1) [of fid]) (simp_all add: LV_def)
    then show "wp (room_upd r (saveSuccessRoom now v q)) (\<lambda>_. LV fid r f d) s"
      using s by (simp add: room_upd_def LV_def saveSuccessRoom_def)
  qed
  then show ?thesis
    unfolding recordSaveSuccess_def by (intro keeps_bind lv.keeps_lock_mu)
qed

text \<open>One candidate of the ladder.\<close>

lemma emits_attemptSave:
  "emits (LV fid r f d) (attemptSave c r cand now sc q (lockValueFor f) first)
     (\<lambda>_. put_guarded r (lockValueFor f) first)"
proof -
  let ?tok = "tc_token cand"
  let ?G = "put_guarded r (lockValueFor f) first"
  have put: "?G (xs @ CallPutFile r src ?tok (lockValueFor f) (slice_bytes sc) res # [])"
    if "locks_only r ?tok (lockValueFor f) None xs" for xs src res
    using put_guarded_locked [OF that] .
  have unlocked: "?G (xs @ CallPutFile r src ?tok [] (slice_bytes sc) res # [])"
    if "locks_only r ?tok (lockValueFor f) (Some e) xs" first for xs src res e
    using put_guarded_unlocked [of xs first] that by (auto simp: locks_only_def)
  have none: "?G xs" if "locks_only r ?tok (lockValueFor f) x xs" for x xs
    using that by (auto simp: locks_only_def intro: put_guarded_no_puts)
  show ?thesis
    unfolding attemptSave_def
  proof (rule emits_bind [OF emits_ensureLocked,
        where R = "\<lambda>x b ys. \<forall>xs. locks_only r ?tok (lockValueFor f) x xs \<longrightarrow> ?G (xs @ ys)"])
    show "emits (LV fid r f d)
       (case lockErr of
        Some err \<Rightarrow> do {
          res \<leftarrow> classifyTokenAttempt r now (tc_token cand) err;
          if tar_rejected res then ret (SaveOutcomeTryNext err False)
          else if tar_noWrite res then ret (SaveOutcomeTryNext err True)
          else if tar_conflict res \<noteq> None then ret SaveOutcomeConflictHandled
          else if first then do {
            put \<leftarrow> callPutFile c r (tc_token cand) [] sc;
            (case put of
               Inr version \<Rightarrow> do {
                 recordSaveSuccess r now version q;
                 ret SaveOutcomeDone }
             | Inl putErr \<Rightarrow> ret (SaveOutcomeTryNext err False)) }
          else ret (SaveOutcomeTryNext err False) }
      | None \<Rightarrow> do {
          put \<leftarrow> callPutFile c r (tc_token cand) (lockValueFor f) sc;
          (case put of
             Inr version \<Rightarrow> do {
               recordSaveSuccess r now version q;
               ret SaveOutcomeDone }
           | Inl err \<Rightarrow> do {
               res \<leftarrow> classifyTokenAttempt r now (tc_token cand) err;
               if tar_rejected res then ret (SaveOutcomeTryNext err False)
               else if tar_noWrite res then ret (SaveOutcomeTryNext err True)
               else (case tar_conflict res of
                 Some cur \<Rightarrow>
                   if cur \<noteq> [] \<and> cur \<noteq> lockValueFor f then do {
                     enterConflict r cur True;
                     ret SaveOutcomeConflictHandled }
                   else do {
                     lock_mu;
                     room_upd r (\<lambda>rs. rs\<lparr>rs_haveLock := False\<rparr>);
                     ret (SaveOutcomeTryNext err False) }
               | None \<Rightarrow> ret (SaveOutcomeTryNext err False)) }) })
       (\<lambda>b ys. \<forall>xs. locks_only r ?tok (lockValueFor f) lockErr xs \<longrightarrow> ?G (xs @ ys))" for lockErr
      unfolding callPutFile_def
      by (intro emits_rules emits_then [OF silent_ops(6)] emits_then [OF silent_ops(8)]
          lv.keeps_classify LV_success upd_unlocked)
        (use put unlocked none in auto)
  qed auto
qed

lemma emits_saveLoop:
  "emits (LV fid r f d) (saveLoop c r now sc q (lockValueFor f) first a ladder)
     (\<lambda>_. put_guarded r (lockValueFor f) first)"
proof (induction ladder arbitrary: a)
  case Nil
  show ?case
    by (auto intro!: emits_silent silent_ops lv.keeps_marks put_guarded_no_puts)
next
  case (Cons cand ladder)
  have nil: "emits (LV fid r f d) (ret ()) (\<lambda>_. put_guarded r (lockValueFor f) first)"
    by (rule emits_ret) (simp add: put_guarded_no_puts)
  have "emits (LV fid r f d)
      (case x of SaveOutcomeDone \<Rightarrow> ret () | SaveOutcomeConflictHandled \<Rightarrow> ret ()
       | SaveOutcomeTryNext e w \<Rightarrow>
           saveLoop c r now sc q (lockValueFor f) first (if w then a else False) ladder)
      (\<lambda>_. put_guarded r (lockValueFor f) first)" for x
    by (cases x) (simp_all only: saveAttempt.case nil Cons.IH)
  then show ?case
    unfolding saveLoop.simps by (rule emits_bind [OF emits_attemptSave]) (rule put_guarded_append)
qed

lemma emits_performSave:
  "emits (LV fid r f (\<not> first)) (performSave c r now) (\<lambda>_. put_guarded r (lockValueFor f) first)"
proof -
  let ?P = "\<lambda>(_::unit). put_guarded r (lockValueFor f) first"
  let ?Q = "LV fid r f (\<not> first)"
  have nil: "?P () []" by (simp add: put_guarded_no_puts)
  have weaken: "emits ?Q (saveLoop c r now sc q (lockValueFor f) b True ladder) ?P"
    if "b \<Longrightarrow> first" for sc q b ladder
    by (rule emits_mono [OF emits_saveLoop]) (erule put_guarded_mono, rule that)
  have tail: "emits ?Q (do {
       firstEverAttempt \<leftarrow> room_get r (\<lambda>rs. \<not> rs_firstSaveDone rs);
       room_upd r (\<lambda>rs. rs\<lparr>rs_firstSaveDone := True\<rparr>);
       if ladder = [] then recordSaveFailure r now False
       else saveLoop c r now sc q (lockValueFor f) firstEverAttempt True ladder }) ?P"
    for sc q ladder
  proof -
    have fail: "emits ?Q (recordSaveFailure r now b) ?P" for b
      by (auto intro!: emits_silent silent_ops lv.keeps_marks put_guarded_no_puts)
    have body: "emits ?Q (do {
       room_upd r (\<lambda>rs. rs\<lparr>rs_firstSaveDone := True\<rparr>);
       if ladder = [] then recordSaveFailure r now False
       else saveLoop c r now sc q (lockValueFor f) b True ladder }) ?P" if "b \<Longrightarrow> first" for b
      by (intro emits_rules upd_firstSave fail weaken that)
    have "first" if "?Q s" "\<not> rs_firstSaveDone (m_heap s r)" for s :: "'a sys"
      using that by (auto simp: LV_def)
    then show ?thesis
      using body unfolding emits_def room_get_def wp_bind wp_gets by blast
  qed
  show ?thesis
    unfolding performSave_def by (intro emits_rules emits_gets tail nil)
qed

text \<open>
  C20. A save always locks before it writes: take any state of a run with launch
  claims, a room of file \<open>f\<close>, and any interference. Among the WOPI calls one save
  of it adds, every \<open>PutFile\<close> carries the file's lock value and comes directly after
  a \<open>LOCK\<close> or \<open>UNLOCK_AND_RELOCK\<close> by the same token which left that value on the
  host; the one exception, a \<open>PutFile\<close> with no lock, is possible only while the
  room has not attempted its first save.
\<close>

theorem save_writes_under_lock:
  assumes "mgr_reachable (launched fid) c s" and "sched_ok (launched fid) (m_sched s)"
    and "r < m_next s" and "rs_fileID (m_heap s r) = f" and "f \<noteq> []"
  shows "\<exists>new. m_calls (exec (performSave c' r now) s) = m_calls s @ new
    \<and> (\<forall>pre q src tok lock body res post. new = pre @ CallPutFile q src tok lock body res # post \<longrightarrow>
        q = r \<and> ((lock = lockValueFor f \<and> pre \<noteq> [] \<and> holds_lock r tok (lockValueFor f) (last pre))
                \<or> (lock = [] \<and> \<not> rs_firstSaveDone (m_heap s r))))"
proof -
  have lv: "LV fid r f (rs_firstSaveDone (m_heap s r)) s"
    using launch.reachable_I [OF assms(1)] lockv.reachable_R [OF assms(1), of r] assms(2-5)
    by (simp add: LV_def lock_value_ok_def)
  then obtain new where "m_calls (exec (performSave c' r now) s) = m_calls s @ new"
    "put_guarded r (lockValueFor f) (\<not> rs_firstSaveDone (m_heap s r)) new"
    using emits_performSave [of fid r f "\<not> rs_firstSaveDone (m_heap s r)" c' now]
    by (auto simp: emits_def wp_exec)
  then show ?thesis unfolding put_guarded_def by blast
qed

text \<open>The example run, seen as one whose claims come from a launch.\<close>

lemma easyStart_launched: "mgr_reachable (launched (\<lambda>_. ''f1'')) c easyStart"
  unfolding easyStart_def by (intro mgr_event mgr_init) simp_all

theorem deleted_room_unreachable_witness:
  "map_of (m_rooms (exec (deleteRoomLocked 0) easyStart)) ''src'' \<noteq> Some 0"
  using deleted_room_unreachable [OF easyStart_launched, of 0 "''src''" "''f1''"] by blast

theorem save_writes_under_lock_witness:
  "\<exists>new. m_calls (exec (performSave easyHost 0 second) easyStart) = m_calls easyStart @ new
    \<and> (\<forall>pre q src tok lock body res post. new = pre @ CallPutFile q src tok lock body res # post \<longrightarrow>
        q = 0 \<and> ((lock = lockValueFor ''f1'' \<and> pre \<noteq> [] \<and> holds_lock 0 tok (lockValueFor ''f1'') (last pre))
                \<or> (lock = [] \<and> \<not> rs_firstSaveDone (m_heap easyStart 0))))"
  by (rule save_writes_under_lock [OF easyStart_launched]) (simp_all add: easyStart_room)

section \<open>A conflict pauses everything but reading\<close>

fun no_resolve :: "event \<Rightarrow> bool" where
  "no_resolve (EvResolve src overwrite) = False"
| "no_resolve e = True"

fun reading_call :: "wopi_call \<Rightarrow> bool" where
  "reading_call (CallCheckFileInfo r src tok res) = True"
| "reading_call (CallUnlock r src tok lock res) = True"
| "reading_call call = False"

definition CQ :: "rid \<Rightarrow> 'h sys \<Rightarrow> bool" where
  "CQ r s \<longleftrightarrow> r < m_next s \<and> rs_conflict (m_heap s r) \<and> sched_ok no_resolve (m_sched s)"

lemma loop_update_conflict: "loop_update f \<Longrightarrow> rs_conflict rs \<Longrightarrow> rs_conflict (f rs)"
  by (erule loop_update.cases; simp add: update_defs)

lemma env_update_conflict: "env_update f \<Longrightarrow> rs_conflict (f rs) = rs_conflict rs"
  by (erule env_update.cases; simp add: update_defs)

lemma CQ_atom:
  assumes "env_atom no_resolve s t" "CQ r s"
  shows "CQ r t"
proof -
  have "rs_conflict (m_heap t r) = rs_conflict (m_heap s r)"
    using assms(1) assms(2)
    by (induction rule: env_atom.induct)
      (auto simp: CQ_def new_room_def alias_room_def index_room_def observeTokens_def putRoom_def
        env_update_conflict notifyLocked_exec reportFlags_def)
  then show ?thesis
    using assms(2) env_atom_frame(2,3) [OF assms(1)] by (simp add: CQ_def)
qed

interpretation paused: loop_steps no_resolve "CQ r" r for r
proof unfold_locales
  show "CQ r t" if "env_atom no_resolve s t" "CQ r s" for s t :: "'h sys"
    using that by (rule CQ_atom)
qed (auto simp: CQ_def loop_update_conflict)

text \<open>Steps that append reading calls only.\<close>

definition reads :: "rid \<Rightarrow> ('h sys, 'a) state \<Rightarrow> bool" where
  "reads r m \<longleftrightarrow> emits (CQ r) m (\<lambda>_. list_all reading_call)"

lemma reads_bind: "reads r m \<Longrightarrow> (\<And>a. reads r (f a)) \<Longrightarrow> reads r (State_Monad.bind m f)"
  unfolding reads_def by (erule emits_bind) auto

lemma reads_silent: "silent m \<Longrightarrow> keeps (CQ r) m \<Longrightarrow> reads r m"
  unfolding reads_def by (rule emits_silent) auto

lemma reads_get:
  fixes f :: "'b \<Rightarrow> ('h sys, 'a) state"
  shows "(\<And>s :: 'h sys. CQ r s \<Longrightarrow> g (m_heap s r) = v) \<Longrightarrow> reads r (f v) \<Longrightarrow>
     reads r (State_Monad.bind (room_get r g) f)"
  unfolding reads_def by (rule emits_get)

lemma reads_basic:
  "reads r (ret a)" "reads r lock_mu" "reads r (room_get r g)" "reads r clock_now"
  "reads r (gets h)" "loop_update u \<Longrightarrow> reads r (room_upd r u)"
  "reads r (call_hook hk)" "reads r (notifyState r)" "reads r (enterConflict r l d)"
  by (auto intro!: reads_silent silent_rules silent_ops paused.step_keeps)
    (simp add: keeps_def call_hook_def CQ_def)

lemma reads_calls:
  "reads r (callUnlock c r tok l)" "reads r (callCheckFileInfo c r tok)"
  unfolding callUnlock_def callCheckFileInfo_def reads_def
  by (intro emits_gets emits_mono [OF emits_call [OF paused.keeps_host_call]]; simp)+

lemma reads_when: "(b \<Longrightarrow> reads r m) \<Longrightarrow> reads r (when_do b m)"
  by (simp add: when_do_def reads_basic)

lemma reads_if: "(b \<Longrightarrow> reads r m) \<Longrightarrow> (\<not> b \<Longrightarrow> reads r n) \<Longrightarrow> reads r (if b then m else n)"
  by simp

lemma reads_option:
  "reads r m \<Longrightarrow> (\<And>a. reads r (f a)) \<Longrightarrow> reads r (case x of None \<Rightarrow> m | Some a \<Rightarrow> f a)"
  by (cases x) auto

lemma reads_list:
  "reads r m \<Longrightarrow> (\<And>a as. reads r (f a as)) \<Longrightarrow> reads r (case x of [] \<Rightarrow> m | a # as \<Rightarrow> f a as)"
  by (cases x) auto

lemma reads_sum:
  "(\<And>a. reads r (f a)) \<Longrightarrow> (\<And>a. reads r (g a)) \<Longrightarrow>
     reads r (case x of Inl a \<Rightarrow> f a | Inr b \<Rightarrow> g b)"
  by (cases x) auto

lemma reads_each: "(\<And>x. reads r (f x)) \<Longrightarrow> reads r (each f xs)"
  by (induction xs) (auto intro: reads_basic reads_bind)

lemma reads_delete: "reads r (deleteRoomLocked r)"
proof (rule reads_silent)
  show "silent (deleteRoomLocked r)"
    by (simp add: silent_def wp_exec deleteRoom_exec)
  show "keeps (CQ r) (deleteRoomLocked r)"
    by (simp add: keeps_def wp_exec deleteRoom_exec CQ_def)
qed

lemmas reads_rules = reads_bind reads_when reads_if reads_option reads_list reads_sum reads_each
  reads_delete reads_calls reads_basic

lemma CQ_conflict [simp]: "CQ r s \<Longrightarrow> rs_conflict (m_heap s r)"
  by (simp add: CQ_def)

lemma reads_performSave: "reads r (performSave c r now)"
  unfolding performSave_def
  by (rule reads_bind [OF reads_basic(2)], rule reads_get [where v = True]) (simp_all add: reads_basic)

lemma reads_performClose: "reads r (performClose c r now)"
  unfolding performClose_def by (intro reads_rules reads_performSave upd_unlocked)

lemma reads_gcRoom: "reads r (gcRoom c r b l)"
  unfolding gcRoom_def gcFinish_def by (intro reads_rules upd_unlocked upd_idle)

lemma reads_checkTokenExpiry: "reads r (checkTokenExpiry r now)"
  unfolding checkTokenExpiry_def by (intro reads_rules upd_warned)

lemma reads_checkVersion: "reads r (checkVersion c r now)"
  unfolding checkVersion_def by (intro reads_rules)

lemma planRoom_conflict:
  "rs_conflict rs \<Longrightarrow> \<not> pp_needRefresh (fst (planRoom rs now)) \<and> \<not> pp_lockDue (fst (planRoom rs now))"
  by (simp add: planRoom_def Let_def split: prod.split)
    (auto simp: versionCheckPlanLocked_def Let_def split: if_splits)

lemma saveDue_conflict: "rs_conflict rs \<Longrightarrow> \<not> saveDueLocked rs now"
  by (simp add: saveDueLocked_def)

lemma emits_planPass:
  "emits (CQ r) (planPass r now) (\<lambda>plan new. new = [] \<and> \<not> pp_needRefresh plan \<and> \<not> pp_lockDue plan)"
proof -
  have "wp (planPass r now) (\<lambda>plan t. CQ r t \<and> m_calls t = m_calls s
      \<and> \<not> pp_needRefresh plan \<and> \<not> pp_lockDue plan) s" if "CQ r s" for s :: "'a sys"
  proof -
    have i: "CQ r (interfere s)"
      using keepsD [OF paused.keeps_lock_mu that] by (simp add: lock_mu_def)
    then have "CQ r (upd_room r (\<lambda>rs. snd (planRoom rs now)) (interfere s))"
      by (rule paused.P_update [OF upd_plan])
    with i show ?thesis
      by (simp add: planPass_def lock_mu_def room_get_def room_upd_def planRoom_conflict)
  qed
  then show ?thesis by (simp add: emits_def)
qed

lemma reads_runPlan:
  assumes "\<not> pp_needRefresh plan" "\<not> pp_lockDue plan"
  shows "reads r (runPlan c r now plan)"
  using assms unfolding runPlan_def
  by (auto intro!: reads_rules reads_checkTokenExpiry reads_gcRoom reads_checkVersion
      reads_performClose reads_performSave)

lemma reads_evaluateRoom: "reads r (evaluateRoom c r)"
  unfolding evaluateRoom_def reads_def
proof (rule emits_then [OF silent_rules(6)])
  show "keeps (CQ r) clock_now" by (rule paused.keeps_read)
  show "emits (CQ r) (do { plan \<leftarrow> planPass r now; runPlan c r now plan }) (\<lambda>_. list_all reading_call)" for now
    by (rule emits_bind_dep [OF emits_planPass]) (use reads_runPlan in \<open>auto simp: reads_def\<close>)
qed

text \<open>
  C25. A conflict pauses the room: while a room is in conflict and no user has
  decided on it, a whole background pass, under any other interference and on any
  host, sends no \<open>PutFile\<close>, no \<open>LOCK\<close>, no \<open>REFRESH_LOCK\<close> and no
  \<open>UNLOCK_AND_RELOCK\<close> (at most \<open>CheckFileInfo\<close> and \<open>UNLOCK\<close>), and the room is still
  in conflict afterwards.
\<close>

theorem conflict_pauses_room:
  assumes "r < m_next s" and "rs_conflict (m_heap s r)" and "sched_ok no_resolve (m_sched s)"
  shows "rs_conflict (m_heap (exec (evaluateRoom c r) s) r)
    \<and> (\<exists>new. m_calls (exec (evaluateRoom c r) s) = m_calls s @ new \<and> list_all reading_call new)"
proof -
  have "emits (CQ r) (evaluateRoom c r) (\<lambda>_. list_all reading_call)"
    using reads_evaluateRoom by (simp add: reads_def)
  then show ?thesis
    using assms by (auto simp: emits_def wp_exec CQ_def)
qed

theorem conflict_pauses_room_witness:
  "rs_conflict (m_heap (exec (evaluateRoom lockedHost 0) easyConflict) 0)
    \<and> (\<exists>new. m_calls (exec (evaluateRoom lockedHost 0) easyConflict) = m_calls easyConflict @ new
          \<and> list_all reading_call new)"
  by (rule conflict_pauses_room) (simp_all add: easyConflict_room)

end
