(* ===== verification/RoomClose.thy ===== *)
theory RoomClose
  imports RoomSaves
begin

text \<open>
  How a room ends: the idle sweep drops only rooms with nothing to lose, the
  close path can lose a scene put while it unlocks, and a host that keeps
  answering \<open>LOCK\<close> with an empty 409 leaves no trace of the failure.
\<close>

section \<open>The idle sweep\<close>

text \<open>Interference only adds entries to the room map.\<close>

lemma env_atom_rooms:
  assumes "env_atom ok s t" "map_of (m_rooms s) src = Some r"
  shows "map_of (m_rooms t) src = Some r"
  using assms
  by (induction rule: env_atom.induct)
    (auto simp: new_room_def alias_room_def index_room_def notifyLocked_exec)

lemma env_atoms_rooms:
  "env_atoms ok s t \<Longrightarrow> map_of (m_rooms s) src = Some r \<Longrightarrow> map_of (m_rooms t) src = Some r"
  by (induction rule: rtranclp_induct) (auto intro: env_atom_rooms)

lemma interfere_rooms:
  assumes "map_of (m_rooms s) src = Some r"
  shows "map_of (m_rooms (interfere s)) src = Some r"
proof -
  obtain sch where "env_atoms (\<lambda>_. True) (s\<lparr>m_sched := sch\<rparr>) (interfere s)"
    using interfere_atoms [of "\<lambda>_. True" s] by auto
  then show ?thesis by (rule env_atoms_rooms) (simp add: assms)
qed

text \<open>What may be dropped: nothing unsaved, nobody connected, no session that could come back.\<close>

definition droppable :: "rid \<Rightarrow> 'h sys \<Rightarrow> bool" where
  "droppable r s \<longleftrightarrow> \<not> rs_dirty (m_heap s r) \<and> rs_liveUserCount (m_heap s r) \<le> 0
     \<and> \<not> rs_closing (m_heap s r)
     \<and> (\<forall>e\<in>set (rs_tokens (m_heap s r)). ti_expiresAt (snd e) \<le> m_clock s)"

definition kept_or_droppable :: "string \<Rightarrow> rid \<Rightarrow> 'h sys \<Rightarrow> bool" where
  "kept_or_droppable src r s \<longleftrightarrow> map_of (m_rooms s) src = Some r \<or> droppable r s"

lemma wp_gcFinish:
  assumes "map_of (m_rooms s) src = Some r"
  shows "wp (gcFinish r) (\<lambda>_. kept_or_droppable src r) s"
proof -
  let ?t = "interfere s"
  have t: "map_of (m_rooms ?t) src = Some r" by (rule interfere_rooms [OF assms])
  have "droppable r (exec (deleteRoomLocked r) ?t)"
    if "\<not> roomLiveLocked (m_heap ?t r) (m_clock ?t)" "\<not> rs_dirty (m_heap ?t r)"
      "\<not> rs_closing (m_heap ?t r)"
    using that by (auto simp: droppable_def deleteRoom_exec roomLiveLocked_def list_ex_iff
        split: if_splits)
  moreover have "exec (gcFinish r) s =
      (if \<not> roomLiveLocked (m_heap ?t r) (m_clock ?t) \<and> \<not> rs_dirty (m_heap ?t r)
          \<and> \<not> rs_closing (m_heap ?t r)
       then exec (deleteRoomLocked r) ?t
       else upd_room r (\<lambda>rs. rs\<lparr>rs_idleSince := zero_time\<rparr>) ?t)"
    by (simp add: gcFinish_def exec_def lock_mu_def)
  ultimately show ?thesis
    using t by (auto simp: wp_exec kept_or_droppable_def)
qed

text \<open>
  The idle sweep loses nothing: under any interference and on any host, if
  \<open>gcRoom\<close> takes a room away from a \<open>WOPISrc\<close> that led to it, then at that moment
  the room was saved, had no connected user, no close under way and no token that
  had not expired.
\<close>

theorem gc_drops_only_dead_rooms:
  assumes "map_of (m_rooms s) src = Some r"
    and "map_of (m_rooms (exec (gcRoom c r haveLock lockValue) s)) src \<noteq> Some r"
  shows "droppable r (exec (gcRoom c r haveLock lockValue) s)"
proof -
  have fin: "wp (gcFinish r) (\<lambda>_. kept_or_droppable src r) t" if "map_of (m_rooms t) src = Some r" for t
    by (rule wp_gcFinish [OF that])
  have "wp (gcRoom c r haveLock lockValue) (\<lambda>_. kept_or_droppable src r) s"
    using assms(1)
    by (auto simp: gcRoom_def lock_mu_def clock_now_def room_get_def room_upd_def callUnlock_def
        host_call_def kept_or_droppable_def split: list.split intro!: fin interfere_rooms)
  then show ?thesis using assms(2) by (simp add: wp_exec kept_or_droppable_def)
qed

definition easyIdle :: "bytes sys" where
  "easyIdle = env_step (EvTick 36000000000000) easySaved"

theorem gc_drops_only_dead_rooms_witness:
  "droppable 0 (exec (gcRoom easyHost 0 False []) easyIdle)"
proof (rule gc_drops_only_dead_rooms [where src = "''src''"])
  show "map_of (m_rooms easyIdle) ''src'' = Some 0"
    using easySaved_room by (simp add: easyIdle_def)
  show "map_of (m_rooms (exec (gcRoom easyHost 0 False []) easyIdle)) ''src'' \<noteq> Some 0"
    using easySaved_room
    by (simp add: easyIdle_def gcRoom_def gcFinish_def exec_def roomLiveLocked_def
        deleteRoomLocked_def second_def)
qed

section \<open>The close path\<close>

text \<open>
  C29. The close path can lose an edit: \<open>performClose\<close> looks at the dirty flag,
  unlocks the file at the host, and then drops the room without looking again. A scene that
  is put under one of the room's WOPISrcs after the \<open>UNLOCK\<close> and before the last critical
  section is accepted, makes the room dirty, and is then in a room that no WOPISrc leads to,
  nor any file id if the file ids led to it by its own name; no write to the host was made.
\<close>

theorem close_can_drop_unsaved_scene:
  assumes "rs_closing (m_heap s r)" and "rs_closeAt (m_heap s r) \<le> now"
    and "\<not> rs_dirty (m_heap s r)" and "rs_haveLock (m_heap s r)"
    and "tokenLadder (m_heap s r) now = cand # rest"
    and "cli_Unlock c (m_clock s) (rs_wopiSrc (m_heap s r)) (tc_token cand)
           (rs_lockValue (m_heap s r)) (m_host s) = (None, h)"
    and "mgr_wf s" and "map_of (m_rooms s) src = Some r"
    and "\<And>f. m_byFileID s f = Some r \<Longrightarrow> f = rs_fileID (m_heap s r) \<and> f \<noteq> []"
    and "d \<noteq> []" and "int (length d) \<le> m_maxSceneBytes s"
    and "m_sched s = [[], [], [], [EvPutScene src d u]]"
  shows "fst (run_state (PutScene src d u) s) = None
    \<and> rs_dirty (m_heap (exec (performClose c r now) s) r)
    \<and> rs_scene (m_heap (exec (performClose c r now) s) r) = Some d
    \<and> (\<nexists>src'. map_of (m_rooms (exec (performClose c r now) s)) src' = Some r)
    \<and> (\<nexists>f. m_byFileID (exec (performClose c r now) s) f = Some r)
    \<and> m_calls (exec (performClose c r now) s)
        = m_calls s @ [CallUnlock r (rs_wopiSrc (m_heap s r)) (tc_token cand)
                         (rs_lockValue (m_heap s r)) None]"
proof -
  note defs = performClose_def PutScene_def roomLocked_def exec_def lock_mu_def interfere_def
      callUnlock_def host_call_def deleteRoomLocked_def closeSaveDueLocked_def
  note facts = assms(1-6,8,10-12)
  have run: "fst (run_state (PutScene src d u) s) = None
    \<and> rs_dirty (m_heap (exec (performClose c r now) s) r)
    \<and> rs_scene (m_heap (exec (performClose c r now) s) r) = Some d
    \<and> m_calls (exec (performClose c r now) s)
        = m_calls s @ [CallUnlock r (rs_wopiSrc (m_heap s r)) (tc_token cand)
                         (rs_lockValue (m_heap s r)) None]"
    using facts by (auto simp: defs)
  have left: "m_rooms (exec (performClose c r now) s)
      = filter (\<lambda>e. fst e \<notin> rs_wopiSrcs (m_heap s r)) (m_rooms s)"
    "m_byFileID (exec (performClose c r now) s)
      = (if rs_fileID (m_heap s r) \<noteq> [] \<and> m_byFileID s (rs_fileID (m_heap s r)) = Some r
         then (m_byFileID s)(rs_fileID (m_heap s r) := None) else m_byFileID s)"
    using facts by (auto simp: defs)
  have "map_of (m_rooms (exec (performClose c r now) s)) src' \<noteq> Some r" for src'
  proof (cases "src' \<in> rs_wopiSrcs (m_heap s r)")
    case True
    then show ?thesis using assms(7) unfolding left(1) mgr_wf_def by (simp only: map_of_filter_key) simp
  next
    case False
    then show ?thesis using assms(7) unfolding left(1) mgr_wf_def
      by (simp only: map_of_filter_key) auto
  qed
  moreover have "m_byFileID (exec (performClose c r now) s) f \<noteq> Some r" for f
    using assms(9) [of f] unfolding left(2) by auto
  ultimately show ?thesis using run by blast
qed

text \<open>The last user of the saved example room leaves; ten seconds pass; the save races.\<close>

definition easyClosing :: "bytes sys" where
  "easyClosing =
     (env_step (EvTick 10000000000) (env_step (EvOnLeave ''f1'' ''u'' True) easySaved))
       \<lparr>m_sched := [[], [], [], [EvPutScene ''src'' ''last'' ''u'']]\<rparr>"

theorem close_can_drop_unsaved_scene_witness:
  "rs_dirty (m_heap (exec (performClose easyHost 0 (11 * second)) easyClosing) 0)
    \<and> rs_scene (m_heap (exec (performClose easyHost 0 (11 * second)) easyClosing) 0) = Some ''last''
    \<and> (\<nexists>src'. map_of (m_rooms (exec (performClose easyHost 0 (11 * second)) easyClosing)) src' = Some 0)"
proof -
  have room: "m_heap easyClosing 0 = (m_heap easySaved 0)\<lparr>rs_closing := True, rs_closeAt := 11 * second\<rparr>"
    "m_rooms easyClosing = [(''src'', 0)]" "m_maxSceneBytes easyClosing = 100"
    using easySaved_room
    by (simp_all add: easyClosing_def OnLeave_def exec_def closeGrace_def second_def)
  have ids: "m_byFileID easyClosing = [''f1'' \<mapsto> 0]"
    using easySaved_room by (simp add: easyClosing_def OnLeave_def exec_def)
  have ladder: "tokenLadder (m_heap easyClosing 0) (11 * second)
      = [\<lparr>tc_userID = ''u'', tc_token = ''tok''\<rparr>]"
    using easySaved_room
    by (simp add: room tokenLadder_def tokenUsable_def tokenRecentlyFailedLocked_def candidateOf_def
        second_def)
  have wf: "mgr_wf easyClosing"
    using lockv.reachable_R [OF mgr_event [OF mgr_event [OF easySaved_reachable TrueI, of "EvOnLeave ''f1'' ''u'' True"]
        TrueI, of "EvTick 10000000000"]]
    unfolding easyClosing_def by (simp only: mgr_wf_hooks)
  have "m_byFileID easyClosing f = Some 0 \<Longrightarrow>
      f = rs_fileID (m_heap easyClosing 0) \<and> f \<noteq> []" for f
    using easySaved_room by (simp add: ids room split: if_splits)
  moreover have "m_sched easyClosing = [[], [], [], [EvPutScene ''src'' ''last'' ''u'']]"
    by (simp add: easyClosing_def)
  moreover have "cli_Unlock easyHost (m_clock easyClosing) (rs_wopiSrc (m_heap easyClosing 0)) ''tok''
      (rs_lockValue (m_heap easyClosing 0)) (m_host easyClosing) = (None, m_host easyClosing)"
    by (simp add: easyHost_def)
  ultimately show ?thesis
    using close_can_drop_unsaved_scene [OF _ _ _ _ ladder _ wf, of easyHost "m_host easyClosing" "''src''"
        "''last''" "''u''"] easySaved_room
    by (simp add: room)
qed

section \<open>A lock refused without a name\<close>

text \<open>
  C32. A failure that leaves no trace: when the host answers \<open>LOCK\<close> and its retry
  with a 409 and an empty lock, a save of a room with a full ladder ends after the
  first token with nothing recorded: no conflict, no backoff, no attempt time, no
  start of a failure streak. The room is as due as before, so every later poll
  repeats both calls and the client is never told that saving is stalled.
\<close>

theorem empty_lock_conflict_leaves_no_trace:
  assumes "m_sched s = []" and "rs_dirty (m_heap s r)" and "\<not> rs_conflict (m_heap s r)"
    and "rs_forceUnlockValue (m_heap s r) = []"
    and "tokenLadder (m_heap s r) now = cand # rest"
    and "\<And>h. cli_Lock c (m_clock s) (rs_wopiSrc (m_heap s r)) (tc_token cand)
           (rs_lockValue (m_heap s r)) h = (Some (ErrLockConflict []), h)"
  shows "m_heap (exec (performSave c r now) s) r = (m_heap s r)\<lparr>rs_firstSaveDone := True\<rparr>
    \<and> (\<forall>t. saveDueLocked (m_heap (exec (performSave c r now) s) r) t = saveDueLocked (m_heap s r) t
          \<and> saveStalledLocked (m_heap (exec (performSave c r now) s) r) t = saveStalledLocked (m_heap s r) t)"
proof -
  have "m_heap (exec (performSave c r now) s) r = (m_heap s r)\<lparr>rs_firstSaveDone := True\<rparr>"
    using assms
    by (simp add: performSave_def attemptSave_def ensureLocked_def plainLock_def callLock_def
        host_call_def classifyTokenAttempt_def exec_def)
  then show ?thesis by (simp add: saveDueLocked_def saveStalledLocked_def Let_def)
qed

definition namelessHost :: "bytes client" where
  "namelessHost = easyHost\<lparr>cli_Lock := (\<lambda>now src tok lock h. (Some (ErrLockConflict []), h))\<rparr>"

theorem empty_lock_conflict_leaves_no_trace_witness:
  "saveDueLocked (m_heap (exec (performSave namelessHost 0 second) easyStart) 0) (2 * second)
    \<and> \<not> saveStalledLocked (m_heap (exec (performSave namelessHost 0 second) easyStart) 0) (10 * hour)"
proof -
  have "saveDueLocked (m_heap easyStart 0) (2 * second)"
    by (simp add: saveDueLocked_def easyStart_room)
  moreover have "\<not> saveStalledLocked (m_heap easyStart 0) (10 * hour)"
    by (simp add: saveStalledLocked_def easyStart_room)
  moreover have "\<forall>t. saveDueLocked (m_heap (exec (performSave namelessHost 0 second) easyStart) 0) t
        = saveDueLocked (m_heap easyStart 0) t
      \<and> saveStalledLocked (m_heap (exec (performSave namelessHost 0 second) easyStart) 0) t
        = saveStalledLocked (m_heap easyStart 0) t"
    by (rule conjunct2 [OF empty_lock_conflict_leaves_no_trace [OF _ _ _ _ easyStart_ladder]])
      (simp_all add: easyStart_room namelessHost_def)
  ultimately show ?thesis by simp
qed

section \<open>Overwriting with nothing\<close>

lemma resolve_exec:
  assumes "m_sched s = []" and "map_of (m_rooms s) src = Some r" and "rs_conflict (m_heap s r)"
  shows "\<exists>t. exec (ResolveConflict src True) s = t
    \<and> m_sched t = [] \<and> m_clock t = m_clock s \<and> m_host t = m_host s \<and> m_calls t = m_calls s
    \<and> (\<exists>a b. m_heap t r = (resolveRoom True (m_heap s r))
               \<lparr>rs_lastReportedConflict := a, rs_lastReportedSaveStalled := b\<rparr>)"
proof -
  have "\<exists>a b. rs = rs\<lparr>rs_lastReportedConflict := a, rs_lastReportedSaveStalled := b\<rparr>" for rs :: roomState
    by (intro exI [of _ "rs_lastReportedConflict rs"] exI [of _ "rs_lastReportedSaveStalled rs"]) simp
  then show ?thesis
    using assms
    by (simp add: ResolveConflict_def resolveLocked_def notifyState_def notifyLocked_def exec_def) blast
qed

lemma tokenLadder_cong:
  assumes "rs_tokens rs' = rs_tokens rs" "rs_failedTokens rs' = rs_failedTokens rs"
    "rs_lastWriterUserID rs' = rs_lastWriterUserID rs"
  shows "tokenLadder rs' now = tokenLadder rs now"
proof -
  have "tokenUsable rs' now = tokenUsable rs now"
    by (intro ext) (simp add: tokenUsable_def tokenRecentlyFailedLocked_def assms)
  then show ?thesis by (simp add: tokenLadder_def assms)
qed

lemma tokenLadder_reported [simp]:
  "tokenLadder (rs\<lparr>rs_lastReportedConflict := a, rs_lastReportedSaveStalled := b\<rparr>) now = tokenLadder rs now"
  "tokenLadder (resolveRoom ow rs) now = tokenLadder rs now"
  by (rule tokenLadder_cong; simp add: resolveRoom_def Let_def)+

text \<open>
  C31. Overwriting with nothing: a room that met a foreign lock before anyone put a
  scene is in conflict with no scene. If the user then chooses to overwrite, the
  next save takes the lock over and sends a \<open>PutFile\<close> with an empty body, so the
  host's file is emptied.
\<close>

theorem overwrite_without_scene_empties_file:
  assumes "m_sched s = []" and "map_of (m_rooms s) src = Some r" and "rs_conflict (m_heap s r)"
    and "rs_scene (m_heap s r) = None" and "rs_conflictForeignLock (m_heap s r) = foreign" "foreign \<noteq> []"
    and "tokenLadder (m_heap s r) now = cand # rest"
    and "cli_UnlockAndRelock c (m_clock s) (rs_wopiSrc (m_heap s r)) (tc_token cand)
           (rs_lockValue (m_heap s r)) foreign (m_host s) = (None, h1)"
    and "cli_PutFile c (m_clock s) (rs_wopiSrc (m_heap s r)) (tc_token cand)
           (rs_lockValue (m_heap s r)) [] h1 = (Inr v, h2)"
  shows "m_calls (exec (performSave c r now) (exec (ResolveConflict src True) s)) = m_calls s @
      [CallUnlockAndRelock r (rs_wopiSrc (m_heap s r)) (tc_token cand) (rs_lockValue (m_heap s r)) foreign None,
       CallPutFile r (rs_wopiSrc (m_heap s r)) (tc_token cand) (rs_lockValue (m_heap s r)) [] (Inr v)]
    \<and> m_host (exec (performSave c r now) (exec (ResolveConflict src True) s)) = h2"
proof -
  obtain t a b where t: "exec (ResolveConflict src True) s = t" "m_sched t = []"
    "m_clock t = m_clock s" "m_host t = m_host s" "m_calls t = m_calls s"
    "m_heap t r = (resolveRoom True (m_heap s r))
               \<lparr>rs_lastReportedConflict := a, rs_lastReportedSaveStalled := b\<rparr>"
    using resolve_exec [OF assms(1-3)] by auto
  have room: "rs_dirty (m_heap t r)" "\<not> rs_conflict (m_heap t r)" "rs_scene (m_heap t r) = None"
    "rs_forceUnlockValue (m_heap t r) = foreign" "rs_lockValue (m_heap t r) = rs_lockValue (m_heap s r)"
    "rs_wopiSrc (m_heap t r) = rs_wopiSrc (m_heap s r)" "tokenLadder (m_heap t r) now = cand # rest"
    using assms(4-7) by (simp_all add: t(6)) (simp_all add: resolveRoom_def Let_def)
  show ?thesis
    unfolding t(1) using t(2-5) room assms(6,8,9)
    by (simp add: performSave_def attemptSave_def ensureLocked_def callUnlockAndRelock_def
        callPutFile_def host_call_def markLocked_def recordSaveSuccess_def exec_def)
qed

text \<open>The example room, had the eager lock met \<open>other\<close> before the scene was put.\<close>

definition easyForeign :: "bytes sys" where
  "easyForeign = upd_room 0 (\<lambda>rs. enterConflictRoom ''other'' True (rs\<lparr>rs_scene := None, rs_dirty := False\<rparr>))
     easyStart"

theorem overwrite_without_scene_empties_file_witness:
  "CallPutFile 0 ''src'' ''tok'' (lockValueFor ''f1'') [] (Inr ''v1'') \<in>
     set (m_calls (exec (performSave easyHost 0 second) (exec (ResolveConflict ''src'' True) easyForeign)))"
proof -
  have room: "m_heap easyForeign 0 = (m_heap easyStart 0)\<lparr>rs_scene := None, rs_dirty := False,
      rs_conflict := True, rs_conflictForeignLock := ''other'', rs_haveLock := False\<rparr>"
    by (simp add: easyForeign_def enterConflictRoom_def)
  have l: "tokenLadder (m_heap easyForeign 0) second = [\<lparr>tc_userID = ''u'', tc_token = ''tok''\<rparr>]"
    unfolding easyStart_ladder [symmetric] by (rule tokenLadder_cong) (simp_all add: room)
  have s: "m_sched easyForeign = []" "map_of (m_rooms easyForeign) ''src'' = Some 0"
    "m_calls easyForeign = []"
    by (simp_all add: easyForeign_def easyStart_room)
  show ?thesis
    using overwrite_without_scene_empties_file [OF s(1,2) _ _ _ _ l, of "''other''" easyHost
        "m_host easyForeign" "''v1''" "[]"]
    by (simp add: room s easyStart_room) (simp add: easyHost_def)
qed

end

