(* ===== verification/RelayRooms.thy ===== *)
theory RelayRooms
  imports Prelude
begin

text \<open>
  \<open>internal/relay/rooms.go\<close> and \<open>syncer.go\<close>: who is in which room, and which user
  is the room's syncer, the one client that saves. The registry's mutex makes
  \<open>join\<close> and \<open>leave\<close> one step each.
\<close>

section \<open>State\<close>

record member =
  mb_SocketID :: string
  mb_UserID :: string
  mb_UserName :: string
  mb_CanWrite :: bool

record userPresence =
  up_SocketID :: string
  up_UserID :: string
  up_UserName :: string
  up_SocketIDs :: "string list"

record registry =
  rg_rooms :: "string \<rightharpoonup> member list"
  rg_syncers :: "string \<rightharpoonup> string"

record electionOutcome =
  eo_Changed :: bool
  eo_PromotedIDs :: "string list"
  eo_DemotedIDs :: "string list"

definition newRegistry :: registry where
  "newRegistry = \<lparr>rg_rooms = Map.empty, rg_syncers = Map.empty\<rparr>"

text \<open>Indexing a Go map yields the zero value for an absent key.\<close>

definition membersOf :: "registry \<Rightarrow> string \<Rightarrow> member list" where
  "membersOf g roomID = (case rg_rooms g roomID of None \<Rightarrow> [] | Some ms \<Rightarrow> ms)"

definition syncerOf :: "registry \<Rightarrow> string \<Rightarrow> string" where
  "syncerOf g roomID = (case rg_syncers g roomID of None \<Rightarrow> [] | Some u \<Rightarrow> u)"

section \<open>Election\<close>

text \<open>The empty user id stands for no syncer.\<close>

definition hasSocket :: "member list \<Rightarrow> string \<Rightarrow> bool" where
  "hasSocket members userID = list_ex (\<lambda>m. mb_UserID m = userID \<and> mb_CanWrite m) members"

fun electNextFrom :: "string set \<Rightarrow> member list \<Rightarrow> string" where
  "electNextFrom seen [] = []"
| "electNextFrom seen (m # ms) =
     (if mb_UserID m \<in> seen then electNextFrom seen ms
      else if mb_CanWrite m then mb_UserID m
      else electNextFrom (insert (mb_UserID m) seen) ms)"

definition electNext :: "member list \<Rightarrow> string" where
  "electNext members = electNextFrom {} members"

definition socketIDsForUser :: "member list \<Rightarrow> string \<Rightarrow> string list" where
  "socketIDsForUser members userID =
     (if userID = [] then []
      else map mb_SocketID (filter (\<lambda>m. mb_UserID m = userID) members))"

definition demotionTargets :: "member list \<Rightarrow> string \<Rightarrow> string \<Rightarrow> string list" where
  "demotionTargets members oldSyncer newSyncer =
     (if oldSyncer = [] \<or> oldSyncer = newSyncer then [] else socketIDsForUser members oldSyncer)"

definition electSyncer :: "member list \<Rightarrow> string \<Rightarrow> string \<times> bool \<times> string list \<times> string list" where
  "electSyncer members current =
     (if current \<noteq> [] \<and> hasSocket members current then (current, False, [], [])
      else let nxt = electNext members in
        if nxt = current then (current, False, [], [])
        else (nxt, True, (if nxt \<noteq> [] then socketIDsForUser members nxt else []),
              demotionTargets members current nxt))"

section \<open>Presence\<close>

text \<open>The loop over the members: the user ids in order and the row of each.\<close>

fun presenceFrom ::
  "string list \<times> (string \<rightharpoonup> userPresence) \<Rightarrow> member list
     \<Rightarrow> string list \<times> (string \<rightharpoonup> userPresence)" where
  "presenceFrom acc [] = acc"
| "presenceFrom (order, byUser) (m # ms) =
     (case byUser (mb_UserID m) of
        None \<Rightarrow>
          presenceFrom (order @ [mb_UserID m],
            byUser(mb_UserID m \<mapsto>
              \<lparr>up_SocketID = mb_SocketID m, up_UserID = mb_UserID m, up_UserName = mb_UserName m,
               up_SocketIDs = [mb_SocketID m]\<rparr>)) ms
      | Some e \<Rightarrow>
          presenceFrom (order,
            byUser(mb_UserID m \<mapsto> e\<lparr>up_SocketIDs := up_SocketIDs e @ [mb_SocketID m]\<rparr>)) ms)"

definition presence :: "member list \<Rightarrow> userPresence list" where
  "presence members =
     (case presenceFrom ([], Map.empty) members of
        (order, byUser) \<Rightarrow> map (\<lambda>u. the (byUser u)) order)"

section \<open>Join and leave\<close>

definition join :: "string \<Rightarrow> member \<Rightarrow> registry \<Rightarrow> (userPresence list \<times> bool \<times> bool) \<times> registry" where
  "join roomID m g =
     (let members = membersOf g roomID in
      if list_ex (\<lambda>e. mb_SocketID e = mb_SocketID m) members
      then ((presence members, False, syncerOf g roomID = mb_UserID m), g)
      else
        let members' = members @ [m];
            nxt = fst (electSyncer members' (syncerOf g roomID));
            g' = g\<lparr>rg_rooms := (rg_rooms g)(roomID \<mapsto> members'),
                   rg_syncers := (rg_syncers g)(roomID \<mapsto> nxt)\<rparr>
        in ((presence members', True, nxt = mb_UserID m \<and> mb_CanWrite m), g'))"

text \<open>Everything but the first member with the socket, or nothing if there is none.\<close>

fun removeSocket :: "string \<Rightarrow> member list \<Rightarrow> member list option" where
  "removeSocket sid [] = None"
| "removeSocket sid (m # ms) =
     (if mb_SocketID m = sid then Some ms
      else map_option (\<lambda>r. m # r) (removeSocket sid ms))"

definition noOutcome :: electionOutcome where
  "noOutcome = \<lparr>eo_Changed = False, eo_PromotedIDs = [], eo_DemotedIDs = []\<rparr>"

definition leave ::
  "string \<Rightarrow> string \<Rightarrow> registry \<Rightarrow> (userPresence list \<times> bool \<times> electionOutcome) \<times> registry" where
  "leave roomID socketID g =
     (let members = membersOf g roomID in
      case removeSocket socketID members of
        None \<Rightarrow> ((presence members, members \<noteq> [], noOutcome), g)
      | Some members' \<Rightarrow>
          if members' = [] then
            (([], False, noOutcome),
             g\<lparr>rg_rooms := (rg_rooms g)(roomID := None),
               rg_syncers := (rg_syncers g)(roomID := None)\<rparr>)
          else
            (case electSyncer members' (syncerOf g roomID) of
               (nxt, changed, promoted, demoted) \<Rightarrow>
                 ((presence members', True,
                   \<lparr>eo_Changed = changed, eo_PromotedIDs = promoted, eo_DemotedIDs = demoted\<rparr>),
                  (let g' = g\<lparr>rg_rooms := (rg_rooms g)(roomID \<mapsto> members')\<rparr>
                   in if changed then g'\<lparr>rg_syncers := (rg_syncers g)(roomID \<mapsto> nxt)\<rparr> else g'))))"

section \<open>The election, declaratively\<close>

text \<open>The users in first-join order, and a user's earliest socket.\<close>

definition firstSocket :: "member list \<Rightarrow> string \<Rightarrow> member option" where
  "firstSocket ms u = find (\<lambda>m. mb_UserID m = u) ms"

definition joinOrder :: "member list \<Rightarrow> string list" where
  "joinOrder ms = rev (remdups (rev (map mb_UserID ms)))"

lemma joinOrder_simps [simp]:
  "joinOrder [] = []" "set (joinOrder ms) = mb_UserID ` set ms" "distinct (joinOrder ms)"
  by (simp_all add: joinOrder_def)

lemma joinOrder_snoc:
  "joinOrder (ms @ [m]) = joinOrder ms @ (if mb_UserID m \<in> mb_UserID ` set ms then [] else [mb_UserID m])"
  by (auto simp: joinOrder_def)

lemma joinOrder_Cons:
  "joinOrder (m # ms) = mb_UserID m # filter (\<lambda>u. u \<noteq> mb_UserID m) (joinOrder ms)"
  by (induction ms rule: rev_induct) (auto simp: joinOrder_snoc simp del: joinOrder_simps(2), auto simp: joinOrder_def)

definition eligible :: "member list \<Rightarrow> string \<Rightarrow> bool" where
  "eligible ms u \<longleftrightarrow> (case firstSocket ms u of None \<Rightarrow> False | Some m \<Rightarrow> mb_CanWrite m)"

lemma firstSocket_Cons [simp]:
  "firstSocket (m # ms) u = (if mb_UserID m = u then Some m else firstSocket ms u)"
  by (simp add: firstSocket_def)

lemma firstSocket_None [simp]: "firstSocket ms u = None \<longleftrightarrow> u \<notin> mb_UserID ` set ms"
  by (auto simp: firstSocket_def find_None_iff)

lemma eligible_mem: "eligible ms u \<Longrightarrow> \<exists>m \<in> set ms. mb_UserID m = u \<and> mb_CanWrite m"
  by (induction ms) (auto simp: eligible_def firstSocket_def split: if_splits)

lemma find_filter: "find P (filter Q xs) = find (\<lambda>x. Q x \<and> P x) xs"
  by (induction xs) auto

lemma find_cong_set: "(\<And>x. x \<in> set xs \<Longrightarrow> P x = Q x) \<Longrightarrow> find P xs = find Q xs"
  by (induction xs) auto

lemma find_SomeD: "find P xs = Some x \<Longrightarrow> P x" "find P xs = Some x \<Longrightarrow> x \<in> set xs"
  by (auto simp: find_Some_iff)

lemma electNextFrom_find:
  "electNextFrom seen ms =
     (case find (\<lambda>u. u \<notin> seen \<and> eligible ms u) (joinOrder ms) of None \<Rightarrow> [] | Some u \<Rightarrow> u)"
proof (induction ms arbitrary: seen)
  case Nil
  then show ?case by simp
next
  case (Cons m ms)
  let ?u = "mb_UserID m"
  have step: "find (\<lambda>u. u \<notin> seen \<and> eligible (m # ms) u) (joinOrder (m # ms)) =
      (if ?u \<notin> seen \<and> mb_CanWrite m then Some ?u
       else find (\<lambda>u. u \<notin> insert ?u seen \<and> eligible ms u) (joinOrder ms))"
  proof -
    have "find (\<lambda>u. u \<noteq> ?u \<and> u \<notin> seen \<and> eligible (m # ms) u) (joinOrder ms)
        = find (\<lambda>u. u \<notin> insert ?u seen \<and> eligible ms u) (joinOrder ms)"
      by (intro find_cong_set) (auto simp: eligible_def)
    then show ?thesis by (simp add: joinOrder_Cons find_filter) (simp add: eligible_def)
  qed
  show ?case
  proof (cases "?u \<in> seen")
    case True
    then have "insert ?u seen = seen" by blast
    then show ?thesis using True unfolding step by (simp add: Cons.IH)
  next
    case False
    then show ?thesis unfolding step by (simp add: Cons.IH)
  qed
qed

lemma electNext_find:
  "electNext ms = (case find (eligible ms) (joinOrder ms) of None \<Rightarrow> [] | Some u \<Rightarrow> u)"
  by (simp add: electNext_def electNextFrom_find cong: if_cong)

lemma electNext_eligible: "electNext ms \<noteq> [] \<Longrightarrow> eligible ms (electNext ms)"
  by (cases "find (eligible ms) (joinOrder ms)") (simp_all add: electNext_find find_SomeD)

lemma hasSocket_iff: "hasSocket ms u \<longleftrightarrow> (\<exists>m \<in> set ms. mb_UserID m = u \<and> mb_CanWrite m)"
  by (auto simp: hasSocket_def list_ex_iff)

lemma electNext_hasSocket: "electNext ms \<noteq> [] \<Longrightarrow> hasSocket ms (electNext ms)"
  by (auto simp: hasSocket_iff dest: electNext_eligible eligible_mem)

text \<open>The outcome of an election, without the code's early returns.\<close>

lemma electSyncer_next:
  "fst (electSyncer ms cur) =
     (if cur \<noteq> [] \<and> hasSocket ms cur then cur else electNext ms)"
  by (simp add: electSyncer_def Let_def)

lemma electSyncer_changed:
  "fst (snd (electSyncer ms cur)) \<longleftrightarrow> fst (electSyncer ms cur) \<noteq> cur"
  by (simp add: electSyncer_def Let_def)

lemma electSyncer_idem:
  "fst (electSyncer ms (fst (electSyncer ms cur))) = fst (electSyncer ms cur)"
  using electNext_hasSocket [of ms] by (simp add: electSyncer_next)

section \<open>Presence, declaratively\<close>

definition presenceRow :: "member list \<Rightarrow> string \<Rightarrow> userPresence" where
  "presenceRow ms u =
     \<lparr>up_SocketID = mb_SocketID (the (firstSocket ms u)), up_UserID = u,
      up_UserName = mb_UserName (the (firstSocket ms u)),
      up_SocketIDs = map mb_SocketID (filter (\<lambda>m. mb_UserID m = u) ms)\<rparr>"

definition rowsOf :: "member list \<Rightarrow> string \<rightharpoonup> userPresence" where
  "rowsOf ms u = (if u \<in> mb_UserID ` set ms then Some (presenceRow ms u) else None)"

lemma firstSocket_snoc:
  "firstSocket (ms @ [m]) u =
     (if u \<in> mb_UserID ` set ms then firstSocket ms u
      else if mb_UserID m = u then Some m else None)"
  by (induction ms) (auto simp: firstSocket_def)

lemma rowsOf_snoc:
  "rowsOf (ms @ [m]) = (rowsOf ms)(mb_UserID m \<mapsto>
     (case rowsOf ms (mb_UserID m) of
        None \<Rightarrow> \<lparr>up_SocketID = mb_SocketID m, up_UserID = mb_UserID m, up_UserName = mb_UserName m,
                 up_SocketIDs = [mb_SocketID m]\<rparr>
      | Some e \<Rightarrow> e\<lparr>up_SocketIDs := up_SocketIDs e @ [mb_SocketID m]\<rparr>))"
proof (rule ext)
  fix u
  have nil: "filter (\<lambda>x. mb_UserID x = u) ms = []" if "u \<notin> mb_UserID ` set ms"
    using that by (auto simp: filter_empty_conv)
  show "rowsOf (ms @ [m]) u = ((rowsOf ms)(mb_UserID m \<mapsto>
     (case rowsOf ms (mb_UserID m) of
        None \<Rightarrow> \<lparr>up_SocketID = mb_SocketID m, up_UserID = mb_UserID m, up_UserName = mb_UserName m,
                 up_SocketIDs = [mb_SocketID m]\<rparr>
      | Some e \<Rightarrow> e\<lparr>up_SocketIDs := up_SocketIDs e @ [mb_SocketID m]\<rparr>))) u"
    using nil
    by (cases "u \<in> mb_UserID ` set ms"; cases "mb_UserID m = u")
      (simp_all add: rowsOf_def presenceRow_def firstSocket_snoc)
qed

lemma presenceFrom_append:
  "presenceFrom (joinOrder ns, rowsOf ns) ms = (joinOrder (ns @ ms), rowsOf (ns @ ms))"
proof (induction ms arbitrary: ns)
  case Nil
  then show ?case by simp
next
  case (Cons m ms)
  have "presenceFrom (joinOrder ns, rowsOf ns) (m # ms)
      = presenceFrom (joinOrder (ns @ [m]), rowsOf (ns @ [m])) ms"
    by (cases "mb_UserID m \<in> mb_UserID ` set ns") (auto simp: joinOrder_snoc rowsOf_snoc rowsOf_def)
  with Cons.IH [of "ns @ [m]"] show ?case by simp
qed

text \<open>
  The roster a room is sent has one row per user, in the order the users joined:
  the row of a user carries their earliest socket and its name, and lists all of
  their sockets in join order.
\<close>

theorem presence_rows: "presence ms = map (presenceRow ms) (joinOrder ms)"
proof -
  have "rowsOf [] = Map.empty" by (rule ext) (simp add: rowsOf_def)
  then show ?thesis
    using presenceFrom_append [of "[]" ms] by (simp add: presence_def rowsOf_def)
qed

text \<open>A board with a reader in two tabs and two writers, for the examples.\<close>

definition mkMember :: "string \<Rightarrow> string \<Rightarrow> bool \<Rightarrow> member" where
  "mkMember sid uid w = \<lparr>mb_SocketID = sid, mb_UserID = uid, mb_UserName = uid, mb_CanWrite = w\<rparr>"

lemma mkMember_simps [simp]:
  "mb_SocketID (mkMember sid uid w) = sid" "mb_UserID (mkMember sid uid w) = uid"
  "mb_UserName (mkMember sid uid w) = uid" "mb_CanWrite (mkMember sid uid w) = w"
  by (simp_all add: mkMember_def)

section \<open>The registry's invariant\<close>

text \<open>
  A room the registry knows has members, one per socket. Its syncer, if it has one,
  holds a writing socket; if it has none, no user's earliest socket writes.
\<close>

definition syncer_ok :: "member list \<Rightarrow> string \<Rightarrow> bool" where
  "syncer_ok ms cur \<longleftrightarrow> (if cur = [] then electNext ms = [] else hasSocket ms cur)"

definition room_ok :: "registry \<Rightarrow> string \<Rightarrow> bool" where
  "room_ok g roomID \<longleftrightarrow>
     rg_rooms g roomID \<noteq> Some [] \<and> distinct (map mb_SocketID (membersOf g roomID))
     \<and> syncer_ok (membersOf g roomID) (syncerOf g roomID)
     \<and> (rg_syncers g roomID = None \<longleftrightarrow> rg_rooms g roomID = None)"

definition registry_ok :: "registry \<Rightarrow> bool" where
  "registry_ok g \<longleftrightarrow> (\<forall>roomID. room_ok g roomID)"

lemma elected_ok: "syncer_ok ms (fst (electSyncer ms cur))"
  using electNext_hasSocket [of ms] by (auto simp: syncer_ok_def electSyncer_next)

lemma syncer_ok_iff: "syncer_ok ms cur \<longleftrightarrow> fst (electSyncer ms cur) = cur"
  using electNext_hasSocket [of ms] by (auto simp: syncer_ok_def electSyncer_next)

lemma electNext_Nil [simp]: "electNext [] = []"
  by (simp add: electNext_def)

lemma newRegistry_ok: "registry_ok newRegistry"
  by (simp add: registry_ok_def room_ok_def newRegistry_def membersOf_def syncerOf_def syncer_ok_def)

text \<open>Both operations touch one room, and their effect on it, written out.\<close>

lemma join_other:
  "r \<noteq> roomID \<Longrightarrow> rg_rooms (snd (join roomID m g)) r = rg_rooms g r"
  "r \<noteq> roomID \<Longrightarrow> rg_syncers (snd (join roomID m g)) r = rg_syncers g r"
  by (simp_all add: join_def Let_def)

lemma leave_other:
  "r \<noteq> roomID \<Longrightarrow> rg_rooms (snd (leave roomID sid g)) r = rg_rooms g r"
  "r \<noteq> roomID \<Longrightarrow> rg_syncers (snd (leave roomID sid g)) r = rg_syncers g r"
  by (simp_all add: leave_def Let_def split: option.split prod.split)

lemma room_ok_cong:
  "rg_rooms g r = rg_rooms h r \<Longrightarrow> rg_syncers g r = rg_syncers h r \<Longrightarrow> room_ok g r = room_ok h r"
  by (simp add: room_ok_def membersOf_def syncerOf_def)

lemma list_ex_socket [simp]:
  "list_ex (\<lambda>e. mb_SocketID e = sid) ms \<longleftrightarrow> sid \<in> mb_SocketID ` set ms"
  by (induction ms) auto

lemma join_frame: "r \<noteq> roomID \<Longrightarrow> room_ok (snd (join roomID m g)) r = room_ok g r"
  by (rule room_ok_cong) (simp_all add: join_other)

lemma leave_frame: "r \<noteq> roomID \<Longrightarrow> room_ok (snd (leave roomID sid g)) r = room_ok g r"
  by (rule room_ok_cong) (simp_all add: leave_other)

lemma join_new:
  assumes "mb_SocketID m \<notin> mb_SocketID ` set (membersOf g roomID)"
  shows "membersOf (snd (join roomID m g)) roomID = membersOf g roomID @ [m]"
    and "syncerOf (snd (join roomID m g)) roomID
           = fst (electSyncer (membersOf g roomID @ [m]) (syncerOf g roomID))"
    and "fst (join roomID m g) = (presence (membersOf g roomID @ [m]), True,
           syncerOf (snd (join roomID m g)) roomID = mb_UserID m \<and> mb_CanWrite m)"
proof -
  note n = assms
  show "membersOf (snd (join roomID m g)) roomID = membersOf g roomID @ [m]"
    by (simp add: join_def Let_def n) (simp add: membersOf_def)
  show s: "syncerOf (snd (join roomID m g)) roomID
      = fst (electSyncer (membersOf g roomID @ [m]) (syncerOf g roomID))"
    by (simp add: join_def Let_def n) (simp add: syncerOf_def)
  show "fst (join roomID m g) = (presence (membersOf g roomID @ [m]), True,
           syncerOf (snd (join roomID m g)) roomID = mb_UserID m \<and> mb_CanWrite m)"
    unfolding s by (simp add: join_def Let_def n)
qed

lemma join_old:
  assumes "mb_SocketID m \<in> mb_SocketID ` set (membersOf g roomID)"
  shows "snd (join roomID m g) = g" "fst (snd (fst (join roomID m g))) = False"
  using assms by (auto simp: join_def Let_def)

lemma removeSocket_filter:
  "distinct (map mb_SocketID ms) \<Longrightarrow>
     removeSocket sid ms =
       (if sid \<in> mb_SocketID ` set ms then Some (filter (\<lambda>m. mb_SocketID m \<noteq> sid) ms) else None)"
proof (induction ms)
  case Nil
  then show ?case by simp
next
  case (Cons m ms)
  have "filter (\<lambda>x. mb_SocketID x \<noteq> mb_SocketID m) ms = ms" if "mb_SocketID m \<notin> mb_SocketID ` set ms"
    using that by (intro filter_True ballI) (metis imageI)
  with Cons show ?case by auto
qed

abbreviation without :: "string \<Rightarrow> member list \<Rightarrow> member list" where
  "without sid ms \<equiv> filter (\<lambda>m. mb_SocketID m \<noteq> sid) ms"

lemma leave_absent:
  assumes "room_ok g roomID" "sid \<notin> mb_SocketID ` set (membersOf g roomID)"
  shows "leave roomID sid g
    = ((presence (membersOf g roomID), membersOf g roomID \<noteq> [], noOutcome), g)"
  using assms by (simp add: leave_def Let_def removeSocket_filter room_ok_def)

lemma leave_present:
  assumes "room_ok g roomID" "sid \<in> mb_SocketID ` set (membersOf g roomID)"
  shows "membersOf (snd (leave roomID sid g)) roomID = without sid (membersOf g roomID)"
    and "syncerOf (snd (leave roomID sid g)) roomID =
           (if without sid (membersOf g roomID) = [] then []
            else fst (electSyncer (without sid (membersOf g roomID)) (syncerOf g roomID)))"
    and "fst (leave roomID sid g) =
           (let ms = without sid (membersOf g roomID); e = electSyncer ms (syncerOf g roomID)
            in if ms = [] then ([], False, noOutcome)
               else (presence ms, True,
                     \<lparr>eo_Changed = fst (snd e), eo_PromotedIDs = fst (snd (snd e)),
                      eo_DemotedIDs = snd (snd (snd e))\<rparr>))"
proof -
  have r: "removeSocket sid (membersOf g roomID) = Some (without sid (membersOf g roomID))"
    using assms by (simp add: room_ok_def removeSocket_filter)
  show "membersOf (snd (leave roomID sid g)) roomID = without sid (membersOf g roomID)"
    by (simp add: leave_def Let_def r split: prod.split) (simp add: membersOf_def)
  show "fst (leave roomID sid g) =
           (let ms = without sid (membersOf g roomID); e = electSyncer ms (syncerOf g roomID)
            in if ms = [] then ([], False, noOutcome)
               else (presence ms, True,
                     \<lparr>eo_Changed = fst (snd e), eo_PromotedIDs = fst (snd (snd e)),
                      eo_DemotedIDs = snd (snd (snd e))\<rparr>))"
    by (simp add: leave_def Let_def r split: prod.split)
  show "syncerOf (snd (leave roomID sid g)) roomID =
           (if without sid (membersOf g roomID) = [] then []
            else fst (electSyncer (without sid (membersOf g roomID)) (syncerOf g roomID)))"
    using electSyncer_changed [of "without sid (membersOf g roomID)" "syncerOf g roomID"]
    by (cases "electSyncer (without sid (membersOf g roomID)) (syncerOf g roomID)")
      (simp add: leave_def Let_def r syncerOf_def split: option.split)
qed

lemma join_ok:
  assumes "registry_ok g"
  shows "registry_ok (snd (join roomID m g))"
  unfolding registry_ok_def
proof
  fix r
  have g: "room_ok g r" for r using assms by (simp add: registry_ok_def)
  show "room_ok (snd (join roomID m g)) r"
  proof (cases "r = roomID \<and> mb_SocketID m \<notin> mb_SocketID ` set (membersOf g roomID)")
    case True
    then have n: "mb_SocketID m \<notin> mb_SocketID ` set (membersOf g roomID)" and r: "r = roomID" by auto
    have "rg_rooms (snd (join roomID m g)) roomID = Some (membersOf g roomID @ [m])"
      "rg_syncers (snd (join roomID m g)) roomID \<noteq> None"
      by (simp_all add: join_def Let_def n)
    then show ?thesis
      using g [of roomID] n unfolding r room_ok_def join_new [OF n]
      by (simp add: elected_ok)
  next
    case False
    then show ?thesis
      using g join_old(1) [of m g roomID] by (cases "r = roomID") (simp_all add: join_frame)
  qed
qed

lemma leave_ok:
  assumes "registry_ok g"
  shows "registry_ok (snd (leave roomID sid g))"
  unfolding registry_ok_def
proof
  fix r
  have g: "room_ok g r" for r using assms by (simp add: registry_ok_def)
  show "room_ok (snd (leave roomID sid g)) r"
  proof (cases "r = roomID \<and> sid \<in> mb_SocketID ` set (membersOf g roomID)")
    case True
    then have p: "sid \<in> mb_SocketID ` set (membersOf g roomID)" and r: "r = roomID" by auto
    let ?ms = "without sid (membersOf g roomID)"
    have rem: "removeSocket sid (membersOf g roomID) = Some ?ms"
      using g [of roomID] p by (simp add: room_ok_def removeSocket_filter)
    have d: "distinct (map mb_SocketID ?ms)"
      using g [of roomID] by (simp add: room_ok_def distinct_map_filter)
    have some: "rg_syncers g roomID \<noteq> None"
      using g [of roomID] p by (auto simp: room_ok_def membersOf_def split: option.splits)
    have "rg_rooms (snd (leave roomID sid g)) roomID \<noteq> Some []"
      "rg_syncers (snd (leave roomID sid g)) roomID = None
         \<longleftrightarrow> rg_rooms (snd (leave roomID sid g)) roomID = None"
      using some by (simp_all add: leave_def Let_def rem split: prod.split)
    then show ?thesis
      using d elected_ok [of ?ms] unfolding r room_ok_def leave_present [OF g p]
      by (simp add: syncer_ok_def)
  next
    case False
    then show ?thesis
      using g leave_absent [OF g, of sid roomID] by (cases "r = roomID") (simp_all add: leave_frame)
  qed
qed

end
