(* ===== verification/Json.thy ===== *)
theory Json
  imports Prelude
begin

text \<open>
  The part of Go's \<open>encoding/json\<close> the relay uses: the validating parser behind
  \<open>Unmarshal\<close>, the string encoding of \<open>Marshal\<close>, and UTF-8 with Go's
  replacement of invalid bytes. A document is a tree that keeps the members of an
  object in document order, duplicates included, so that each consumer can apply its
  own rule for them. A number is its literal.
\<close>

section \<open>Bytes and UTF-8\<close>

abbreviation code :: "char \<Rightarrow> nat" where
  "code c \<equiv> of_char c"

abbreviation byte :: "nat \<Rightarrow> char" where
  "byte n \<equiv> char_of n"

definition in_range :: "nat \<Rightarrow> nat \<Rightarrow> char \<Rightarrow> bool" where
  "in_range lo hi c \<longleftrightarrow> lo \<le> code c \<and> code c \<le> hi"

abbreviation cont_byte :: "char \<Rightarrow> bool" where
  "cont_byte c \<equiv> in_range 128 191 c"

text \<open>
  The number of bytes of the valid encoding at the head, as \<open>utf8.DecodeRune\<close>
  accepts it: no overlong forms, no surrogates, nothing above U+10FFFF; 0 if there is
  none.
\<close>

fun rune_len :: "string \<Rightarrow> nat" where
  "rune_len [] = 0"
| "rune_len (a # s) =
     (if code a < 128 then 1
      else if in_range 194 223 a then
        (case s of b # _ \<Rightarrow> (if cont_byte b then 2 else 0) | [] \<Rightarrow> 0)
      else if in_range 224 239 a then
        (case s of b # c # _ \<Rightarrow>
           (if (if code a = 224 then in_range 160 191 b
                else if code a = 237 then in_range 128 159 b else cont_byte b) \<and> cont_byte c
            then 3 else 0)
         | _ \<Rightarrow> 0)
      else if in_range 240 244 a then
        (case s of b # c # d # _ \<Rightarrow>
           (if (if code a = 240 then in_range 144 191 b
                else if code a = 244 then in_range 128 143 b else cont_byte b)
               \<and> cont_byte c \<and> cont_byte d
            then 4 else 0)
         | _ \<Rightarrow> 0)
      else 0)"

text \<open>U+FFFD.\<close>

definition replacement :: string where
  "replacement = map byte [239, 191, 189]"

definition encode_rune :: "nat \<Rightarrow> string" where
  "encode_rune r =
     map byte
      (if r < 128 then [r]
       else if r < 2048 then [192 + r div 64, 128 + r mod 64]
       else if r < 65536 then [224 + r div 4096, 128 + r div 64 mod 64, 128 + r mod 64]
       else [240 + r div 262144, 128 + r div 4096 mod 64, 128 + r div 64 mod 64, 128 + r mod 64])"

text \<open>A string with every invalid byte replaced, which is what the decoder makes of it.\<close>

function utf8_fix :: "string \<Rightarrow> string" where
  "utf8_fix [] = []"
| "utf8_fix (a # s) =
     (if rune_len (a # s) = 0 then replacement @ utf8_fix s
      else take (rune_len (a # s)) (a # s) @ utf8_fix (drop (rune_len (a # s) - 1) s))"
  by pat_completeness auto
termination by (relation "measure length") auto

section \<open>Trees\<close>

datatype json =
    JNull
  | JBool bool
  | JNum string
  | JStr string
  | JArr "json list"
  | JObj "(string \<times> json) list"

section \<open>Parsing\<close>

definition is_ws :: "char \<Rightarrow> bool" where
  "is_ws c \<longleftrightarrow> c = CHR 0x20 \<or> c = CHR 0x09 \<or> c = CHR 0x0D \<or> c = CHR 0x0A"

abbreviation skip_ws :: "string \<Rightarrow> string" where
  "skip_ws s \<equiv> dropWhile is_ws s"

definition is_digit :: "char \<Rightarrow> bool" where
  "is_digit c \<longleftrightarrow> in_range 48 57 c"

definition hex_val :: "char \<Rightarrow> nat option" where
  "hex_val c =
     (if in_range 48 57 c then Some (code c - 48)
      else if in_range 97 102 c then Some (code c - 87)
      else if in_range 65 70 c then Some (code c - 55)
      else None)"

fun hex4 :: "string \<Rightarrow> (nat \<times> string) option" where
  "hex4 (a # b # c # d # s) =
     (case (hex_val a, hex_val b, hex_val c, hex_val d) of
        (Some w, Some x, Some y, Some z) \<Rightarrow> Some (((w * 16 + x) * 16 + y) * 16 + z, s)
      | _ \<Rightarrow> None)"
| "hex4 _ = None"

definition is_surrogate :: "nat \<Rightarrow> bool" where
  "is_surrogate r \<longleftrightarrow> 55296 \<le> r \<and> r < 57344"

text \<open>What a \<open>\u\<close> escape denotes, and what is left after a pair is taken together.\<close>

definition unescape_u :: "nat \<Rightarrow> string \<Rightarrow> string \<times> string" where
  "unescape_u r s =
     (if \<not> is_surrogate r then (encode_rune r, s)
      else case s of
        a # b # s' \<Rightarrow>
          (if a = CHR 0x5C \<and> b = CHR ''u'' then
             (case hex4 s' of
                Some (r2, s'') \<Rightarrow>
                  (if r < 56320 \<and> 56320 \<le> r2 \<and> r2 < 57344
                   then (encode_rune (65536 + (r - 55296) * 1024 + (r2 - 56320)), s'')
                   else (replacement, s))
              | None \<Rightarrow> (replacement, s))
           else (replacement, s))
      | _ \<Rightarrow> (replacement, s))"

definition escape_char :: "char \<Rightarrow> char option" where
  "escape_char c =
     (if c = CHR 0x22 \<or> c = CHR 0x5C \<or> c = CHR 0x2F then Some c
      else if c = CHR ''b'' then Some (CHR 0x08)
      else if c = CHR ''f'' then Some (CHR 0x0C)
      else if c = CHR ''n'' then Some (CHR 0x0A)
      else if c = CHR ''r'' then Some (CHR 0x0D)
      else if c = CHR ''t'' then Some (CHR 0x09)
      else None)"

definition prepend :: "string \<Rightarrow> (string \<times> string) option \<Rightarrow> (string \<times> string) option" where
  "prepend p r = map_option (\<lambda>(s, rest). (p @ s, rest)) r"

text \<open>After the opening quote: the decoded string and what follows the closing quote.\<close>

fun parse_str :: "nat \<Rightarrow> string \<Rightarrow> (string \<times> string) option" where
  "parse_str 0 s = None"
| "parse_str (Suc n) [] = None"
| "parse_str (Suc n) (a # s) =
     (if a = CHR 0x22 then Some ([], s)
      else if a = CHR 0x5C then
        (case s of
           [] \<Rightarrow> None
         | e # s' \<Rightarrow>
             (if e = CHR ''u'' then
                (case hex4 s' of
                   None \<Rightarrow> None
                 | Some (r, s'') \<Rightarrow>
                     (case unescape_u r s'' of (p, t) \<Rightarrow> prepend p (parse_str n t)))
              else (case escape_char e of
                      None \<Rightarrow> None
                    | Some c \<Rightarrow> prepend [c] (parse_str n s'))))
      else if code a < 32 then None
      else if rune_len (a # s) = 0 then prepend replacement (parse_str n s)
      else prepend (take (rune_len (a # s)) (a # s)) (parse_str n (drop (rune_len (a # s) - 1) s)))"

text \<open>The number literal at the head, by the grammar of the scanner.\<close>

definition digits1 :: "string \<Rightarrow> (string \<times> string) option" where
  "digits1 s = (if takeWhile is_digit s = [] then None
                else Some (takeWhile is_digit s, dropWhile is_digit s))"

definition num_int :: "string \<Rightarrow> (string \<times> string) option" where
  "num_int s =
     (case s of
        [] \<Rightarrow> None
      | a # s' \<Rightarrow> if a = CHR ''0'' then Some ([a], s') else digits1 s)"

definition num_frac :: "string \<Rightarrow> (string \<times> string) option" where
  "num_frac s =
     (case s of
        a # s' \<Rightarrow> if a = CHR ''.'' then prepend [a] (digits1 s') else Some ([], s)
      | [] \<Rightarrow> Some ([], s))"

definition num_exp :: "string \<Rightarrow> (string \<times> string) option" where
  "num_exp s =
     (case s of
        a # s' \<Rightarrow>
          if a = CHR ''e'' \<or> a = CHR ''E'' then
            (case s' of
               b # s'' \<Rightarrow> if b = CHR ''+'' \<or> b = CHR ''-'' then prepend [a, b] (digits1 s'')
                          else prepend [a] (digits1 s')
             | [] \<Rightarrow> None)
          else Some ([], s)
      | [] \<Rightarrow> Some ([], s))"

definition num_sign :: "string \<Rightarrow> string \<times> string" where
  "num_sign s =
     (case s of a # s' \<Rightarrow> if a = CHR ''-'' then ([a], s') else ([], s) | [] \<Rightarrow> ([], s))"

definition parse_num :: "string \<Rightarrow> (string \<times> string) option" where
  "parse_num s0 =
     (case num_sign s0 of (sign, s) \<Rightarrow>
       case num_int s of
           None \<Rightarrow> None
         | Some (i, s1) \<Rightarrow>
             (case num_frac s1 of
                None \<Rightarrow> None
              | Some (f, s2) \<Rightarrow> prepend (sign @ i @ f) (num_exp s2)))"

definition maxNestingDepth :: nat where
  "maxNestingDepth = 10000"

text \<open>
  \<open>d\<close> is the nesting still allowed. \<open>parse_elems\<close> and \<open>parse_members\<close> read from the
  first element on, to the closing bracket.
\<close>

fun parse_value :: "nat \<Rightarrow> nat \<Rightarrow> string \<Rightarrow> (json \<times> string) option"
and parse_elems :: "nat \<Rightarrow> nat \<Rightarrow> string \<Rightarrow> (json list \<times> string) option"
and parse_members :: "nat \<Rightarrow> nat \<Rightarrow> string \<Rightarrow> ((string \<times> json) list \<times> string) option" where
  "parse_value 0 d s = None"
| "parse_value (Suc n) d s =
     (case skip_ws s of
        [] \<Rightarrow> None
      | a # t \<Rightarrow>
          if a = CHR ''{'' then
            (if d = 0 then None
             else case skip_ws t of
                    [] \<Rightarrow> None
                  | b # u \<Rightarrow>
                      if b = CHR ''}'' then Some (JObj [], u)
                      else map_option (\<lambda>(ms, r). (JObj ms, r)) (parse_members n (d - 1) (b # u)))
          else if a = CHR ''['' then
            (if d = 0 then None
             else case skip_ws t of
                    [] \<Rightarrow> None
                  | b # u \<Rightarrow>
                      if b = CHR '']'' then Some (JArr [], u)
                      else map_option (\<lambda>(vs, r). (JArr vs, r)) (parse_elems n (d - 1) (b # u)))
          else if a = CHR 0x22 then map_option (\<lambda>(x, r). (JStr x, r)) (parse_str (Suc (length t)) t)
          else if take 3 t = ''rue'' \<and> a = CHR ''t'' then Some (JBool True, drop 3 t)
          else if take 4 t = ''alse'' \<and> a = CHR ''f'' then Some (JBool False, drop 4 t)
          else if take 3 t = ''ull'' \<and> a = CHR ''n'' then Some (JNull, drop 3 t)
          else map_option (\<lambda>(x, r). (JNum x, r)) (parse_num (a # t)))"
| "parse_elems 0 d s = None"
| "parse_elems (Suc n) d s =
     (case parse_value n d s of
        None \<Rightarrow> None
      | Some (v, r) \<Rightarrow>
          (case skip_ws r of
             [] \<Rightarrow> None
           | a # t \<Rightarrow>
               if a = CHR '','' then map_option (\<lambda>(vs, r'). (v # vs, r')) (parse_elems n d t)
               else if a = CHR '']'' then Some ([v], t)
               else None))"
| "parse_members 0 d s = None"
| "parse_members (Suc n) d s =
     (case skip_ws s of
        [] \<Rightarrow> None
      | q # t0 \<Rightarrow>
          if q \<noteq> CHR 0x22 then None
          else case parse_str (Suc (length t0)) t0 of
            None \<Rightarrow> None
          | Some (k, t1) \<Rightarrow>
              (case skip_ws t1 of
                 [] \<Rightarrow> None
               | col # t2 \<Rightarrow>
                   if col \<noteq> CHR '':'' then None
                   else case parse_value n d t2 of
                     None \<Rightarrow> None
                   | Some (v, r) \<Rightarrow>
                       (case skip_ws r of
                          [] \<Rightarrow> None
                        | a # t \<Rightarrow>
                            if a = CHR '','' then
                              map_option (\<lambda>(ms, r'). ((k, v) # ms, r')) (parse_members n d t)
                            else if a = CHR ''}'' then Some ([(k, v)], t)
                            else None)))"

definition parse_json :: "bytes \<Rightarrow> json option" where
  "parse_json s =
     (case parse_value (2 * length s + 2) maxNestingDepth s of
        None \<Rightarrow> None
      | Some (v, r) \<Rightarrow> if skip_ws r = [] then Some v else None)"

section \<open>Printing\<close>

definition hex_digit :: "nat \<Rightarrow> char" where
  "hex_digit n = byte (if n < 10 then 48 + n else 87 + n)"

definition u00 :: "nat \<Rightarrow> string" where
  "u00 n = [CHR 0x5C, CHR ''u'', CHR ''0'', CHR ''0'', hex_digit (n div 16), hex_digit (n mod 16)]"

text \<open>One byte below 128, escaped as \<open>Marshal\<close> does with HTML escaping on.\<close>

definition print_ascii :: "char \<Rightarrow> string" where
  "print_ascii c =
     (if c = CHR 0x22 \<or> c = CHR 0x5C then [CHR 0x5C, c]
      else if c = CHR 0x08 then [CHR 0x5C, CHR ''b'']
      else if c = CHR 0x0C then [CHR 0x5C, CHR ''f'']
      else if c = CHR 0x0A then [CHR 0x5C, CHR ''n'']
      else if c = CHR 0x0D then [CHR 0x5C, CHR ''r'']
      else if c = CHR 0x09 then [CHR 0x5C, CHR ''t'']
      else if code c < 32 \<or> c = CHR ''<'' \<or> c = CHR ''>'' \<or> c = CHR 0x26 then u00 (code c)
      else [c])"

definition print_rune :: "string \<Rightarrow> string" where
  "print_rune r =
     (if r = map byte [226, 128, 168] then CHR 0x5C # ''u2028''
      else if r = map byte [226, 128, 169] then CHR 0x5C # ''u2029''
      else r)"

function print_chars :: "string \<Rightarrow> string" where
  "print_chars [] = []"
| "print_chars (a # s) =
     (if code a < 128 then print_ascii a @ print_chars s
      else if rune_len (a # s) = 0 then (CHR 0x5C # ''ufffd'') @ print_chars s
      else print_rune (take (rune_len (a # s)) (a # s)) @ print_chars (drop (rune_len (a # s) - 1) s))"
  by pat_completeness auto
termination by (relation "measure length") auto

definition print_str :: "string \<Rightarrow> string" where
  "print_str s = [CHR 0x22] @ print_chars s @ [CHR 0x22]"

fun sep_by :: "string \<Rightarrow> string list \<Rightarrow> string" where
  "sep_by sep [] = []"
| "sep_by sep [x] = x"
| "sep_by sep (x # y # xs) = x @ sep @ sep_by sep (y # xs)"

fun print_json :: "json \<Rightarrow> string" where
  "print_json JNull = ''null''"
| "print_json (JBool b) = (if b then ''true'' else ''false'')"
| "print_json (JNum n) = n"
| "print_json (JStr s) = print_str s"
| "print_json (JArr vs) = ''['' @ sep_by '','' (map print_json vs) @ '']''"
| "print_json (JObj ms) =
     ''{'' @ sep_by '','' (map (\<lambda>kv. print_str (fst kv) @ '':'' @ print_json (snd kv)) ms) @ ''}''"

section \<open>Strings round trip\<close>

lemma code_less [simp]: "code c < 256"
  using of_char_mod_256 [of c] by (metis mod_less_divisor zero_less_numeral)

lemma rune_len_le: "rune_len s \<le> length s"
  by (cases s rule: rune_len.cases) (auto split: list.splits)

lemma rune_len_take:
  assumes "rune_len s \<noteq> 0"
  shows "rune_len (take (rune_len s) s @ t) = rune_len s"
proof (cases s)
  case Nil
  with assms show ?thesis by simp
next
  case (Cons a s')
  consider "code a < 128" | b u where "s' = b # u" "in_range 194 223 a"
    | b c u where "s' = b # c # u" "in_range 224 239 a"
    | b c d u where "s' = b # c # d # u" "in_range 240 244 a"
    using assms unfolding Cons rune_len.simps by (auto split: if_splits list.splits)
  then show ?thesis
    using assms unfolding Cons
    by cases (simp_all split: if_splits add: in_range_def)
qed

lemma rune_len_simps [simp]: "rune_len [] = 0" "code a < 128 \<Longrightarrow> rune_len (a # s) = 1"
  by simp_all

declare rune_len.simps [simp del]

lemma hex_val_digit [simp]: "n < 16 \<Longrightarrow> hex_val (hex_digit n) = Some n"
  by (auto simp: hex_val_def hex_digit_def in_range_def)

lemma hex_val_zero [simp]: "hex_val (CHR ''0'') = Some 0"
  by (simp add: hex_val_def in_range_def)

lemma hex4_u00: "n < 256 \<Longrightarrow> hex4 (CHR ''0'' # CHR ''0'' # hex_digit (n div 16) # hex_digit (n mod 16) # s) = Some (n, s)"
  by simp

lemma parse_ascii:
  assumes "code a < 128"
  shows "parse_str (Suc n) (print_ascii a @ s) = prepend [a] (parse_str n s)"
proof -
  have e: "encode_rune (code a) = [a]" using assms by (simp add: encode_rune_def)
  have ns: "\<not> is_surrogate (code a)" using assms by (simp add: is_surrogate_def)
  show ?thesis
    using assms e ns
    by (simp add: print_ascii_def u00_def hex4_u00 escape_char_def unescape_u_def del: hex4.simps)
qed

lemma prepend_Some [simp]: "prepend p (Some (s, r)) = Some (p @ s, r)"
  by (simp add: prepend_def)

lemma parse_ufffd: "parse_str (Suc n) (CHR 0x5C # ''ufffd'' @ s) = prepend replacement (parse_str n s)"
proof -
  have "hex4 (''fffd'' @ s) = Some (65533, s)" by (simp add: hex_val_def in_range_def)
  moreover have "unescape_u 65533 s = (replacement, s)"
    by (simp add: unescape_u_def is_surrogate_def encode_rune_def replacement_def)
  ultimately show ?thesis by simp
qed

lemma parse_u2028: "parse_str (Suc n) (CHR 0x5C # ''u2028'' @ s) = prepend (map byte [226, 128, 168]) (parse_str n s)"
proof -
  have "hex4 (''2028'' @ s) = Some (8232, s)" by (simp add: hex_val_def in_range_def)
  moreover have "unescape_u 8232 s = (map byte [226, 128, 168], s)"
    by (simp add: unescape_u_def is_surrogate_def encode_rune_def)
  ultimately show ?thesis by simp
qed

lemma parse_u2029: "parse_str (Suc n) (CHR 0x5C # ''u2029'' @ s) = prepend (map byte [226, 128, 169]) (parse_str n s)"
proof -
  have "hex4 (''2029'' @ s) = Some (8233, s)" by (simp add: hex_val_def in_range_def)
  moreover have "unescape_u 8233 s = (map byte [226, 128, 169], s)"
    by (simp add: unescape_u_def is_surrogate_def encode_rune_def)
  ultimately show ?thesis by simp
qed

lemma parse_multibyte:
  assumes "\<not> code a < 128" "rune_len (a # s) \<noteq> 0"
  shows "parse_str (Suc n) (take (rune_len (a # s)) (a # s) @ t)
    = prepend (take (rune_len (a # s)) (a # s)) (parse_str n t)"
proof -
  let ?k = "rune_len (a # s)"
  have k: "?k = length (take ?k (a # s))" using rune_len_le [of "a # s"] by simp
  obtain u where u: "take ?k (a # s) = a # u" using assms(2) by (cases ?k) simp_all
  have len: "rune_len (a # u @ t) = Suc (length u)"
    using rune_len_take [OF assms(2), of t] k u by simp
  have "a \<noteq> CHR 0x22" "a \<noteq> CHR 0x5C" "\<not> code a < 32" using assms(1) by auto
  then show ?thesis using len by (simp add: u)
qed

lemma parse_print_chars:
  "length (print_chars s) < n \<Longrightarrow> parse_str n (print_chars s @ CHR 0x22 # r) = Some (utf8_fix s, r)"
proof (induction s arbitrary: n rule: print_chars.induct)
  case 1
  then show ?case by (cases n) simp_all
next
  case (2 a s)
  obtain m where n: "n = Suc m" using "2.prems" by (cases n) simp_all
  let ?k = "rune_len (a # s)"
  consider (ascii) "code a < 128" | (bad) "\<not> code a < 128" "?k = 0" | (multi) "\<not> code a < 128" "?k \<noteq> 0"
    by blast
  then show ?case
  proof cases
    case ascii
    have "print_ascii a \<noteq> []" by (simp add: print_ascii_def u00_def)
    then have "length (print_chars s) < m" using "2.prems" ascii n
      by (cases "print_ascii a") (simp_all)
    with 2(1) ascii n show ?thesis by (simp add: parse_ascii)
  next
    case bad
    with "2.prems" n have "length (print_chars s) < m" by simp
    with 2(2) bad n parse_ufffd [of m "print_chars s @ CHR 0x22 # r"] show ?thesis
      by simp
  next
    case multi
    let ?t = "print_chars (drop (?k - 1) s) @ CHR 0x22 # r"
    have ne: "print_rune (take ?k (a # s)) \<noteq> []"
      using multi(2) by (cases ?k) (simp_all add: print_rune_def)
    then have "length (print_chars (drop (?k - 1) s)) < m"
      using "2.prems" multi n by (cases "print_rune (take ?k (a # s))") (simp_all)
    then have ih: "parse_str m ?t = Some (utf8_fix (drop (?k - 1) s), r)"
      using 2(3) multi by blast
    have "parse_str (Suc m) (print_rune (take ?k (a # s)) @ ?t) = prepend (take ?k (a # s)) (parse_str m ?t)"
      using parse_u2028 [of m ?t] parse_u2029 [of m ?t] parse_multibyte [OF multi, of m ?t]
      by (simp add: print_rune_def)
    with ih multi n show ?thesis by simp
  qed
qed

section \<open>Documents round trip\<close>

text \<open>What may follow a number.\<close>

definition stops :: "string \<Rightarrow> bool" where
  "stops r \<longleftrightarrow> (case r of [] \<Rightarrow> True | a # _ \<Rightarrow> \<not> is_digit a \<and> a \<notin> {CHR ''.'', CHR ''e'', CHR ''E''})"

definition num_ok :: "string \<Rightarrow> bool" where
  "num_ok n \<longleftrightarrow> parse_num n = Some (n, [])"

lemma stops_simps [simp]:
  "stops []" "stops (CHR '','' # r)" "stops (CHR '']'' # r)" "stops (CHR ''}'' # r)"
  by (simp_all add: stops_def is_digit_def in_range_def)

lemma stops_take: "stops r \<Longrightarrow> takeWhile is_digit r = [] \<and> dropWhile is_digit r = r"
  by (cases r) (simp_all add: stops_def)

lemma digits1_ext:
  assumes "digits1 s = Some (d, t)" "stops r" shows "digits1 (s @ r) = Some (d, t @ r)"
proof (cases "\<forall>c \<in> set s. is_digit c")
  case True
  have tw: "takeWhile is_digit s = s" using True by (simp add: takeWhile_eq_all_conv)
  have dw: "dropWhile is_digit s = []" using True by simp
  have "digits1 s = (if s = [] then None else Some (s, []))" unfolding digits1_def tw dw by (rule refl)
  with assms(1) have "d = s" "t = []" "s \<noteq> []" by (auto split: if_splits)
  moreover have "takeWhile is_digit (s @ r) = s" "dropWhile is_digit (s @ r) = r"
    using True stops_take [OF assms(2)] by (simp_all add: takeWhile_append2 dropWhile_append2)
  ultimately show ?thesis by (simp add: digits1_def)
next
  case False
  with assms show ?thesis
    by (auto simp: digits1_def takeWhile_append dropWhile_append split: if_splits)
qed

lemma num_int_ext: "num_int s = Some (d, t) \<Longrightarrow> stops r \<Longrightarrow> num_int (s @ r) = Some (d, t @ r)"
  using digits1_ext [of s d t r] by (cases s) (auto simp: num_int_def split: if_splits)

lemma prepend_eq_Some: "prepend p x = Some (d, t) \<longleftrightarrow> (\<exists>e. x = Some (e, t) \<and> d = p @ e)"
  by (auto simp: prepend_def)

lemma num_frac_ext: "num_frac s = Some (d, t) \<Longrightarrow> stops r \<Longrightarrow> num_frac (s @ r) = Some (d, t @ r)"
  using digits1_ext [of "tl s" _ t r]
  by (cases s; cases r) (auto simp: num_frac_def prepend_eq_Some stops_def split: if_splits)

lemma num_exp_ext: "num_exp s = Some (d, t) \<Longrightarrow> stops r \<Longrightarrow> num_exp (s @ r) = Some (d, t @ r)"
  using digits1_ext [of "tl s" _ t r] digits1_ext [of "tl (tl s)" _ t r]
  by (cases s; cases r; cases "tl s")
    (auto simp: num_exp_def prepend_eq_Some stops_def split: if_splits)

lemma parse_num_ext:
  assumes "parse_num s = Some (d, t)" "stops r" shows "parse_num (s @ r) = Some (d, t @ r)"
proof -
  obtain sg u where sg: "num_sign s = (sg, u)" by fastforce
  from assms(1) sg obtain i u1 f u2 e where
    p: "num_int u = Some (i, u1)" "num_frac u1 = Some (f, u2)" "num_exp u2 = Some (e, t)" "d = sg @ i @ f @ e"
    by (auto simp: parse_num_def prepend_eq_Some split: option.splits)
  have "s \<noteq> []" using sg p(1) by (auto simp: num_sign_def num_int_def)
  then have "num_sign (s @ r) = (sg, u @ r)" using sg by (cases s) (auto simp: num_sign_def split: if_splits)
  with p num_int_ext [OF p(1) assms(2)] num_frac_ext [OF p(2) assms(2)] num_exp_ext [OF p(3) assms(2)]
  show ?thesis by (simp add: parse_num_def)
qed

lemma num_ok_head:
  assumes "num_ok n" obtains a t where "n = a # t" "a = CHR ''-'' \<or> is_digit a"
proof (cases n)
  case Nil
  with assms show ?thesis by (simp add: num_ok_def parse_num_def num_int_def num_sign_def)
next
  case (Cons a t)
  with assms have "a = CHR ''-'' \<or> is_digit a"
    by (auto simp: num_ok_def parse_num_def num_int_def num_sign_def digits1_def is_digit_def in_range_def
        split: if_splits option.splits)
  with Cons that show ?thesis by blast
qed

fun printable :: "json \<Rightarrow> bool" where
  "printable (JNum n) = num_ok n"
| "printable (JArr vs) = list_all printable vs"
| "printable (JObj ms) = list_all (\<lambda>kv. printable (snd kv)) ms"
| "printable _ = True"

fun jdepth :: "json \<Rightarrow> nat" where
  "jdepth (JArr vs) = Suc (fold max (map jdepth vs) 0)"
| "jdepth (JObj ms) = Suc (fold max (map (\<lambda>kv. jdepth (snd kv)) ms) 0)"
| "jdepth _ = 0"

text \<open>The document a reader sees: every string with its invalid bytes replaced.\<close>

fun fix_json :: "json \<Rightarrow> json" where
  "fix_json (JStr s) = JStr (utf8_fix s)"
| "fix_json (JArr vs) = JArr (map fix_json vs)"
| "fix_json (JObj ms) = JObj (map (\<lambda>kv. (utf8_fix (fst kv), fix_json (snd kv))) ms)"
| "fix_json v = v"

lemma fold_max_le: "fold max xs (a::nat) \<le> d \<longleftrightarrow> a \<le> d \<and> (\<forall>x \<in> set xs. x \<le> d)"
  by (induction xs arbitrary: a) auto

definition starts_value :: "char \<Rightarrow> bool" where
  "starts_value a \<longleftrightarrow> \<not> is_ws a \<and> a \<noteq> CHR '']'' \<and> a \<noteq> CHR ''}''"

lemma num_starts: "a = CHR ''-'' \<or> is_digit a \<Longrightarrow> starts_value a
    \<and> a \<notin> {CHR ''{'', CHR ''['', CHR 0x22, CHR ''t'', CHR ''f'', CHR ''n''}"
  by (auto simp: starts_value_def is_ws_def is_digit_def in_range_def)

lemma print_starts:
  assumes "printable v" obtains a t where "print_json v = a # t" "starts_value a"
proof (cases v)
  case (JNum n)
  then have "num_ok n" using assms by simp
  then obtain a t where "n = a # t" "a = CHR ''-'' \<or> is_digit a" by (rule num_ok_head)
  with JNum num_starts that show ?thesis by simp
next
  case (JBool b)
  then show ?thesis using that by (cases b) (simp_all add: starts_value_def is_ws_def)
qed (use that in \<open>auto simp: starts_value_def is_ws_def print_str_def\<close>)

lemma skip_ws_starts [simp]: "starts_value a \<Longrightarrow> skip_ws (a # t) = a # t"
  by (simp add: starts_value_def)

definition value_ok :: "json \<Rightarrow> bool" where
  "value_ok v \<longleftrightarrow> (\<forall>n d r. 2 * length (print_json v) \<le> n \<longrightarrow> jdepth v \<le> d \<longrightarrow> stops r \<longrightarrow>
     parse_value n d (print_json v @ r) = Some (fix_json v, r))"

lemma value_okD:
  "value_ok v \<Longrightarrow> 2 * length (print_json v) \<le> n \<Longrightarrow> jdepth v \<le> d \<Longrightarrow> stops r \<Longrightarrow>
     parse_value n d (print_json v @ r) = Some (fix_json v, r)"
  by (simp add: value_ok_def)

lemma skip_ws_non_ws [simp]: "\<not> is_ws a \<Longrightarrow> skip_ws (a # t) = a # t"
  by simp

lemma not_ws [simp]:
  "\<not> is_ws (CHR '','')" "\<not> is_ws (CHR '']'')" "\<not> is_ws (CHR ''}'')" "\<not> is_ws (CHR '':'')"
  "\<not> is_ws (CHR 0x22)" "\<not> is_ws (CHR ''{'')" "\<not> is_ws (CHR ''['')"
  "\<not> is_ws (CHR ''t'')" "\<not> is_ws (CHR ''f'')" "\<not> is_ws (CHR ''n'')"
  by (simp_all add: is_ws_def)

lemma parse_elems_print:
  assumes "vs \<noteq> []" "\<forall>v \<in> set vs. value_ok v \<and> jdepth v \<le> d"
    and "2 * length (sep_by '','' (map print_json vs)) < n"
  shows "parse_elems n d (sep_by '','' (map print_json vs) @ CHR '']'' # r) = Some (map fix_json vs, r)"
  using assms
proof (induction vs arbitrary: n)
  case Nil
  then show ?case by simp
next
  case (Cons v vs)
  obtain m where n: "n = Suc m" using Cons.prems by (cases n) simp_all
  show ?case
  proof (cases vs)
    case Nil
    then show ?thesis
      using Cons.prems n value_okD [of v m d "CHR '']'' # r"] by simp
  next
    case (Cons w ws)
    let ?rest = "sep_by '','' (map print_json vs)"
    have p: "sep_by '','' (map print_json (v # vs)) = print_json v @ '','' @ ?rest"
      using Cons by simp
    have "parse_value m d (print_json v @ CHR '','' # ?rest @ CHR '']'' # r)
        = Some (fix_json v, CHR '','' # ?rest @ CHR '']'' # r)"
      by (rule value_okD) (use Cons.prems n p in auto)
    moreover have "parse_elems m d (?rest @ CHR '']'' # r) = Some (map fix_json vs, r)"
      by (rule Cons.IH) (use Cons.prems n p Cons in auto)
    ultimately show ?thesis using n p by simp
  qed
qed

abbreviation print_member :: "string \<times> json \<Rightarrow> string" where
  "print_member kv \<equiv> print_str (fst kv) @ '':'' @ print_json (snd kv)"

lemma parse_members_print:
  assumes "ms \<noteq> []" "\<forall>kv \<in> set ms. value_ok (snd kv) \<and> jdepth (snd kv) \<le> d"
    and "2 * length (sep_by '','' (map print_member ms)) < n"
  shows "parse_members n d (sep_by '','' (map print_member ms) @ CHR ''}'' # r)
    = Some (map (\<lambda>kv. (utf8_fix (fst kv), fix_json (snd kv))) ms, r)"
  using assms
proof (induction ms arbitrary: n)
  case Nil
  then show ?case by simp
next
  case (Cons kv ms)
  obtain m where n: "n = Suc m" using Cons.prems by (cases n) simp_all
  obtain k v where kv: "kv = (k, v)" by (cases kv)
  have key: "parse_str (Suc (length (print_chars k @ CHR 0x22 # t))) (print_chars k @ CHR 0x22 # t)
      = Some (utf8_fix k, t)" for t
    by (rule parse_print_chars) simp
  show ?case
  proof (cases ms)
    case Nil
    then show ?thesis
      using Cons.prems n value_okD [of v m d "CHR ''}'' # r"] key [of "CHR '':'' # print_json v @ CHR ''}'' # r"]
      by (simp add: kv print_str_def)
  next
    case (Cons w ws)
    let ?rest = "sep_by '','' (map print_member ms)"
    have p: "sep_by '','' (map print_member (kv # ms)) = print_member kv @ '','' @ ?rest"
      using Cons by simp
    have "parse_value m d (print_json v @ CHR '','' # ?rest @ CHR ''}'' # r)
        = Some (fix_json v, CHR '','' # ?rest @ CHR ''}'' # r)"
      by (rule value_okD) (use Cons.prems n p kv in auto)
    moreover have "parse_members m d (?rest @ CHR ''}'' # r)
        = Some (map (\<lambda>kv. (utf8_fix (fst kv), fix_json (snd kv))) ms, r)"
      by (rule Cons.IH) (use Cons.prems n p Cons in auto)
    ultimately show ?thesis
      using n p key [of "CHR '':'' # print_json v @ CHR '','' # ?rest @ CHR ''}'' # r"]
      by (simp add: kv print_str_def)
  qed
qed

lemma sep_by_head:
  assumes "xs \<noteq> []" "hd xs = a # t" obtains u where "sep_by sep xs = a # u"
  using assms by (cases xs; cases "tl xs") auto

lemma printable_ok: "printable v \<Longrightarrow> value_ok v"
proof (induction v)
  case (JNum m)
  then have m: "num_ok m" by simp
  then obtain a t where a: "m = a # t" "a = CHR ''-'' \<or> is_digit a" by (rule num_ok_head)
  show ?case
    unfolding value_ok_def
  proof (intro allI impI)
    fix n d r assume n: "2 * length (print_json (JNum m)) \<le> n" and r: "stops r"
    obtain k where k: "n = Suc k" using n a(1) by (cases n) simp_all
    have "parse_num (m @ r) = Some (m, r)"
      using parse_num_ext [OF m [unfolded num_ok_def] r] by simp
    with num_starts [OF a(2)] a(1) k starts_value_def show "parse_value n d (print_json (JNum m) @ r) = Some (fix_json (JNum m), r)"
      by simp
  qed
next
  case (JStr s)
  show ?case
    unfolding value_ok_def
  proof (intro allI impI)
    fix n d r assume n: "2 * length (print_json (JStr s)) \<le> n"
    obtain k where k: "n = Suc k" using n by (cases n) (simp_all add: print_str_def)
    have "parse_str (Suc (length (print_chars s @ CHR 0x22 # r))) (print_chars s @ CHR 0x22 # r)
        = Some (utf8_fix s, r)" by (rule parse_print_chars) simp
    with k show "parse_value n d (print_json (JStr s) @ r) = Some (fix_json (JStr s), r)"
      by (simp add: print_str_def)
  qed
next
  case (JArr vs)
  have vs: "\<forall>v \<in> set vs. value_ok v \<and> printable v" using JArr by (auto simp: list_all_iff)
  show ?case
    unfolding value_ok_def
  proof (intro allI impI)
    fix n d r
    assume n: "2 * length (print_json (JArr vs)) \<le> n" and d: "jdepth (JArr vs) \<le> d" and r: "stops r"
    obtain k where k: "n = Suc k" using n by (cases n) simp_all
    show "parse_value n d (print_json (JArr vs) @ r) = Some (fix_json (JArr vs), r)"
    proof (cases "vs = []")
      case True
      with k d show ?thesis by simp
    next
      case False
      let ?t = "sep_by '','' (map print_json vs)"
      obtain a u where a: "print_json (hd vs) = a # u" "starts_value a"
        using vs False by (meson hd_in_set print_starts)
      then obtain w where w: "?t = a # w"
        using sep_by_head [of "map print_json vs" a u "'',''"] False by (auto simp: hd_map)
      have "fold max (map jdepth vs) 0 \<le> d - 1" using d by simp
      then have dd: "\<forall>v \<in> set vs. jdepth v \<le> d - 1" by (simp add: fold_max_le)
      have "parse_elems k (d - 1) (?t @ CHR '']'' # r) = Some (map fix_json vs, r)"
        by (rule parse_elems_print) (use vs dd False n k in auto)
      with w a(2) k d show ?thesis by (simp add: starts_value_def)
    qed
  qed
next
  case (JObj ms)
  have ms: "\<forall>kv \<in> set ms. value_ok (snd kv)" using JObj by (auto simp: list_all_iff)
  show ?case
    unfolding value_ok_def
  proof (intro allI impI)
    fix n d r
    assume n: "2 * length (print_json (JObj ms)) \<le> n" and d: "jdepth (JObj ms) \<le> d" and r: "stops r"
    obtain k where k: "n = Suc k" using n by (cases n) simp_all
    show "parse_value n d (print_json (JObj ms) @ r) = Some (fix_json (JObj ms), r)"
    proof (cases "ms = []")
      case True
      with k d show ?thesis by simp
    next
      case False
      let ?t = "sep_by '','' (map print_member ms)"
      obtain w where w: "?t = CHR 0x22 # w"
        using sep_by_head [of "map print_member ms" "CHR 0x22" _ "'',''"] False
        by (auto simp: hd_map print_str_def)
      have "fold max (map (\<lambda>kv. jdepth (snd kv)) ms) 0 \<le> d - 1" using d by simp
      then have dd: "\<forall>kv \<in> set ms. jdepth (snd kv) \<le> d - 1" by (simp add: fold_max_le)
      have "parse_members k (d - 1) (?t @ CHR ''}'' # r)
          = Some (map (\<lambda>kv. (utf8_fix (fst kv), fix_json (snd kv))) ms, r)"
        by (rule parse_members_print) (use ms dd False n k in auto)
      with w k d show ?thesis by simp
    qed
  qed
next
  case JNull
  show ?case
    unfolding value_ok_def
  proof (intro allI impI)
    fix n d r assume n: "2 * length (print_json JNull) \<le> n"
    then obtain k where "n = Suc k" by (cases n) simp_all
    then show "parse_value n d (print_json JNull @ r) = Some (fix_json JNull, r)" by simp
  qed
next
  case (JBool b)
  show ?case
    unfolding value_ok_def
  proof (intro allI impI)
    fix n d r assume n: "2 * length (print_json (JBool b)) \<le> n"
    then obtain k where "n = Suc k" by (cases n) (auto split: if_splits)
    then show "parse_value n d (print_json (JBool b) @ r) = Some (fix_json (JBool b), r)" by simp
  qed
qed

theorem parse_print:
  assumes "printable v" "jdepth v \<le> maxNestingDepth"
  shows "parse_json (print_json v) = Some (fix_json v)"
  using value_okD [OF printable_ok [OF assms(1)] _ assms(2), of "2 * length (print_json v) + 2" "[]"]
  by (simp add: parse_json_def)

section \<open>What parsing guarantees\<close>

lemma parse_depth:
  "parse_value n d s = Some (v, r) \<Longrightarrow> jdepth v \<le> d"
  "parse_elems n d s = Some (vs, r) \<Longrightarrow> fold max (map jdepth vs) 0 \<le> d"
  "parse_members n d s = Some (ms, r) \<Longrightarrow> fold max (map (\<lambda>kv. jdepth (snd kv)) ms) 0 \<le> d"
proof (induction n d s and n d s and n d s arbitrary: v r and vs r and ms r
    rule: parse_value_parse_elems_parse_members.induct)
  case (2 n d s)
  have less: "x \<le> d - Suc 0 \<Longrightarrow> 0 < d \<Longrightarrow> x < d" for x :: nat by simp
  from 2 show ?case
    by (auto simp: Suc_le_eq split: list.splits if_splits simp del: dropWhile_eq_Nil_conv intro!: less)
next
  case (4 n d s)
  then show ?case by (auto simp: fold_max_le split: list.splits if_splits option.splits)
next
  case (6 n d s)
  then show ?case by (auto simp: fold_max_le split: list.splits if_splits option.splits) fastforce
qed simp_all

lemma utf8_fix_ascii: "utf8_fix s = t \<Longrightarrow> \<forall>c \<in> set t. code c < 128 \<Longrightarrow> s = t"
proof (induction s arbitrary: t rule: utf8_fix.induct)
  case 1
  then show ?case by simp
next
  case (2 a s)
  show ?case
  proof (cases "code a < 128")
    case True
    then have "t = a # utf8_fix s" using "2.prems" by simp
    with "2.IH"(2) "2.prems" True show ?thesis by simp
  next
    case False
    have "\<exists>c u. t = c # u \<and> \<not> code c < 128"
      using "2.prems"(1) False
      by (cases "rune_len (a # s)") (auto simp: replacement_def)
    with "2.prems"(2) show ?thesis by auto
  qed
qed

lemma utf8_fix_of_ascii: "\<forall>c \<in> set t. code c < 128 \<Longrightarrow> utf8_fix t = t"
  by (induction t) simp_all

end
