(* ===== verification/Broadcast.thy ===== *)
theory Broadcast
  imports Json "HOL-Library.Multiset"
begin

text \<open>
  \<open>internal/relay/broadcast.go\<close>: the envelope of the volatile channel, its
  rewriting with the session's identity, and the guard that keeps the two
  identity-bearing types off the durable channel.
\<close>

section \<open>Sessions\<close>

record session =
  ss_FileID :: string
  ss_UserID :: string
  ss_UserName :: string
  ss_CanWrite :: bool

definition typeMouseLocation :: string where
  "typeMouseLocation = ''MOUSE_LOCATION''"

definition typeViewportUpdate :: string where
  "typeViewportUpdate = ''VIEWPORT_UPDATE''"

section \<open>Unmarshal into a struct\<close>

definition upper :: "char \<Rightarrow> char" where
  "upper c = (if in_range 97 122 c then byte (code c - 32) else c)"

text \<open>
  A member goes to the field of its exact name or, failing that, of the same folded
  name. No letter outside ASCII folds to one of the letters of \<open>type\<close> and
  \<open>payload\<close>, so both rules together are equality up to the case of ASCII letters.
\<close>

definition names_field :: "string \<Rightarrow> string \<Rightarrow> bool" where
  "names_field field key \<longleftrightarrow> map upper key = map upper field"

text \<open>
  A string field takes a JSON string, is left alone by \<open>null\<close>, and takes nothing
  else: the error is kept, and decoding goes on. Later members overwrite earlier
  ones. The result is the field and whether there was no error.
\<close>

fun string_field :: "string \<Rightarrow> (string \<times> json) list \<Rightarrow> string \<times> bool \<Rightarrow> string \<times> bool" where
  "string_field field [] acc = acc"
| "string_field field ((k, v) # ms) (s, ok) =
     string_field field ms
       (if names_field field k
        then (case v of JStr t \<Rightarrow> (t, ok) | JNull \<Rightarrow> (s, ok) | _ \<Rightarrow> (s, False))
        else (s, ok))"

text \<open>A \<open>RawMessage\<close> takes any value; \<open>None\<close> is the empty message.\<close>

fun raw_field :: "string \<Rightarrow> (string \<times> json) list \<Rightarrow> json option \<Rightarrow> json option" where
  "raw_field field [] acc = acc"
| "raw_field field ((k, v) # ms) acc =
     raw_field field ms (if names_field field k then Some v else acc)"

record volatileEnvelope =
  ve_Type :: string
  ve_Payload :: "json option"

definition unmarshal_envelope :: "bytes \<Rightarrow> volatileEnvelope option" where
  "unmarshal_envelope raw =
     (case parse_json raw of
        None \<Rightarrow> None
      | Some JNull \<Rightarrow> Some \<lparr>ve_Type = [], ve_Payload = None\<rparr>
      | Some (JObj ms) \<Rightarrow>
          (case string_field ''type'' ms ([], True) of
             (t, ok) \<Rightarrow> if ok then Some \<lparr>ve_Type = t, ve_Payload = raw_field ''payload'' ms None\<rparr>
                        else None)
      | Some _ \<Rightarrow> None)"

definition isIdentityBearingType :: "bytes \<Rightarrow> bool" where
  "isIdentityBearingType payload =
     (case parse_json payload of
        Some (JObj ms) \<Rightarrow>
          (case string_field ''type'' ms ([], True) of
             (t, ok) \<Rightarrow> ok \<and> (t = typeMouseLocation \<or> t = typeViewportUpdate))
      | _ \<Rightarrow> False)"

section \<open>Values of type any\<close>

text \<open>
  Decoding into \<open>any\<close> and marshalling again: an object becomes a map, so the last
  of several members of a name counts and the output is sorted by name; a number goes
  through \<open>float64\<close>. \<open>renum\<close> is that trip of a literal, with \<open>None\<close> for one out
  of range.
\<close>

definition go_map :: "(string \<times> 'a) list \<Rightarrow> (string \<times> 'a) list" where
  "go_map kvs = sort_key fst (fold (\<lambda>(k, v). AList.update k v) kvs [])"

fun all_some :: "'a option list \<Rightarrow> 'a list option" where
  "all_some [] = Some []"
| "all_some (x # xs) =
     (case x of None \<Rightarrow> None | Some a \<Rightarrow> map_option (\<lambda>as. a # as) (all_some xs))"

fun as_any :: "(string \<Rightarrow> string option) \<Rightarrow> json \<Rightarrow> json option" where
  "as_any renum (JNum n) = map_option JNum (renum n)"
| "as_any renum (JArr vs) = map_option JArr (all_some (map (as_any renum) vs))"
| "as_any renum (JObj ms) =
     map_option (\<lambda>vs. JObj (go_map (zip (map fst ms) vs)))
       (all_some (map (\<lambda>kv. as_any renum (snd kv)) ms))"
| "as_any renum v = Some v"

definition payload_map :: "(string \<Rightarrow> string option) \<Rightarrow> json option \<Rightarrow> (string \<times> json) list option" where
  "payload_map renum p =
     (case p of
        None \<Rightarrow> Some []
      | Some JNull \<Rightarrow> Some []
      | Some (JObj ms) \<Rightarrow>
          (case as_any renum (JObj ms) of Some (JObj kvs) \<Rightarrow> Some kvs | _ \<Rightarrow> None)
      | Some _ \<Rightarrow> None)"

section \<open>The volatile channel\<close>

definition presenceUser :: "string \<Rightarrow> string \<Rightarrow> json" where
  "presenceUser uid name = JObj [(''id'', JStr uid), (''name'', JStr name)]"

definition set_key :: "string \<Rightarrow> json \<Rightarrow> (string \<times> json) list \<Rightarrow> (string \<times> json) list" where
  "set_key k v kvs = sort_key fst (AList.update k v kvs)"

definition volatileOut :: "string \<Rightarrow> (string \<times> json) list \<Rightarrow> json" where
  "volatileOut t payload = JObj [(''type'', JStr t), (''payload'', JObj payload)]"

definition rewriteVolatile ::
  "(string \<Rightarrow> string option) \<Rightarrow> bytes \<Rightarrow> session \<Rightarrow> bytes option" where
  "rewriteVolatile renum raw identity =
     (case unmarshal_envelope raw of
        None \<Rightarrow> None
      | Some env \<Rightarrow>
          (case payload_map renum (ve_Payload env) of
             None \<Rightarrow> None
           | Some payload \<Rightarrow>
               if ve_Type env = typeMouseLocation then
                 Some (print_json (volatileOut (ve_Type env)
                   (set_key ''user'' (presenceUser (ss_UserID identity) (ss_UserName identity)) payload)))
               else if ve_Type env = typeViewportUpdate then
                 Some (print_json (volatileOut (ve_Type env)
                   (set_key ''userId'' (JStr (ss_UserID identity)) payload)))
               else None))"

section \<open>The other payloads\<close>

definition exceedsSceneLimit :: "bytes \<Rightarrow> int \<Rightarrow> bool" where
  "exceedsSceneLimit payload maxSceneBytes \<longleftrightarrow> maxSceneBytes < int (length payload)"

definition imageRequestBytes :: "string \<Rightarrow> bytes" where
  "imageRequestBytes imageID =
     print_json (JObj [(''type'', JStr ''IMAGE_REQUEST''),
                       (''payload'', JObj [(''fileId'', JStr imageID)])])"

section \<open>Maps of the decoder\<close>

lemma set_update_subset: "set (AList.update k v al) \<subseteq> insert (k, v) (set al)"
  by (induction al) auto

lemma set_fold_update: "set (fold (\<lambda>(k, v). AList.update k v) kvs al) \<subseteq> set kvs \<union> set al"
proof (induction kvs arbitrary: al)
  case Nil
  then show ?case by simp
next
  case (Cons kv kvs)
  obtain k v where kv: "kv = (k, v)" by (cases kv)
  from Cons.IH [of "AList.update k v al"] set_update_subset [of k v al] show ?case by (auto simp: kv)
qed

lemma set_go_map: "set (go_map kvs) \<subseteq> set kvs"
  using set_fold_update [of kvs "[]"] by (simp add: go_map_def)

lemma distinct_fold_update:
  "distinct (map fst al) \<Longrightarrow> distinct (map fst (fold (\<lambda>(k, v). AList.update k v) kvs al))"
  by (induction kvs arbitrary: al) (auto simp: distinct_update)

lemma distinct_sort_fst: "distinct (map fst al) \<Longrightarrow> distinct (map fst (sort_key fst al))"
  by (metis mset_eq_imp_distinct_iff mset_map mset_sort)

lemma distinct_go_map: "distinct (map fst (go_map kvs))"
  by (simp add: go_map_def distinct_sort_fst distinct_fold_update)

lemma all_some_set: "all_some xs = Some ys \<Longrightarrow> y \<in> set ys \<Longrightarrow> Some y \<in> set xs"
  by (induction xs arbitrary: ys) (auto split: option.splits)

lemma fold_max_mem: "x \<in> set xs \<Longrightarrow> f x \<le> fold max (map f xs) (0::nat)"
  using fold_max_le [of "map f xs" 0 "fold max (map f xs) 0"] by simp

lemma set_zip_snd: "(k, v) \<in> set (zip ks vs) \<Longrightarrow> v \<in> set vs"
  by (rule set_zip_rightD)

lemma as_any_props:
  assumes renum: "\<forall>n m. renum n = Some m \<longrightarrow> num_ok m"
  shows "as_any renum v = Some w \<Longrightarrow> printable w \<and> jdepth w \<le> jdepth v"
proof (induction v arbitrary: w)
  case (JNum n)
  then show ?case using renum by auto
next
  case (JArr vs)
  then obtain ws where ws: "all_some (map (as_any renum) vs) = Some ws" "w = JArr ws" by auto
  have "printable x \<and> jdepth x \<le> fold max (map jdepth vs) 0" if x: "x \<in> set ws" for x
  proof -
    obtain v where "v \<in> set vs" "as_any renum v = Some x"
      using all_some_set [OF ws(1) x] by auto
    with JArr.IH [of v x] fold_max_mem [of v vs jdepth] show ?thesis by auto
  qed
  then show ?case using ws(2) by (simp add: list_all_iff fold_max_le)
next
  case (JObj ms)
  let ?d = "fold max (map (\<lambda>kv. jdepth (snd kv)) ms) 0"
  from JObj obtain ws where ws: "all_some (map (\<lambda>kv. as_any renum (snd kv)) ms) = Some ws"
    "w = JObj (go_map (zip (map fst ms) ws))" by auto
  have "printable x \<and> jdepth x \<le> ?d" if x: "x \<in> set ws" for x
  proof -
    obtain kv where "kv \<in> set ms" "as_any renum (snd kv) = Some x"
      using all_some_set [OF ws(1) x] by auto
    with JObj.IH [of kv "snd kv" x] fold_max_mem [of kv ms "\<lambda>kv. jdepth (snd kv)"] show ?thesis
      by (cases kv) auto
  qed
  moreover have "snd kv \<in> set ws" if "kv \<in> set (go_map (zip (map fst ms) ws))" for kv
  proof -
    have "(fst kv, snd kv) \<in> set (zip (map fst ms) ws)"
      using that set_go_map [of "zip (map fst ms) ws"] by auto
    then show ?thesis by (rule set_zip_snd)
  qed
  ultimately show ?case using ws(2) by (simp add: list_all_iff fold_max_le)
qed auto

text \<open>The payload the handler works on.\<close>

lemma payload_map_props:
  assumes "\<forall>n m. renum n = Some m \<longrightarrow> num_ok m" "payload_map renum p = Some kvs"
    and "\<And>v. p = Some v \<Longrightarrow> jdepth v \<le> Suc d"
  shows "distinct (map fst kvs)" "list_all (\<lambda>kv. printable (snd kv) \<and> jdepth (snd kv) \<le> d) kvs"
proof -
  have "distinct (map fst kvs) \<and> list_all (\<lambda>kv. printable (snd kv) \<and> jdepth (snd kv) \<le> d) kvs"
  proof (cases "p = None \<or> p = Some JNull")
    case True
    with assms(2) show ?thesis by (auto simp: payload_map_def)
  next
    case False
    with assms(2) obtain ms where ms: "p = Some (JObj ms)"
      by (auto simp: payload_map_def split: option.splits json.splits)
    with assms(2) have a: "as_any renum (JObj ms) = Some (JObj kvs)"
      by (auto simp: payload_map_def split: option.splits json.splits)
    then have "distinct (map fst kvs)" by (auto simp: distinct_go_map)
    moreover have "printable (JObj kvs)" "jdepth (JObj kvs) \<le> jdepth (JObj ms)"
      using as_any_props [OF assms(1) a] by blast+
    moreover have "jdepth (JObj kvs) \<le> Suc d" using assms(3) [OF ms] calculation by linarith
    ultimately show ?thesis by (simp add: list_all_iff fold_max_le)
  qed
  then show "distinct (map fst kvs)" "list_all (\<lambda>kv. printable (snd kv) \<and> jdepth (snd kv) \<le> d) kvs"
    by auto
qed

lemma set_key_props:
  assumes "distinct (map fst kvs)"
  shows "distinct (map fst (set_key k v kvs))" "set (set_key k v kvs) \<subseteq> insert (k, v) (set kvs)"
    and "map_of (set_key k v kvs) k = Some v"
proof -
  have d: "distinct (map fst (AList.update k v kvs))" using assms by (simp add: distinct_update)
  then show d': "distinct (map fst (set_key k v kvs))" by (simp add: set_key_def distinct_sort_fst)
  show "set (set_key k v kvs) \<subseteq> insert (k, v) (set kvs)"
    using set_update_subset by (simp add: set_key_def)
  have "map_of (AList.update k v kvs) k = Some v" by simp
  then have "(k, v) \<in> set (AList.update k v kvs)" by (rule map_of_SomeD)
  then have "(k, v) \<in> set (set_key k v kvs)" by (simp add: set_key_def)
  with d' show "map_of (set_key k v kvs) k = Some v" by simp
qed

section \<open>What a client reads\<close>

text \<open>\<open>JSON.parse\<close> keeps the last member of a name.\<close>

definition js_field :: "(string \<times> json) list \<Rightarrow> string \<Rightarrow> json option" where
  "js_field ms k = map_of (rev ms) k"

definition js_type :: "bytes \<Rightarrow> json option" where
  "js_type payload = (case parse_json payload of Some (JObj ms) \<Rightarrow> js_field ms ''type'' | _ \<Rightarrow> None)"

lemma map_of_rev_distinct:
  assumes "distinct (map fst al)" shows "map_of (rev al) k = map_of al k"
proof -
  have "distinct (map fst (rev al))" using assms by (simp add: rev_map [symmetric])
  with assms have "map_of (rev al) = map_of al" by (intro map_of_eqI) (auto simp: map_of_eq_Some_iff)
  then show ?thesis by simp
qed

lemma map_of_map_pair:
  assumes "\<And>k'. f k' = k \<longleftrightarrow> k' = k"
  shows "map_of (map (\<lambda>kv. (f (fst kv), g (snd kv))) al) k = map_option g (map_of al k)"
proof (induction al)
  case Nil
  then show ?case by simp
next
  case (Cons a al)
  then show ?case using assms [of "fst a"] by (cases "fst a = k") (cases a; simp)+
qed

lemma js_field_fix:
  assumes "distinct (map fst kvs)" "map_of kvs k = Some v" "\<forall>c \<in> set k. code c < 128"
  shows "js_field (map (\<lambda>kv. (utf8_fix (fst kv), fix_json (snd kv))) kvs) k = Some (fix_json v)"
proof -
  have "utf8_fix k' = k \<longleftrightarrow> k' = k" for k'
    using utf8_fix_ascii [of k' k] utf8_fix_of_ascii [of k] assms(3) by blast
  from map_of_map_pair [where f = utf8_fix and g = fix_json and al = "rev kvs", OF this]
    map_of_rev_distinct [OF assms(1), of k] assms(2)
  show ?thesis by (simp add: js_field_def rev_map)
qed

lemma volatileOut_parses:
  assumes "list_all (\<lambda>kv. printable (snd kv) \<and> jdepth (snd kv) \<le> 9998) kvs"
    and "\<forall>c \<in> set t. code c < 128"
  shows "parse_json (print_json (volatileOut t kvs)) = Some (JObj
     [(''type'', JStr t), (''payload'', JObj (map (\<lambda>kv. (utf8_fix (fst kv), fix_json (snd kv))) kvs))])"
proof -
  have "fold max (map (\<lambda>kv. jdepth (snd kv)) kvs) 0 \<le> 9998"
    using assms(1) by (simp add: fold_max_le list_all_iff)
  then have "jdepth (volatileOut t kvs) \<le> maxNestingDepth" "printable (volatileOut t kvs)"
    using assms(1) by (simp_all add: volatileOut_def maxNestingDepth_def list_all_iff)
  from parse_print [OF this(2,1)] show ?thesis
    using utf8_fix_of_ascii [OF assms(2)] by (simp add: volatileOut_def utf8_fix_of_ascii)
qed

lemma raw_field_mem: "raw_field f ms acc = Some v \<Longrightarrow> acc = Some v \<or> (\<exists>kv \<in> set ms. snd kv = v)"
  by (induction f ms acc rule: raw_field.induct) (fastforce split: if_splits)+

lemma parse_json_depth: "parse_json s = Some v \<Longrightarrow> jdepth v \<le> maxNestingDepth"
  by (auto simp: parse_json_def dest: parse_depth split: option.splits if_splits simp del: parse_value.simps)

lemma envelope_payload_depth:
  assumes "unmarshal_envelope raw = Some env" "ve_Payload env = Some v"
  shows "jdepth v \<le> 9999"
proof -
  from assms obtain ms where ms: "parse_json raw = Some (JObj ms)" "raw_field ''payload'' ms None = Some v"
    by (auto simp: unmarshal_envelope_def split: option.splits json.splits if_splits prod.splits)
  then obtain kv where "kv \<in> set ms" "snd kv = v" using raw_field_mem by fastforce
  with parse_json_depth [OF ms(1)] fold_max_mem [of kv ms "\<lambda>kv. jdepth (snd kv)"]
  show ?thesis by (simp add: maxNestingDepth_def)
qed

text \<open>
  C22. Whatever a client puts on the volatile channel, the message the room receives is
  a JSON document of one of the two known types, and the identity in it is the
  session's: \<open>payload.user\<close> of a cursor, \<open>payload.userId\<close> of a viewport. The one
  thing assumed is that a number decoded and marshalled again is a JSON number.
\<close>

theorem volatile_identity:
  assumes "rewriteVolatile renum raw identity = Some out"
    and "\<forall>n m. renum n = Some m \<longrightarrow> num_ok m"
  shows "\<exists>t payload. parse_json out = Some (JObj [(''type'', JStr t), (''payload'', JObj payload)])
     \<and> (t = typeMouseLocation
          \<and> js_field payload ''user'' = Some (JObj
              [(''id'', JStr (utf8_fix (ss_UserID identity))),
               (''name'', JStr (utf8_fix (ss_UserName identity)))])
        \<or> t = typeViewportUpdate
          \<and> js_field payload ''userId'' = Some (JStr (utf8_fix (ss_UserID identity))))"
proof -
  from assms(1) obtain env kvs where env: "unmarshal_envelope raw = Some env"
    "payload_map renum (ve_Payload env) = Some kvs"
    by (auto simp: rewriteVolatile_def split: option.splits)
  have kvs: "distinct (map fst kvs)" "list_all (\<lambda>kv. printable (snd kv) \<and> jdepth (snd kv) \<le> 9998) kvs"
    using payload_map_props [OF assms(2) env(2), of 9998] envelope_payload_depth [OF env(1)] by auto
  have out: "\<exists>payload. parse_json (print_json (volatileOut t (set_key k v kvs)))
        = Some (JObj [(''type'', JStr t), (''payload'', JObj payload)])
      \<and> js_field payload k = Some (fix_json v)"
    if "printable v" "jdepth v \<le> 1" "\<forall>c \<in> set k. code c < 128" "\<forall>c \<in> set t. code c < 128" for t k v
  proof -
    note p = set_key_props [OF kvs(1), of k v]
    have "list_all (\<lambda>kv. printable (snd kv) \<and> jdepth (snd kv) \<le> 9998) (set_key k v kvs)"
      using p(2) kvs(2) that(1,2) by (auto simp: list_all_iff)
    from volatileOut_parses [OF this that(4)] js_field_fix [OF p(1,3) that(3)] show ?thesis by blast
  qed
  consider (mouse) "ve_Type env = typeMouseLocation" | (view) "ve_Type env = typeViewportUpdate"
    using assms(1) env by (auto simp: rewriteVolatile_def split: if_splits)
  then show ?thesis
  proof cases
    case mouse
    then show ?thesis
      using out [of "presenceUser (ss_UserID identity) (ss_UserName identity)" "''user''" typeMouseLocation]
        assms(1) env
      by (auto simp: rewriteVolatile_def presenceUser_def typeMouseLocation_def utf8_fix_of_ascii)
  next
    case view
    then show ?thesis
      using out [of "JStr (ss_UserID identity)" "''userId''" typeViewportUpdate] assms(1) env
      by (auto simp: rewriteVolatile_def typeMouseLocation_def typeViewportUpdate_def)
  qed
qed

text \<open>A cursor message that names another user.\<close>

definition spoofed :: bytes where
  "spoofed = print_json (JObj [(''type'', JStr ''MOUSE_LOCATION''),
     (''payload'', JObj [(''user'', JObj [(''id'', JStr ''victim'')]), (''x'', JNum ''1'')])])"

definition demoSession :: session where
  "demoSession = \<lparr>ss_FileID = ''f1'', ss_UserID = ''u1'', ss_UserName = ''Ann'', ss_CanWrite = True\<rparr>"

lemma num_ok_1 [simp]: "num_ok ''1''" "num_ok ''0''"
  by (simp_all add: num_ok_def parse_num_def num_sign_def num_int_def num_frac_def num_exp_def
      digits1_def is_digit_def in_range_def)

lemma all_ascii [simp]:
  "(\<forall>c \<in> set (a # s). code c < 128) \<longleftrightarrow> code a < 128 \<and> (\<forall>c \<in> set s. code c < 128)"
  by simp

lemma demo_names:
  "names_field ''type'' ''type''" "names_field ''type'' ''Type''" "\<not> names_field ''type'' ''payload''"
  "names_field ''payload'' ''payload''" "\<not> names_field ''payload'' ''type''"
  by code_simp+

lemma spoofed_parses: "parse_json spoofed = Some (JObj [(''type'', JStr ''MOUSE_LOCATION''),
     (''payload'', JObj [(''user'', JObj [(''id'', JStr ''victim'')]), (''x'', JNum ''1'')])])"
  unfolding spoofed_def by (subst parse_print) (simp_all add: utf8_fix_of_ascii maxNestingDepth_def)

lemma fix_demo [simp]: "utf8_fix ''u1'' = ''u1''" "utf8_fix ''Ann'' = ''Ann''"
  by (simp_all add: utf8_fix_of_ascii)

text \<open>The trip of a literal that \<open>float64\<close> keeps as it is.\<close>

definition keep_num :: "string \<Rightarrow> string option" where
  "keep_num n = (if num_ok n then Some n else None)"

theorem volatile_identity_witness:
  "\<exists>out t payload. rewriteVolatile keep_num spoofed demoSession = Some out
     \<and> parse_json out = Some (JObj [(''type'', JStr t), (''payload'', JObj payload)])"
proof -
  have "rewriteVolatile keep_num spoofed demoSession \<noteq> None"
    by (simp add: rewriteVolatile_def unmarshal_envelope_def spoofed_parses demo_names payload_map_def
        typeMouseLocation_def keep_num_def)
  then obtain out where out: "rewriteVolatile keep_num spoofed demoSession = Some out" by blast
  moreover have "\<forall>n m. keep_num n = Some m \<longrightarrow> num_ok m" by (simp add: keep_num_def)
  ultimately show ?thesis using volatile_identity [OF out] by blast
qed

section \<open>The durable channel\<close>

lemma string_field_filter:
  "string_field f ms acc = string_field f (filter (\<lambda>kv. names_field f (fst kv)) ms) acc"
  by (induction f ms acc rule: string_field.induct) simp_all

lemma map_of_filter_names: "P k \<Longrightarrow> map_of (filter (\<lambda>kv. P (fst kv)) al) k = map_of al k"
  by (induction al) auto

lemma js_field_filter:
  "P k \<Longrightarrow> js_field ms k = js_field (filter (\<lambda>kv. P (fst kv)) ms) k"
  by (simp add: js_field_def rev_filter map_of_filter_names)

text \<open>
  The guard of the durable channel is exact for a document with one member that
  names the type, whatever the case of its letters, written \<open>type\<close>: it stops the
  message if and only if the clients would take it for a cursor or a viewport.
\<close>

theorem durable_guard_exact:
  assumes "parse_json payload = Some (JObj ms)"
    and "filter (\<lambda>kv. names_field ''type'' (fst kv)) ms = [(''type'', JStr t)]"
  shows "js_type payload = Some (JStr t)
    \<and> (isIdentityBearingType payload \<longleftrightarrow> t = typeMouseLocation \<or> t = typeViewportUpdate)"
proof -
  have "names_field ''type'' ''type''" by (simp add: names_field_def)
  from js_field_filter [where P = "names_field ''type''", OF this, of ms] assms
  have "js_type payload = Some (JStr t)" by (simp add: js_type_def js_field_def)
  moreover have "string_field ''type'' ms ([], True) = (t, True)"
    using string_field_filter [of "''type''" ms] assms(2) by (simp add: names_field_def)
  ultimately show ?thesis using assms(1) by (simp add: isIdentityBearingType_def)
qed

theorem durable_guard_exact_witness:
  "isIdentityBearingType spoofed \<and> js_type spoofed = Some (JStr ''MOUSE_LOCATION'')"
proof -
  have "filter (\<lambda>kv. names_field ''type'' (fst kv))
      [(''type'', JStr ''MOUSE_LOCATION''),
       (''payload'', JObj [(''user'', JObj [(''id'', JStr ''victim'')]), (''x'', JNum ''1'')])]
      = [(''type'', JStr ''MOUSE_LOCATION'')]"
    by (simp add: demo_names)
  from durable_guard_exact [OF spoofed_parses this] show ?thesis by (simp add: typeMouseLocation_def)
qed

text \<open>
  The guard can be passed: a document with a second member \<open>Type\<close> is one type
  for the relay and another for the clients, so a cursor message that names another
  user goes out unrewritten on the durable channel.
\<close>

theorem durable_guard_bypassed:
  "\<exists>payload. \<not> isIdentityBearingType payload
     \<and> js_type payload = Some (JStr typeMouseLocation)
     \<and> (\<exists>ms p. parse_json payload = Some (JObj ms) \<and> js_field ms ''payload'' = Some (JObj p)
          \<and> js_field p ''user'' = Some (JObj [(''id'', JStr ''victim'')]))"
proof -
  let ?ms = "[(''type'', JStr ''MOUSE_LOCATION''),
     (''payload'', JObj [(''user'', JObj [(''id'', JStr ''victim'')])]), (''Type'', JStr [])]"
  have p: "parse_json (print_json (JObj ?ms)) = Some (JObj ?ms)"
    by (subst parse_print) (simp_all add: utf8_fix_of_ascii maxNestingDepth_def del: print_json.simps)
  then have "\<not> isIdentityBearingType (print_json (JObj ?ms))"
    by (simp add: isIdentityBearingType_def demo_names
        typeMouseLocation_def typeViewportUpdate_def del: print_json.simps)
  moreover have "js_type (print_json (JObj ?ms)) = Some (JStr typeMouseLocation)"
    using p by (simp add: js_type_def js_field_def typeMouseLocation_def del: print_json.simps)
  moreover have "js_field ?ms ''payload'' = Some (JObj [(''user'', JObj [(''id'', JStr ''victim'')])])"
    by (simp add: js_field_def)
  moreover have "js_field [(''user'', JObj [(''id'', JStr ''victim'')])] ''user'' = Some (JObj [(''id'', JStr ''victim'')])"
    by (simp add: js_field_def)
  ultimately show ?thesis using p by blast
qed

end
