(* ===== verification/RelayServer.thy ===== *)
theory RelayServer
  imports RelayRooms Broadcast
begin

text \<open>
  \<open>internal/relay/relay.go\<close>: the handshake, the handlers of the socket events and
  what they emit. Emits and the calls of the \<open>RoomEvents\<close> hook are logs of the
  state; delivering them is the socket.io library's part. The emit lock of a room
  (\<open>EmitLocks\<close>) makes the body of a join or leave one step.
\<close>

section \<open>State\<close>

text \<open>An argument of an event: a string, a binary attachment, or any other value.\<close>

datatype arg = ArgString string | ArgBytes bytes | ArgOther nat

record presenceEntry =
  pe_SocketID :: string
  pe_ID :: string
  pe_Name :: string
  pe_UserID :: string
  pe_SocketIDs :: "string list"

text \<open>The second argument of \<open>client-broadcast\<close>: absent, an empty list, or as received.\<close>

datatype iv = NoIv | EmptyIv | Iv arg

datatype message =
    InitRoom
  | ErrorMsg string
  | RoomUserChange "presenceEntry list"
  | UserJoined (uj_UserID: string) (uj_UserName: string) (uj_SocketID: string) (uj_IsSyncer: bool)
  | SyncDesignate bool
  | ClientBroadcast bytes iv
  | ServerEvent string json

text \<open>
  To a socket, to the sockets of a list (each is alone in the room of its own id), to
  a room, to a room without the sender, and the same with the volatile flag.
\<close>

datatype target =
    ToSocket string
  | ToSockets "string list"
  | ToRoom string
  | ToOthers string string
  | ToOthersVolatile string string

datatype roomEvent = RoomJoined string string bool | RoomLeft string string bool

record socketState =
  sk_session :: session
  sk_roomID :: string

record relay =
  ry_rooms :: registry
  ry_data :: "string \<rightharpoonup> socketState"
  ry_connected :: "string \<Rightarrow> bool"
  ry_out :: "(target \<times> message) list"
  ry_events :: "roomEvent list"

text \<open>
  What \<open>New\<close> is given: the verifier, which reads the clock, the size limit, whether there is a hook, the
  ownership check; and the trip of a number through \<open>float64\<close>.
\<close>

record relayConf =
  rc_verify :: "time \<Rightarrow> string \<Rightarrow> session option"
  rc_maxSceneBytes :: int
  rc_hasEvents :: bool
  rc_isOwner :: "(string \<Rightarrow> bool) option"
  rc_renum :: "string \<Rightarrow> string option"

definition newRelay :: relay where
  "newRelay = \<lparr>ry_rooms = newRegistry, ry_data = Map.empty, ry_connected = (\<lambda>_. False),
     ry_out = [], ry_events = []\<rparr>"

definition emit :: "target \<Rightarrow> message \<Rightarrow> relay \<Rightarrow> relay" where
  "emit t m s = s\<lparr>ry_out := ry_out s @ [(t, m)]\<rparr>"

definition room_event :: "relayConf \<Rightarrow> roomEvent \<Rightarrow> relay \<Rightarrow> relay" where
  "room_event cf e s = (if rc_hasEvents cf then s\<lparr>ry_events := ry_events s @ [e]\<rparr> else s)"

section \<open>Handshake\<close>

definition authErrorMessage :: string where
  "authErrorMessage = ''Authentication error''"

definition wrongReplicaMessage :: string where
  "wrongReplicaMessage = ''wrong replica''"

text \<open>The error the handshake is rejected with, if it is. A token that is not a string reads as empty.\<close>

definition authenticate :: "relayConf \<Rightarrow> time \<Rightarrow> string \<Rightarrow> arg option \<Rightarrow> relay \<Rightarrow> string option \<times> relay" where
  "authenticate cf now sid auth s =
     (let token = (case auth of Some (ArgString t) \<Rightarrow> t | _ \<Rightarrow> [])
      in case rc_verify cf now token of
           None \<Rightarrow> (Some authErrorMessage, s)
         | Some sess \<Rightarrow>
             if (case rc_isOwner cf of None \<Rightarrow> False | Some isOwner \<Rightarrow> \<not> isOwner (ss_FileID sess))
             then (Some wrongReplicaMessage, s)
             else (None, s\<lparr>ry_data := (ry_data s)(sid \<mapsto> \<lparr>sk_session = sess, sk_roomID = []\<rparr>)\<rparr>))"

definition onConnection :: "string \<Rightarrow> relay \<Rightarrow> relay" where
  "onConnection sid s = emit (ToSocket sid) InitRoom s"

section \<open>Guards\<close>

text \<open>\<open>^[a-zA-Z0-9_-]{1,64}$\<close>.\<close>

definition room_char :: "char \<Rightarrow> bool" where
  "room_char c \<longleftrightarrow> in_range 97 122 c \<or> in_range 65 90 c \<or> in_range 48 57 c
     \<or> c = CHR ''_'' \<or> c = CHR ''-''"

definition roomIDPattern :: "string \<Rightarrow> bool" where
  "roomIDPattern r \<longleftrightarrow> 1 \<le> length r \<and> length r \<le> 64 \<and> list_all room_char r"

definition roomIDArg :: "arg list \<Rightarrow> string option" where
  "roomIDArg args =
     (case args of
        ArgString roomID # _ \<Rightarrow> if roomIDPattern roomID then Some roomID else None
      | _ \<Rightarrow> None)"

definition roomGuard ::
  "string \<Rightarrow> arg list \<Rightarrow> nat \<Rightarrow> bool \<Rightarrow> relay \<Rightarrow> (string \<times> socketState) option \<times> relay" where
  "roomGuard sid args minArgs forJoin s =
     (case (if length args < minArgs then None else roomIDArg args) of
        None \<Rightarrow>
          (None, if forJoin then emit (ToSocket sid) (ErrorMsg ''join-room: invalid room id'') s else s)
      | Some roomID \<Rightarrow>
          (case ry_data s sid of
             None \<Rightarrow> (None, s)
           | Some state \<Rightarrow>
               if (if forJoin then ss_FileID (sk_session state) else sk_roomID state) \<noteq> roomID then
                 (None, if forJoin
                        then emit (ToSocket sid)
                          (ErrorMsg ''join-room: room does not match the session'') s
                        else s)
               else (Some (roomID, state), s)))"

definition bytesArg :: "arg \<Rightarrow> bytes option" where
  "bytesArg a = (case a of ArgBytes b \<Rightarrow> Some b | _ \<Rightarrow> None)"

definition wirePresence :: "userPresence list \<Rightarrow> presenceEntry list" where
  "wirePresence ps = map (\<lambda>u.
     \<lparr>pe_SocketID = up_SocketID u, pe_ID = up_UserID u, pe_Name = up_UserName u,
      pe_UserID = up_UserID u, pe_SocketIDs = up_SocketIDs u\<rparr>) ps"

section \<open>Join and leave\<close>

definition memberOf :: "string \<Rightarrow> socketState \<Rightarrow> member" where
  "memberOf sid state =
     \<lparr>mb_SocketID = sid, mb_UserID = ss_UserID (sk_session state),
      mb_UserName = ss_UserName (sk_session state), mb_CanWrite = ss_CanWrite (sk_session state)\<rparr>"

definition onJoinRoom :: "relayConf \<Rightarrow> string \<Rightarrow> arg list \<Rightarrow> relay \<Rightarrow> relay" where
  "onJoinRoom cf sid args s0 =
     (case roomGuard sid args 1 True s0 of
        (None, s) \<Rightarrow> s
      | (Some (roomID, state), s) \<Rightarrow>
          if \<not> ry_connected s sid then s
          else (case join roomID (memberOf sid state) (ry_rooms s) of
            ((presenceList, added, isSyncer), rooms) \<Rightarrow>
              if \<not> added then s
              else
                let s1 = s\<lparr>ry_rooms := rooms,
                           ry_data := (ry_data s)(sid \<mapsto> state\<lparr>sk_roomID := roomID\<rparr>)\<rparr>;
                    s2 = emit (ToRoom roomID) (RoomUserChange (wirePresence presenceList)) s1;
                    s3 = emit (ToRoom roomID)
                      (UserJoined (ss_UserID (sk_session state)) (ss_UserName (sk_session state))
                        sid isSyncer) s2;
                    s4 = emit (ToSocket sid) (SyncDesignate isSyncer) s3
                in room_event cf
                     (RoomJoined roomID (ss_UserID (sk_session state)) (ss_CanWrite (sk_session state)))
                     s4))"

definition emitSyncDesignate :: "string list \<Rightarrow> bool \<Rightarrow> relay \<Rightarrow> relay" where
  "emitSyncDesignate socketIDs isSyncer s =
     (if socketIDs = [] then s else emit (ToSockets socketIDs) (SyncDesignate isSyncer) s)"

definition onDisconnecting :: "relayConf \<Rightarrow> string \<Rightarrow> relay \<Rightarrow> relay" where
  "onDisconnecting cf sid s =
     (case ry_data s sid of
        None \<Rightarrow> s
      | Some state \<Rightarrow>
          if sk_roomID state = [] then s
          else (case leave (sk_roomID state) sid (ry_rooms s) of
            ((presenceList, remaining, outcome), rooms) \<Rightarrow>
              let s1 = room_event cf
                    (RoomLeft (sk_roomID state) (ss_UserID (sk_session state)) (\<not> remaining))
                    (s\<lparr>ry_rooms := rooms\<rparr>)
              in if \<not> remaining then s1
                 else
                   let s2 = emit (ToOthers sid (sk_roomID state))
                              (RoomUserChange (wirePresence presenceList)) s1
                   in if eo_Changed outcome
                      then emitSyncDesignate (eo_DemotedIDs outcome) False
                             (emitSyncDesignate (eo_PromotedIDs outcome) True s2)
                      else s2))"

section \<open>Broadcasts\<close>

definition maxVolatileBytes :: nat where
  "maxVolatileBytes = 64 * 1024"

definition maxImageIDBytes :: nat where
  "maxImageIDBytes = 256"

definition BroadcastToRoom :: "string \<Rightarrow> string \<Rightarrow> json \<Rightarrow> relay \<Rightarrow> relay" where
  "BroadcastToRoom fileID event payload s = emit (ToRoom fileID) (ServerEvent event payload) s"

definition onServerBroadcast :: "relayConf \<Rightarrow> string \<Rightarrow> arg list \<Rightarrow> relay \<Rightarrow> relay" where
  "onServerBroadcast cf sid args s0 =
     (case roomGuard sid args 2 False s0 of
        (None, s) \<Rightarrow> s
      | (Some (roomID, state), s) \<Rightarrow>
          if \<not> ss_CanWrite (sk_session state) then s
          else (case bytesArg (args ! 1) of
            None \<Rightarrow> s
          | Some payload \<Rightarrow>
              if isIdentityBearingType payload
              then emit (ToSocket sid)
                (ErrorMsg ''server-broadcast: this type must use the volatile channel'') s
              else if exceedsSceneLimit payload (rc_maxSceneBytes cf)
              then emit (ToSocket sid)
                (ErrorMsg ''server-broadcast: payload exceeds the size limit'') s
              else emit (ToOthers sid roomID)
                (ClientBroadcast payload (if 2 < length args then Iv (args ! 2) else EmptyIv)) s))"

definition onServerVolatileBroadcast :: "relayConf \<Rightarrow> string \<Rightarrow> arg list \<Rightarrow> relay \<Rightarrow> relay" where
  "onServerVolatileBroadcast cf sid args s0 =
     (case roomGuard sid args 2 False s0 of
        (None, s) \<Rightarrow> s
      | (Some (roomID, state), s) \<Rightarrow>
          (case bytesArg (args ! 1) of
             None \<Rightarrow> s
           | Some raw \<Rightarrow>
               if maxVolatileBytes < length raw then s
               else (case rewriteVolatile (rc_renum cf) raw (sk_session state) of
                 None \<Rightarrow> s
               | Some out \<Rightarrow> emit (ToOthersVolatile sid roomID) (ClientBroadcast out NoIv) s)))"

definition onImageGet :: "string \<Rightarrow> arg list \<Rightarrow> relay \<Rightarrow> relay" where
  "onImageGet sid args s0 =
     (case roomGuard sid args 2 False s0 of
        (None, s) \<Rightarrow> s
      | (Some (roomID, state), s) \<Rightarrow>
          (case args ! 1 of
             ArgString imageID \<Rightarrow>
               if maxImageIDBytes < length imageID then s
               else emit (ToOthers sid roomID) (ClientBroadcast (imageRequestBytes imageID) NoIv) s
           | _ \<Rightarrow> s))"

end
