(* ===== verification/RelaySafety.thy ===== *)
theory RelaySafety
  imports RelayServer
begin

text \<open>
  The relay under any traffic: sockets connect, send and go away in any order, each
  socket's handlers run from its own task queue, and the handlers of different
  sockets interleave. The invariants of its reachable states: who may be a member, who
  believes to be the syncer, that no socket outlives its connection as a member, and
  what the room-event hook has been told.
\<close>

section \<open>Socket queues\<close>

text \<open>
  The library's contract the handlers are written against: a socket's packets are
  queued while its queue is open; on close the library emits \<open>disconnecting\<close>, whose
  handler enqueues its body, and then closes the queue, which is still drained. The
  connected flag falls at some point after that. A socket id is never used again.
\<close>

datatype packet =
    JoinRoom "arg list"
  | ServerBroadcast "arg list"
  | ServerVolatileBroadcast "arg list"
  | ImageGet "arg list"

datatype task = TPacket packet | TDisconnecting

record relayWorld =
  rw_relay :: relay
  rw_queue :: "string \<Rightarrow> task list"
  rw_open :: "string \<Rightarrow> bool"
  rw_used :: "string set"

fun handle :: "relayConf \<Rightarrow> string \<Rightarrow> task \<Rightarrow> relay \<Rightarrow> relay" where
  "handle cf sid (TPacket (JoinRoom args)) s = onJoinRoom cf sid args s"
| "handle cf sid (TPacket (ServerBroadcast args)) s = onServerBroadcast cf sid args s"
| "handle cf sid (TPacket (ServerVolatileBroadcast args)) s = onServerVolatileBroadcast cf sid args s"
| "handle cf sid (TPacket (ImageGet args)) s = onImageGet sid args s"
| "handle cf sid TDisconnecting s = onDisconnecting cf sid s"

definition newWorld :: relayWorld where
  "newWorld = \<lparr>rw_relay = newRelay, rw_queue = (\<lambda>_. []), rw_open = (\<lambda>_. False), rw_used = {}\<rparr>"

definition set_connected :: "string \<Rightarrow> bool \<Rightarrow> relay \<Rightarrow> relay" where
  "set_connected sid b s = s\<lparr>ry_connected := (ry_connected s)(sid := b)\<rparr>"

inductive relay_reachable :: "relayConf \<Rightarrow> relayWorld \<Rightarrow> bool" for cf where
  rw_init: "relay_reachable cf newWorld"
| rw_connect: "relay_reachable cf w \<Longrightarrow> sid \<notin> rw_used w \<Longrightarrow>
    authenticate cf now sid auth (rw_relay w) = (None, s) \<Longrightarrow>
    relay_reachable cf (w\<lparr>rw_relay := onConnection sid (set_connected sid True s),
      rw_open := (rw_open w)(sid := True), rw_used := insert sid (rw_used w)\<rparr>)"
| rw_packet: "relay_reachable cf w \<Longrightarrow> rw_open w sid \<Longrightarrow>
    relay_reachable cf (w\<lparr>rw_queue := (rw_queue w)(sid := rw_queue w sid @ [TPacket p])\<rparr>)"
| rw_closing: "relay_reachable cf w \<Longrightarrow> rw_open w sid \<Longrightarrow>
    relay_reachable cf (w\<lparr>rw_queue := (rw_queue w)(sid := rw_queue w sid @ [TDisconnecting]),
      rw_open := (rw_open w)(sid := False)\<rparr>)"
| rw_closed: "relay_reachable cf w \<Longrightarrow> \<not> rw_open w sid \<Longrightarrow>
    relay_reachable cf (w\<lparr>rw_relay := set_connected sid False (rw_relay w)\<rparr>)"
| rw_run: "relay_reachable cf w \<Longrightarrow> rw_queue w sid = t # ts \<Longrightarrow>
    relay_reachable cf (w\<lparr>rw_relay := handle cf sid t (rw_relay w),
      rw_queue := (rw_queue w)(sid := ts)\<rparr>)"
| rw_push: "relay_reachable cf w \<Longrightarrow>
    relay_reachable cf (w\<lparr>rw_relay := BroadcastToRoom fileID event payload (rw_relay w)\<rparr>)"

section \<open>What a handler can do\<close>

lemma emit_fields [simp]:
  "ry_rooms (emit t m s) = ry_rooms s" "ry_data (emit t m s) = ry_data s"
  "ry_connected (emit t m s) = ry_connected s" "ry_out (emit t m s) = ry_out s @ [(t, m)]"
  "ry_events (emit t m s) = ry_events s"
  by (simp_all add: emit_def)

lemma room_event_fields [simp]:
  "ry_rooms (room_event cf e s) = ry_rooms s" "ry_data (room_event cf e s) = ry_data s"
  "ry_connected (room_event cf e s) = ry_connected s" "ry_out (room_event cf e s) = ry_out s"
  "ry_events (room_event cf e s) = ry_events s @ (if rc_hasEvents cf then [e] else [])"
  by (simp_all add: room_event_def)

lemma set_connected_fields [simp]:
  "ry_rooms (set_connected sid b s) = ry_rooms s" "ry_data (set_connected sid b s) = ry_data s"
  "ry_out (set_connected sid b s) = ry_out s" "ry_events (set_connected sid b s) = ry_events s"
  by (simp_all add: set_connected_def)

lemma emitSyncDesignate_fields [simp]:
  "ry_rooms (emitSyncDesignate ids b s) = ry_rooms s" "ry_data (emitSyncDesignate ids b s) = ry_data s"
  "ry_connected (emitSyncDesignate ids b s) = ry_connected s"
  "ry_events (emitSyncDesignate ids b s) = ry_events s"
  "ry_out (emitSyncDesignate ids b s)
     = ry_out s @ (if ids = [] then [] else [(ToSockets ids, SyncDesignate b)])"
  by (simp_all add: emitSyncDesignate_def)

text \<open>A guard that passes leaves the state alone; one that stops at most emits an error to the sender.\<close>

lemma roomGuard_Some:
  assumes "roomGuard sid args n j s = (Some (roomID, state), s')"
  shows "s' = s" "ry_data s sid = Some state" "roomIDPattern roomID" "n \<le> length args"
    and "(if j then ss_FileID (sk_session state) else sk_roomID state) = roomID"
  using assms
  by (auto simp: roomGuard_def roomIDArg_def split: option.splits if_splits list.splits arg.splits)

lemma roomGuard_None:
  assumes "roomGuard sid args n j s = (None, s')"
  shows "s' = s \<or> (\<exists>e. s' = emit (ToSocket sid) (ErrorMsg e) s)"
  using assms by (auto simp: roomGuard_def split: option.splits if_splits)

lemma roomIDPattern_not_Nil: "roomIDPattern r \<Longrightarrow> r \<noteq> []"
  by (auto simp: roomIDPattern_def)

text \<open>
  The outcome of the two handlers that change the membership, and the shape of what
  the others do: they only emit, and what they emit is no election message.
\<close>

lemma onJoinRoom_cases:
  obtains (nothing) "ry_rooms (onJoinRoom cf sid args s) = ry_rooms s"
      "ry_data (onJoinRoom cf sid args s) = ry_data s"
      "ry_events (onJoinRoom cf sid args s) = ry_events s"
      "ry_out (onJoinRoom cf sid args s) = ry_out s
        \<or> (\<exists>e. ry_out (onJoinRoom cf sid args s) = ry_out s @ [(ToSocket sid, ErrorMsg e)])"
  | (joined) roomID state where
      "ry_data s sid = Some state" "ss_FileID (sk_session state) = roomID" "roomIDPattern roomID"
      "ry_connected s sid" "sid \<notin> mb_SocketID ` set (membersOf (ry_rooms s) roomID)"
      "ry_rooms (onJoinRoom cf sid args s) = snd (join roomID (memberOf sid state) (ry_rooms s))"
      "ry_data (onJoinRoom cf sid args s) = (ry_data s)(sid \<mapsto> state\<lparr>sk_roomID := roomID\<rparr>)"
      "ry_events (onJoinRoom cf sid args s) = ry_events s @ (if rc_hasEvents cf
         then [RoomJoined roomID (ss_UserID (sk_session state)) (ss_CanWrite (sk_session state))] else [])"
      "\<exists>out. ry_out (onJoinRoom cf sid args s) = ry_out s @ out @ [(ToSocket sid,
           SyncDesignate (snd (snd (fst (join roomID (memberOf sid state) (ry_rooms s))))))]
         \<and> (\<forall>t b. (t, SyncDesignate b) \<notin> set out) \<and> (\<forall>t p v. (t, ClientBroadcast p v) \<notin> set out)"
proof (cases "roomGuard sid args 1 True s")
  case (Pair g s')
  show ?thesis
  proof (cases g)
    case None
    with Pair have n: "onJoinRoom cf sid args s = s'" by (simp add: onJoinRoom_def)
    have "s' = s \<or> (\<exists>e. s' = emit (ToSocket sid) (ErrorMsg e) s)"
      using roomGuard_None [of sid args 1 True s s'] Pair None by simp
    then show ?thesis by (rule disjE) (rule nothing; auto simp: n)+
  next
    case (Some rs)
    then obtain roomID state where g: "roomGuard sid args 1 True s = (Some (roomID, state), s')"
      using Pair by (cases rs) auto
    note r = roomGuard_Some [OF g]
    let ?m = "memberOf sid state"
    show ?thesis
    proof (cases "ry_connected s sid \<and> sid \<notin> mb_SocketID ` set (membersOf (ry_rooms s) roomID)")
      case True
      then have n: "mb_SocketID ?m \<notin> mb_SocketID ` set (membersOf (ry_rooms s) roomID)"
        by (simp add: memberOf_def)
      obtain pl isSyn g' where j: "join roomID ?m (ry_rooms s) = ((pl, True, isSyn), g')"
        using join_new(3) [OF n] by (cases "join roomID ?m (ry_rooms s)") auto
      have e: "onJoinRoom cf sid args s = room_event cf
          (RoomJoined roomID (ss_UserID (sk_session state)) (ss_CanWrite (sk_session state)))
          (emit (ToSocket sid) (SyncDesignate isSyn)
            (emit (ToRoom roomID) (UserJoined (ss_UserID (sk_session state))
                (ss_UserName (sk_session state)) sid isSyn)
              (emit (ToRoom roomID) (RoomUserChange (wirePresence pl))
                (s\<lparr>ry_rooms := g', ry_data := (ry_data s)(sid \<mapsto> state\<lparr>sk_roomID := roomID\<rparr>)\<rparr>))))"
        using True r(1) by (simp add: onJoinRoom_def g [unfolded One_nat_def] j Let_def)
      show ?thesis
        by (rule joined [of state roomID]) (use r True in \<open>auto simp: e j\<close>)
    next
      case False
      have "onJoinRoom cf sid args s = s"
        using False r(1) join_old [of ?m "ry_rooms s" roomID]
        by (cases "join roomID ?m (ry_rooms s)") (auto simp: onJoinRoom_def g [unfolded One_nat_def] memberOf_def)
      then show ?thesis by - (rule nothing, simp_all)
    qed
  qed
qed

lemma onDisconnecting_cases:
  assumes "\<And>st. ry_data s sid = Some st \<Longrightarrow> sk_roomID st \<noteq> [] \<Longrightarrow>
      room_ok (ry_rooms s) (sk_roomID st)
      \<and> sid \<in> mb_SocketID ` set (membersOf (ry_rooms s) (sk_roomID st))"
  obtains (nothing) "onDisconnecting cf sid s = s"
      "\<And>st. ry_data s sid = Some st \<Longrightarrow> sk_roomID st = []"
  | (left) st where
      "ry_data s sid = Some st" "sk_roomID st \<noteq> []"
      "ry_rooms (onDisconnecting cf sid s) = snd (leave (sk_roomID st) sid (ry_rooms s))"
      "ry_data (onDisconnecting cf sid s) = ry_data s"
      "ry_events (onDisconnecting cf sid s) = ry_events s @ (if rc_hasEvents cf
         then [RoomLeft (sk_roomID st) (ss_UserID (sk_session st))
                 (without sid (membersOf (ry_rooms s) (sk_roomID st)) = [])] else [])"
      "\<exists>out. ry_out (onDisconnecting cf sid s) = ry_out s @ out
         @ (let ms = without sid (membersOf (ry_rooms s) (sk_roomID st));
                e = electSyncer ms (syncerOf (ry_rooms s) (sk_roomID st))
            in if ms = [] \<or> \<not> fst (snd e) then []
               else (if fst (snd (snd e)) = [] then []
                     else [(ToSockets (fst (snd (snd e))), SyncDesignate True)])
                  @ (if snd (snd (snd e)) = [] then []
                     else [(ToSockets (snd (snd (snd e))), SyncDesignate False)]))
         \<and> (\<forall>t b. (t, SyncDesignate b) \<notin> set out) \<and> (\<forall>t p v. (t, ClientBroadcast p v) \<notin> set out)"
proof (cases "ry_data s sid")
  case None
  show ?thesis by (rule nothing) (simp_all add: onDisconnecting_def None)
next
  case (Some st)
  show ?thesis
  proof (cases "sk_roomID st = []")
    case True
    show ?thesis by (rule nothing) (simp_all add: onDisconnecting_def Some True)
  next
    case False
    let ?r = "sk_roomID st" and ?g = "ry_rooms s"
    have p: "room_ok ?g ?r" "sid \<in> mb_SocketID ` set (membersOf ?g ?r)"
      using assms [OF Some False] by auto
    let ?ms = "without sid (membersOf ?g ?r)"
    obtain nxt ch pro dem where e: "electSyncer ?ms (syncerOf ?g ?r) = (nxt, ch, pro, dem)"
      by (cases "electSyncer ?ms (syncerOf ?g ?r)")
    have l: "leave ?r sid ?g = (if ?ms = [] then ([], False, noOutcome)
        else (presence ?ms, True, \<lparr>eo_Changed = ch, eo_PromotedIDs = pro, eo_DemotedIDs = dem\<rparr>),
        snd (leave ?r sid ?g))"
      using leave_present(3) [OF p] e by (cases "leave ?r sid ?g") (simp add: Let_def split: if_splits)
    have d: "onDisconnecting cf sid s =
       (let s1 = room_event cf (RoomLeft ?r (ss_UserID (sk_session st)) (?ms = []))
                   (s\<lparr>ry_rooms := snd (leave ?r sid ?g)\<rparr>)
        in if ?ms = [] then s1
           else let s2 = emit (ToOthers sid ?r) (RoomUserChange (wirePresence (presence ?ms))) s1
             in if ch then emitSyncDesignate dem False (emitSyncDesignate pro True s2) else s2)"
      by (subst onDisconnecting_def, simp add: Some False, subst l) (simp add: Let_def)
    show ?thesis
    proof (rule left [OF Some False])
      let ?out = "if ?ms = [] then []
        else [(ToOthers sid ?r, RoomUserChange (wirePresence (presence ?ms)))]"
      show "\<exists>out. ry_out (onDisconnecting cf sid s) = ry_out s @ out
         @ (let ms = ?ms; e = electSyncer ms (syncerOf ?g ?r)
            in if ms = [] \<or> \<not> fst (snd e) then []
               else (if fst (snd (snd e)) = [] then []
                     else [(ToSockets (fst (snd (snd e))), SyncDesignate True)])
                  @ (if snd (snd (snd e)) = [] then []
                     else [(ToSockets (snd (snd (snd e))), SyncDesignate False)]))
         \<and> (\<forall>t b. (t, SyncDesignate b) \<notin> set out) \<and> (\<forall>t p v. (t, ClientBroadcast p v) \<notin> set out)"
        by (rule exI [of _ ?out]) (simp add: d e Let_def)
    qed (simp_all add: d Let_def)
  qed
qed

text \<open>What a broadcast handler may have put out for a socket in a state.\<close>

fun broadcast_ok :: "relayConf \<Rightarrow> string \<Rightarrow> socketState \<Rightarrow> target \<times> message \<Rightarrow> bool" where
  "broadcast_ok cf sid st (ToOthers sid' r, ClientBroadcast p v) =
     (sid' = sid \<and> r = sk_roomID st
      \<and> (v = NoIv \<and> (\<exists>im. p = imageRequestBytes im)
         \<or> v \<noteq> NoIv \<and> ss_CanWrite (sk_session st) \<and> \<not> isIdentityBearingType p
           \<and> int (length p) \<le> rc_maxSceneBytes cf))"
| "broadcast_ok cf sid st (ToOthersVolatile sid' r, ClientBroadcast p v) =
     (sid' = sid \<and> r = sk_roomID st \<and> v = NoIv
      \<and> (\<exists>raw. rewriteVolatile (rc_renum cf) raw (sk_session st) = Some p))"
| "broadcast_ok cf sid st _ = False"

lemma broadcast_cases:
  assumes "t = TPacket (ServerBroadcast args) \<or> t = TPacket (ServerVolatileBroadcast args)
      \<or> t = TPacket (ImageGet args)"
  obtains "handle cf sid t s = s"
  | e where "handle cf sid t s = emit (ToSocket sid) (ErrorMsg e) s"
  | st tg m where "ry_data s sid = Some st" "roomIDPattern (sk_roomID st)"
      "handle cf sid t s = emit tg m s" "broadcast_ok cf sid st (tg, m)"
proof (cases "roomGuard sid args 2 False s")
  case (Pair g s')
  show ?thesis
  proof (cases g)
    case None
    then have "s' = s" using Pair by (auto simp: roomGuard_def split: option.splits if_splits)
    with None Pair assms have "handle cf sid t s = s"
      by (auto simp: onServerBroadcast_def onServerVolatileBroadcast_def onImageGet_def)
    then show ?thesis by (rule that(1))
  next
    case (Some rs)
    then obtain roomID st where g: "roomGuard sid args 2 False s = (Some (roomID, st), s')"
      using Pair by (cases rs) auto
    note r = roomGuard_Some [OF g]
    from assms show ?thesis
    proof (elim disjE)
      assume t: "t = TPacket (ServerBroadcast args)"
      have h: "handle cf sid t s = onServerBroadcast cf sid args s" by (simp add: t)
      consider (drop) "\<not> ss_CanWrite (sk_session st) \<or> bytesArg (args ! 1) = None"
        | (identity) p where "ss_CanWrite (sk_session st)" "bytesArg (args ! 1) = Some p"
            "isIdentityBearingType p"
        | (large) p where "ss_CanWrite (sk_session st)" "bytesArg (args ! 1) = Some p"
            "\<not> isIdentityBearingType p" "exceedsSceneLimit p (rc_maxSceneBytes cf)"
        | (out) p where "ss_CanWrite (sk_session st)" "bytesArg (args ! 1) = Some p"
            "\<not> isIdentityBearingType p" "\<not> exceedsSceneLimit p (rc_maxSceneBytes cf)"
        by (cases "bytesArg (args ! 1)") auto
      then show ?thesis
      proof cases
        case drop
        with r(1) have "onServerBroadcast cf sid args s = s" by (auto simp: onServerBroadcast_def g)
        with h show ?thesis by (intro that(1)) simp
      next
        case identity
        with r(1) h show ?thesis by (intro that(2)) (simp add: onServerBroadcast_def g)
      next
        case large
        with r(1) h show ?thesis by (intro that(2)) (simp add: onServerBroadcast_def g)
      next
        case out
        with r h show ?thesis
          by (intro that(3) [of st "ToOthers sid roomID"
                "ClientBroadcast p (if 2 < length args then Iv (args ! 2) else EmptyIv)"])
            (simp_all add: onServerBroadcast_def g exceedsSceneLimit_def not_less)
      qed
    next
      assume t: "t = TPacket (ServerVolatileBroadcast args)"
      let ?h = "onServerVolatileBroadcast cf sid args s"
      have h: "handle cf sid t s = ?h" by (simp add: t)
      consider (drop) "?h = s"
        | (out) raw p where "rewriteVolatile (rc_renum cf) raw (sk_session st) = Some p"
            "?h = emit (ToOthersVolatile sid roomID) (ClientBroadcast p NoIv) s"
        using r(1) unfolding onServerVolatileBroadcast_def g
        by (fastforce split: option.splits if_splits)
      then show ?thesis
      proof cases
        case drop
        with h show ?thesis by (intro that(1)) simp
      next
        case out
        with r h show ?thesis
          by (intro that(3) [of st "ToOthersVolatile sid roomID" "ClientBroadcast p NoIv"]) auto
      qed
    next
      assume t: "t = TPacket (ImageGet args)"
      have h: "handle cf sid t s = onImageGet sid args s" by (simp add: t)
      consider (drop) "onImageGet sid args s = s"
        | (out) im where "onImageGet sid args s
            = emit (ToOthers sid roomID) (ClientBroadcast (imageRequestBytes im) NoIv) s"
        using r(1) unfolding onImageGet_def g by (fastforce split: arg.splits if_splits)
      then show ?thesis
      proof cases
        case drop
        with h show ?thesis by (intro that(1)) simp
      next
        case out
        with r h show ?thesis
          by (intro that(3) [of st "ToOthers sid roomID" "ClientBroadcast (imageRequestBytes im) NoIv"]) auto
      qed
    qed
  qed
qed

section \<open>Invariants\<close>

text \<open>Where a socket stands with its queue.\<close>

definition queue_ok :: "relayWorld \<Rightarrow> string \<Rightarrow> bool" where
  "queue_ok w sid \<longleftrightarrow>
     (if rw_open w sid then TDisconnecting \<notin> set (rw_queue w sid)
      else rw_queue w sid = [] \<or> (\<exists>ts. rw_queue w sid = ts @ [TDisconnecting] \<and> TDisconnecting \<notin> set ts))
     \<and> (sid \<notin> rw_used w \<longrightarrow> \<not> rw_open w sid \<and> rw_queue w sid = [] \<and> ry_data (rw_relay w) sid = None)"

text \<open>A socket whose leave is still to run.\<close>

definition live :: "relayWorld \<Rightarrow> string \<Rightarrow> bool" where
  "live w sid \<longleftrightarrow> rw_open w sid \<or> TDisconnecting \<in> set (rw_queue w sid)"

text \<open>The session of a socket is one the verifier gave and this replica owns.\<close>

definition admitted :: "relayConf \<Rightarrow> session \<Rightarrow> bool" where
  "admitted cf sess \<longleftrightarrow> (\<exists>now token. rc_verify cf now token = Some sess)
     \<and> (case rc_isOwner cf of None \<Rightarrow> True | Some isOwner \<Rightarrow> isOwner (ss_FileID sess))"

text \<open>
  A member is a live, admitted socket in the room of its session's file, and a live
  socket that has joined is a member there.
\<close>

definition member_ok :: "(string \<Rightarrow> bool) \<Rightarrow> (string \<rightharpoonup> socketState) \<Rightarrow> string \<Rightarrow> member \<Rightarrow> bool" where
  "member_ok L D r m \<longleftrightarrow> L (mb_SocketID m)
     \<and> (\<exists>st. D (mb_SocketID m) = Some st \<and> m = memberOf (mb_SocketID m) st \<and> sk_roomID st = r \<and> r \<noteq> [])"

definition socket_ok :: "relayConf \<Rightarrow> (string \<Rightarrow> bool) \<Rightarrow> registry \<Rightarrow> string \<Rightarrow> socketState \<Rightarrow> bool" where
  "socket_ok cf L g sid st \<longleftrightarrow> admitted cf (sk_session st)
     \<and> (sk_roomID st \<noteq> [] \<longrightarrow> sk_roomID st = ss_FileID (sk_session st)
         \<and> (L sid \<longrightarrow> sid \<in> mb_SocketID ` set (membersOf g (sk_roomID st))))"

definition mem_inv :: "relayConf \<Rightarrow> (string \<Rightarrow> bool) \<Rightarrow> registry \<Rightarrow> (string \<rightharpoonup> socketState) \<Rightarrow> bool" where
  "mem_inv cf L g D \<longleftrightarrow> registry_ok g
     \<and> (\<forall>r. \<forall>m \<in> set (membersOf g r). member_ok L D r m)
     \<and> (\<forall>sid st. D sid = Some st \<longrightarrow> socket_ok cf L g sid st)"

definition members_ok :: "relayConf \<Rightarrow> relayWorld \<Rightarrow> bool" where
  "members_ok cf w \<longleftrightarrow> mem_inv cf (live w) (ry_rooms (rw_relay w)) (ry_data (rw_relay w))"

lemma onDisconnecting_data [simp]:
  "ry_data (onDisconnecting cf sid s) = ry_data s"
  by (simp add: onDisconnecting_def Let_def split: option.split prod.split)

lemma task_cases:
  obtains (join) args where "t = TPacket (JoinRoom args)" | (leave) "t = TDisconnecting"
  | (broadcast) args where "t = TPacket (ServerBroadcast args) \<or> t = TPacket (ServerVolatileBroadcast args)
      \<or> t = TPacket (ImageGet args)"
proof (cases t)
  case (TPacket p)
  with that show ?thesis by (cases p) auto
qed (use that in auto)

lemma handle_data:
  "sid' \<noteq> sid \<Longrightarrow> ry_data (handle cf sid t s) sid' = ry_data s sid'"
  "ry_data (handle cf sid t s) sid = None \<longleftrightarrow> ry_data s sid = None"
  "ry_data (handle cf sid t s) sid = Some st' \<Longrightarrow>
     \<exists>st. ry_data s sid = Some st \<and> sk_session st = sk_session st'"
proof -
  have "(sid' \<noteq> sid \<longrightarrow> ry_data (handle cf sid t s) sid' = ry_data s sid')
     \<and> (ry_data (handle cf sid t s) sid = None \<longleftrightarrow> ry_data s sid = None)
     \<and> (ry_data (handle cf sid t s) sid = Some st' \<longrightarrow>
         (\<exists>st. ry_data s sid = Some st \<and> sk_session st = sk_session st'))"
  proof (cases t rule: task_cases)
    case (join args)
    then show ?thesis by (cases rule: onJoinRoom_cases [of cf sid args s]) auto
  next
    case leave
    then show ?thesis by simp
  next
    case broadcast
    then show ?thesis by (cases rule: broadcast_cases [OF broadcast, of cf sid s]) auto
  qed
  then show "sid' \<noteq> sid \<Longrightarrow> ry_data (handle cf sid t s) sid' = ry_data s sid'"
    "ry_data (handle cf sid t s) sid = None \<longleftrightarrow> ry_data s sid = None"
    "ry_data (handle cf sid t s) sid = Some st' \<Longrightarrow>
      \<exists>st. ry_data s sid = Some st \<and> sk_session st = sk_session st'" by blast+
qed

lemma queues_ok: "relay_reachable cf w \<Longrightarrow> queue_ok w sid"
proof (induction rule: relay_reachable.induct)
  case rw_init
  then show ?case by (simp add: queue_ok_def newWorld_def newRelay_def)
next
  case (rw_connect w sid' now auth s)
  then show ?case
    by (auto simp: queue_ok_def authenticate_def onConnection_def Let_def split: option.splits if_splits)
next
  case (rw_packet w sid' p)
  then show ?case by (auto simp: queue_ok_def)
next
  case (rw_closing w sid')
  then show ?case by (auto simp: queue_ok_def)
next
  case (rw_closed w sid')
  then show ?case by (auto simp: queue_ok_def)
next
  case (rw_run w sid' t ts)
  then show ?case
    using handle_data(1) [of sid sid' cf t "rw_relay w"] handle_data(2) [of cf sid t "rw_relay w"]
    by (cases "sid = sid'") (auto simp: queue_ok_def Cons_eq_append_conv split: if_splits)
next
  case (rw_push w fileID event payload)
  then show ?case by (auto simp: queue_ok_def BroadcastToRoom_def)
qed

text \<open>A handler finds its socket alive, and only the leave ends that.\<close>

lemma run_live:
  assumes "queue_ok w sid" "rw_queue w sid = t # ts"
  shows "live w sid" "sid \<in> rw_used w"
    and "t \<noteq> TDisconnecting \<Longrightarrow> rw_open w sid \<or> TDisconnecting \<in> set ts"
    and "t = TDisconnecting \<Longrightarrow> ts = [] \<and> \<not> rw_open w sid"
  using assms by (auto simp: queue_ok_def live_def Cons_eq_append_conv split: if_splits)

lemma memberOf_simps [simp]:
  "mb_SocketID (memberOf sid st) = sid" "mb_UserID (memberOf sid st) = ss_UserID (sk_session st)"
  "mb_CanWrite (memberOf sid st) = ss_CanWrite (sk_session st)"
  "memberOf sid (st\<lparr>sk_roomID := r\<rparr>) = memberOf sid st"
  by (simp_all add: memberOf_def)

lemma membersOf_join:
  "membersOf (snd (join roomID m g)) r =
     (if r = roomID \<and> mb_SocketID m \<notin> mb_SocketID ` set (membersOf g roomID)
      then membersOf g roomID @ [m] else membersOf g r)"
proof (cases "mb_SocketID m \<in> mb_SocketID ` set (membersOf g roomID)")
  case True
  then show ?thesis by (simp add: join_old(1) [OF True])
next
  case False
  then show ?thesis
    using join_new(1) [OF False] join_other(1) [of r roomID m g] by (cases "r = roomID") (auto simp: membersOf_def)
qed

lemma membersOf_leave:
  assumes "registry_ok g"
  shows "membersOf (snd (leave roomID sid g)) r =
     (if r = roomID then without sid (membersOf g roomID) else membersOf g r)"
proof (cases "r = roomID")
  case True
  have ok: "room_ok g roomID" using assms by (simp add: registry_ok_def)
  show ?thesis
  proof (cases "sid \<in> mb_SocketID ` set (membersOf g roomID)")
    case True
    then show ?thesis using leave_present(1) [OF ok True] \<open>r = roomID\<close> by simp
  next
    case False
    then have "without sid (membersOf g roomID) = membersOf g roomID"
      by (intro filter_True ballI) (metis imageI)
    then show ?thesis using leave_absent [OF ok False] True by simp
  qed
next
  case False
  then show ?thesis by (simp add: membersOf_def leave_other)
qed

lemma mem_inv_member:
  assumes "mem_inv cf L g D" "m \<in> set (membersOf g r)"
  shows "L (mb_SocketID m)" "\<exists>st. D (mb_SocketID m) = Some st" "r \<noteq> []"
    and "D (mb_SocketID m) = Some st \<Longrightarrow> sk_roomID st = r \<and> m = memberOf (mb_SocketID m) st"
  using assms unfolding mem_inv_def member_ok_def by (metis option.inject)+

lemma mem_inv_socket:
  assumes "mem_inv cf L g D" "D sid = Some st"
  shows "admitted cf (sk_session st)" "sk_roomID st \<noteq> [] \<Longrightarrow> sk_roomID st = ss_FileID (sk_session st)"
    and "sk_roomID st \<noteq> [] \<Longrightarrow> L sid \<Longrightarrow> sid \<in> mb_SocketID ` set (membersOf g (sk_roomID st))"
  using assms unfolding mem_inv_def socket_ok_def by blast+

lemma mem_inv_join:
  assumes inv: "mem_inv cf L g D" and st: "D sid = Some st" "ss_FileID (sk_session st) = r" "r \<noteq> []" "L sid"
    and new: "sid \<notin> mb_SocketID ` set (membersOf g r)"
  shows "mem_inv cf L (snd (join r (memberOf sid st) g)) (D(sid \<mapsto> st\<lparr>sk_roomID := r\<rparr>))"
proof -
  have nowhere: "mb_SocketID m \<noteq> sid" if "m \<in> set (membersOf g r')" for m r'
  proof
    assume s: "mb_SocketID m = sid"
    then have "sk_roomID st = r'" "r' \<noteq> []"
      using mem_inv_member(3,4) [OF inv that] st(1) by auto
    with mem_inv_socket(2) [OF inv st(1)] st(2) have "r' = r" by simp
    with new s that show False by auto
  qed
  have m: "membersOf (snd (join r (memberOf sid st) g)) r'
      = (if r' = r then membersOf g r @ [memberOf sid st] else membersOf g r')" for r'
    using new by (simp add: membersOf_join)
  have "member_ok L (D(sid \<mapsto> st\<lparr>sk_roomID := r\<rparr>)) r' m"
    if "m \<in> set (membersOf (snd (join r (memberOf sid st) g)) r')" for r' m
  proof (cases "m = memberOf sid st \<and> r' = r")
    case True
    with st show ?thesis by (simp add: member_ok_def)
  next
    case False
    with that have x: "m \<in> set (membersOf g r')" by (auto simp: m split: if_splits)
    from mem_inv_member [OF inv x] nowhere [OF x] show ?thesis by (auto simp: member_ok_def)
  qed
  moreover have "socket_ok cf L (snd (join r (memberOf sid st) g)) sid' st'"
    if "(D(sid \<mapsto> st\<lparr>sk_roomID := r\<rparr>)) sid' = Some st'" for sid' st'
  proof (cases "sid' = sid")
    case True
    with that st mem_inv_socket(1) [OF inv st(1)] show ?thesis by (auto simp: socket_ok_def m)
  next
    case False
    with that have "D sid' = Some st'" by simp
    from mem_inv_socket [OF inv this] show ?thesis by (auto simp: socket_ok_def m)
  qed
  moreover have "registry_ok (snd (join r (memberOf sid st) g))"
    using inv by (simp add: mem_inv_def join_ok)
  ultimately show ?thesis by (simp add: mem_inv_def)
qed

lemma mem_inv_leave:
  assumes inv: "mem_inv cf L g D" and st: "D sid = Some st"
  shows "mem_inv cf (L(sid := False)) (snd (leave (sk_roomID st) sid g)) D"
proof -
  have reg: "registry_ok g" using inv by (simp add: mem_inv_def)
  note m = membersOf_leave [OF reg, of "sk_roomID st" sid]
  have "member_ok (L(sid := False)) D r' x"
    if "x \<in> set (membersOf (snd (leave (sk_roomID st) sid g)) r')" for r' x
  proof -
    have x: "x \<in> set (membersOf g r')" using that by (auto simp: m split: if_splits)
    have "mb_SocketID x \<noteq> sid"
    proof
      assume s: "mb_SocketID x = sid"
      with mem_inv_member(4) [OF inv x] st have "sk_roomID st = r'" by simp
      with that s show False by (auto simp: membersOf_leave [OF reg])
    qed
    with mem_inv_member [OF inv x] show ?thesis by (auto simp: member_ok_def)
  qed
  moreover have "socket_ok cf (L(sid := False)) (snd (leave (sk_roomID st) sid g)) sid' st'"
    if "D sid' = Some st'" for sid' st'
    using mem_inv_socket [OF inv that] by (auto simp: m socket_ok_def)
  moreover have "registry_ok (snd (leave (sk_roomID st) sid g))" using reg by (rule leave_ok)
  ultimately show ?thesis by (simp add: mem_inv_def)
qed

text \<open>A socket that never joined can go without a trace.\<close>

lemma mem_inv_gone:
  assumes inv: "mem_inv cf L g D" and "\<And>st. D sid = Some st \<Longrightarrow> sk_roomID st = []"
  shows "mem_inv cf (L(sid := False)) g D"
proof -
  have "member_ok (L(sid := False)) D r m" if x: "m \<in> set (membersOf g r)" for r m
    using mem_inv_member [OF inv x] assms(2) by (auto simp: member_ok_def)
  moreover have "socket_ok cf (L(sid := False)) g sid' st'" if "D sid' = Some st'" for sid' st'
    using mem_inv_socket [OF inv that] by (auto simp: socket_ok_def)
  ultimately show ?thesis using inv by (simp add: mem_inv_def)
qed

lemma mem_inv_fresh:
  assumes inv: "mem_inv cf L g D" and new: "D sid = None" and a: "admitted cf sess"
  shows "mem_inv cf (L(sid := True)) g (D(sid \<mapsto> \<lparr>sk_session = sess, sk_roomID = []\<rparr>))"
proof -
  let ?D = "D(sid \<mapsto> \<lparr>sk_session = sess, sk_roomID = []\<rparr>)"
  have "member_ok (L(sid := True)) ?D r m" if x: "m \<in> set (membersOf g r)" for r m
    using mem_inv_member [OF inv x] new by (cases "mb_SocketID m = sid") (auto simp: member_ok_def)
  moreover have "socket_ok cf (L(sid := True)) g sid' st'" if "?D sid' = Some st'" for sid' st'
    using that mem_inv_socket [OF inv, of sid' st'] a
    by (cases "sid' = sid") (auto simp: socket_ok_def)
  ultimately show ?thesis using inv by (simp add: mem_inv_def)
qed

lemma members_invariant: "relay_reachable cf w \<Longrightarrow> members_ok cf w"
proof (induction rule: relay_reachable.induct)
  case rw_init
  then show ?case
    by (simp add: members_ok_def mem_inv_def newWorld_def newRelay_def newRegistry_ok)
      (simp add: newRegistry_def membersOf_def)
next
  case (rw_connect w sid now auth s)
  have q: "queue_ok w sid" using rw_connect.hyps(1) by (rule queues_ok)
  obtain sess where s: "s = rw_relay w\<lparr>ry_data := (ry_data (rw_relay w))(sid \<mapsto> \<lparr>sk_session = sess, sk_roomID = []\<rparr>)\<rparr>"
    and a: "admitted cf sess"
    using rw_connect.hyps(3)
    by (auto simp: authenticate_def admitted_def Let_def split: option.splits if_splits)
  have "live (w\<lparr>rw_relay := x, rw_open := (rw_open w)(sid := True), rw_used := y\<rparr>) = (live w)(sid := True)" for x y
    by (rule ext) (simp add: live_def)
  then show ?case
    using mem_inv_fresh [OF rw_connect.IH [unfolded members_ok_def] _ a, of sid] q rw_connect.hyps(2)
    by (simp add: members_ok_def onConnection_def s queue_ok_def)
next
  case (rw_packet w sid p)
  have "live (w\<lparr>rw_queue := (rw_queue w)(sid := rw_queue w sid @ [TPacket p])\<rparr>) = live w"
    by (rule ext) (simp add: live_def)
  with rw_packet.IH show ?case by (simp add: members_ok_def)
next
  case (rw_closing w sid)
  have "live (w\<lparr>rw_queue := (rw_queue w)(sid := rw_queue w sid @ [TDisconnecting]),
      rw_open := (rw_open w)(sid := False)\<rparr>) = live w"
    using rw_closing.hyps(2) by (intro ext) (simp add: live_def)
  with rw_closing.IH show ?case by (simp add: members_ok_def)
next
  case (rw_closed w sid)
  have "live (w\<lparr>rw_relay := x\<rparr>) = live w" for x by (rule ext) (simp add: live_def)
  with rw_closed.IH show ?case by (simp add: members_ok_def)
next
  case (rw_run w sid t ts)
  have q: "queue_ok w sid" using rw_run.hyps(1) by (rule queues_ok)
  note live = run_live [OF q rw_run.hyps(2)]
  let ?w = "w\<lparr>rw_relay := handle cf sid t (rw_relay w), rw_queue := (rw_queue w)(sid := ts)\<rparr>"
  have keep: "live ?w = live w" if "t \<noteq> TDisconnecting"
    using live(1,3) that by (intro ext) (auto simp: live_def)
  have gone: "live ?w = (live w)(sid := False)" if "t = TDisconnecting"
    using live(4) that by (intro ext) (auto simp: live_def)
  note IH = rw_run.IH [unfolded members_ok_def]
  show ?case
  proof (cases t rule: task_cases)
    case (join args)
    show ?thesis
    proof (cases rule: onJoinRoom_cases [of cf sid args "rw_relay w"])
      case nothing
      with IH join keep show ?thesis by (simp add: members_ok_def)
    next
      case (joined roomID state)
      with IH join keep mem_inv_join [OF IH joined(1,2) roomIDPattern_not_Nil [OF joined(3)] live(1) joined(5)]
      show ?thesis by (simp add: members_ok_def)
    qed
  next
    case leave
    have pre: "room_ok (ry_rooms (rw_relay w)) (sk_roomID st)
        \<and> sid \<in> mb_SocketID ` set (membersOf (ry_rooms (rw_relay w)) (sk_roomID st))"
      if "ry_data (rw_relay w) sid = Some st" "sk_roomID st \<noteq> []" for st
      using IH that live(1) by (auto simp: mem_inv_def socket_ok_def registry_ok_def)
    show ?thesis
    proof (rule onDisconnecting_cases [of "rw_relay w" sid cf], goal_cases)
      case (1 st)
      then show ?case by (rule pre)
    next
      case 2
      with gone leave mem_inv_gone [OF IH] show ?case by (simp add: members_ok_def)
    next
      case (3 st)
      with gone leave mem_inv_leave [OF IH 3(1)] show ?case by (simp add: members_ok_def)
    qed
  next
    case broadcast
    then have "t \<noteq> TDisconnecting" by auto
    with keep IH show ?thesis
      by (cases rule: broadcast_cases [OF broadcast, of cf sid "rw_relay w"]) (simp_all add: members_ok_def)
  qed
next
  case (rw_push w fileID event payload)
  have "live (w\<lparr>rw_relay := x\<rparr>) = live w" for x by (rule ext) (simp add: live_def)
  with rw_push.IH show ?case by (simp add: members_ok_def BroadcastToRoom_def)
qed

section \<open>Properties\<close>

text \<open>
  C12. Only who may is in a room: in every reachable state of the relay each member of
  a room holds a session the verifier gave for that very file, on a replica that owns
  the file, with the identity and the write permission of that session, and the room's
  roster lists each socket once.
\<close>

theorem members_are_admitted:
  assumes "relay_reachable cf w" "m \<in> set (membersOf (ry_rooms (rw_relay w)) r)"
  shows "(\<exists>now token sess. rc_verify cf now token = Some sess \<and> ss_FileID sess = r
       \<and> mb_UserID m = ss_UserID sess \<and> mb_CanWrite m = ss_CanWrite sess
       \<and> (case rc_isOwner cf of None \<Rightarrow> True | Some isOwner \<Rightarrow> isOwner r))
    \<and> distinct (map mb_SocketID (membersOf (ry_rooms (rw_relay w)) r))"
proof -
  note inv = members_invariant [OF assms(1), unfolded members_ok_def]
  from mem_inv_member(2) [OF inv assms(2)] obtain st
    where st: "ry_data (rw_relay w) (mb_SocketID m) = Some st" ..
  from mem_inv_member(3,4) [OF inv assms(2)] st
  have m: "r \<noteq> []" "sk_roomID st = r" "m = memberOf (mb_SocketID m) st" by auto
  from m(3) have "mb_UserID m = ss_UserID (sk_session st)" "mb_CanWrite m = ss_CanWrite (sk_session st)"
    by (metis memberOf_simps(2), metis memberOf_simps(3))
  moreover from mem_inv_socket(1,2) [OF inv st] m(1,2)
  have "admitted cf (sk_session st)" "ss_FileID (sk_session st) = r" by auto
  moreover have "distinct (map mb_SocketID (membersOf (ry_rooms (rw_relay w)) r))"
    using inv by (simp add: mem_inv_def registry_ok_def room_ok_def)
  ultimately show ?thesis unfolding admitted_def by blast
qed

text \<open>
  No socket outlives its connection as a member: once a socket's queue is closed
  and drained, it is in no room, whatever order its join and its disconnect came in.
\<close>

theorem no_ghost_member:
  assumes "relay_reachable cf w" "\<not> rw_open w sid" "rw_queue w sid = []"
  shows "sid \<notin> mb_SocketID ` set (membersOf (ry_rooms (rw_relay w)) r)"
  using mem_inv_member(1) [OF members_invariant [OF assms(1), unfolded members_ok_def]] assms(2,3)
  by (force simp: live_def)

end
