(* ===== verification/RelaySyncer.thy ===== *)
theory RelaySyncer
  imports RelaySafety
begin

text \<open>
  Who saves. What the sockets of the relay have been told about the syncer role, over
  every reachable state, against the registry's syncer of their room.
\<close>

section \<open>What a socket has been told\<close>

text \<open>A \<open>sync-designate\<close> goes to one socket or to the own-id rooms of some.\<close>

fun hears :: "target \<Rightarrow> string \<Rightarrow> bool" where
  "hears (ToSocket s) sid = (s = sid)"
| "hears (ToSockets ids) sid = (sid \<in> set ids)"
| "hears _ sid = False"

fun told :: "string \<Rightarrow> target \<times> message \<Rightarrow> bool \<Rightarrow> bool" where
  "told sid (t, SyncDesignate v) b = (if hears t sid then v else b)"
| "told sid _ b = b"

definition believes :: "(target \<times> message) list \<Rightarrow> string \<Rightarrow> bool" where
  "believes out sid = fold (told sid) out False"

definition no_designate :: "(target \<times> message) list \<Rightarrow> bool" where
  "no_designate out \<longleftrightarrow> (\<forall>t b. (t, SyncDesignate b) \<notin> set out)"

lemma told_other: "\<forall>v. m \<noteq> SyncDesignate v \<Longrightarrow> told sid (t, m) b = b"
  by (cases m) auto

lemma fold_told_none: "no_designate out \<Longrightarrow> fold (told sid) out b = b"
proof (induction out arbitrary: b)
  case Nil
  then show ?case by simp
next
  case (Cons e out)
  obtain t m where e: "e = (t, m)" by (cases e)
  with Cons.prems have "\<forall>v. m \<noteq> SyncDesignate v" by (auto simp: no_designate_def)
  then have "told sid e b = b" by (simp add: e told_other)
  with Cons show ?case by (simp add: no_designate_def)
qed

lemma believes_append [simp]:
  "no_designate ex \<Longrightarrow> believes (out @ ex) sid = believes out sid"
  by (simp add: believes_def fold_told_none)

lemma believes_snoc [simp]:
  "believes (out @ [e]) sid = told sid e (believes out sid)"
  by (simp add: believes_def)

section \<open>The elections of one room\<close>

lemma electNext_Nil_iff:
  assumes "[] \<notin> mb_UserID ` set ms"
  shows "electNext ms = [] \<longleftrightarrow> (\<forall>u. \<not> eligible ms u)"
proof
  assume "electNext ms = []"
  have "\<not> eligible ms u" for u
  proof
    assume e: "eligible ms u"
    then have u: "u \<in> set (joinOrder ms)" by (auto dest: eligible_mem)
    with e obtain v where v: "find (eligible ms) (joinOrder ms) = Some v"
      by (cases "find (eligible ms) (joinOrder ms)") (auto simp: find_None_iff)
    with \<open>electNext ms = []\<close> have "v = []" by (simp add: electNext_find)
    with find_SomeD(2) [OF v] assms show False by simp
  qed
  then show "\<forall>u. \<not> eligible ms u" by blast
next
  assume "\<forall>u. \<not> eligible ms u"
  then show "electNext ms = []" using electNext_eligible by blast
qed

lemma eligible_snoc: "u \<in> mb_UserID ` set ms \<Longrightarrow> eligible (ms @ [m]) u = eligible ms u"
  by (simp add: eligible_def firstSocket_snoc)

text \<open>A join gives the role to no socket but the new one.\<close>

lemma join_election:
  assumes ok: "syncer_ok ms cur" and ne: "[] \<notin> mb_UserID ` set ms"
    and m': "m' \<in> set ms" and nxt: "nxt = fst (electSyncer (ms @ [m]) cur)"
  shows "cur \<noteq> [] \<Longrightarrow> nxt = cur" "cur = [] \<Longrightarrow> mb_UserID m' \<noteq> nxt"
proof -
  assume "cur \<noteq> []"
  with ok have "hasSocket (ms @ [m]) cur" by (auto simp: syncer_ok_def hasSocket_iff)
  with \<open>cur \<noteq> []\<close> show "nxt = cur" by (simp add: nxt electSyncer_next)
next
  assume cur: "cur = []"
  show "mb_UserID m' \<noteq> nxt"
  proof
    assume u: "mb_UserID m' = nxt"
    with ne m' have "nxt \<noteq> []" by (metis imageI)
    with cur have "eligible (ms @ [m]) nxt"
      using electNext_eligible [of "ms @ [m]"] by (simp add: nxt electSyncer_next)
    then have "eligible ms nxt" using u m' by (metis eligible_snoc imageI)
    moreover have "electNext ms = []" using ok cur by (simp add: syncer_ok_def)
    ultimately show False using electNext_Nil_iff [OF ne] by blast
  qed
qed

section \<open>The invariant\<close>

definition role_ok :: "registry \<Rightarrow> (target \<times> message) list \<Rightarrow> string \<Rightarrow> member \<Rightarrow> bool" where
  "role_ok g out r m \<longleftrightarrow>
     (believes out (mb_SocketID m) \<longrightarrow> mb_UserID m = syncerOf g r)
     \<and> (mb_UserID m = syncerOf g r \<and> mb_CanWrite m \<longrightarrow> believes out (mb_SocketID m))"

definition role_inv :: "registry \<Rightarrow> (target \<times> message) list \<Rightarrow> bool" where
  "role_inv g out \<longleftrightarrow>
     (\<forall>r. \<forall>m \<in> set (membersOf g r). mb_UserID m \<noteq> [] \<and> role_ok g out r m)"

lemma member_once:
  assumes "mem_inv cf L g D" "m \<in> set (membersOf g r)" "m' \<in> set (membersOf g r')"
    and "mb_SocketID m = mb_SocketID m'"
  shows "r = r'" "m = m'"
  using mem_inv_member(2,4) [OF assms(1,2)] mem_inv_member(4) [OF assms(1,3)] assms(4) by metis+

lemma role_inv_join:
  assumes inv: "mem_inv cf L g D" and role: "role_inv g out"
    and new: "\<forall>r'. sid \<notin> mb_SocketID ` set (membersOf g r')"
    and m: "mb_SocketID m = sid" "mb_UserID m \<noteq> []" and ex: "no_designate ex"
  shows "role_inv (snd (join r m g))
    (out @ ex @ [(ToSocket sid, SyncDesignate (snd (snd (fst (join r m g)))))])"
    (is "role_inv ?g ?out")
proof -
  define f where "f = snd (snd (fst (join r m g)))"
  have n: "mb_SocketID m \<notin> mb_SocketID ` set (membersOf g r)" using new m by simp
  note j = join_new [OF n]
  have f: "f = (mb_UserID m = syncerOf ?g r \<and> mb_CanWrite m)" using j(3) by (auto simp: f_def)
  have b: "believes ?out x = (if x = sid then f else believes out x)" for x
    unfolding f_def [symmetric] using ex by (simp flip: append_assoc)
  have other: "syncerOf ?g r' = syncerOf g r'" if "r' \<noteq> r" for r'
    using that by (simp add: syncerOf_def join_other)
  have "mb_UserID x \<noteq> [] \<and> role_ok ?g ?out r' x" if x: "x \<in> set (membersOf ?g r')" for r' x
  proof (cases "r' = r \<and> x = m")
    case True
    then show ?thesis using m by (simp add: role_ok_def b f)
  next
    case False
    with x have old: "x \<in> set (membersOf g r')" by (auto simp: membersOf_join split: if_splits)
    with role have rx: "mb_UserID x \<noteq> []" "role_ok g out r' x" by (auto simp: role_inv_def)
    have sx: "mb_SocketID x \<noteq> sid" using new old by auto
    show ?thesis
    proof (cases "r' = r")
      case False
      with rx sx show ?thesis by (simp add: role_ok_def b other)
    next
      case True
      have ok: "syncer_ok (membersOf g r) (syncerOf g r)"
        using inv by (simp add: mem_inv_def registry_ok_def room_ok_def)
      have ne: "[] \<notin> mb_UserID ` set (membersOf g r)"
        using role unfolding role_inv_def by (metis imageE)
      note e = join_election [OF ok ne old [unfolded True] j(2)]
      show ?thesis
      proof (cases "syncerOf g r = []")
        case True
        with rx sx e(2) \<open>r' = r\<close> show ?thesis by (auto simp: role_ok_def b)
      next
        case False
        with rx sx e(1) \<open>r' = r\<close> show ?thesis by (auto simp: role_ok_def b)
      qed
    qed
  qed
  then show ?thesis by (simp add: role_inv_def)
qed

text \<open>A leave tells the new syncer's sockets and what is left of the old one's.\<close>

definition leave_emits :: "registry \<Rightarrow> string \<Rightarrow> string \<Rightarrow> (target \<times> message) list" where
  "leave_emits g r sid =
     (let ms = without sid (membersOf g r); e = electSyncer ms (syncerOf g r)
      in if ms = [] \<or> \<not> fst (snd e) then []
         else (if fst (snd (snd e)) = [] then []
               else [(ToSockets (fst (snd (snd e))), SyncDesignate True)])
            @ (if snd (snd (snd e)) = [] then []
               else [(ToSockets (snd (snd (snd e))), SyncDesignate False)]))"

lemma believes_leave:
  "believes (out @ leave_emits g r sid) x =
     (let ms = without sid (membersOf g r); cur = syncerOf g r; nxt = fst (electSyncer ms cur)
      in if ms = [] \<or> nxt = cur then believes out x
         else if x \<in> set (demotionTargets ms cur nxt) then False
         else if nxt \<noteq> [] \<and> x \<in> set (socketIDsForUser ms nxt) then True
         else believes out x)"
  by (auto simp: leave_emits_def Let_def believes_def electSyncer_def)

lemma mem_socketIDsForUser:
  assumes "distinct (map mb_SocketID ms)" "m \<in> set ms"
  shows "mb_SocketID m \<in> set (socketIDsForUser ms u) \<longleftrightarrow> u \<noteq> [] \<and> mb_UserID m = u"
proof -
  have "m' = m" if "m' \<in> set ms" "mb_SocketID m' = mb_SocketID m" for m'
    using assms that by (metis distinct_map inj_onD)
  then show ?thesis using assms(2) by (force simp: socketIDsForUser_def)
qed

lemma role_inv_leave:
  assumes inv: "mem_inv cf L g D" and role: "role_inv g out"
    and sid: "sid \<in> mb_SocketID ` set (membersOf g r)" and ex: "no_designate ex"
  shows "role_inv (snd (leave r sid g)) (out @ ex @ leave_emits g r sid)"
    (is "role_inv ?g ?out")
proof -
  let ?ms = "without sid (membersOf g r)" and ?cur = "syncerOf g r"
  let ?nxt = "fst (electSyncer ?ms ?cur)"
  have reg: "registry_ok g" using inv by (simp add: mem_inv_def)
  then have rok: "room_ok g r" by (simp add: registry_ok_def)
  then have dist: "distinct (map mb_SocketID ?ms)" by (simp add: room_ok_def distinct_map_filter)
  have b: "believes ?out x = (if ?ms = [] \<or> ?nxt = ?cur then believes out x
      else if x \<in> set (demotionTargets ?ms ?cur ?nxt) then False
      else if ?nxt \<noteq> [] \<and> x \<in> set (socketIDsForUser ?ms ?nxt) then True
      else believes out x)" for x
    using believes_leave [where out = "out @ ex" and g = g and r = r and sid = sid and x = x] ex by (simp add: Let_def)
  have "mb_UserID x \<noteq> [] \<and> role_ok ?g ?out r' x" if x: "x \<in> set (membersOf ?g r')" for r' x
  proof -
    have old: "x \<in> set (membersOf g r')" using x by (auto simp: membersOf_leave [OF reg] split: if_splits)
    with role have rx: "mb_UserID x \<noteq> []" "role_ok g out r' x" by (auto simp: role_inv_def)
    show ?thesis
    proof (cases "r' = r")
      case False
      have "mb_SocketID x \<noteq> mb_SocketID y" if "y \<in> set ?ms" for y
        using member_once(1) [OF inv old, of y r] that False by auto
      then have "mb_SocketID x \<notin> set (socketIDsForUser ?ms u)" for u
        by (auto simp: socketIDsForUser_def)
      then have "believes ?out (mb_SocketID x) = believes out (mb_SocketID x)"
        by (simp add: b demotionTargets_def)
      with rx False show ?thesis by (simp add: role_ok_def syncerOf_def leave_other)
    next
      case True
      with x have xm: "x \<in> set ?ms" by (simp add: membersOf_leave [OF reg])
      then have ms: "?ms \<noteq> []" by (metis empty_iff list.set(1))
      have new: "syncerOf ?g r = ?nxt"
        using leave_present(2) [OF rok sid] ms by simp
      note mem = mem_socketIDsForUser [OF dist xm]
      have bx: "believes ?out (mb_SocketID x) \<longleftrightarrow>
          (if ?nxt = ?cur then believes out (mb_SocketID x)
           else if ?cur \<noteq> [] \<and> mb_UserID x = ?cur then False
           else ?nxt \<noteq> [] \<and> mb_UserID x = ?nxt \<or> believes out (mb_SocketID x))"
        unfolding b using ms mem by (simp add: demotionTargets_def)
      show ?thesis
        using rx unfolding True role_ok_def new bx by (cases "?nxt = ?cur") auto
    qed
  qed
  then show ?thesis by (simp add: role_inv_def)
qed

definition named :: "relayConf \<Rightarrow> bool" where
  "named cf \<longleftrightarrow> (\<forall>now token sess. rc_verify cf now token = Some sess \<longrightarrow> ss_UserID sess \<noteq> [])"

lemma no_designate_Cons:
  "no_designate (e # out) \<longleftrightarrow> (\<forall>t b. e \<noteq> (t, SyncDesignate b)) \<and> no_designate out"
  by (auto simp: no_designate_def)

lemma no_designate_Nil [simp]: "no_designate []"
  by (simp add: no_designate_def)

lemma broadcast_message: "broadcast_ok cf sid st (t, m) \<Longrightarrow> \<exists>p v. m = ClientBroadcast p v"
  by (cases m; cases t) simp_all

lemma no_designate_one:
  "no_designate [(t, ErrorMsg e)]" "no_designate [(t, InitRoom)]" "no_designate [(t, ServerEvent n p)]"
  by (simp_all add: no_designate_def)

lemma no_designate_broadcast: "broadcast_ok cf sid st (t, m) \<Longrightarrow> no_designate [(t, m)]"
  using broadcast_message [of cf sid st t m] by (auto simp: no_designate_def)

lemma role_inv_more:
  assumes "role_inv g out" "no_designate ex" shows "role_inv g (out @ ex)"
  using assms(1) unfolding role_inv_def role_ok_def believes_append [OF assms(2)] .

lemma role_invariant:
  assumes "named cf"
  shows "relay_reachable cf w \<Longrightarrow> role_inv (ry_rooms (rw_relay w)) (ry_out (rw_relay w))"
proof (induction rule: relay_reachable.induct)
  case rw_init
  then show ?case by (simp add: role_inv_def newWorld_def newRelay_def newRegistry_def membersOf_def)
next
  case (rw_connect w sid now auth s)
  then have "ry_rooms s = ry_rooms (rw_relay w)" "ry_out s = ry_out (rw_relay w)"
    by (auto simp: authenticate_def Let_def split: option.splits if_splits)
  with rw_connect.IH show ?case
    by (simp add: onConnection_def role_inv_more no_designate_one)
next
  case (rw_run w sid t ts)
  have q: "queue_ok w sid" using rw_run.hyps(1) by (rule queues_ok)
  note live = run_live [OF q rw_run.hyps(2)]
  note inv = members_invariant [OF rw_run.hyps(1), unfolded members_ok_def]
  note IH = rw_run.IH
  show ?case
  proof (cases t rule: task_cases)
    case (join args)
    show ?thesis
    proof (cases rule: onJoinRoom_cases [of cf sid args "rw_relay w"])
      case nothing
      with join IH show ?thesis by (auto simp: role_inv_more no_designate_one)
    next
      case (joined roomID state)
      have out_of: "sid \<notin> mb_SocketID ` set (membersOf (ry_rooms (rw_relay w)) r')" for r'
      proof
        assume "sid \<in> mb_SocketID ` set (membersOf (ry_rooms (rw_relay w)) r')"
        then obtain m where m: "m \<in> set (membersOf (ry_rooms (rw_relay w)) r')" "mb_SocketID m = sid"
          by auto
        with mem_inv_member(3,4) [OF inv m(1)] joined(1) mem_inv_socket(2) [OF inv joined(1)] joined(2)
        have "r' = roomID" by auto
        with m joined(5) show False by auto
      qed
      have "ss_UserID (sk_session state) \<noteq> []"
        using mem_inv_socket(1) [OF inv joined(1)] assms by (auto simp: admitted_def named_def)
      moreover obtain ex where ex: "no_designate ex" "ry_out (onJoinRoom cf sid args (rw_relay w))
          = ry_out (rw_relay w) @ ex @ [(ToSocket sid, SyncDesignate (snd (snd (fst
              (join roomID (memberOf sid state) (ry_rooms (rw_relay w))))))) ]"
        using joined(9) by (auto simp: no_designate_def)
      ultimately show ?thesis
        using role_inv_join [where sid = sid and m = "memberOf sid state" and ex = ex and r = roomID, OF inv IH]
          out_of join joined(6) by simp
    qed
  next
    case leave
    have pre: "room_ok (ry_rooms (rw_relay w)) (sk_roomID st)
        \<and> sid \<in> mb_SocketID ` set (membersOf (ry_rooms (rw_relay w)) (sk_roomID st))"
      if "ry_data (rw_relay w) sid = Some st" "sk_roomID st \<noteq> []" for st
      using mem_inv_socket(3) [OF inv that live(1)] inv by (simp add: mem_inv_def registry_ok_def)
    show ?thesis
    proof (rule onDisconnecting_cases [of "rw_relay w" sid cf], goal_cases)
      case (1 st)
      then show ?case by (rule pre)
    next
      case 2
      with leave IH show ?case by simp
    next
      case (3 st)
      obtain ex where "no_designate ex" "ry_out (onDisconnecting cf sid (rw_relay w))
          = ry_out (rw_relay w) @ ex @ leave_emits (ry_rooms (rw_relay w)) (sk_roomID st) sid"
        using 3(6) by (auto simp: no_designate_def leave_emits_def)
      with role_inv_leave [where sid = sid and r = "sk_roomID st" and ex = ex, OF inv IH] pre [OF 3(1,2)] leave 3(3)
      show ?case by simp
    qed
  next
    case broadcast
    then show ?thesis
      using IH by (cases rule: broadcast_cases [OF broadcast, of cf sid "rw_relay w"])
        (simp_all add: role_inv_more no_designate_one no_designate_broadcast)
  qed
next
  case (rw_push w fileID event payload)
  then show ?case by (simp add: BroadcastToRoom_def role_inv_more no_designate_one)
qed simp_all

text \<open>
  C14. There is one syncer. In every reachable state of a relay whose sessions carry a
  user id, the sockets of a room that were last told they sync all belong to one user,
  the registry's syncer of the room; every writing socket of that user has been told
  so; and when the room has no syncer, no user's earliest socket may write.
\<close>

theorem one_syncer:
  assumes "relay_reachable cf w" "named cf" "m \<in> set (membersOf (ry_rooms (rw_relay w)) r)"
  shows "(believes (ry_out (rw_relay w)) (mb_SocketID m)
        \<longrightarrow> mb_UserID m = syncerOf (ry_rooms (rw_relay w)) r)
    \<and> (mb_UserID m = syncerOf (ry_rooms (rw_relay w)) r \<and> mb_CanWrite m
        \<longrightarrow> believes (ry_out (rw_relay w)) (mb_SocketID m))
    \<and> (syncerOf (ry_rooms (rw_relay w)) r = []
        \<longrightarrow> (\<forall>u. \<not> eligible (membersOf (ry_rooms (rw_relay w)) r) u))"
proof -
  let ?g = "ry_rooms (rw_relay w)"
  note role = role_invariant [OF assms(2,1)]
  have ne: "[] \<notin> mb_UserID ` set (membersOf ?g r)"
    using role unfolding role_inv_def by (metis imageE)
  have "syncer_ok (membersOf ?g r) (syncerOf ?g r)"
    using members_invariant [OF assms(1)] by (simp add: members_ok_def mem_inv_def registry_ok_def room_ok_def)
  then have "syncerOf ?g r = [] \<longrightarrow> (\<forall>u. \<not> eligible (membersOf ?g r) u)"
    unfolding electNext_Nil_iff [OF ne, symmetric] by (simp add: syncer_ok_def split: if_splits)
  moreover have "role_ok ?g (ry_out (rw_relay w)) r m" using role assms(3) by (simp add: role_inv_def)
  ultimately show ?thesis unfolding role_ok_def by blast
qed

section \<open>Two tabs of one user\<close>

text \<open>Two sessions of one user for one file, of which only the second may write.\<close>

definition tabSession :: "bool \<Rightarrow> session" where
  "tabSession canWrite = \<lparr>ss_FileID = ''f1'', ss_UserID = ''u1'', ss_UserName = ''Ann'',
     ss_CanWrite = canWrite\<rparr>"

definition tabConf :: relayConf where
  "tabConf = \<lparr>rc_verify = (\<lambda>_ t. if t = ''ro'' then Some (tabSession False)
                              else if t = ''rw'' then Some (tabSession True) else None),
     rc_maxSceneBytes = 1000, rc_hasEvents = True, rc_isOwner = None, rc_renum = keep_num\<rparr>"

text \<open>A socket that connects with a token and joins the room.\<close>

definition joinTab :: "string \<Rightarrow> string \<Rightarrow> relayWorld \<Rightarrow> relayWorld" where
  "joinTab sid token w =
     (let s = onConnection sid (set_connected sid True
                (snd (authenticate tabConf 0 sid (Some (ArgString token)) (rw_relay w))))
      in w\<lparr>rw_relay := onJoinRoom tabConf sid [ArgString ''f1''] s,
           rw_open := (rw_open w)(sid := True), rw_used := insert sid (rw_used w)\<rparr>)"

lemma joinTab_reachable:
  assumes "relay_reachable tabConf w" "sid \<notin> rw_used w" "token = ''ro'' \<or> token = ''rw''"
  shows "relay_reachable tabConf (joinTab sid token w)"
proof -
  obtain s where s: "authenticate tabConf 0 sid (Some (ArgString token)) (rw_relay w) = (None, s)"
    using assms(3) by (auto simp: authenticate_def tabConf_def)
  let ?w1 = "w\<lparr>rw_relay := onConnection sid (set_connected sid True s),
      rw_open := (rw_open w)(sid := True), rw_used := insert sid (rw_used w)\<rparr>"
  have q: "rw_queue w sid = []"
    using queues_ok [OF assms(1), of sid] assms(2) by (simp add: queue_ok_def)
  have r1: "relay_reachable tabConf ?w1" by (rule rw_connect [OF assms(1,2) s])
  let ?w2 = "?w1\<lparr>rw_queue := (rw_queue ?w1)(sid := rw_queue ?w1 sid @ [TPacket (JoinRoom [ArgString ''f1''])])\<rparr>"
  have r2: "relay_reachable tabConf ?w2" by (rule rw_packet [OF r1]) simp
  have "relay_reachable tabConf (?w2\<lparr>rw_relay := handle tabConf sid (TPacket (JoinRoom [ArgString ''f1''])) (rw_relay ?w2),
      rw_queue := (rw_queue ?w2)(sid := [])\<rparr>)"
    by (rule rw_run [OF r2]) (simp add: q)
  moreover have "(rw_queue w)(sid := []) = rw_queue w" using q by (simp add: fun_upd_idem)
  moreover have "joinTab sid token w = ?w2\<lparr>rw_relay := handle tabConf sid
      (TPacket (JoinRoom [ArgString ''f1''])) (rw_relay ?w2), rw_queue := rw_queue w\<rparr>"
    by (cases w) (use s in \<open>simp add: joinTab_def\<close>)
  ultimately show ?thesis by simp
qed

definition twoTabs :: relayWorld where
  "twoTabs = joinTab ''s2'' ''rw'' (joinTab ''s1'' ''ro'' newWorld)"

lemma twoTabs_reachable: "relay_reachable tabConf twoTabs"
  unfolding twoTabs_def
  by (intro joinTab_reachable rw_init) (simp_all add: newWorld_def joinTab_def)

lemma f1_pattern [simp]: "roomIDPattern ''f1''"
  by code_simp

lemmas tab_defs = joinTab_def newWorld_def newRelay_def newRegistry_def authenticate_def tabConf_def
  tabSession_def onConnection_def onJoinRoom_def roomGuard_def roomIDArg_def join_def membersOf_def
  syncerOf_def memberOf_def electSyncer_def electNext_def emit_def room_event_def set_connected_def

lemma oneTab_state:
  "ry_rooms (rw_relay (joinTab ''s1'' ''ro'' newWorld)) =
     \<lparr>rg_rooms = [''f1'' \<mapsto> [memberOf ''s1'' \<lparr>sk_session = tabSession False, sk_roomID = ''f1''\<rparr>]],
      rg_syncers = [''f1'' \<mapsto> []]\<rparr>"
  by (simp add: tab_defs Let_def)

lemma tabConf_named: "named tabConf"
  by (simp add: named_def tabConf_def tabSession_def)

lemma twoTabs_member:
  "memberOf ''s2'' \<lparr>sk_session = tabSession True, sk_roomID = ''f1''\<rparr>
     \<in> set (membersOf (ry_rooms (rw_relay twoTabs)) ''f1'')"
  by (simp add: twoTabs_def) (simp add: tab_defs Let_def)

theorem members_are_admitted_witness:
  "\<exists>sess. rc_verify tabConf 0 ''rw'' = Some sess \<and> ss_FileID sess = ''f1''
     \<and> distinct (map mb_SocketID (membersOf (ry_rooms (rw_relay twoTabs)) ''f1''))"
  using members_are_admitted [OF twoTabs_reachable twoTabs_member]
  by (simp add: tabConf_def tabSession_def)

lemma twoTabs_syncer: "syncerOf (ry_rooms (rw_relay twoTabs)) ''f1'' = []"
  by (simp add: twoTabs_def) (simp add: tab_defs Let_def)

theorem one_syncer_witness:
  "\<not> eligible (membersOf (ry_rooms (rw_relay twoTabs)) ''f1'') ''u1''"
  using one_syncer [OF twoTabs_reachable tabConf_named twoTabs_member] twoTabs_syncer by blast

text \<open>The tab goes away again.\<close>

definition tabClosing :: relayWorld where
  "tabClosing = (joinTab ''s1'' ''ro'' newWorld)\<lparr>rw_queue := (\<lambda>_. [])(''s1'' := [TDisconnecting]),
     rw_open := (\<lambda>_. False)\<rparr>"

definition tabGone :: relayWorld where
  "tabGone = tabClosing\<lparr>rw_relay := onDisconnecting tabConf ''s1'' (rw_relay tabClosing), rw_queue := (\<lambda>_. [])\<rparr>"

lemma tabGone_reachable: "relay_reachable tabConf tabGone"
proof -
  let ?w = "joinTab ''s1'' ''ro'' newWorld"
  have r: "relay_reachable tabConf ?w"
    by (intro joinTab_reachable rw_init) (simp_all add: newWorld_def)
  have "relay_reachable tabConf (?w\<lparr>rw_queue := (rw_queue ?w)(''s1'' := rw_queue ?w ''s1'' @ [TDisconnecting]),
      rw_open := (rw_open ?w)(''s1'' := False)\<rparr>)"
    by (rule rw_closing [OF r]) (simp add: joinTab_def)
  moreover have "rw_queue ?w = (\<lambda>_. [])" by (simp add: joinTab_def newWorld_def)
  moreover have "(rw_open ?w)(''s1'' := False) = (\<lambda>_. False)"
    by (rule ext) (simp add: joinTab_def newWorld_def)
  ultimately have c: "relay_reachable tabConf tabClosing" by (simp add: tabClosing_def)
  have "relay_reachable tabConf (tabClosing\<lparr>rw_relay := handle tabConf ''s1'' TDisconnecting (rw_relay tabClosing),
      rw_queue := (rw_queue tabClosing)(''s1'' := [])\<rparr>)"
    by (rule rw_run [OF c]) (simp add: tabClosing_def)
  moreover have "(rw_queue tabClosing)(''s1'' := []) = (\<lambda>_. [])"
    by (rule ext) (simp add: tabClosing_def)
  ultimately show ?thesis by (simp add: tabGone_def)
qed

theorem no_ghost_member_witness:
  "''s1'' \<notin> mb_SocketID ` set (membersOf (ry_rooms (rw_relay tabGone)) ''f1'')"
  by (rule no_ghost_member [OF tabGone_reachable]) (simp_all add: tabGone_def tabClosing_def)

text \<open>
  The election looks only at each user's earliest socket, so a user whose first
  tab is read-only is passed over although a later tab may write: a room of a relay
  can hold a writing socket while no socket has been told to sync.
\<close>

theorem election_skips_writer:
  "relay_reachable tabConf twoTabs
   \<and> (\<exists>m \<in> set (membersOf (ry_rooms (rw_relay twoTabs)) ''f1''). mb_CanWrite m)
   \<and> syncerOf (ry_rooms (rw_relay twoTabs)) ''f1'' = []
   \<and> (\<forall>sid. \<not> believes (ry_out (rw_relay twoTabs)) sid)"
proof -
  have "rg_rooms (ry_rooms (rw_relay twoTabs)) = [''f1'' \<mapsto>
      [memberOf ''s1'' \<lparr>sk_session = tabSession False, sk_roomID = ''f1''\<rparr>,
       memberOf ''s2'' \<lparr>sk_session = tabSession True, sk_roomID = ''f1''\<rparr>]]"
    by (simp add: twoTabs_def oneTab_state) (simp add: tab_defs Let_def)
  then have ms: "membersOf (ry_rooms (rw_relay twoTabs)) ''f1'' =
      [memberOf ''s1'' \<lparr>sk_session = tabSession False, sk_roomID = ''f1''\<rparr>,
       memberOf ''s2'' \<lparr>sk_session = tabSession True, sk_roomID = ''f1''\<rparr>]"
    by (simp add: membersOf_def)
  have "\<not> believes (ry_out (rw_relay twoTabs)) sid" for sid
    by (simp add: believes_def twoTabs_def) (simp add: tab_defs Let_def)
  with twoTabs_reachable ms twoTabs_syncer show ?thesis by (simp add: tabSession_def)
qed

end
