(* ===== verification/RelayManager.thy ===== *)
theory RelayManager
  imports RelaySyncer RoomInvariants
begin

text \<open>
  The relay and the room manager together. The relay's \<open>RoomEvents\<close> hook is the
  manager: what the relay has told it, over any traffic, adds up to the membership the
  relay has, so the manager closes a file's room exactly when the last socket is gone.
\<close>

section \<open>The hook's calls add up\<close>

text \<open>
  The head counts a listener keeps; \<open>None\<close> if a leave comes for a room nobody is in,
  or with the wrong answer to whether the room is now empty.
\<close>

fun heads :: "roomEvent \<Rightarrow> (string \<Rightarrow> nat) option \<Rightarrow> (string \<Rightarrow> nat) option" where
  "heads e None = None"
| "heads (RoomJoined r u w) (Some n) = Some (n(r := n r + 1))"
| "heads (RoomLeft r u e) (Some n) =
     (if 0 < n r \<and> (e \<longleftrightarrow> n r = 1) then Some (n(r := n r - 1)) else None)"

definition head_count :: "roomEvent list \<Rightarrow> (string \<Rightarrow> nat) option" where
  "head_count es = fold heads es (Some (\<lambda>_. 0))"

lemma head_count_Nil [simp]: "head_count [] = Some (\<lambda>_. 0)"
  by (simp add: head_count_def)

lemma head_count_snoc [simp]: "head_count (es @ [e]) = heads e (head_count es)"
  by (simp add: head_count_def)

definition sizes :: "registry \<Rightarrow> string \<Rightarrow> nat" where
  "sizes g r = length (membersOf g r)"

lemma sizes_join:
  assumes "mb_SocketID m \<notin> mb_SocketID ` set (membersOf g r)"
  shows "sizes (snd (join r m g)) = (sizes g)(r := sizes g r + 1)"
  using assms by (intro ext) (simp add: sizes_def membersOf_join)

lemma length_without:
  assumes "distinct (map mb_SocketID ms)" "sid \<in> mb_SocketID ` set ms"
  shows "Suc (length (without sid ms)) = length ms"
  using assms
proof (induction ms)
  case Nil
  then show ?case by simp
next
  case (Cons m ms)
  show ?case
  proof (cases "mb_SocketID m = sid")
    case True
    with Cons.prems have "without sid ms = ms" by (intro filter_True ballI) (metis distinct.simps(2) imageI list.simps(9) set_map)
    with True show ?thesis by simp
  next
    case False
    with Cons show ?thesis by auto
  qed
qed

lemma sizes_leave:
  assumes "registry_ok g" "sid \<in> mb_SocketID ` set (membersOf g r)"
  shows "sizes (snd (leave r sid g)) = (sizes g)(r := sizes g r - 1)"
    and "0 < sizes g r" "without sid (membersOf g r) = [] \<longleftrightarrow> sizes g r = 1"
proof -
  have d: "distinct (map mb_SocketID (membersOf g r))"
    using assms(1) by (simp add: registry_ok_def room_ok_def)
  note l = length_without [OF d assms(2)]
  show "sizes (snd (leave r sid g)) = (sizes g)(r := sizes g r - 1)"
    using l by (intro ext) (simp add: sizes_def membersOf_leave [OF assms(1)] flip: l)
  show "0 < sizes g r" using l by (simp add: sizes_def flip: l)
  show "without sid (membersOf g r) = [] \<longleftrightarrow> sizes g r = 1"
    using l by (simp add: sizes_def flip: l)
qed

lemma events_sizes:
  assumes "rc_hasEvents cf"
  shows "relay_reachable cf w \<Longrightarrow>
     head_count (ry_events (rw_relay w)) = Some (sizes (ry_rooms (rw_relay w)))"
proof (induction rule: relay_reachable.induct)
  case rw_init
  then show ?case by (simp add: newWorld_def newRelay_def newRegistry_def membersOf_def sizes_def fun_eq_iff)
next
  case (rw_connect w sid now auth s)
  then have "ry_rooms s = ry_rooms (rw_relay w)" "ry_events s = ry_events (rw_relay w)"
    by (auto simp: authenticate_def Let_def split: option.splits if_splits)
  with rw_connect.IH show ?case by (simp add: onConnection_def)
next
  case (rw_run w sid t ts)
  have q: "queue_ok w sid" using rw_run.hyps(1) by (rule queues_ok)
  note live = run_live [OF q rw_run.hyps(2)]
  note inv = members_invariant [OF rw_run.hyps(1), unfolded members_ok_def]
  have reg: "registry_ok (ry_rooms (rw_relay w))" using inv by (simp add: mem_inv_def)
  note IH = rw_run.IH
  show ?case
  proof (cases t rule: task_cases)
    case (join args)
    show ?thesis
    proof (cases rule: onJoinRoom_cases [of cf sid args "rw_relay w"])
      case nothing
      with join rw_run.IH show ?thesis by simp
    next
      case (joined roomID state)
      with sizes_join [of "memberOf sid state" "ry_rooms (rw_relay w)" roomID] join IH assms
      show ?thesis by (simp add: fun_upd_def)
    qed
  next
    case leave
    have pre: "room_ok (ry_rooms (rw_relay w)) (sk_roomID st)
        \<and> sid \<in> mb_SocketID ` set (membersOf (ry_rooms (rw_relay w)) (sk_roomID st))"
      if "ry_data (rw_relay w) sid = Some st" "sk_roomID st \<noteq> []" for st
      using mem_inv_socket(3) [OF inv that live(1)] reg by (simp add: registry_ok_def)
    show ?thesis
    proof (rule onDisconnecting_cases [of "rw_relay w" sid cf], goal_cases)
      case (1 st)
      then show ?case by (rule pre)
    next
      case 2
      with leave rw_run.IH show ?case by simp
    next
      case (3 st)
      with sizes_leave [OF reg, of sid "sk_roomID st"] pre [OF 3(1,2)] leave IH assms
      show ?case by (simp add: fun_upd_def)
    qed
  next
    case broadcast
    then show ?thesis
      using rw_run.IH by (cases rule: broadcast_cases [OF broadcast, of cf sid "rw_relay w"]) simp_all
  qed
next
  case (rw_push w fileID event payload)
  then show ?case by (simp add: BroadcastToRoom_def)
qed simp_all

text \<open>
  What the hook has been told adds up: replaying the calls of \<open>OnJoin\<close> and
  \<open>OnLeave\<close> a relay with a hook has made, every leave is of a room somebody is in and
  says rightly whether that empties it, and the counts at the end are the sizes of the
  registry's rooms.
\<close>

theorem hook_adds_up:
  assumes "rc_hasEvents cf" "relay_reachable cf w"
  shows "head_count (ry_events (rw_relay w)) = Some (\<lambda>r. length (membersOf (ry_rooms (rw_relay w)) r))"
  using events_sizes [OF assms] by (simp add: sizes_def [abs_def])

theorem hook_adds_up_witness:
  "map_option (\<lambda>n. n ''f1'') (head_count (ry_events (rw_relay twoTabs))) = Some (length (membersOf (ry_rooms (rw_relay twoTabs)) ''f1''))"
  using hook_adds_up [OF _ twoTabs_reachable] by (simp add: tabConf_def)


section \<open>The manager as the hook\<close>

text \<open>
  \<open>relay.WithRoomEvents(mgr)\<close>: the manager hears the relay's calls in their order,
  among whatever the rest of the program does with it.
\<close>

fun eventOf :: "roomEvent \<Rightarrow> event" where
  "eventOf (RoomJoined f u w) = EvOnJoin f u w"
| "eventOf (RoomLeft f u e) = EvOnLeave f u e"

text \<open>
  What a pass of the background loop, a flush at shutdown or the rest of a resolve is made
  of: an update of one room under the mutex, a call to the host, the hook for an expiring
  token, the end of a room. \<open>m_sched\<close> is no state of the program: it lists what others
  will do while the loop waits.
\<close>

inductive loop_atom :: "'h sys \<Rightarrow> 'h sys \<Rightarrow> bool" where
  la_update: "loop_update g \<Longrightarrow> q < m_next s \<Longrightarrow> loop_atom s (upd_room q g s)"
| la_saved: "q < m_next s \<Longrightarrow> loop_atom s (upd_room q (saveSuccessRoom now v n) s)"
| la_call: "loop_atom s (s\<lparr>m_host := h, m_calls := m_calls s @ [en]\<rparr>)"
| la_expiring: "loop_atom s (s\<lparr>m_hooks := m_hooks s @ [OnTokenExpiring q fid usr]\<rparr>)"
| la_delete: "q < m_next s \<Longrightarrow> loop_atom s (exec (deleteRoomLocked q) s)"
| la_sched: "loop_atom s (s\<lparr>m_sched := sch\<rparr>)"

lemma mgr_wf_loop_atom: "loop_atom s t \<Longrightarrow> mgr_wf s \<Longrightarrow> mgr_wf t"
  by (induction rule: loop_atom.induct) (auto intro: mgr_wf_step step_loop step_saved mgr_wf_delete)

text \<open>The atoms make up every run of the manager: passes, flushes and resolves included.\<close>

definition sys_atom :: "'h sys \<Rightarrow> 'h sys \<Rightarrow> bool" where
  "sys_atom s t \<longleftrightarrow> env_atom (\<lambda>_. True) s t \<or> loop_atom s t"

definition made_of_atoms :: "'h sys \<Rightarrow> bool" where
  "made_of_atoms s \<longleftrightarrow> mgr_wf s
     \<and> (\<exists>mb hexp hconf hrel now host. sys_atom\<^sup>*\<^sup>* (newManager mb hexp hconf hrel now host) s)"

lemma made_of_atoms_env: "env_atom (\<lambda>_. True) s t \<Longrightarrow> made_of_atoms s \<Longrightarrow> made_of_atoms t"
  unfolding made_of_atoms_def sys_atom_def
  by (blast intro: mgr_wf_atom rtranclp.rtrancl_into_rtrancl)

lemma made_of_atoms_loop: "loop_atom s t \<Longrightarrow> made_of_atoms s \<Longrightarrow> made_of_atoms t"
  unfolding made_of_atoms_def sys_atom_def
  by (blast intro: mgr_wf_loop_atom rtranclp.rtrancl_into_rtrancl)

interpretation parts: loop_invariant "\<lambda>_. True" made_of_atoms "\<lambda>r sc q s. made_of_atoms s"
proof unfold_locales
  show "made_of_atoms (newManager mb hexp hconf hrel now host)" for mb hexp hconf hrel now host
    unfolding made_of_atoms_def
    by (intro conjI exI) (simp add: newManager_def mgr_wf_def, rule rtranclp.rtrancl_refl)
qed (auto intro: made_of_atoms_env made_of_atoms_loop loop_atom.intros mgr_wf_rooms
      simp: made_of_atoms_def [THEN iffD1, THEN conjunct1])

theorem runs_are_atoms:
  assumes "mgr_reachable (\<lambda>_. True) c s"
  shows "\<exists>mb hexp hconf hrel now host. sys_atom\<^sup>*\<^sup>* (newManager mb hexp hconf hrel now host) s"
  using parts.reachable_I [OF assms] by (simp add: made_of_atoms_def)

text \<open>
  What the REST side may do meanwhile: anything but join or leave, as long as a launch
  of the file comes under the one \<open>WOPISrc\<close> it is known by.
\<close>

fun rest_event :: "string \<Rightarrow> string \<Rightarrow> event \<Rightarrow> bool" where
  "rest_event f src (EvOnJoin _ _ _) = False"
| "rest_event f src (EvOnLeave _ _ _) = False"
| "rest_event f src (EvObserve c) = (cl_WOPISrc c = src \<longleftrightarrow> cl_FileID c = f)"
| "rest_event f src _ = True"

definition attached :: "string \<Rightarrow> string \<Rightarrow> rid \<Rightarrow> 'h sys \<Rightarrow> bool" where
  "attached f src r s \<longleftrightarrow> r < m_next s
     \<and> m_byFileID s f = Some r \<and> (\<forall>f'. f' \<noteq> f \<longrightarrow> m_byFileID s f' \<noteq> Some r)
     \<and> map_of (m_rooms s) src = Some r \<and> (\<forall>src'. src' \<noteq> src \<longrightarrow> map_of (m_rooms s) src' \<noteq> Some r)"

definition heads_kept :: "rid \<Rightarrow> 'h sys \<Rightarrow> 'h sys \<Rightarrow> bool" where
  "heads_kept r s t \<longleftrightarrow> rs_liveUserCount (m_heap t r) = rs_liveUserCount (m_heap s r)
     \<and> rs_closing (m_heap t r) = rs_closing (m_heap s r)"

lemma attached_frame [simp]:
  "attached f src r (upd_room q g s) = attached f src r s"
  "attached f src r (s\<lparr>m_woken := b\<rparr>) = attached f src r s"
  "attached f src r (s\<lparr>m_puts := n\<rparr>) = attached f src r s"
  "attached f src r (s\<lparr>m_hooks := hs\<rparr>) = attached f src r s"
  "attached f src r (s\<lparr>m_clock := c\<rparr>) = attached f src r s"
  by (simp_all add: attached_def)

lemmas rest_defs = heads_kept_def exec_def

lemma put_rest:
  assumes "attached f src r s"
  shows "attached f src r (exec (PutScene src' d u) s) \<and> heads_kept r s (exec (PutScene src' d u) s)"
proof -
  obtain q t where rt: "run_state (roomLocked src' []) s = (q, t)" by fastforce
  have t: "attached f src r t \<and> heads_kept r s t"
  proof (cases "map_of (m_rooms s) src'")
    case None
    with rt have t: "t = new_room src' s" by (simp add: roomLocked_run Let_def)
    have "src' \<noteq> src" using None assms by (auto simp: attached_def)
    with assms show ?thesis unfolding t by (simp add: attached_def heads_kept_def new_room_def)
  next
    case (Some p)
    with rt assms show ?thesis by (simp add: roomLocked_run heads_kept_def Let_def)
  qed
  show ?thesis
  proof (cases "0 < m_maxSceneBytes s \<and> m_maxSceneBytes s < int (length d)")
    case True
    with assms show ?thesis by (simp add: rest_defs PutScene_def Let_def)
  next
    case False
    with t rt show ?thesis by (cases "u = []"; cases "q = r") (auto simp: rest_defs PutScene_def Let_def)
  qed
qed

lemma observe_rest:
  assumes "attached f src r s" "cl_WOPISrc c = src \<longleftrightarrow> cl_FileID c = f"
  shows "attached f src r (exec (Observe c) s) \<and> heads_kept r s (exec (Observe c) s)"
proof -
  obtain q t where rt: "run_state (roomLocked (cl_WOPISrc c) (cl_FileID c)) s = (q, t)" by fastforce
  have only: "m_byFileID s g = Some r \<longleftrightarrow> g = f" "map_of (m_rooms s) src' = Some r \<longleftrightarrow> src' = src" for g src'
    using assms(1) by (auto simp: attached_def)
  have t: "attached f src r t \<and> heads_kept r s t"
  proof (cases "cl_FileID c = f")
    case True
    then have "cl_WOPISrc c = src" using assms(2) by simp
    with rt True assms(1) show ?thesis
      by (auto simp: attached_def heads_kept_def roomLocked_run index_room_def Let_def split: if_splits)
  next
    case False
    define t1 where "t1 = (case map_of (m_rooms s) (cl_WOPISrc c) of
                 Some r \<Rightarrow> s
               | None \<Rightarrow> (case (if cl_FileID c \<noteq> [] then m_byFileID s (cl_FileID c) else None) of
                           Some r \<Rightarrow> alias_room (cl_WOPISrc c) r s
                         | None \<Rightarrow> new_room (cl_WOPISrc c) s))"
    have ne: "cl_WOPISrc c \<noteq> src" using False assms(2) by simp
    have t1: "attached f src r t1 \<and> heads_kept r s t1 \<and> map_of (m_rooms t1) (cl_WOPISrc c) \<noteq> Some r
        \<and> map_of (m_rooms t1) (cl_WOPISrc c) \<noteq> None"
    proof (cases "map_of (m_rooms s) (cl_WOPISrc c)")
      case None
      show ?thesis
      proof (cases "if cl_FileID c \<noteq> [] then m_byFileID s (cl_FileID c) else None")
        case None2: None
        have "t1 = new_room (cl_WOPISrc c) s" using None None2 by (simp add: t1_def)
        with assms(1) ne show ?thesis by (simp add: attached_def heads_kept_def new_room_def)
      next
        case (Some p)
        then have "p \<noteq> r" using only(1) [of "cl_FileID c"] False by (auto split: if_splits)
        moreover have "t1 = alias_room (cl_WOPISrc c) p s" using None Some by (simp add: t1_def)
        ultimately show ?thesis
          using assms(1) ne by (simp add: attached_def heads_kept_def alias_room_def)
      qed
    next
      case (Some p)
      then show ?thesis using assms(1) ne only(2) by (auto simp: t1_def heads_kept_def)
    qed
    then obtain p where p: "map_of (m_rooms t1) (cl_WOPISrc c) = Some p" "p \<noteq> r" by auto
    have "t = (if cl_FileID c \<noteq> [] then index_room (cl_FileID c) p t1 else t1)"
      using rt p by (auto simp: roomLocked_run Let_def simp flip: t1_def)
    with t1 p False show ?thesis by (simp add: attached_def heads_kept_def index_room_def)
  qed
  then show ?thesis
    using rt by (cases "q = r") (auto simp: rest_defs Observe_def pruneTokensLocked_def Let_def)
qed

lemma rest_step:
  assumes "attached f src r s" "rest_event f src e"
  shows "attached f src r (env_step e s) \<and> heads_kept r s (env_step e s)"
proof (cases e)
  case (EvPutScene src' d u)
  with put_rest [OF assms(1)] show ?thesis by simp
next
  case (EvObserve c)
  with observe_rest [OF assms(1)] assms(2) show ?thesis by simp
next
  case (EvResolve src' b)
  then show ?thesis
    using assms(1)
    by (auto simp: rest_defs resolveLocked_def resolveRoom_def Let_def split: option.splits)
next
  case (EvNotify q)
  then show ?thesis
    using assms(1) by (auto simp: heads_kept_def notifyLocked_exec reportFlags_def)
next
  case (EvReload q)
  then show ?thesis using assms(1) by (auto simp: rest_defs reloadHook_def)
qed (use assms in \<open>auto simp: rest_defs\<close>)

lemma join_heard:
  assumes "attached f src r s"
  shows "attached f src r (exec (OnJoin g u w) s)"
    "rs_liveUserCount (m_heap (exec (OnJoin g u w) s) r) =
       rs_liveUserCount (m_heap s r) + (if g = f then 1 else 0)"
    "rs_closing (m_heap (exec (OnJoin g u w) s) r) \<longleftrightarrow> g \<noteq> f \<and> rs_closing (m_heap s r)"
proof (atomize (full), goal_cases)
  case 1
  consider "g = f" "m_byFileID s g = Some r" | "g \<noteq> f" "m_byFileID s g = None"
    | p where "g \<noteq> f" "m_byFileID s g = Some p" "p \<noteq> r"
    using assms by (cases "m_byFileID s g"; cases "g = f") (auto simp: attached_def)
  then show ?case
    using assms by cases (simp_all add: rest_defs OnJoin_def)
qed

lemma leave_heard:
  assumes "attached f src r s"
  shows "attached f src r (exec (OnLeave g u e) s)"
    "rs_liveUserCount (m_heap (exec (OnLeave g u e) s) r) =
       (if g = f \<and> 0 < rs_liveUserCount (m_heap s r) then rs_liveUserCount (m_heap s r) - 1
        else rs_liveUserCount (m_heap s r))"
    "rs_closing (m_heap (exec (OnLeave g u e) s) r) \<longleftrightarrow> rs_closing (m_heap s r) \<or> g = f \<and> e"
proof (atomize (full), goal_cases)
  case 1
  consider "g = f" "m_byFileID s g = Some r" | "g \<noteq> f" "m_byFileID s g = None"
    | p where "g \<noteq> f" "m_byFileID s g = Some p" "p \<noteq> r"
    using assms by (cases "m_byFileID s g"; cases "g = f") (auto simp: attached_def)
  then show ?case
    using assms by cases (simp_all add: rest_defs OnLeave_def)
qed

lemma filter_keys_only:
  "map_of (filter (\<lambda>e. P (fst e)) al) k = (if P k then map_of al k else None)"
  by (induction al) auto

text \<open>A step of the loop that leaves the room in both maps leaves its count alone.\<close>

lemma loop_rest:
  assumes "attached f src r s" "loop_atom s t"
    and "m_byFileID t f = Some r" "map_of (m_rooms t) src = Some r"
  shows "attached f src r t \<and> heads_kept r s t"
  using assms(2,1,3,4)
proof (induction rule: loop_atom.induct)
  case (la_update g q s)
  then have "rs_liveUserCount (g rs) = rs_liveUserCount rs \<and> rs_closing (g rs) = rs_closing rs" for rs
    by (cases rule: loop_update.cases) (simp_all add: update_defs)
  with la_update show ?case by (simp add: heads_kept_def)
next
  case (la_saved q s now v n)
  then show ?case by (simp add: heads_kept_def update_defs)
next
  case (la_delete q s)
  then show ?case
    by (auto simp: attached_def heads_kept_def deleteRoom_exec
        filter_keys_only [where P = "\<lambda>k. k \<notin> rs_wopiSrcs (m_heap s q)"] split: if_splits)
qed (simp_all add: attached_def heads_kept_def)

text \<open>
  The relay and the manager side by side. \<open>hooked es0 s0 f src r es s\<close>: from a
  moment when the relay had made the calls \<open>es0\<close> and the manager was in \<open>s0\<close>, the
  two have come to \<open>es\<close> and \<open>s\<close>. The relay's calls come in their order, between the
  steps of the REST side and those of the loop, and the loop has not ended the room.
\<close>

inductive hooked ::
  "roomEvent list \<Rightarrow> 'h sys \<Rightarrow> string \<Rightarrow> string \<Rightarrow> rid \<Rightarrow> roomEvent list \<Rightarrow> 'h sys \<Rightarrow> bool"
  for es0 :: "roomEvent list" and s0 :: "'h sys" and f :: string and src :: string and r :: rid
where
  hk_start: "hooked es0 s0 f src r es0 s0"
| hk_relay: "hooked es0 s0 f src r es s \<Longrightarrow>
     hooked es0 s0 f src r (es @ [e]) (env_step (eventOf e) s)"
| hk_rest: "hooked es0 s0 f src r es s \<Longrightarrow> rest_event f src e \<Longrightarrow>
     hooked es0 s0 f src r es (env_step e s)"
| hk_loop: "hooked es0 s0 f src r es s \<Longrightarrow> loop_atom s t \<Longrightarrow>
     m_byFileID t f = Some r \<Longrightarrow> map_of (m_rooms t) src = Some r \<Longrightarrow>
     hooked es0 s0 f src r es t"

lemma hooked_counts:
  assumes "hooked es0 s0 f src r es s" "head_count es = Some n"
    and "attached f src r s0" "rs_liveUserCount (m_heap s0 r) = 0" "\<not> rs_closing (m_heap s0 r)"
    and "map_option (\<lambda>n. n f) (head_count es0) = Some 0"
  shows "attached f src r s \<and> rs_liveUserCount (m_heap s r) = int (n f)
     \<and> (rs_closing (m_heap s r) \<longrightarrow> n f = 0)"
  using assms(1,2)
proof (induction arbitrary: n rule: hooked.induct)
  case hk_start
  then show ?case using assms(3-6) by auto
next
  case (hk_relay es s e)
  then obtain k where k: "head_count es = Some k" "heads e (Some k) = Some n"
    by (cases "head_count es") simp_all
  note IH = hk_relay.IH [OF k(1)]
  show ?case
  proof (cases e)
    case (RoomJoined g u w)
    then show ?thesis using join_heard [of f src r s g u w] IH k(2) by auto
  next
    case (RoomLeft g u w)
    then show ?thesis using leave_heard [of f src r s g u w] IH k(2) by (auto split: if_splits)
  qed
next
  case (hk_rest es s e)
  from hk_rest.IH [OF hk_rest.prems] rest_step [of f src r s e] hk_rest.hyps(2)
  show ?case by (simp add: heads_kept_def)
next
  case (hk_loop es s t)
  from hk_loop.IH [OF hk_loop.prems] loop_rest [of f src r s t] hk_loop.hyps(2-4)
  show ?case by (simp add: heads_kept_def)
qed

text \<open>
  C21. With the manager as the hook of the relay, a file's room counts its editors. Start
  when the room is known by this one file id and under one \<open>WOPISrc\<close>, with a count of
  0, not closing, and with nobody in the relay's room of the file (\<open>OnJoin\<close> drops the
  joins that come before the first \<open>Observe\<close>, so with sockets inside the count would
  start too low). From then on the relay makes its calls in their order; between them, in any
  interleaving, the REST side puts, observes, resolves and notifies, with this file launched
  under this \<open>WOPISrc\<close> and nothing else under it, and the background loop, flushes and resolves take
  their steps, room updates and host calls. As long as the loop has not closed or collected
  the room, its live user count is the number of sockets in the relay's room, and it waits
  to close only while that room is empty.
\<close>

theorem manager_counts_members:
  assumes "rc_hasEvents cf" "relay_reachable cf w"
    and "hooked es0 s0 f src r (ry_events (rw_relay w)) s"
    and "attached f src r s0" "rs_liveUserCount (m_heap s0 r) = 0" "\<not> rs_closing (m_heap s0 r)"
    and "map_option (\<lambda>n. n f) (head_count es0) = Some 0"
  shows "m_byFileID s f = Some r
     \<and> rs_liveUserCount (m_heap s r) = int (length (membersOf (ry_rooms (rw_relay w)) f))
     \<and> (rs_closing (m_heap s r) \<longrightarrow> membersOf (ry_rooms (rw_relay w)) f = [])"
  using hooked_counts [OF assms(3) events_sizes [OF assms(1,2)] assms(4-7)]
  by (auto simp: sizes_def attached_def)

definition firstLaunch :: "unit sys" where
  "firstLaunch = exec (Observe \<lparr>cl_FileID = ''f1'', cl_WOPISrc = ''http://h/f1'', cl_UserID = ''u1'',
     cl_UserName = ''Ann'', cl_CanWrite = True, cl_AccessToken = ''tok'', cl_ExpiresAt = 1000\<rparr>)
     (newManager 0 False False False 10 ())"

lemmas launch_defs = firstLaunch_def newManager_def Observe_def exec_def roomLocked_run new_room_def
  index_room_def pruneTokensLocked_def newRoom_def Let_def

lemma firstLaunch_attached:
  "attached ''f1'' ''http://h/f1'' 0 firstLaunch"
  "rs_liveUserCount (m_heap firstLaunch 0) = 0" "\<not> rs_closing (m_heap firstLaunch 0)"
  by (simp_all add: launch_defs attached_def)

text \<open>The two tabs join, and after them the loop plans the room.\<close>

definition plannedRoom :: "roomEvent list \<Rightarrow> unit sys" where
  "plannedRoom es = upd_room 0 (\<lambda>rs. snd (planRoom rs second)) (fold (env_step \<circ> eventOf) es firstLaunch)"

lemma hooked_fold:
  "hooked [] s0 f src r es (fold (env_step \<circ> eventOf) es s0)"
  by (induction es rule: rev_induct) (auto intro: hk_start hk_relay)

lemma plannedRoom_hooked:
  "hooked [] firstLaunch ''f1'' ''http://h/f1'' 0 (ry_events (rw_relay twoTabs))
     (plannedRoom (ry_events (rw_relay twoTabs)))"
proof -
  let ?es = "ry_events (rw_relay twoTabs)" and ?t = "fold (env_step \<circ> eventOf) (ry_events (rw_relay twoTabs)) firstLaunch"
  have "attached ''f1'' ''http://h/f1'' 0 ?t"
    using hooked_counts [OF hooked_fold events_sizes [OF _ twoTabs_reachable] firstLaunch_attached]
    by (simp add: tabConf_def)
  then have "0 < m_next ?t" "m_byFileID ?t ''f1'' = Some 0" "map_of (m_rooms ?t) ''http://h/f1'' = Some 0"
    by (simp_all add: attached_def)
  then show ?thesis
    unfolding plannedRoom_def
    by (intro hk_loop [OF hooked_fold la_update [OF upd_plan]]) (simp_all add: upd_room_def)
qed

theorem manager_counts_members_witness:
  "rs_liveUserCount (m_heap (plannedRoom (ry_events (rw_relay twoTabs))) 0)
     = int (length (membersOf (ry_rooms (rw_relay twoTabs)) ''f1''))"
  using manager_counts_members [OF _ twoTabs_reachable plannedRoom_hooked firstLaunch_attached]
  by (simp add: tabConf_def)

end
