(* ===== verification/RelayTraffic.thy ===== *)
theory RelayTraffic
  imports RelaySyncer
begin

text \<open>
  What the relay forwards. Every \<open>client-broadcast\<close> it has put out, over any traffic,
  against the session of the socket it came from: the room, the write permission of
  the durable channel, the identity the volatile channel is rewritten with.
\<close>

section \<open>Emits and their senders\<close>

text \<open>A forwarded body has a joined sender that may send it.\<close>

definition sent_ok :: "relayConf \<Rightarrow> (string \<rightharpoonup> socketState) \<Rightarrow> target \<times> message \<Rightarrow> bool" where
  "sent_ok cf D e \<longleftrightarrow> (\<forall>p v. snd e = ClientBroadcast p v \<longrightarrow>
     (\<exists>sid st. D sid = Some st \<and> sk_roomID st \<noteq> [] \<and> broadcast_ok cf sid st e))"

definition traffic_ok :: "relayConf \<Rightarrow> relay \<Rightarrow> bool" where
  "traffic_ok cf s \<longleftrightarrow> (\<forall>e \<in> set (ry_out s). sent_ok cf (ry_data s) e)"

text \<open>A joined socket keeps its session and its room.\<close>

definition joined_kept :: "(string \<rightharpoonup> socketState) \<Rightarrow> (string \<rightharpoonup> socketState) \<Rightarrow> bool" where
  "joined_kept D D' \<longleftrightarrow>
     (\<forall>sid st. D sid = Some st \<longrightarrow> sk_roomID st \<noteq> [] \<longrightarrow> D' sid = Some st)"

lemma sent_ok_kept: "sent_ok cf D e \<Longrightarrow> joined_kept D D' \<Longrightarrow> sent_ok cf D' e"
  unfolding sent_ok_def joined_kept_def by blast

lemma sent_ok_other: "\<forall>p v. m \<noteq> ClientBroadcast p v \<Longrightarrow> sent_ok cf D (t, m)"
  by (simp add: sent_ok_def)

lemma traffic_more:
  assumes "traffic_ok cf s" "joined_kept (ry_data s) (ry_data s')"
    and "ry_out s' = ry_out s @ out" "\<And>e. e \<in> set out \<Longrightarrow> sent_ok cf (ry_data s') e"
  shows "traffic_ok cf s'"
  using assms sent_ok_kept unfolding traffic_ok_def by fastforce

lemma kept_refl [simp]: "joined_kept D D"
  by (simp add: joined_kept_def)

lemma traffic_quiet:
  assumes "traffic_ok cf s" "joined_kept (ry_data s) (ry_data s')"
    and "ry_out s' = ry_out s @ out" "\<forall>t p v. (t, ClientBroadcast p v) \<notin> set out"
  shows "traffic_ok cf s'"
proof (rule traffic_more [OF assms(1-3)])
  fix e assume e: "e \<in> set out"
  show "sent_ok cf (ry_data s') e"
    unfolding sent_ok_def
  proof (intro allI impI)
    fix p v assume "snd e = ClientBroadcast p v"
    with e have "(fst e, ClientBroadcast p v) \<in> set out" by (metis prod.collapse)
    with assms(4) show "\<exists>sid st. ry_data s' sid = Some st \<and> sk_roomID st \<noteq> [] \<and> broadcast_ok cf sid st e"
      by blast
  qed
qed

section \<open>The handlers\<close>

lemma traffic_join:
  assumes ok: "traffic_ok cf s" and inv: "mem_inv cf L (ry_rooms s) (ry_data s)"
  shows "traffic_ok cf (onJoinRoom cf sid args s)"
proof (rule onJoinRoom_cases [of cf sid args s], goal_cases)
  case 1
  have kept: "joined_kept (ry_data s) (ry_data (onJoinRoom cf sid args s))"
    by (simp only: 1(2) kept_refl)
  from 1(4) show ?case
  proof
    assume "ry_out (onJoinRoom cf sid args s) = ry_out s"
    then show ?case by (intro traffic_quiet [OF ok kept, of "[]"]) simp_all
  next
    assume "\<exists>e. ry_out (onJoinRoom cf sid args s) = ry_out s @ [(ToSocket sid, ErrorMsg e)]"
    then obtain e where "ry_out (onJoinRoom cf sid args s) = ry_out s @ [(ToSocket sid, ErrorMsg e)]" ..
    then show ?case by (rule traffic_quiet [OF ok kept]) simp
  qed
next
  case (2 roomID st)
  let ?s' = "onJoinRoom cf sid args s"
  have "st\<lparr>sk_roomID := roomID\<rparr> = st" if "sk_roomID st \<noteq> []"
    using mem_inv_socket(2) [OF inv 2(1) that] 2(2) by simp
  then have kept: "joined_kept (ry_data s) (ry_data ?s')"
    using 2(1) by (simp add: joined_kept_def 2(7))
  from 2(9) obtain out b where out: "ry_out ?s' = ry_out s @ out @ [(ToSocket sid, SyncDesignate b)]"
    "\<forall>t p v. (t, ClientBroadcast p v) \<notin> set out" by blast
  show ?case
    by (rule traffic_quiet [OF ok kept out(1)]) (use out(2) in simp)
qed

lemma traffic_leave:
  assumes ok: "traffic_ok cf s" and inv: "mem_inv cf L (ry_rooms s) (ry_data s)" and "L sid"
  shows "traffic_ok cf (onDisconnecting cf sid s)"
proof (rule onDisconnecting_cases [of s sid cf], goal_cases)
  case (1 st)
  with mem_inv_socket(3) [OF inv 1(1)] \<open>L sid\<close> inv show ?case
    by (simp add: mem_inv_def registry_ok_def)
next
  case 2
  show ?case by (simp only: 2(1) ok)
next
  case (3 st)
  have kept: "joined_kept (ry_data s) (ry_data (onDisconnecting cf sid s))"
    by (simp only: 3(4) kept_refl)
  from 3(6) obtain out where out:
    "ry_out (onDisconnecting cf sid s) = ry_out s @ out
         @ (let ms = without sid (membersOf (ry_rooms s) (sk_roomID st));
                e = electSyncer ms (syncerOf (ry_rooms s) (sk_roomID st))
            in if ms = [] \<or> \<not> fst (snd e) then []
               else (if fst (snd (snd e)) = [] then []
                     else [(ToSockets (fst (snd (snd e))), SyncDesignate True)])
                  @ (if snd (snd (snd e)) = [] then []
                     else [(ToSockets (snd (snd (snd e))), SyncDesignate False)]))"
    "\<forall>t p v. (t, ClientBroadcast p v) \<notin> set out" by blast
  show ?case
    by (rule traffic_quiet [OF ok kept out(1)]) (use out(2) in \<open>simp add: Let_def\<close>)
qed

lemma traffic_broadcast:
  assumes ok: "traffic_ok cf s"
    and t: "t = TPacket (ServerBroadcast args) \<or> t = TPacket (ServerVolatileBroadcast args)
      \<or> t = TPacket (ImageGet args)"
  shows "traffic_ok cf (handle cf sid t s)"
proof (rule broadcast_cases [OF t, of cf sid s], goal_cases)
  case 1
  with ok show ?case by simp
next
  case (2 e)
  show ?case
    by (rule traffic_quiet [OF ok, where out = "[(ToSocket sid, ErrorMsg e)]"]) (simp_all add: 2)
next
  case (3 st tg m)
  have "sent_ok cf (ry_data s) (tg, m)"
    using 3(1,4) roomIDPattern_not_Nil [OF 3(2)] unfolding sent_ok_def by blast
  then show ?case
    by (intro traffic_more [OF ok, where out = "[(tg, m)]"]) (simp_all add: 3(3))
qed

theorem traffic_invariant: "relay_reachable cf w \<Longrightarrow> traffic_ok cf (rw_relay w)"
proof (induction rule: relay_reachable.induct)
  case rw_init
  then show ?case by (simp add: traffic_ok_def newWorld_def newRelay_def)
next
  case (rw_connect w sid now auth s)
  have "ry_data (rw_relay w) sid = None"
    using queues_ok [OF rw_connect.hyps(1), of sid] rw_connect.hyps(2) by (simp add: queue_ok_def)
  then have kept: "joined_kept (ry_data (rw_relay w)) ((ry_data (rw_relay w))(sid \<mapsto> st))" for st
    by (simp add: joined_kept_def)
  from rw_connect.hyps(3) obtain st
    where s: "s = (rw_relay w)\<lparr>ry_data := (ry_data (rw_relay w))(sid \<mapsto> st)\<rparr>"
    by (auto simp: authenticate_def Let_def split: option.splits if_splits)
  have "traffic_ok cf (onConnection sid (set_connected sid True s))"
    by (rule traffic_quiet [OF rw_connect.IH, where out = "[(ToSocket sid, InitRoom)]"])
      (simp_all add: s kept onConnection_def)
  then show ?case by simp
next
  case (rw_run w sid t ts)
  note inv = members_invariant [OF rw_run.hyps(1), unfolded members_ok_def]
  have "live w sid" by (rule run_live(1) [OF queues_ok [OF rw_run.hyps(1)] rw_run.hyps(2)])
  then have "traffic_ok cf (handle cf sid t (rw_relay w))"
    using traffic_join [OF rw_run.IH inv] traffic_leave [OF rw_run.IH inv]
      traffic_broadcast [OF rw_run.IH]
    by (cases t rule: task_cases) auto
  then show ?case by simp
next
  case (rw_push w fileID event payload)
  then show ?case
    by (simp add: traffic_ok_def BroadcastToRoom_def sent_ok_other)
qed (simp_all add: traffic_ok_def)

section \<open>Properties\<close>

text \<open>
  C6. Nothing unauthorised is forwarded: over any traffic, every \<open>client-broadcast\<close>
  the relay has put out is that of a socket which is known, whose session the verifier
  gave at some time, and which has joined: its room is the file of its session (so in every
  state, also the one right after the message went out). The message goes to the other
  sockets of that room and to nobody else. It is a
  volatile body rewritten with the identity of the sender's session; or a request for an
  image that the relay has built itself; or a durable body within the size limit, of no
  identity-bearing type the guard sees, and then the sender's session may write.
\<close>

theorem traffic_is_authorised:
  assumes "relay_reachable cf w" "(t, ClientBroadcast p v) \<in> set (ry_out (rw_relay w))"
  shows "\<exists>sid st now token. ry_data (rw_relay w) sid = Some st
    \<and> sk_roomID st = ss_FileID (sk_session st) \<and> sk_roomID st \<noteq> []
    \<and> rc_verify cf now token = Some (sk_session st)
    \<and> (t = ToOthersVolatile sid (ss_FileID (sk_session st)) \<and> v = NoIv
         \<and> (\<exists>raw. rewriteVolatile (rc_renum cf) raw (sk_session st) = Some p)
     \<or> t = ToOthers sid (ss_FileID (sk_session st)) \<and> v = NoIv
         \<and> (\<exists>im. p = imageRequestBytes im)
     \<or> t = ToOthers sid (ss_FileID (sk_session st)) \<and> v \<noteq> NoIv
         \<and> ss_CanWrite (sk_session st) \<and> \<not> isIdentityBearingType p
         \<and> int (length p) \<le> rc_maxSceneBytes cf)"
proof -
  from traffic_invariant [OF assms(1)] assms(2) obtain sid st
    where st: "ry_data (rw_relay w) sid = Some st" "sk_roomID st \<noteq> []"
      and b: "broadcast_ok cf sid st (t, ClientBroadcast p v)"
    unfolding traffic_ok_def sent_ok_def by fastforce
  note inv = members_invariant [OF assms(1), unfolded members_ok_def]
  from mem_inv_socket(1,2) [OF inv st(1)] st(2) obtain now token
    where s: "rc_verify cf now token = Some (sk_session st)" "sk_roomID st = ss_FileID (sk_session st)"
    unfolding admitted_def by blast
  from b have "t = ToOthersVolatile sid (ss_FileID (sk_session st)) \<and> v = NoIv
         \<and> (\<exists>raw. rewriteVolatile (rc_renum cf) raw (sk_session st) = Some p)
     \<or> t = ToOthers sid (ss_FileID (sk_session st)) \<and> v = NoIv \<and> (\<exists>im. p = imageRequestBytes im)
     \<or> t = ToOthers sid (ss_FileID (sk_session st)) \<and> v \<noteq> NoIv
         \<and> ss_CanWrite (sk_session st) \<and> \<not> isIdentityBearingType p
         \<and> int (length p) \<le> rc_maxSceneBytes cf"
    by (cases t) (auto simp: s(2))
  with st s show ?thesis by blast
qed

text \<open>The writing tab of two sends an edit, and the other one gets it.\<close>

definition editPacket :: packet where
  "editPacket = ServerBroadcast [ArgString ''f1'', ArgBytes ''{}'']"

definition tabEdit :: relayWorld where
  "tabEdit = twoTabs\<lparr>rw_relay := handle tabConf ''s2'' (TPacket editPacket) (rw_relay twoTabs),
     rw_queue := (\<lambda>_. [])\<rparr>"

lemma twoTabs_queue: "rw_queue twoTabs = (\<lambda>_. [])" "rw_open twoTabs ''s2''"
  by (simp_all add: twoTabs_def joinTab_def newWorld_def)

lemma tabEdit_reachable: "relay_reachable tabConf tabEdit"
proof -
  let ?w = "twoTabs\<lparr>rw_queue := (rw_queue twoTabs)(''s2'' := rw_queue twoTabs ''s2'' @ [TPacket editPacket])\<rparr>"
  have r: "relay_reachable tabConf ?w"
    by (rule rw_packet [OF twoTabs_reachable twoTabs_queue(2)])
  have "relay_reachable tabConf (?w\<lparr>rw_relay := handle tabConf ''s2'' (TPacket editPacket) (rw_relay ?w),
      rw_queue := (rw_queue ?w)(''s2'' := [])\<rparr>)"
    by (rule rw_run [OF r]) (simp add: twoTabs_queue(1))
  then show ?thesis by (simp add: tabEdit_def twoTabs_queue(1) fun_upd_idem)
qed

lemma twoTabs_s2:
  "ry_data (rw_relay twoTabs) ''s2'' = Some \<lparr>sk_session = tabSession True, sk_roomID = ''f1''\<rparr>"
  by (simp add: twoTabs_def) (simp add: tab_defs Let_def)

lemma edit_plain: "\<not> isIdentityBearingType ''{}''"
proof -
  have "parse_json (print_json (JObj [])) = Some (JObj [])"
    by (subst parse_print) (simp_all add: maxNestingDepth_def)
  then show ?thesis by (simp add: isIdentityBearingType_def typeMouseLocation_def typeViewportUpdate_def)
qed

lemma tabEdit_out:
  "(ToOthers ''s2'' ''f1'', ClientBroadcast ''{}'' EmptyIv) \<in> set (ry_out (rw_relay tabEdit))"
  by (simp add: tabEdit_def editPacket_def onServerBroadcast_def roomGuard_def roomIDArg_def
      twoTabs_s2 edit_plain bytesArg_def exceedsSceneLimit_def tabConf_def tabSession_def)

theorem traffic_is_authorised_witness:
  "\<exists>st. ry_data (rw_relay tabEdit) ''s2'' = Some st \<and> ss_CanWrite (sk_session st) \<and> sk_roomID st = ''f1''"
  using traffic_is_authorised [OF tabEdit_reachable tabEdit_out] twoTabs_s2
  by (auto simp: tabSession_def)

end
