(* ===== verification/RoomWorkers.thy ===== *)
theory RoomWorkers
  imports RoomSave "HOL-Library.Multiset"
begin

text \<open>
  The goroutines of the room manager (\<open>internal/room/manager.go\<close>): the background loop
  with its wake channel and ticker, the bounded worker pools a pass and a shutdown
  flush hand the rooms to, and \<open>Shutdown\<close>. \<open>RoomSave\<close> has what a worker does with its
  room; here a worker is the life of its goroutine, so that any number of them, the
  loop and several calls of \<open>Shutdown\<close> interleave at every channel, lock and wait
  group operation.
\<close>

section \<open>A worker pool\<close>

definition evaluateWorkerCount :: nat where
  "evaluateWorkerCount = 4"

text \<open>
  A worker of a pass may close its room, once, as the last thing it does with it
  (\<open>performClose\<close>, \<open>gcRoom\<close>). Its deferred calls then run in this order: leave the
  in-flight guard, give the slot of the semaphore back, count down the wait group.
\<close>

datatype phase = Working | Closed | Left | Freed

text \<open>
  \<open>pl_todo\<close>: the rest of the snapshot the loop ranges over. \<open>pl_blocked\<close>: the room
  that has entered the guard and waits for a slot. \<open>pl_cut\<close>: the range was left early
  because the context is done.
\<close>

record pool =
  pl_todo :: "rid list"
  pl_blocked :: "rid option"
  pl_workers :: "(rid \<times> phase) list"
  pl_cut :: bool

definition newPool :: "rid list \<Rightarrow> pool" where
  "newPool rooms = \<lparr>pl_todo = rooms, pl_blocked = None, pl_workers = [], pl_cut = False\<rparr>"

definition slots :: "pool \<Rightarrow> nat" where
  "slots p = length (filter (\<lambda>w. snd w \<noteq> Freed) (pl_workers p))"

text \<open>The rooms the goroutines of a pool have in flight.\<close>

definition holders :: "pool \<Rightarrow> rid list" where
  "holders p = (case pl_blocked p of None \<Rightarrow> [] | Some r \<Rightarrow> [r])
     @ map fst (filter (\<lambda>w. snd w \<in> {Working, Closed}) (pl_workers p))"

text \<open>How many of the goroutines have just closed their room.\<close>

definition closers :: "pool \<Rightarrow> nat" where
  "closers p = length (filter (\<lambda>w. snd w = Closed) (pl_workers p))"

definition pool_finished :: "pool \<Rightarrow> bool" where
  "pool_finished p \<longleftrightarrow> pl_todo p = [] \<and> pl_blocked p = None \<and> pl_workers p = []"

text \<open>
  The steps of \<open>evaluateAll\<close> (\<open>None\<close>) and of \<open>flushAll\<close> (\<open>Some done\<close>, whether its
  context is done), with the in-flight flags of all rooms. A flush looks at its context
  before each room and skips the rooms that are clean or in conflict. It reads that in a
  critical section before the one that enters the guard, and saves and puts may come between
  the two, so a flush may skip or enter any room here: every run of the code is one of these.
\<close>

inductive pool_step ::
  "bool option \<Rightarrow> (rid \<Rightarrow> bool) \<times> pool \<Rightarrow> (rid \<Rightarrow> bool) \<times> pool \<Rightarrow> bool" for ctx where
  pp_skip: "pl_todo p = r # rest \<Longrightarrow> pl_blocked p = None \<Longrightarrow> ctx \<noteq> Some True \<Longrightarrow>
     b r \<or> ctx \<noteq> None \<Longrightarrow> pool_step ctx (b, p) (b, p\<lparr>pl_todo := rest\<rparr>)"
| pp_enter: "pl_todo p = r # rest \<Longrightarrow> pl_blocked p = None \<Longrightarrow> ctx \<noteq> Some True \<Longrightarrow> \<not> b r \<Longrightarrow>
     pool_step ctx (b, p) (b(r := True), p\<lparr>pl_todo := rest, pl_blocked := Some r\<rparr>)"
| pp_cut: "pl_todo p \<noteq> [] \<Longrightarrow> pl_blocked p = None \<Longrightarrow> ctx = Some True \<Longrightarrow>
     pool_step ctx (b, p) (b, p\<lparr>pl_todo := [], pl_cut := True\<rparr>)"
| pp_spawn: "pl_blocked p = Some r \<Longrightarrow> slots p < evaluateWorkerCount \<Longrightarrow>
     pool_step ctx (b, p)
       (b, p\<lparr>pl_blocked := None, pl_workers := pl_workers p @ [(r, Working)]\<rparr>)"
| pp_close: "ctx = None \<Longrightarrow> pl_workers p = ws @ (r, Working) # ws' \<Longrightarrow>
     pool_step ctx (b, p) (b, p\<lparr>pl_workers := ws @ (r, Closed) # ws'\<rparr>)"
| pp_exit: "pl_workers p = ws @ (r, ph) # ws' \<Longrightarrow> ph \<in> {Working, Closed} \<Longrightarrow>
     pool_step ctx (b, p) (b(r := False), p\<lparr>pl_workers := ws @ (r, Left) # ws'\<rparr>)"
| pp_free: "pl_workers p = ws @ (r, Left) # ws' \<Longrightarrow>
     pool_step ctx (b, p) (b, p\<lparr>pl_workers := ws @ (r, Freed) # ws'\<rparr>)"
| pp_gone: "pl_workers p = ws @ (r, Freed) # ws' \<Longrightarrow>
     pool_step ctx (b, p) (b, p\<lparr>pl_workers := ws @ ws'\<rparr>)"

text \<open>The flag steps are those of the manager's own guard.\<close>

lemma pool_guard:
  assumes "m_sched s = []"
  shows "run_state (tryEnterInFlight r) s =
      (if rs_inFlight (m_heap s r) then (False, s)
       else (True, upd_room r (\<lambda>rs. rs\<lparr>rs_inFlight := True\<rparr>) s))"
    and "(\<lambda>q. rs_inFlight (m_heap (upd_room r (\<lambda>rs. rs\<lparr>rs_inFlight := v\<rparr>) s) q))
      = (\<lambda>q. rs_inFlight (m_heap s q))(r := v)"
    and "exec (exitInFlight r) s = upd_room r (\<lambda>rs. rs\<lparr>rs_inFlight := False\<rparr>) s"
  using assms
  by (auto simp: tryEnterInFlight_def exitInFlight_def lock_mu_def interfere_def exec_def upd_room_def
      room_get_def room_upd_def)

section \<open>Every pool comes to its end\<close>

fun weight :: "phase \<Rightarrow> nat" where
  "weight Working = 4"
| "weight Closed = 3"
| "weight Left = 2"
| "weight Freed = 1"

definition pool_measure :: "pool \<Rightarrow> nat" where
  "pool_measure p = 6 * length (pl_todo p) + (if pl_blocked p = None then 0 else 5)
     + sum_list (map (weight \<circ> snd) (pl_workers p))"

lemma pool_step_less: "pool_step ctx (b, p) (b', p') \<Longrightarrow> pool_measure p' < pool_measure p"
  by (erule pool_step.cases) (auto simp: pool_measure_def neq_Nil_conv)

lemma pool_can_step:
  assumes "\<not> pool_finished p"
  shows "\<exists>y. pool_step ctx (b, p) y"
proof (cases "pl_workers p")
  case (Cons w ws)
  obtain r ph where w: "w = (r, ph)" by (cases w)
  have split: "pl_workers p = [] @ (r, ph) # ws" by (simp add: Cons w)
  show ?thesis
  proof (cases ph)
    case Working
    then show ?thesis using pp_exit [OF split [unfolded Working]] by blast
  next
    case Closed
    then show ?thesis using pp_exit [OF split [unfolded Closed]] by blast
  next
    case Left
    then show ?thesis using pp_free [OF split [unfolded Left]] by blast
  next
    case Freed
    then show ?thesis using pp_gone [OF split [unfolded Freed]] by blast
  qed
next
  case Nil
  then have free: "slots p < evaluateWorkerCount" by (simp add: slots_def evaluateWorkerCount_def)
  show ?thesis
  proof (cases "pl_blocked p")
    case (Some r)
    then show ?thesis using pp_spawn [OF Some free] by blast
  next
    case None
    with assms Nil obtain r rest where t: "pl_todo p = r # rest"
      by (auto simp: pool_finished_def neq_Nil_conv)
    show ?thesis
    proof (cases "ctx = Some True")
      case True
      with t None pp_cut [of p ctx b] show ?thesis by auto
    next
      case False
      then show ?thesis
        using pp_skip [OF t None False, of b] pp_enter [OF t None False, of b] by blast
    qed
  qed
qed

section \<open>The in-flight guard\<close>

text \<open>
  What a goroutine pool owes the rooms: it raises a room's flag only when it is down,
  and lowers it only for a room it holds itself.
\<close>

locale in_flight =
  fixes step :: "'c \<Rightarrow> (rid \<Rightarrow> bool) \<times> 'p \<Rightarrow> (rid \<Rightarrow> bool) \<times> 'p \<Rightarrow> bool"
    and held :: "'p \<Rightarrow> rid list"
  assumes effect: "step c (b, p) (b', p') \<Longrightarrow>
      mset (held p') = mset (held p) \<and> b' = b
    \<or> (\<exists>r. \<not> b r \<and> mset (held p') = add_mset r (mset (held p)) \<and> b' = b(r := True))
    \<or> (\<exists>r. mset (held p) = add_mset r (mset (held p')) \<and> b' = b(r := False))"

text \<open>Each room in flight is held once, by one pool, and its flag says so.\<close>

definition owned :: "('i \<Rightarrow> rid set) \<Rightarrow> (rid \<Rightarrow> bool) \<Rightarrow> bool" where
  "owned H b \<longleftrightarrow> (\<forall>i j. i \<noteq> j \<longrightarrow> H i \<inter> H j = {}) \<and> (\<forall>r. b r \<longleftrightarrow> (\<exists>i. r \<in> H i))"

definition heldBy :: "('p \<Rightarrow> rid list) \<Rightarrow> ('i \<Rightarrow> 'p option) \<Rightarrow> 'i \<Rightarrow> rid set" where
  "heldBy held P i = (case P i of None \<Rightarrow> {} | Some p \<Rightarrow> set (held p))"

definition exclusive :: "('p \<Rightarrow> rid list) \<Rightarrow> ('i \<Rightarrow> 'p option) \<Rightarrow> (rid \<Rightarrow> bool) \<Rightarrow> bool" where
  "exclusive held P b \<longleftrightarrow> owned (heldBy held P) b
     \<and> (\<forall>i p. P i = Some p \<longrightarrow> distinct (held p))"

lemma heldBy_upd [simp]:
  "heldBy held (P(i \<mapsto> p)) = (heldBy held P)(i := set (held p))"
  "heldBy held (P(i := None)) = (heldBy held P)(i := {})"
  by (rule ext, simp add: heldBy_def)+

lemma owned_insert:
  assumes "owned H b" "\<not> b r"
  shows "owned (H(i := insert r (H i))) (b(r := True))"
proof -
  have n: "r \<notin> H j" for j using assms unfolding owned_def by blast
  have "(H(i := insert r (H i))) j \<inter> (H(i := insert r (H i))) k = {}" if "j \<noteq> k" for j k
    using assms(1) n that unfolding owned_def by (cases "j = i"; cases "k = i") simp_all
  moreover have "(b(r := True)) q \<longleftrightarrow> (\<exists>j. q \<in> (H(i := insert r (H i))) j)" for q
  proof (cases "q = r")
    case False
    then have "q \<in> (H(i := insert r (H i))) j \<longleftrightarrow> q \<in> H j" for j by simp
    with False assms(1) show ?thesis unfolding owned_def by simp
  qed auto
  ultimately show ?thesis unfolding owned_def by blast
qed

lemma owned_remove:
  assumes "owned H b" "r \<in> H i"
  shows "owned (H(i := H i - {r})) (b(r := False))"
proof -
  have n: "r \<notin> H j" if "j \<noteq> i" for j using assms that unfolding owned_def by blast
  have "(H(i := H i - {r})) j \<subseteq> H j" for j by simp
  with assms(1) have "(H(i := H i - {r})) j \<inter> (H(i := H i - {r})) k = {}" if "j \<noteq> k" for j k
    using that unfolding owned_def by blast
  moreover have "(b(r := False)) q \<longleftrightarrow> (\<exists>j. q \<in> (H(i := H i - {r})) j)" for q
  proof (cases "q = r")
    case True
    with n show ?thesis by simp
  next
    case False
    then have "q \<in> (H(i := H i - {r})) j \<longleftrightarrow> q \<in> H j" for j by simp
    with False assms(1) show ?thesis unfolding owned_def by simp
  qed
  ultimately show ?thesis unfolding owned_def by blast
qed

lemma exclusive_upd:
  assumes "exclusive held P b" "owned ((heldBy held P)(i := set (held p'))) b'" "distinct (held p')"
  shows "exclusive held (P(i \<mapsto> p')) b'"
  using assms unfolding exclusive_def by simp

lemma exclusive_start:
  assumes "exclusive held P b" "P i = None" "held p = []"
  shows "exclusive held (P(i \<mapsto> p)) b"
proof -
  have "(heldBy held P)(i := set (held p)) = heldBy held P"
    by (rule fun_upd_idem) (simp add: heldBy_def assms(2,3))
  with assms(1) show ?thesis
    by (intro exclusive_upd [OF assms(1)]) (simp_all add: exclusive_def assms(3))
qed

lemma exclusive_end:
  assumes "exclusive held P b" "P i = Some p" "held p = []"
  shows "exclusive held (P(i := None)) b"
proof -
  have "(heldBy held P)(i := {}) = heldBy held P"
    by (rule fun_upd_idem) (simp add: heldBy_def assms(2,3))
  with assms(1) show ?thesis by (simp add: exclusive_def)
qed

context in_flight begin

lemma exclusive_step:
  assumes ex: "exclusive held P b" and i: "P i = Some p" and st: "step c (b, p) (b', p')"
  shows "exclusive held (P(i \<mapsto> p')) b'"
proof -
  have h: "heldBy held P i = set (held p)" by (simp add: heldBy_def i)
  have o: "owned (heldBy held P) b" and d: "distinct (held p)"
    using ex i unfolding exclusive_def by blast+
  from effect [OF st] show ?thesis
  proof (elim disjE exE conjE)
    assume m: "mset (held p') = mset (held p)" and b: "b' = b"
    have s: "set (held p') = set (held p)" by (rule mset_eq_setD [OF m])
    have "(heldBy held P)(i := set (held p')) = heldBy held P"
      by (rule fun_upd_idem) (simp add: h s)
    with o b mset_eq_imp_distinct_iff [OF m] d show ?thesis by (intro exclusive_upd [OF ex]) simp_all
  next
    fix r assume r: "\<not> b r" and m: "mset (held p') = add_mset r (mset (held p))" and b: "b' = b(r := True)"
    from m have m: "mset (held p') = mset (r # held p)" by simp
    have s: "set (held p') = insert r (heldBy held P i)" using mset_eq_setD [OF m] h by simp
    have "r \<notin> set (held p)" using o r h unfolding owned_def by blast
    with d mset_eq_imp_distinct_iff [OF m] have "distinct (held p')" by simp
    with owned_insert [OF o r, of i] show ?thesis unfolding b s [symmetric] by (intro exclusive_upd [OF ex])
  next
    fix r assume m: "mset (held p) = add_mset r (mset (held p'))" and b: "b' = b(r := False)"
    from m have m: "mset (held p) = mset (r # held p')" by simp
    from d mset_eq_imp_distinct_iff [OF m] have dr: "distinct (held p')" "r \<notin> set (held p')" by simp_all
    with mset_eq_setD [OF m] have s: "set (held p') = heldBy held P i - {r}" "r \<in> heldBy held P i"
      by (simp_all add: h)
    from owned_remove [OF o s(2)] dr(1) show ?thesis
      unfolding b s(1) [symmetric] by (intro exclusive_upd [OF ex])
  qed
qed

end

interpretation guard: in_flight pool_step holders
proof unfold_locales
  fix ctx b p b' p'
  assume "pool_step ctx (b, p) (b', p')"
  then show "mset (holders p') = mset (holders p) \<and> b' = b
    \<or> (\<exists>r. \<not> b r \<and> mset (holders p') = add_mset r (mset (holders p)) \<and> b' = b(r := True))
    \<or> (\<exists>r. mset (holders p) = add_mset r (mset (holders p')) \<and> b' = b(r := False))"
    by (cases rule: pool_step.cases) (force simp: holders_def)+
qed


section \<open>The manager's goroutines\<close>

text \<open>
  \<open>Entering\<close>: the loop has received from the wake channel or the ticker and has not
  yet taken the snapshot of the rooms. A \<open>Shutdown\<close> call waits for the loop or for
  its context, then flushes.
\<close>

datatype loopPc = Selecting | Entering | Evaluating | Finished

datatype shutPc = NotCalled | Awaiting | Flushing | Returned

text \<open>
  \<open>mc_pool None\<close> is the pool of the loop's pass, \<open>mc_pool (Some i)\<close> that of the
  i-th call of \<open>Shutdown\<close>; \<open>mc_ctx i\<close>: the context of that call is done. \<open>mc_rooms\<close>:
  the values of the room map. The wake channel and the ticker's have a buffer of one.
  \<open>mc_next\<close>: the next room to be made, as rooms are pointers and none comes back.
  \<open>mc_unseen\<close> is not in the code: the rooms of the map woken since the last snapshot.
\<close>

record machine =
  mc_rooms :: "rid list"
  mc_next :: rid
  mc_busy :: "rid \<Rightarrow> bool"
  mc_token :: bool
  mc_tick :: bool
  mc_stop :: bool
  mc_loop :: loopPc
  mc_shut :: "nat \<Rightarrow> shutPc"
  mc_ctx :: "nat \<Rightarrow> bool"
  mc_pool :: "nat option \<Rightarrow> pool option"
  mc_unseen :: "rid set"

text \<open>After \<open>Start\<close>.\<close>

definition started :: machine where
  "started = \<lparr>mc_rooms = [], mc_next = 0, mc_busy = (\<lambda>_. False), mc_token = False, mc_tick = False,
     mc_stop = False, mc_loop = Selecting, mc_shut = (\<lambda>_. NotCalled), mc_ctx = (\<lambda>_. False),
     mc_pool = (\<lambda>_. None), mc_unseen = {}\<rparr>"

text \<open>
  What a step of a pass does to the room map: a worker that closes its room deletes the keys
  the room knows (\<open>deleteRoomLocked\<close>), some of which may lead to a newer room by then.
\<close>

definition map_after :: "pool \<Rightarrow> pool \<Rightarrow> rid list \<Rightarrow> rid list \<Rightarrow> bool" where
  "map_after p p' rooms rooms' \<longleftrightarrow>
     (if closers p < closers p' then mset rooms' \<subseteq># mset rooms else rooms' = rooms)"

text \<open>\<open>loop\<close>: the \<open>select\<close> takes any case that is ready, and a pass ranges over the map in any order.\<close>

inductive loop_step :: "machine \<Rightarrow> machine \<Rightarrow> bool" where
  ls_stop: "mc_loop m = Selecting \<Longrightarrow> mc_stop m \<Longrightarrow> loop_step m (m\<lparr>mc_loop := Finished\<rparr>)"
| ls_wake: "mc_loop m = Selecting \<Longrightarrow> mc_token m \<Longrightarrow>
     loop_step m (m\<lparr>mc_loop := Entering, mc_token := False\<rparr>)"
| ls_tick: "mc_loop m = Selecting \<Longrightarrow> mc_tick m \<Longrightarrow>
     loop_step m (m\<lparr>mc_loop := Entering, mc_tick := False\<rparr>)"
| ls_enter: "mc_loop m = Entering \<Longrightarrow> mset rs = mset (mc_rooms m) \<Longrightarrow>
     loop_step m (m\<lparr>mc_loop := Evaluating, mc_pool := (mc_pool m)(None \<mapsto> newPool rs),
       mc_unseen := {}\<rparr>)"
| ls_pass: "mc_loop m = Evaluating \<Longrightarrow> mc_pool m None = Some p \<Longrightarrow>
     pool_step None (mc_busy m, p) (b', p') \<Longrightarrow> map_after p p' (mc_rooms m) rooms' \<Longrightarrow>
     loop_step m (m\<lparr>mc_busy := b', mc_pool := (mc_pool m)(None \<mapsto> p'), mc_rooms := rooms',
       mc_unseen := mc_unseen m \<inter> set rooms'\<rparr>)"
| ls_end: "mc_loop m = Evaluating \<Longrightarrow> mc_pool m None = Some p \<Longrightarrow> pool_finished p \<Longrightarrow>
     loop_step m (m\<lparr>mc_loop := Selecting, mc_pool := (mc_pool m)(None := None)\<rparr>)"

text \<open>\<open>Shutdown\<close>, call \<open>i\<close>.\<close>

inductive shutdown_step :: "nat \<Rightarrow> machine \<Rightarrow> machine \<Rightarrow> bool" for i where
  sd_call: "mc_shut m i = NotCalled \<Longrightarrow>
     shutdown_step i m (m\<lparr>mc_stop := True, mc_shut := (mc_shut m)(i := Awaiting)\<rparr>)"
| sd_flush: "mc_shut m i = Awaiting \<Longrightarrow> mc_loop m = Finished \<or> mc_ctx m i \<Longrightarrow>
     mset rs = mset (mc_rooms m) \<Longrightarrow>
     shutdown_step i m (m\<lparr>mc_shut := (mc_shut m)(i := Flushing),
       mc_pool := (mc_pool m)(Some i \<mapsto> newPool rs)\<rparr>)"
| sd_save: "mc_shut m i = Flushing \<Longrightarrow> mc_pool m (Some i) = Some p \<Longrightarrow>
     pool_step (Some (mc_ctx m i)) (mc_busy m, p) (b', p') \<Longrightarrow>
     shutdown_step i m (m\<lparr>mc_busy := b', mc_pool := (mc_pool m)(Some i \<mapsto> p')\<rparr>)"
| sd_end: "mc_shut m i = Flushing \<Longrightarrow> mc_pool m (Some i) = Some p \<Longrightarrow> pool_finished p \<Longrightarrow>
     shutdown_step i m (m\<lparr>mc_shut := (mc_shut m)(i := Returned),
       mc_pool := (mc_pool m)(Some i := None)\<rparr>)"

text \<open>
  The rest of the program: the map gets a new room or another key for one (in \<open>PutScene\<close> and
  \<open>Observe\<close>, under the mutex), some room is woken (\<open>wake\<close>, after the mutex was given up, so
  that the room may have gone by then), the ticker fires, a context ends.
\<close>

inductive other_step :: "machine \<Rightarrow> machine \<Rightarrow> bool" where
  os_room: "other_step m (m\<lparr>mc_rooms := mc_rooms m @ [mc_next m], mc_next := Suc (mc_next m)\<rparr>)"
| os_alias: "r \<in> set (mc_rooms m) \<Longrightarrow> other_step m (m\<lparr>mc_rooms := mc_rooms m @ [r]\<rparr>)"
| os_wake: "other_step m (m\<lparr>mc_token := True,
       mc_unseen := (if r \<in> set (mc_rooms m) then insert r (mc_unseen m) else mc_unseen m)\<rparr>)"
| os_tick: "other_step m (m\<lparr>mc_tick := True\<rparr>)"
| os_done: "other_step m (m\<lparr>mc_ctx := (mc_ctx m)(i := True)\<rparr>)"

inductive machine_reachable :: "machine \<Rightarrow> bool" where
  mr_start: "machine_reachable started"
| mr_loop: "machine_reachable m \<Longrightarrow> loop_step m m' \<Longrightarrow> machine_reachable m'"
| mr_shutdown: "machine_reachable m \<Longrightarrow> shutdown_step i m m' \<Longrightarrow> machine_reachable m'"
| mr_other: "machine_reachable m \<Longrightarrow> other_step m m' \<Longrightarrow> machine_reachable m'"

section \<open>Invariants\<close>

text \<open>Who has a pool, how many slots it has given out, and what a wake has left behind.\<close>

definition pcs_ok :: "machine \<Rightarrow> bool" where
  "pcs_ok m \<longleftrightarrow> (mc_pool m None \<noteq> None \<longleftrightarrow> mc_loop m = Evaluating)
     \<and> (\<forall>i. mc_pool m (Some i) \<noteq> None \<longleftrightarrow> mc_shut m i = Flushing)
     \<and> (\<forall>i p. mc_pool m i = Some p \<longrightarrow> slots p \<le> evaluateWorkerCount)"

definition stops_ok :: "machine \<Rightarrow> bool" where
  "stops_ok m \<longleftrightarrow> (mc_loop m = Finished \<longrightarrow> mc_stop m)
     \<and> (\<forall>i. mc_shut m i \<in> {Flushing, Returned} \<longrightarrow> mc_loop m = Finished \<or> mc_ctx m i)"

definition wakes_ok :: "machine \<Rightarrow> bool" where
  "wakes_ok m \<longleftrightarrow> mc_unseen m \<subseteq> set (mc_rooms m)
     \<and> (mc_unseen m \<noteq> {} \<longrightarrow> mc_token m \<or> mc_loop m \<in> {Entering, Finished})"

lemma slots_step:
  "pool_step ctx (b, p) (b', p') \<Longrightarrow> slots p \<le> evaluateWorkerCount \<Longrightarrow> slots p' \<le> evaluateWorkerCount"
  by (erule pool_step.cases) (auto simp: slots_def)

lemma new_pool [simp]: "holders (newPool rs) = []" "slots (newPool rs) = 0"
  by (simp_all add: newPool_def holders_def slots_def)

lemma finished_holders [simp]: "pool_finished p \<Longrightarrow> holders p = []"
  by (simp add: pool_finished_def holders_def)

lemma pcs_invariant: "machine_reachable m \<Longrightarrow> pcs_ok m"
proof (induction rule: machine_reachable.induct)
  case mr_start
  show ?case by (simp add: pcs_ok_def started_def)
next
  case (mr_loop m m')
  from mr_loop(2) mr_loop.IH show ?case
    by (cases rule: loop_step.cases) (auto simp: pcs_ok_def intro: slots_step)
next
  case (mr_shutdown m i m')
  from mr_shutdown(2) mr_shutdown.IH show ?case
    by (cases rule: shutdown_step.cases) (auto simp: pcs_ok_def intro: slots_step)
next
  case (mr_other m m')
  from mr_other(2) mr_other.IH show ?case by (cases rule: other_step.cases) (auto simp: pcs_ok_def)
qed

lemma pcs_none:
  assumes "pcs_ok m"
  shows "mc_loop m \<noteq> Evaluating \<Longrightarrow> mc_pool m None = None"
    and "mc_shut m i \<noteq> Flushing \<Longrightarrow> mc_pool m (Some i) = None"
  using assms unfolding pcs_ok_def by (metis, metis)

lemma guard_invariant: "machine_reachable m \<Longrightarrow> exclusive holders (mc_pool m) (mc_busy m)"
proof (induction rule: machine_reachable.induct)
  case mr_start
  show ?case by (simp add: exclusive_def owned_def heldBy_def started_def)
next
  case (mr_loop m m')
  from mr_loop(2) mr_loop.IH pcs_none [OF pcs_invariant [OF mr_loop(1)]] show ?case
    by (cases rule: loop_step.cases)
      (auto simp del: fun_upd_apply intro: exclusive_start exclusive_end guard.exclusive_step)
next
  case (mr_shutdown m i m')
  from mr_shutdown(2) mr_shutdown.IH pcs_none [OF pcs_invariant [OF mr_shutdown(1)]] show ?case
    by (cases rule: shutdown_step.cases)
      (auto simp del: fun_upd_apply intro: exclusive_start exclusive_end guard.exclusive_step)
next
  case (mr_other m m')
  from mr_other(2) mr_other.IH show ?case by (cases rule: other_step.cases) simp_all
qed

lemma stops_invariant: "machine_reachable m \<Longrightarrow> stops_ok m"
proof (induction rule: machine_reachable.induct)
  case mr_start
  show ?case by (simp add: stops_ok_def started_def)
next
  case (mr_loop m m')
  from mr_loop(2) mr_loop.IH show ?case by (cases rule: loop_step.cases) (auto simp: stops_ok_def)
next
  case (mr_shutdown m i m')
  from mr_shutdown(2) mr_shutdown.IH show ?case
    by (cases rule: shutdown_step.cases) (auto simp: stops_ok_def)
next
  case (mr_other m m')
  from mr_other(2) mr_other.IH show ?case by (cases rule: other_step.cases) (auto simp: stops_ok_def)
qed

lemma wakes_invariant: "machine_reachable m \<Longrightarrow> wakes_ok m"
proof (induction rule: machine_reachable.induct)
  case mr_start
  show ?case by (simp add: wakes_ok_def started_def)
next
  case (mr_loop m m')
  from mr_loop(2) mr_loop.IH show ?case by (cases rule: loop_step.cases) (auto simp: wakes_ok_def)
next
  case (mr_shutdown m i m')
  from mr_shutdown(2) mr_shutdown.IH show ?case
    by (cases rule: shutdown_step.cases) (auto simp: wakes_ok_def)
next
  case (mr_other m m')
  from mr_other(2) mr_other.IH show ?case by (cases rule: other_step.cases) (auto simp: wakes_ok_def)
qed


section \<open>Properties\<close>

text \<open>
  C7. A room has one worker: however the background pass, its workers and any number
  of \<open>Shutdown\<close> calls interleave, no two goroutines work on a room at the same time,
  within a pool or across pools, a pool never runs more than four, and a room's
  in-flight flag is up exactly while one of them holds it.
\<close>

theorem one_worker_per_room:
  assumes "machine_reachable m"
  shows "(\<forall>i p. mc_pool m i = Some p \<longrightarrow> distinct (holders p) \<and> slots p \<le> 4)
    \<and> (\<forall>i j p q r. mc_pool m i = Some p \<longrightarrow> mc_pool m j = Some q
         \<longrightarrow> r \<in> set (holders p) \<longrightarrow> r \<in> set (holders q) \<longrightarrow> i = j)
    \<and> (\<forall>r. mc_busy m r \<longleftrightarrow> (\<exists>i p. mc_pool m i = Some p \<and> r \<in> set (holders p)))"
proof -
  have ex: "owned (heldBy holders (mc_pool m)) (mc_busy m)"
    "\<forall>i p. mc_pool m i = Some p \<longrightarrow> distinct (holders p)"
    using guard_invariant [OF assms] unfolding exclusive_def by blast+
  have h: "r \<in> heldBy holders (mc_pool m) i \<longleftrightarrow> (\<exists>p. mc_pool m i = Some p \<and> r \<in> set (holders p))" for i r
    by (simp add: heldBy_def split: option.split)
  have "i = j" if "mc_pool m i = Some p" "mc_pool m j = Some q" "r \<in> set (holders p)" "r \<in> set (holders q)"
    for i j p q r
    using ex(1) h [of r i] h [of r j] that unfolding owned_def by blast
  moreover have "mc_busy m r \<longleftrightarrow> (\<exists>i p. mc_pool m i = Some p \<and> r \<in> set (holders p))" for r
    using ex(1) h [of r] unfolding owned_def by simp
  moreover have "slots p \<le> 4" if "mc_pool m i = Some p" for i p
    using pcs_invariant [OF assms] that unfolding pcs_ok_def evaluateWorkerCount_def by blast
  ultimately show ?thesis using ex(2) by blast
qed

text \<open>
  C27. A pass cannot hang in its own plumbing: every run of a worker pool is finite, of
  a pass as of a flush, and it stops nowhere but at the end, where the snapshot is
  worked off, no room waits for a slot and no goroutine is left. The semaphore, the
  wait group and the in-flight guard cannot deadlock.
\<close>

theorem pool_always_finishes:
  "wfp ((pool_step ctx)\<inverse>\<inverse>) \<and> ((\<nexists>y. pool_step ctx (b, p) y) \<longleftrightarrow> pool_finished p)"
proof
  show "wfp ((pool_step ctx)\<inverse>\<inverse>)"
  proof (rule wfp_if_convertible_to_nat [where f = "\<lambda>x. pool_measure (snd x)"])
    fix x y assume "(pool_step ctx)\<inverse>\<inverse> x y"
    then show "pool_measure (snd x) < pool_measure (snd y)"
      by (cases x; cases y) (simp add: pool_step_less)
  qed
  have "\<not> pool_step ctx (b, p) y" if "pool_finished p" for y
    using that by (auto simp: pool_finished_def elim: pool_step.cases)
  then show "(\<nexists>y. pool_step ctx (b, p) y) \<longleftrightarrow> pool_finished p"
    using pool_can_step by blast
qed

text \<open>
  What is left for the loop to do before its next snapshot, whatever else runs in between.
\<close>

definition loop_rank :: "machine \<Rightarrow> nat" where
  "loop_rank m =
     (case mc_loop m of
        Entering \<Rightarrow> 1
      | Selecting \<Rightarrow> 2
      | Evaluating \<Rightarrow> 3 + (case mc_pool m None of None \<Rightarrow> 0 | Some p \<Rightarrow> pool_measure p)
      | Finished \<Rightarrow> 0)"

text \<open>
  A run on which room \<open>r\<close> stays woken and in the map and no snapshot is taken, with \<open>n\<close> steps
  of the loop and any number of others; nobody has called \<open>Shutdown\<close>.
\<close>

inductive waiting :: "rid \<Rightarrow> machine \<Rightarrow> nat \<Rightarrow> machine \<Rightarrow> bool" for r m where
  wt_woken: "r \<in> mc_unseen m \<Longrightarrow> \<not> mc_stop m \<Longrightarrow> waiting r m 0 m"
| wt_loop: "waiting r m n m1 \<Longrightarrow> loop_step m1 m2 \<Longrightarrow> r \<in> mc_unseen m2 \<Longrightarrow> waiting r m (Suc n) m2"
| wt_other: "waiting r m n m1 \<Longrightarrow> other_step m1 m2 \<Longrightarrow> waiting r m n m2"

lemma other_keeps:
  assumes "other_step m m'"
  shows "mc_unseen m \<subseteq> mc_unseen m'" "mc_stop m' = mc_stop m" "loop_rank m' = loop_rank m"
proof -
  from assms have "mc_unseen m \<subseteq> mc_unseen m' \<and> mc_stop m' = mc_stop m \<and> mc_loop m' = mc_loop m
      \<and> mc_pool m' = mc_pool m"
    by (cases rule: other_step.cases) auto
  then show "mc_unseen m \<subseteq> mc_unseen m'" "mc_stop m' = mc_stop m" "loop_rank m' = loop_rank m"
    by (simp_all add: loop_rank_def split: loopPc.split)
qed

lemma loop_ranks:
  assumes "loop_step m m'" "r \<in> mc_unseen m'" "\<not> mc_stop m"
  shows "loop_rank m' < loop_rank m \<and> mc_stop m' = mc_stop m"
  using assms(1)
proof (cases rule: loop_step.cases)
  case ls_stop
  with assms(3) show ?thesis by simp
next
  case (ls_enter rs)
  with assms(2) show ?thesis by simp
next
  case (ls_pass p b' p' rooms')
  with pool_step_less [OF ls_pass(4)] show ?thesis by (simp add: loop_rank_def)
qed (simp_all add: loop_rank_def)

lemma waiting_run:
  assumes "waiting r m n m'" "machine_reachable m"
  shows "machine_reachable m' \<and> r \<in> mc_unseen m' \<and> \<not> mc_stop m' \<and> n + loop_rank m' \<le> loop_rank m"
  using assms(1)
proof (induction rule: waiting.induct)
  case wt_woken
  then show ?case using assms(2) by simp
next
  case (wt_loop n m1 m2)
  then have IH: "machine_reachable m1" "\<not> mc_stop m1" "n + loop_rank m1 \<le> loop_rank m" by blast+
  from loop_ranks [OF wt_loop(2,3) IH(2)] mr_loop [OF IH(1) wt_loop(2)] IH(2,3) wt_loop(3)
  show ?case by simp
next
  case (wt_other n m1 m2)
  with other_keeps [OF wt_other(2)] show ?case by (auto intro: mr_other)
qed

lemma loop_goes_on:
  assumes "machine_reachable m" "r \<in> mc_unseen m" "\<not> mc_stop m"
  shows "\<exists>m'. loop_step m m'" "0 < loop_rank m"
proof -
  have t: "mc_token m \<or> mc_loop m = Entering" and l: "mc_loop m \<noteq> Finished"
    using wakes_invariant [OF assms(1)] stops_invariant [OF assms(1)] assms(2,3)
    by (auto simp: wakes_ok_def stops_ok_def)
  show "\<exists>m'. loop_step m m'"
  proof (cases "mc_loop m")
    case Selecting
    with t show ?thesis by (auto intro: ls_wake)
  next
    case Entering
    then show ?thesis by (auto intro: ls_enter)
  next
    case Evaluating
    then obtain p where p: "mc_pool m None = Some p"
      using pcs_invariant [OF assms(1)] unfolding pcs_ok_def by auto
    show ?thesis
    proof (cases "pool_finished p")
      case True
      with Evaluating p show ?thesis by (auto intro: ls_end)
    next
      case False
      then obtain b' p' where s: "pool_step None (mc_busy m, p) (b', p')" using pool_can_step by fastforce
      have "map_after p p' (mc_rooms m) (mc_rooms m)" by (simp add: map_after_def)
      with Evaluating p s show ?thesis by (blast intro: ls_pass)
    qed
  qed (use l in simp)
  show "0 < loop_rank m" using l by (simp add: loop_rank_def split: loopPc.split)
qed

text \<open>
  C13. No wake is lost. Once a room of the map has been woken (as after a scene was put), and
  however often the full wake channel swallows a signal, whatever the pools, the ticker and
  the other goroutines do in between: as long as nobody has called \<open>Shutdown\<close>, the loop always
  has a next step; fewer than \<open>loop_rank m\<close> of its steps go by before it takes a snapshot
  of the map or the room leaves the map; the room is in that snapshot; and the only thing
  that takes it out of the map before is a worker of the pass under way that closes a room
  (itself, or an older one that knew the same key).
\<close>

theorem woken_room_gets_a_pass:
  assumes "machine_reachable m" "waiting r m n m'"
  shows "n < loop_rank m \<and> (\<exists>m''. loop_step m' m'')
    \<and> (\<forall>m''. loop_step m' m'' \<longrightarrow> r \<in> mc_unseen m''
         \<or> (\<exists>p. mc_loop m' = Entering \<and> mc_pool m'' None = Some p \<and> r \<in> set (pl_todo p))
         \<or> (\<exists>p p'. mc_pool m' None = Some p \<and> mc_pool m'' None = Some p' \<and> closers p < closers p'
              \<and> r \<in> set (mc_rooms m') \<and> r \<notin> set (mc_rooms m'')))
    \<and> (\<forall>m''. other_step m' m'' \<longrightarrow> r \<in> mc_unseen m'')"
proof -
  note w = waiting_run [OF assms(2,1)]
  then have u: "machine_reachable m'" "r \<in> mc_unseen m'" "\<not> mc_stop m'" by blast+
  have rooms: "r \<in> set (mc_rooms m')"
    using wakes_invariant [OF u(1)] u(2) by (auto simp: wakes_ok_def)
  have "r \<in> mc_unseen m''
         \<or> (\<exists>p. mc_loop m' = Entering \<and> mc_pool m'' None = Some p \<and> r \<in> set (pl_todo p))
         \<or> (\<exists>p p'. mc_pool m' None = Some p \<and> mc_pool m'' None = Some p' \<and> closers p < closers p'
              \<and> r \<in> set (mc_rooms m') \<and> r \<notin> set (mc_rooms m''))"
    if "loop_step m' m''" for m''
    using that
  proof (cases rule: loop_step.cases)
    case (ls_enter rs)
    with rooms mset_eq_setD [OF ls_enter(3)] show ?thesis by (simp add: newPool_def)
  next
    case (ls_pass p b' p' rooms')
    with rooms u(2) show ?thesis by (auto simp: map_after_def split: if_splits)
  qed (use u(2) in auto)
  then show ?thesis using w loop_goes_on [OF u] other_keeps(1) u(2) by fastforce
qed

text \<open>
  A flush has the rooms to itself: once a \<open>Shutdown\<close> call flushes, or has returned,
  while its context is still alive, the background loop has ended, has no pass under
  way and never starts one again; any room in flight is one of a \<open>Shutdown\<close> call's.
\<close>

theorem flush_runs_alone:
  assumes "machine_reachable m" "mc_shut m i \<in> {Flushing, Returned}" "\<not> mc_ctx m i"
  shows "mc_loop m = Finished \<and> (\<nexists>m'. loop_step m m')
    \<and> (\<forall>r. mc_busy m r \<longrightarrow> (\<exists>j p. mc_pool m (Some j) = Some p \<and> r \<in> set (holders p)))"
proof -
  have f: "mc_loop m = Finished"
    using stops_invariant [OF assms(1)] assms(2,3) unfolding stops_ok_def by blast
  then have n: "mc_pool m None = None" using pcs_invariant [OF assms(1)] by (simp add: pcs_ok_def)
  have "\<exists>j p. mc_pool m (Some j) = Some p \<and> r \<in> set (holders p)" if busy: "mc_busy m r" for r
  proof -
    from guard_invariant [OF assms(1)] busy obtain i where "r \<in> heldBy holders (mc_pool m) i"
      unfolding exclusive_def owned_def by blast
    with n show ?thesis by (cases i) (auto simp: heldBy_def split: option.splits)
  qed
  moreover have "\<not> loop_step m m'" for m' using f by (auto elim: loop_step.cases)
  ultimately show ?thesis using f by blast
qed

section \<open>A shutdown in the middle of a pass\<close>

text \<open>
  A room is made and woken, a pass takes it up, \<open>Shutdown\<close> is called and its context ends, so that
  it starts its flush beside the pass; the guard holds the flush off the room.
\<close>

definition wokenOne :: machine where
  "wokenOne = started\<lparr>mc_rooms := [0], mc_next := 1, mc_token := True, mc_unseen := {0}\<rparr>"

definition passingOne :: machine where
  "passingOne = wokenOne\<lparr>mc_loop := Evaluating, mc_token := False, mc_unseen := {},
     mc_busy := (\<lambda>_. False)(0 := True),
     mc_pool := (\<lambda>_. None)(None \<mapsto> (newPool [])\<lparr>pl_blocked := Some 0\<rparr>)\<rparr>"

definition flushingOne :: machine where
  "flushingOne = passingOne\<lparr>mc_stop := True, mc_shut := (\<lambda>_. NotCalled)(0 := Flushing),
     mc_ctx := (\<lambda>_. False)(0 := True),
     mc_pool := (mc_pool passingOne)(Some 0 \<mapsto> newPool [0])\<rparr>"

lemma wokenOne_reachable: "machine_reachable wokenOne"
proof -
  let ?m1 = "started\<lparr>mc_rooms := mc_rooms started @ [mc_next started], mc_next := Suc (mc_next started)\<rparr>"
  have "machine_reachable ?m1" by (rule mr_other [OF mr_start os_room])
  from mr_other [OF this os_wake [where r = 0]] show ?thesis by (simp add: wokenOne_def started_def)
qed

lemma passingOne_reachable: "machine_reachable passingOne"
proof -
  let ?m1 = "wokenOne\<lparr>mc_loop := Entering, mc_token := False\<rparr>"
  let ?m2 = "?m1\<lparr>mc_loop := Evaluating, mc_pool := (mc_pool ?m1)(None \<mapsto> newPool [0]), mc_unseen := {}\<rparr>"
  have r1: "machine_reachable ?m1"
    by (rule mr_loop [OF wokenOne_reachable ls_wake]) (simp_all add: wokenOne_def started_def)
  have r2: "machine_reachable ?m2"
    by (rule mr_loop [OF r1 ls_enter]) (simp_all add: wokenOne_def started_def)
  have p: "pool_step None (mc_busy ?m2, newPool [0])
      ((mc_busy ?m2)(0 := True), (newPool [0])\<lparr>pl_todo := [], pl_blocked := Some 0\<rparr>)"
    by (rule pp_enter) (simp_all add: newPool_def wokenOne_def started_def)
  let ?p = "(newPool [0])\<lparr>pl_todo := [], pl_blocked := Some 0\<rparr>"
  have "machine_reachable (?m2\<lparr>mc_busy := (mc_busy ?m2)(0 := True), mc_pool := (mc_pool ?m2)(None \<mapsto> ?p),
      mc_rooms := mc_rooms ?m2, mc_unseen := mc_unseen ?m2 \<inter> set (mc_rooms ?m2)\<rparr>)"
    by (rule mr_loop [OF r2 ls_pass [OF _ _ p]]) (simp_all add: map_after_def closers_def newPool_def)
  then show ?thesis by (simp add: passingOne_def wokenOne_def started_def newPool_def)
qed

lemma flushingOne_reachable: "machine_reachable flushingOne"
proof -
  let ?m1 = "passingOne\<lparr>mc_stop := True, mc_shut := (mc_shut passingOne)(0 := Awaiting)\<rparr>"
  let ?m2 = "?m1\<lparr>mc_ctx := (mc_ctx ?m1)(0 := True)\<rparr>"
  have r1: "machine_reachable ?m1"
    by (rule mr_shutdown [OF passingOne_reachable sd_call]) (simp add: passingOne_def wokenOne_def started_def)
  have r2: "machine_reachable ?m2" by (rule mr_other [OF r1 os_done])
  have "machine_reachable (?m2\<lparr>mc_shut := (mc_shut ?m2)(0 := Flushing),
      mc_pool := (mc_pool ?m2)(Some 0 \<mapsto> newPool [0])\<rparr>)"
    by (rule mr_shutdown [OF r2 sd_flush]) (simp_all add: passingOne_def wokenOne_def started_def)
  then show ?thesis by (simp add: flushingOne_def passingOne_def wokenOne_def started_def)
qed

theorem one_worker_per_room_witness:
  "\<exists>i p. mc_pool flushingOne i = Some p \<and> 0 \<in> set (holders p)"
proof -
  have "mc_busy flushingOne 0" by (simp add: flushingOne_def passingOne_def)
  with one_worker_per_room [OF flushingOne_reachable] show ?thesis by blast
qed

text \<open>After the loop has received the wake, its next step is a snapshot with the room.\<close>

theorem woken_room_gets_a_pass_witness:
  "\<exists>m' m'' p. waiting 0 wokenOne 1 m' \<and> loop_step m' m'' \<and> mc_pool m'' None = Some p \<and> 0 \<in> set (pl_todo p)"
proof -
  let ?m1 = "wokenOne\<lparr>mc_loop := Entering, mc_token := False\<rparr>"
  have "waiting 0 wokenOne 0 wokenOne" by (rule wt_woken) (simp_all add: wokenOne_def started_def)
  moreover have "loop_step wokenOne ?m1" by (rule ls_wake) (simp_all add: wokenOne_def started_def)
  ultimately have "waiting 0 wokenOne (Suc 0) ?m1" by (rule wt_loop) (simp add: wokenOne_def)
  then have w: "waiting 0 wokenOne 1 ?m1" by simp
  note th = woken_room_gets_a_pass [OF wokenOne_reachable w]
  then obtain m'' where m: "loop_step ?m1 m''" by blast
  have "mc_unseen m'' = {}" using m by cases (simp_all add: wokenOne_def started_def)
  moreover have "mc_pool ?m1 None = None" by (simp add: wokenOne_def started_def)
  ultimately show ?thesis using th m w by (metis empty_iff option.distinct(1))
qed

text \<open>A quiet shutdown.\<close>

definition quietFlush :: machine where
  "quietFlush = started\<lparr>mc_stop := True, mc_loop := Finished,
     mc_shut := (\<lambda>_. NotCalled)(0 := Flushing), mc_pool := (\<lambda>_. None)(Some 0 \<mapsto> newPool [])\<rparr>"

lemma quietFlush_reachable: "machine_reachable quietFlush"
proof -
  let ?m1 = "started\<lparr>mc_stop := True, mc_shut := (mc_shut started)(0 := Awaiting)\<rparr>"
  let ?m2 = "?m1\<lparr>mc_loop := Finished\<rparr>"
  have r1: "machine_reachable ?m1"
    by (rule mr_shutdown [OF mr_start sd_call]) (simp add: started_def)
  have r2: "machine_reachable ?m2" by (rule mr_loop [OF r1 ls_stop]) (simp_all add: started_def)
  have "machine_reachable (?m2\<lparr>mc_shut := (mc_shut ?m2)(0 := Flushing),
      mc_pool := (mc_pool ?m2)(Some 0 \<mapsto> newPool [])\<rparr>)"
    by (rule mr_shutdown [OF r2 sd_flush]) (simp_all add: started_def)
  then show ?thesis by (simp add: quietFlush_def started_def)
qed

theorem flush_runs_alone_witness:
  "mc_loop quietFlush = Finished \<and> (\<nexists>m'. loop_step quietFlush m')"
  using flush_runs_alone [OF quietFlush_reachable, of 0] by (simp add: quietFlush_def started_def)

end
