(* ===== verification/EmitLocks.thy ===== *)
theory EmitLocks
  imports Main
begin

text \<open>
  \<open>internal/relay/emitlocks.go\<close>: the per-room mutexes with a reference count, step by
  step. Each of \<open>lock\<close> and \<open>Unlock\<close> is two atomic parts: one under the table's mutex
  and one on the room's own mutex, and the steps of any number of goroutines interleave.
\<close>

section \<open>State\<close>

type_synonym entry = nat
type_synonym goroutine = nat

text \<open>Where a goroutine is: between calls, inside \<open>lock\<close>, with the lock, inside \<open>Unlock\<close>.\<close>

datatype phase =
    Idle
  | Awaits string entry
  | Holds string entry
  | Releases string entry

text \<open>
  The table, the counts, and who has locked each entry's mutex; entries are addresses.
\<close>

record roomEmitLocks =
  el_locks :: "string \<rightharpoonup> entry"
  el_refs :: "entry \<Rightarrow> int"
  el_mu :: "entry \<Rightarrow> goroutine option"
  el_next :: entry

definition newRoomEmitLocks :: roomEmitLocks where
  "newRoomEmitLocks = \<lparr>el_locks = Map.empty, el_refs = (\<lambda>_. 0), el_mu = (\<lambda>_. None), el_next = 0\<rparr>"

section \<open>The four atomic parts\<close>

text \<open>\<open>lock\<close>, under the table's mutex: find or make the room's entry and count this caller.\<close>

definition lockEntry :: "string \<Rightarrow> roomEmitLocks \<Rightarrow> entry \<times> roomEmitLocks" where
  "lockEntry roomID s =
     (let (l, s1) = (case el_locks s roomID of
            Some l \<Rightarrow> (l, s)
          | None \<Rightarrow> (el_next s, s\<lparr>el_locks := (el_locks s)(roomID \<mapsto> el_next s),
                                  el_refs := (el_refs s)(el_next s := 0), el_next := Suc (el_next s)\<rparr>))
      in (l, s1\<lparr>el_refs := (el_refs s1)(l := el_refs s1 l + 1)\<rparr>))"

text \<open>\<open>l.mu.Lock()\<close>: possible only while nobody has it.\<close>

definition acquire :: "goroutine \<Rightarrow> entry \<Rightarrow> roomEmitLocks \<Rightarrow> roomEmitLocks option" where
  "acquire t l s =
     (case el_mu s l of None \<Rightarrow> Some (s\<lparr>el_mu := (el_mu s)(l \<mapsto> t)\<rparr>) | Some _ \<Rightarrow> None)"

text \<open>\<open>Unlock\<close>, under the table's mutex.\<close>

definition unlockEntry :: "string \<Rightarrow> entry \<Rightarrow> roomEmitLocks \<Rightarrow> roomEmitLocks" where
  "unlockEntry roomID l s =
     (let s1 = s\<lparr>el_refs := (el_refs s)(l := el_refs s l - 1)\<rparr>
      in if el_refs s1 l = 0 \<and> el_locks s1 roomID = Some l
         then s1\<lparr>el_locks := (el_locks s1)(roomID := None)\<rparr> else s1)"

definition release :: "entry \<Rightarrow> roomEmitLocks \<Rightarrow> roomEmitLocks" where
  "release l s = s\<lparr>el_mu := (el_mu s)(l := None)\<rparr>"

section \<open>Runs\<close>

inductive emit_run :: "roomEmitLocks \<Rightarrow> (goroutine \<Rightarrow> phase) \<Rightarrow> bool" where
  er_init: "emit_run newRoomEmitLocks (\<lambda>_. Idle)"
| er_lock: "emit_run s pc \<Longrightarrow> pc t = Idle \<Longrightarrow> lockEntry roomID s = (l, s') \<Longrightarrow>
     emit_run s' (pc(t := Awaits roomID l))"
| er_acquire: "emit_run s pc \<Longrightarrow> pc t = Awaits roomID l \<Longrightarrow> acquire t l s = Some s' \<Longrightarrow>
     emit_run s' (pc(t := Holds roomID l))"
| er_unlock: "emit_run s pc \<Longrightarrow> pc t = Holds roomID l \<Longrightarrow>
     emit_run (unlockEntry roomID l s) (pc(t := Releases roomID l))"
| er_release: "emit_run s pc \<Longrightarrow> pc t = Releases roomID l \<Longrightarrow>
     emit_run (release l s) (pc(t := Idle))"

section \<open>Invariant\<close>

text \<open>The goroutines a reference of the entry stands for, and those that have its mutex.\<close>

fun refers :: "string \<Rightarrow> entry \<Rightarrow> phase \<Rightarrow> bool" where
  "refers r l (Awaits r' l') \<longleftrightarrow> r' = r \<and> l' = l"
| "refers r l (Holds r' l') \<longleftrightarrow> r' = r \<and> l' = l"
| "refers r l _ \<longleftrightarrow> False"

fun owns :: "entry \<Rightarrow> phase \<Rightarrow> bool" where
  "owns l (Holds r' l') \<longleftrightarrow> l' = l"
| "owns l (Releases r' l') \<longleftrightarrow> l' = l"
| "owns l _ \<longleftrightarrow> False"

fun names_entry :: "entry \<Rightarrow> phase \<Rightarrow> bool" where
  "names_entry l Idle \<longleftrightarrow> False"
| "names_entry l (Awaits r' l') \<longleftrightarrow> l' = l"
| "names_entry l (Holds r' l') \<longleftrightarrow> l' = l"
| "names_entry l (Releases r' l') \<longleftrightarrow> l' = l"

definition referrers :: "(goroutine \<Rightarrow> phase) \<Rightarrow> string \<Rightarrow> entry \<Rightarrow> goroutine set" where
  "referrers pc r l = {t. refers r l (pc t)}"

definition emit_inv :: "roomEmitLocks \<Rightarrow> (goroutine \<Rightarrow> phase) \<Rightarrow> bool" where
  "emit_inv s pc \<longleftrightarrow>
     (\<forall>r l. el_locks s r = Some l \<longrightarrow> referrers pc r l \<noteq> {} \<and> finite (referrers pc r l)
          \<and> el_refs s l = int (card (referrers pc r l)))
   \<and> (\<forall>t r l. refers r l (pc t) \<longrightarrow> el_locks s r = Some l)
   \<and> (\<forall>l t. el_mu s l = Some t \<longleftrightarrow> owns l (pc t))
   \<and> (\<forall>t l. names_entry l (pc t) \<longrightarrow> l < el_next s)
   \<and> (\<forall>r l. el_locks s r = Some l \<longrightarrow> l < el_next s)
   \<and> (\<forall>r r' l. el_locks s r = Some l \<and> el_locks s r' = Some l \<longrightarrow> r = r')"

lemma referrers_upd [simp]:
  "referrers (pc(t := p)) r l =
     (if refers r l p then insert t (referrers pc r l) else referrers pc r l - {t})"
  by (auto simp: referrers_def)

lemma refers_names: "refers r l p \<Longrightarrow> names_entry l p"
  by (cases p) auto

lemma owns_names: "owns l p \<Longrightarrow> names_entry l p"
  by (cases p) auto

lemma emit_invD:
  assumes "emit_inv s pc"
  shows "el_locks s r = Some l \<Longrightarrow> referrers pc r l \<noteq> {}"
    and "el_locks s r = Some l \<Longrightarrow> finite (referrers pc r l)"
    and "el_locks s r = Some l \<Longrightarrow> el_refs s l = int (card (referrers pc r l))"
    and "refers r l (pc t) \<Longrightarrow> el_locks s r = Some l"
    and "el_mu s l = Some t \<longleftrightarrow> owns l (pc t)"
    and "names_entry l (pc t) \<Longrightarrow> l < el_next s"
    and "el_locks s r = Some l \<Longrightarrow> l < el_next s"
    and "el_locks s r = Some l \<Longrightarrow> el_locks s r' = Some l \<Longrightarrow> r = r'"
  using assms unfolding emit_inv_def by blast+

lemma inv_init: "emit_inv newRoomEmitLocks (\<lambda>_. Idle)"
  by (simp add: emit_inv_def newRoomEmitLocks_def)

text \<open>
  A step of one goroutine: what has to be shown of the new state, in terms of the phase
  it leaves and the one it enters.
\<close>

lemma emit_invI:
  assumes "\<And>r l. el_locks s r = Some l \<Longrightarrow> referrers pc r l \<noteq> {}"
    and "\<And>r l. el_locks s r = Some l \<Longrightarrow> finite (referrers pc r l)"
    and "\<And>r l. el_locks s r = Some l \<Longrightarrow> el_refs s l = int (card (referrers pc r l))"
    and "\<And>t r l. refers r l (pc t) \<Longrightarrow> el_locks s r = Some l"
    and "\<And>t l. el_mu s l = Some t \<longleftrightarrow> owns l (pc t)"
    and "\<And>t l. names_entry l (pc t) \<Longrightarrow> l < el_next s"
    and "\<And>r l. el_locks s r = Some l \<Longrightarrow> l < el_next s"
    and "\<And>r r' l. el_locks s r = Some l \<Longrightarrow> el_locks s r' = Some l \<Longrightarrow> r = r'"
  shows "emit_inv s pc"
  unfolding emit_inv_def using assms by blast

lemma referrers_absent: "\<not> refers r l (pc t) \<Longrightarrow> referrers pc r l - {t} = referrers pc r l"
  by (auto simp: referrers_def)

lemma inv_lock_known:
  assumes inv: "emit_inv s pc" and pc: "pc t = Idle" and k: "el_locks s roomID = Some k"
  shows "emit_inv (s\<lparr>el_refs := (el_refs s)(k := el_refs s k + 1)\<rparr>) (pc(t := Awaits roomID k))"
proof (rule emit_invI, goal_cases)
  case (1 r l)
  then show ?case using emit_invD(1) [OF inv, of r l] pc by (simp add: referrers_absent)
next
  case (2 r l)
  then show ?case using emit_invD(2) [OF inv, of r l] by simp
next
  case (3 r l)
  then have l: "el_locks s r = Some l" by simp
  have t: "t \<notin> referrers pc r l" using pc by (simp add: referrers_def)
  show ?case
  proof (cases "l = k")
    case True
    with l k emit_invD(8) [OF inv] have "r = roomID" by blast
    with True l t emit_invD(2,3) [OF inv l] show ?thesis by simp
  next
    case False
    with l pc emit_invD(3) [OF inv l] show ?thesis by (simp add: referrers_absent)
  qed
next
  case (4 u r l)
  then show ?case using emit_invD(4) [OF inv, of r l u] k by (cases "u = t") simp_all
next
  case (5 u l)
  then show ?case using emit_invD(5) [OF inv, of l u] pc by (cases "u = t") simp_all
next
  case (6 u l)
  then show ?case using emit_invD(6) [OF inv, of l u] emit_invD(7) [OF inv k] by (cases "u = t") simp_all
next
  case (7 r l)
  then show ?case using emit_invD(7) [OF inv] by simp
next
  case (8 r r' l)
  then show ?case using emit_invD(8) [OF inv, of r l r'] by simp
qed

lemma inv_lock_new:
  assumes inv: "emit_inv s pc" and pc: "pc t = Idle" and new: "el_locks s roomID = None"
  shows "emit_inv (s\<lparr>el_locks := (el_locks s)(roomID \<mapsto> el_next s),
      el_refs := (el_refs s)(el_next s := 1), el_next := Suc (el_next s)\<rparr>)
      (pc(t := Awaits roomID (el_next s)))"
proof -
  let ?n = "el_next s"
  have fresh: "\<not> names_entry ?n (pc u)" for u using emit_invD(6) [OF inv, of ?n u] by auto
  have e: "referrers pc r ?n = {}" for r using fresh refers_names by (auto simp: referrers_def)
  have ne: "el_locks s r \<noteq> Some ?n" for r using emit_invD(7) [OF inv, of r ?n] by auto
  have mu: "el_mu s ?n \<noteq> Some u" for u using emit_invD(5) [OF inv, of ?n u] fresh owns_names by blast
  show ?thesis
  proof (rule emit_invI, goal_cases)
    case (1 r l)
    then show ?case
      using emit_invD(1) [OF inv, of r l] pc by (auto simp: referrers_absent split: if_splits)
  next
    case (2 r l)
    then show ?case using emit_invD(2) [OF inv, of r l] e by (auto split: if_splits)
  next
    case (3 r l)
    then show ?case
      using emit_invD(3) [OF inv, of r l] pc e ne [of r]
      by (cases "r = roomID") (auto simp: referrers_absent)
  next
    case (4 u r l)
    then show ?case
      using emit_invD(4) [OF inv, of r l u] new by (cases "u = t") (auto split: if_splits)
  next
    case (5 u l)
    then show ?case using emit_invD(5) [OF inv, of l u] pc by (cases "u = t") simp_all
  next
    case (6 u l)
    then show ?case using emit_invD(6) [OF inv, of l u] by (cases "u = t") auto
  next
    case (7 r l)
    then show ?case using emit_invD(7) [OF inv, of r l] by (auto split: if_splits)
  next
    case (8 r r' l)
    then show ?case
      using emit_invD(8) [OF inv, of r l r'] ne [of r] ne [of r'] by (auto split: if_splits)
  qed
qed

lemma inv_acquire:
  assumes inv: "emit_inv s pc" and pc: "pc t = Awaits roomID k" and a: "acquire t k s = Some s'"
  shows "emit_inv s' (pc(t := Holds roomID k))"
proof -
  from a have mu: "el_mu s k = None" and s': "s' = s\<lparr>el_mu := (el_mu s)(k \<mapsto> t)\<rparr>"
    by (auto simp: acquire_def split: option.splits)
  have "referrers (pc(t := Holds roomID k)) r l = referrers pc r l" for r l
    using pc by (auto simp: referrers_def)
  note R = this
  show ?thesis
    unfolding s'
  proof (rule emit_invI, goal_cases)
    case (4 u r l)
    then show ?case
      using emit_invD(4) [OF inv, of r l u] pc by (cases "u = t") auto
  next
    case (5 u l)
    have "\<not> owns k (pc u)" using emit_invD(5) [OF inv, of k u] mu by simp
    then show ?case using emit_invD(5) [OF inv, of l u] pc by (cases "u = t") auto
  next
    case (6 u l)
    then show ?case using emit_invD(6) [OF inv, of l u] pc by (cases "u = t") auto
  next
    case (8 r r' l)
    then show ?case using emit_invD(8) [OF inv, of r l r'] by simp
  qed (use emit_invD(1,2,3,7) [OF inv] in \<open>simp_all only: R, simp_all\<close>)
qed

lemma inv_unlock:
  assumes inv: "emit_inv s pc" and pc: "pc t = Holds roomID k"
  shows "emit_inv (unlockEntry roomID k s) (pc(t := Releases roomID k))"
proof -
  have k: "el_locks s roomID = Some k" using emit_invD(4) [OF inv, of roomID k t] pc by simp
  have t: "t \<in> referrers pc roomID k" using pc by (simp add: referrers_def)
  have R: "referrers (pc(t := Releases roomID k)) r l =
      (if r = roomID \<and> l = k then referrers pc r l - {t} else referrers pc r l)" for r l
    using pc by (auto simp: referrers_def)
  have c: "el_refs s k - 1 = int (card (referrers pc roomID k - {t}))"
    using emit_invD(2,3) [OF inv k] t
    by (simp add: card_Diff_singleton of_nat_diff card_gt_0_iff Suc_leI) (metis One_nat_def Suc_leI card_gt_0_iff empty_iff of_nat_1 of_nat_diff)
  have gone: "el_refs s k - 1 = 0 \<longleftrightarrow> referrers pc roomID k = {t}"
    unfolding c using emit_invD(2) [OF inv k] t by (subst of_nat_eq_0_iff, subst card_0_eq) auto
  have others: "l \<noteq> k" if "el_locks s r = Some l" "r \<noteq> roomID" for r l
    using emit_invD(8) [OF inv k, of r] that by auto
  have R': "referrers (pc(t := Releases roomID k)) r l = referrers pc r l" if "r \<noteq> roomID" for r l
    using that by (simp only: R simp_thms)  simp
  have U: "el_locks (unlockEntry roomID k s) r =
        (if r = roomID \<and> referrers pc roomID k = {t} then None else el_locks s r)"
    "el_refs (unlockEntry roomID k s) l = (if l = k then el_refs s k - 1 else el_refs s l)"
    "el_mu (unlockEntry roomID k s) = el_mu s" "el_next (unlockEntry roomID k s) = el_next s" for r l
    using k gone by (simp_all add: unlockEntry_def Let_def)
  show ?thesis
  proof (rule emit_invI, goal_cases)
    case (1 r l)
    have "referrers pc roomID k - {t} \<noteq> {}" if "referrers pc roomID k \<noteq> {t}" using that t by blast
    with 1 show ?case
      using emit_invD(1) [OF inv, of r l] k by (auto simp: U R simp del: referrers_upd split: if_splits)
  next
    case (2 r l)
    then show ?case using emit_invD(2) [OF inv, of r l] by (auto simp: U R split: if_splits)
  next
    case (3 r l)
    then have l: "el_locks s r = Some l" by (simp add: U split: if_splits)
    show ?case
    proof (cases "r = roomID")
      case True
      with l k have "l = k" by simp
      with True c show ?thesis by (simp add: U R del: referrers_upd)
    next
      case False
      with others [OF l] emit_invD(3) [OF inv l] show ?thesis by (simp add: U R' del: referrers_upd)
    qed
  next
    case (4 u r l)
    then have "u \<noteq> t" "refers r l (pc u)" by (cases "u = t"; simp)+
    then have u: "u \<in> referrers pc r l" "u \<noteq> t" by (simp_all add: referrers_def)
    have l: "el_locks s r = Some l" by (rule emit_invD(4) [OF inv \<open>refers r l (pc u)\<close>])
    have "referrers pc roomID k \<noteq> {t}" if "r = roomID"
    proof -
      from that l k have "l = k" by simp
      with that u show ?thesis by auto
    qed
    with l show ?case by (simp add: U)
  next
    case (5 u l)
    then show ?case using emit_invD(5) [OF inv, of l u] pc by (cases "u = t") (simp_all add: U)
  next
    case (6 u l)
    then show ?case unfolding U using emit_invD(6) [OF inv, of l u] pc by (cases "u = t") simp_all
  next
    case (7 r l)
    then show ?case using emit_invD(7) [OF inv, of r l] by (simp add: U split: if_splits)
  next
    case (8 r r' l)
    then show ?case using emit_invD(8) [OF inv, of r l r'] by (simp add: U split: if_splits)
  qed
qed

lemma inv_release:
  assumes inv: "emit_inv s pc" and pc: "pc t = Releases roomID k"
  shows "emit_inv (release k s) (pc(t := Idle))"
proof -
  have R: "referrers (pc(t := Idle)) r l = referrers pc r l" for r l
    using pc by (auto simp: referrers_def)
  have mu: "el_mu s k = Some t" using emit_invD(5) [OF inv, of k t] pc by simp
  show ?thesis
    unfolding release_def
  proof (rule emit_invI, goal_cases)
    case (4 u r l)
    then show ?case using emit_invD(4) [OF inv, of r l u] by (cases "u = t") auto
  next
    case (5 u l)
    have "owns k (pc u) \<longleftrightarrow> u = t" using emit_invD(5) [OF inv, of k u] mu by auto
    then show ?case using emit_invD(5) [OF inv, of l u] pc by (cases "u = t") auto
  next
    case (6 u l)
    then show ?case using emit_invD(6) [OF inv, of l u] by (cases "u = t") auto
  next
    case (8 r r' l)
    then show ?case using emit_invD(8) [OF inv, of r l r'] by simp
  qed (use emit_invD(1,2,3,7) [OF inv] in \<open>simp_all only: R, simp_all\<close>)
qed

lemma emit_run_inv: "emit_run s pc \<Longrightarrow> emit_inv s pc"
proof (induction rule: emit_run.induct)
  case er_init
  show ?case by (rule inv_init)
next
  case (er_lock s pc t roomID l s')
  show ?case
  proof (cases "el_locks s roomID")
    case None
    have s': "l = el_next s" "s' = s\<lparr>el_locks := (el_locks s)(roomID \<mapsto> el_next s),
        el_refs := (el_refs s)(el_next s := 1), el_next := Suc (el_next s)\<rparr>"
      using er_lock.hyps(3) None by (auto simp: lockEntry_def Let_def)
    show ?thesis unfolding s' by (rule inv_lock_new [OF er_lock.IH er_lock.hyps(2) None])
  next
    case (Some k)
    have s': "l = k" "s' = s\<lparr>el_refs := (el_refs s)(k := el_refs s k + 1)\<rparr>"
      using er_lock.hyps(3) Some by (auto simp: lockEntry_def Let_def)
    show ?thesis unfolding s' by (rule inv_lock_known [OF er_lock.IH er_lock.hyps(2) Some])
  qed
next
  case (er_acquire s pc t roomID l s')
  from er_acquire.IH er_acquire.hyps(2,3) show ?case by (rule inv_acquire)
next
  case (er_unlock s pc t roomID l)
  from er_unlock.IH er_unlock.hyps(2) show ?case by (rule inv_unlock)
next
  case (er_release s pc t roomID l)
  from er_release.IH er_release.hyps(2) show ?case by (rule inv_release)
qed

section \<open>Properties\<close>

text \<open>
  C34. The emit lock of a room is held by one goroutine at a time, in every interleaving
  of the parts of \<open>lock\<close> and \<open>Unlock\<close>, although the room's mutex is dropped from the
  table and made anew.
\<close>

theorem emit_lock_exclusive:
  assumes "emit_run s pc" "pc t = Holds roomID l" "pc u = Holds roomID l'"
  shows "t = u"
proof -
  note inv = emit_run_inv [OF assms(1)]
  have "el_locks s roomID = Some l" "el_locks s roomID = Some l'"
    using emit_invD(4) [OF inv, of roomID _ t] emit_invD(4) [OF inv, of roomID _ u] assms(2,3) by simp_all
  then have "el_mu s l = Some t" "el_mu s l = Some u"
    using emit_invD(5) [OF inv, of l] assms(2,3) by simp_all
  then show ?thesis by simp
qed

text \<open>
  The table does not grow without bound and nobody waits in vain: a room has an entry
  exactly while some goroutine holds or awaits its lock, and one that awaits it can take it
  unless another is holding the same entry's mutex and has only to release it.
\<close>

theorem emit_locks_tight:
  assumes "emit_run s pc"
  shows "(el_locks s roomID \<noteq> None \<longleftrightarrow> (\<exists>t l. pc t = Awaits roomID l \<or> pc t = Holds roomID l))
    \<and> (pc t = Awaits roomID l \<longrightarrow> acquire t l s \<noteq> None
         \<or> (\<exists>u r. u \<noteq> t \<and> (pc u = Holds r l \<or> pc u = Releases r l)))"
proof (intro conjI impI)
  note inv = emit_run_inv [OF assms]
  have ref: "refers roomID l p \<longleftrightarrow> p = Awaits roomID l \<or> p = Holds roomID l" for l p
    by (cases p) auto
  show "el_locks s roomID \<noteq> None \<longleftrightarrow> (\<exists>t l. pc t = Awaits roomID l \<or> pc t = Holds roomID l)"
  proof
    assume "el_locks s roomID \<noteq> None"
    then obtain l where "el_locks s roomID = Some l" by blast
    then obtain t where "refers roomID l (pc t)"
      using emit_invD(1) [OF inv] by (fastforce simp: referrers_def)
    then show "\<exists>t l. pc t = Awaits roomID l \<or> pc t = Holds roomID l" unfolding ref by blast
  next
    assume "\<exists>t l. pc t = Awaits roomID l \<or> pc t = Holds roomID l"
    then obtain t l where "refers roomID l (pc t)" unfolding ref by blast
    from emit_invD(4) [OF inv this] show "el_locks s roomID \<noteq> None" by simp
  qed
  assume p: "pc t = Awaits roomID l"
  show "acquire t l s \<noteq> None \<or> (\<exists>u r. u \<noteq> t \<and> (pc u = Holds r l \<or> pc u = Releases r l))"
  proof (cases "el_mu s l")
    case None
    then show ?thesis by (simp add: acquire_def)
  next
    case (Some u)
    then have o: "owns l (pc u)" using emit_invD(5) [OF inv] by blast
    then have "u \<noteq> t" using p by auto
    moreover from o have "\<exists>r. pc u = Holds r l \<or> pc u = Releases r l" by (cases "pc u") auto
    ultimately show ?thesis by blast
  qed
qed

text \<open>A goroutine with the lock of a room, and a second one waiting for it.\<close>

definition lockDemo :: roomEmitLocks where
  "lockDemo = \<lparr>el_locks = [''r'' \<mapsto> 0], el_refs = (\<lambda>_. 0)(0 := 2), el_mu = [0 \<mapsto> 1], el_next = 1\<rparr>"

definition lockDemoPc :: "goroutine \<Rightarrow> phase" where
  "lockDemoPc = (\<lambda>_. Idle)(1 := Holds ''r'' 0, 2 := Awaits ''r'' 0)"

lemma lockDemo_run: "emit_run lockDemo lockDemoPc"
proof -
  let ?s = "snd (lockEntry ''r'' newRoomEmitLocks)"
  have l1: "lockEntry ''r'' newRoomEmitLocks = (0, ?s)"
    by (simp add: lockEntry_def newRoomEmitLocks_def Let_def)
  from er_lock [OF er_init _ l1, of 1] have "emit_run ?s ((\<lambda>_. Idle)(1 := Awaits ''r'' 0))" by simp
  from er_acquire [OF this, of 1 "''r''" 0 "?s\<lparr>el_mu := (el_mu ?s)(0 \<mapsto> 1)\<rparr>"]
  have "emit_run (?s\<lparr>el_mu := (el_mu ?s)(0 \<mapsto> 1)\<rparr>) ((\<lambda>_. Idle)(1 := Holds ''r'' 0))"
    by (simp add: acquire_def lockEntry_def newRoomEmitLocks_def Let_def)
  from er_lock [OF this, of 2 "''r''" 0 lockDemo] show ?thesis
    by (simp add: lockEntry_def newRoomEmitLocks_def Let_def lockDemo_def lockDemoPc_def fun_upd_def fun_eq_iff)
qed

theorem emit_lock_exclusive_witness: "lockDemoPc 2 \<noteq> Holds ''r'' 0"
proof
  assume "lockDemoPc 2 = Holds ''r'' 0"
  from emit_lock_exclusive [OF lockDemo_run _ this, of 1 0] show False by (simp add: lockDemoPc_def)
qed

theorem emit_locks_tight_witness:
  "el_locks lockDemo ''r'' \<noteq> None \<and> acquire 2 0 lockDemo = None
   \<and> (\<exists>u r. u \<noteq> 2 \<and> (lockDemoPc u = Holds r 0 \<or> lockDemoPc u = Releases r 0))"
proof -
  have "acquire 2 0 lockDemo = None" by (simp add: acquire_def lockDemo_def)
  then show ?thesis
    using emit_locks_tight [OF lockDemo_run, of "''r''" 2 0]
    by (auto simp: lockDemoPc_def lockDemo_def)
qed

end
