(* ===== verification/NetUrl.thy ===== *)
theory NetUrl
  imports GoText
begin

text \<open>
  Go's \<open>net/url\<close> as far as the program depends on it: parsing and printing of URLs and
  of query strings. The launch, the WOPI client and the peer list take URLs apart with it
  and put them together again.
\<close>

section \<open>Escaping\<close>

datatype encoding =
    EncodePath | EncodeHost | EncodeZone | EncodeUserPassword | EncodeQueryComponent | EncodeFragment

definition is_alnum :: "char \<Rightarrow> bool" where
  "is_alnum c \<longleftrightarrow> (let n = of_char c :: nat in
     (48 \<le> n \<and> n \<le> 57) \<or> (65 \<le> n \<and> n \<le> 90) \<or> (97 \<le> n \<and> n \<le> 122))"

definition host_marks :: "char set" where
  "host_marks = set ''!$&()*+,;=:[]<>'' \<union> {CHR 0x27, CHR 0x22}"

definition unreserved_marks :: "char set" where "unreserved_marks = set ''-_.~''"
definition reserved_marks :: "char set" where "reserved_marks = set ''$&+,/:;=?@''"
definition fragment_marks :: "char set" where "fragment_marks = set ''!()*''"

lemmas mark_defs = host_marks_def unreserved_marks_def reserved_marks_def fragment_marks_def

definition shouldEscape :: "char \<Rightarrow> encoding \<Rightarrow> bool" where
  "shouldEscape c mode =
     (if is_alnum c then False
      else if (mode = EncodeHost \<or> mode = EncodeZone) \<and> c \<in> host_marks
      then False
      else if c \<in> unreserved_marks then False
      else if c \<in> reserved_marks \<and> mode \<in> {EncodePath, EncodeUserPassword, EncodeQueryComponent, EncodeFragment}
      then (case mode of
              EncodePath \<Rightarrow> c = CHR ''?''
            | EncodeUserPassword \<Rightarrow> c \<in> set ''@/?:''
            | EncodeQueryComponent \<Rightarrow> True
            | _ \<Rightarrow> False)
      else \<not> (mode = EncodeFragment \<and> c \<in> fragment_marks))"

definition unhex :: "char \<Rightarrow> nat option" where
  "unhex c = (let n = of_char c :: nat in
     if 48 \<le> n \<and> n \<le> 57 then Some (n - 48)
     else if 97 \<le> n \<and> n \<le> 102 then Some (n - 87)
     else if 65 \<le> n \<and> n \<le> 70 then Some (n - 55)
     else None)"

text \<open>
  A host may escape only bytes that are not ASCII, and the percent sign; a zone also what
  a host may hold, and the space.
\<close>

definition percent_ok :: "encoding \<Rightarrow> nat \<Rightarrow> nat \<Rightarrow> bool" where
  "percent_ok mode a b =
     (case mode of
        EncodeHost \<Rightarrow> 8 \<le> a \<or> (a = 2 \<and> b = 5)
      | EncodeZone \<Rightarrow> (a = 2 \<and> b = 5) \<or> 16 * a + b = 32
                      \<or> \<not> shouldEscape (char_of (16 * a + b)) EncodeHost
      | _ \<Rightarrow> True)"

fun unescape :: "encoding \<Rightarrow> string \<Rightarrow> string option" where
  "unescape mode [] = Some []"
| "unescape mode (c # s) =
     (if c = CHR ''%'' then
        (case s of
           a # b # rest \<Rightarrow>
             (case (unhex a, unhex b) of
                (Some x, Some y) \<Rightarrow>
                  if percent_ok mode x y
                  then map_option (\<lambda>t. char_of (16 * x + y) # t) (unescape mode rest)
                  else None
              | _ \<Rightarrow> None)
         | _ \<Rightarrow> None)
      else if (mode = EncodeHost \<or> mode = EncodeZone) \<and> of_char c < (128 :: nat) \<and> shouldEscape c mode
      then None
      else map_option (\<lambda>t. (if c = CHR ''+'' \<and> mode = EncodeQueryComponent then CHR '' '' else c) # t)
             (unescape mode s))"

definition upper_hex :: "nat \<Rightarrow> char" where
  "upper_hex n = ''0123456789ABCDEF'' ! (n mod 16)"

definition escape_char :: "encoding \<Rightarrow> char \<Rightarrow> string" where
  "escape_char mode c =
     (if c = CHR '' '' \<and> mode = EncodeQueryComponent then ''+''
      else if shouldEscape c mode then [CHR ''%'', upper_hex (of_char c div 16), upper_hex (of_char c)]
      else [c])"

definition escape :: "encoding \<Rightarrow> string \<Rightarrow> string" where
  "escape mode s = concat (map (escape_char mode) s)"

section \<open>URLs\<close>

record url =
  u_Scheme :: string
  u_Opaque :: string
  u_User :: "(string \<times> string option) option"
  u_Host :: string
  u_Path :: string
  u_RawPath :: string
  u_OmitHost :: bool
  u_ForceQuery :: bool
  u_RawQuery :: string
  u_Fragment :: string
  u_RawFragment :: string

definition empty_url :: url where
  "empty_url = \<lparr>u_Scheme = [], u_Opaque = [], u_User = None, u_Host = [], u_Path = [], u_RawPath = [],
     u_OmitHost = False, u_ForceQuery = False, u_RawQuery = [], u_Fragment = [], u_RawFragment = []\<rparr>"

definition is_letter :: "char \<Rightarrow> bool" where
  "is_letter c \<longleftrightarrow> is_alnum c \<and> \<not> is_digit c"

definition lower_char :: "char \<Rightarrow> char" where
  "lower_char c = (let n = of_char c :: nat in if 65 \<le> n \<and> n \<le> 90 then char_of (n + 32) else c)"

text \<open>The scheme and the rest; \<open>None\<close> is the error of a URL that begins with a colon.\<close>

fun scheme_from :: "bool \<Rightarrow> string \<Rightarrow> string \<Rightarrow> string \<Rightarrow> (string \<times> string) option" where
  "scheme_from first acc whole [] = Some ([], whole)"
| "scheme_from first acc whole (c # s) =
     (if is_letter c then scheme_from False (acc @ [c]) whole s
      else if is_digit c \<or> c \<in> set ''+-.'' then
        if first then Some ([], whole) else scheme_from False (acc @ [c]) whole s
      else if c = CHR '':'' then if first then None else Some (acc, s)
      else Some ([], whole))"

definition getScheme :: "string \<Rightarrow> (string \<times> string) option" where
  "getScheme raw = scheme_from True [] raw raw"

definition validOptionalPort :: "string \<Rightarrow> bool" where
  "validOptionalPort port \<longleftrightarrow> (case port of [] \<Rightarrow> True | c # ds \<Rightarrow> c = CHR '':'' \<and> list_all is_digit ds)"

text \<open>
  \<open>netip.ParseAddr\<close> decides what may stand in brackets. Groups of up to four hex digits,
  at most one \<open>::\<close>, an IPv4 address in the place of the last two groups, a zone.
\<close>

definition ipv4_field :: "string \<Rightarrow> bool" where
  "ipv4_field f \<longleftrightarrow> f \<noteq> [] \<and> length f \<le> 3 \<and> list_all is_digit f \<and> digits_val f \<le> 255
     \<and> (length f > 1 \<longrightarrow> hd f \<noteq> CHR ''0'')"

definition ipv4_ok :: "string \<Rightarrow> bool" where
  "ipv4_ok s \<longleftrightarrow> (let fs = split_on CHR ''.'' s in length fs = 4 \<and> list_all ipv4_field fs)"

definition hex_group :: "string \<Rightarrow> bool" where
  "hex_group g \<longleftrightarrow> g \<noteq> [] \<and> length g \<le> 4 \<and> list_all (\<lambda>c. unhex c \<noteq> None) g"

text \<open>The number of groups a part without \<open>::\<close> stands for, if it is well formed.\<close>

definition group_count :: "bool \<Rightarrow> string \<Rightarrow> nat option" where
  "group_count at_end s =
     (if s = [] then Some 0
      else let gs = split_on CHR '':'' s in
        if list_all hex_group gs then Some (length gs)
        else if at_end \<and> list_all hex_group (butlast gs) \<and> ipv4_ok (last gs) then Some (length gs + 1)
        else None)"

definition ipv6_ok :: "string \<Rightarrow> bool" where
  "ipv6_ok s0 =
     (case cut CHR ''%'' s0 of (s, zone, zoned) \<Rightarrow>
        if zoned \<and> zone = [] then False
        else (case cut_at ''::'' s of
                None \<Rightarrow> s \<noteq> [] \<and> group_count True s = Some 8
              | Some (a, b) \<Rightarrow>
                  (case (group_count False a, group_count True b) of
                     (Some m, Some n) \<Rightarrow> m + n < 8
                   | _ \<Rightarrow> False)))"

definition parseHost :: "string \<Rightarrow> string option" where
  "parseHost host =
     (if CHR ''['' \<in> set host then
        (case host of
           c # rest \<Rightarrow>
             if c \<noteq> CHR ''['' \<or> CHR ''['' \<in> set rest then None
             else (case cut_last CHR '']'' rest of
                     None \<Rightarrow> None
                   | Some (name, colonPort) \<Rightarrow>
                       if \<not> validOptionalPort colonPort then None
                       else (case (case cut_at ''%25'' name of
                                     None \<Rightarrow> unescape EncodeHost name
                                   | Some (h, z) \<Rightarrow>
                                       (case (unescape EncodeHost h, unescape EncodeZone (''%25'' @ z)) of
                                          (Some h', Some z') \<Rightarrow> Some (h' @ z')
                                        | _ \<Rightarrow> None)) of
                               None \<Rightarrow> None
                             | Some n \<Rightarrow> if ipv6_ok n then Some (''['' @ n @ '']'' @ colonPort) else None))
         | [] \<Rightarrow> None)
      else (case cut CHR '':'' host of (name, port, found) \<Rightarrow>
              if found \<and> \<not> list_all is_digit port then None else unescape EncodeHost host))"

definition validUserinfo :: "string \<Rightarrow> bool" where
  "validUserinfo s = list_all (\<lambda>c. is_alnum c \<or> c \<in> set ''-._:~!$&()*+,;=%@'' \<union> {CHR 0x27}) s"

text \<open>The user, if there is one, and the host.\<close>

definition parseAuthority :: "string \<Rightarrow> ((string \<times> string option) option \<times> string) option" where
  "parseAuthority authority =
     (case cut_last CHR ''@'' authority of
        None \<Rightarrow> map_option (\<lambda>h. (None, h)) (parseHost authority)
      | Some (userinfo, host) \<Rightarrow>
          (case parseHost host of
             None \<Rightarrow> None
           | Some h \<Rightarrow>
               if \<not> validUserinfo userinfo then None
               else (case cut CHR '':'' userinfo of (name, pass, found) \<Rightarrow>
                 (case (unescape EncodeUserPassword name, unescape EncodeUserPassword pass) of
                    (Some n, Some p) \<Rightarrow> Some (Some (n, if found then Some p else None), h)
                  | _ \<Rightarrow> None))))"

text \<open>Sets the path and keeps the escaped form where the default one differs.\<close>

definition setPath :: "string \<Rightarrow> url \<Rightarrow> url option" where
  "setPath p u =
     (case unescape EncodePath p of
        None \<Rightarrow> None
      | Some path \<Rightarrow>
          Some (u\<lparr>u_Path := path, u_RawPath := (if escape EncodePath path = p then [] else p)\<rparr>))"

definition setFragment :: "string \<Rightarrow> url \<Rightarrow> url option" where
  "setFragment f u =
     (case unescape EncodeFragment f of
        None \<Rightarrow> None
      | Some frag \<Rightarrow>
          Some (u\<lparr>u_Fragment := frag, u_RawFragment := (if escape EncodeFragment frag = f then [] else f)\<rparr>))"

definition parseQueryPart :: "string \<Rightarrow> url \<Rightarrow> string \<times> url" where
  "parseQueryPart rest u =
     (if ends_with rest ''?'' \<and> count_list rest CHR ''?'' = 1
      then (butlast rest, u\<lparr>u_ForceQuery := True\<rparr>)
      else case cut CHR ''?'' rest of (a, q, _) \<Rightarrow> (a, u\<lparr>u_RawQuery := q\<rparr>))"

definition parseHier :: "string \<Rightarrow> url \<Rightarrow> url option" where
  "parseHier rest u =
     (if \<not> starts_with rest ''/'' \<and> u_Scheme u \<noteq> [] then Some (u\<lparr>u_Opaque := rest\<rparr>)
      else if \<not> starts_with rest ''/'' \<and> CHR '':'' \<in> set (fst (cut CHR ''/'' rest)) then None
      else if (u_Scheme u \<noteq> [] \<or> \<not> starts_with rest ''///'') \<and> starts_with rest ''//'' then
        (let authority = fst (cut CHR ''/'' (drop 2 rest));
             path = drop (length authority) (drop 2 rest)
         in case parseAuthority authority of
              None \<Rightarrow> None
            | Some (user, host) \<Rightarrow> setPath path (u\<lparr>u_User := user, u_Host := host\<rparr>))
      else setPath rest (if u_Scheme u \<noteq> [] \<and> starts_with rest ''/'' then u\<lparr>u_OmitHost := True\<rparr> else u))"

definition is_ctl :: "char \<Rightarrow> bool" where
  "is_ctl c \<longleftrightarrow> (of_char c :: nat) < 32 \<or> (of_char c :: nat) = 127"

definition parse_nofrag :: "string \<Rightarrow> url option" where
  "parse_nofrag raw =
     (if list_ex is_ctl raw then None
      else if raw = ''*'' then Some (empty_url\<lparr>u_Path := ''*''\<rparr>)
      else case getScheme raw of
             None \<Rightarrow> None
           | Some (scheme, rest) \<Rightarrow>
               (case parseQueryPart rest (empty_url\<lparr>u_Scheme := map lower_char scheme\<rparr>) of
                  (rest', u) \<Rightarrow> parseHier rest' u))"

definition url_parse :: "string \<Rightarrow> url option" where
  "url_parse raw =
     (case cut CHR ''#'' raw of (r, frag, found) \<Rightarrow>
        (case parse_nofrag r of
           None \<Rightarrow> None
         | Some u \<Rightarrow> if frag = [] then Some u else setFragment frag u))"

text \<open>An escaped path or fragment that may be kept as it is.\<close>

definition validEncoded :: "string \<Rightarrow> encoding \<Rightarrow> bool" where
  "validEncoded s mode = list_all (\<lambda>c. c \<in> set ''!$&()*+,;=:@[]%'' \<union> {CHR 0x27} \<or> \<not> shouldEscape c mode) s"

definition escapedPath :: "url \<Rightarrow> string" where
  "escapedPath u =
     (if u_RawPath u \<noteq> [] \<and> validEncoded (u_RawPath u) EncodePath
         \<and> unescape EncodePath (u_RawPath u) = Some (u_Path u) then u_RawPath u
      else if u_Path u = ''*'' then ''*'' else escape EncodePath (u_Path u))"

definition escapedFragment :: "url \<Rightarrow> string" where
  "escapedFragment u =
     (if u_RawFragment u \<noteq> [] \<and> validEncoded (u_RawFragment u) EncodeFragment
         \<and> unescape EncodeFragment (u_RawFragment u) = Some (u_Fragment u) then u_RawFragment u
      else escape EncodeFragment (u_Fragment u))"

definition user_string :: "string \<times> string option \<Rightarrow> string" where
  "user_string ui = escape EncodeUserPassword (fst ui)
     @ (case snd ui of None \<Rightarrow> [] | Some p \<Rightarrow> CHR '':'' # escape EncodeUserPassword p)"

definition url_prefix :: "url \<Rightarrow> string" where
  "url_prefix u =
     (if u_Scheme u \<noteq> [] then u_Scheme u @ '':'' else [])
     @ (if u_Scheme u \<noteq> [] \<or> u_Host u \<noteq> [] \<or> u_User u \<noteq> None then
          if u_OmitHost u \<and> u_Host u = [] \<and> u_User u = None then []
          else (if u_Host u \<noteq> [] \<or> u_Path u \<noteq> [] \<or> u_User u \<noteq> None then ''//'' else [])
            @ (case u_User u of None \<Rightarrow> [] | Some ui \<Rightarrow> user_string ui @ ''@'')
            @ escape EncodeHost (u_Host u)
        else [])"

definition url_string :: "url \<Rightarrow> string" where
  "url_string u =
     (if u_Opaque u \<noteq> [] then (if u_Scheme u \<noteq> [] then u_Scheme u @ '':'' else []) @ u_Opaque u
      else let path = escapedPath u; pre = url_prefix u in
        pre
        @ (if path \<noteq> [] \<and> hd path \<noteq> CHR ''/'' \<and> u_Host u \<noteq> [] then ''/'' else [])
        @ (if pre = [] \<and> CHR '':'' \<in> set (fst (cut CHR ''/'' path)) then ''./'' else [])
        @ path)
     @ (if u_ForceQuery u \<or> u_RawQuery u \<noteq> [] then CHR ''?'' # u_RawQuery u else [])
     @ (if u_Fragment u \<noteq> [] then CHR ''#'' # escapedFragment u else [])"

section \<open>Query strings\<close>

type_synonym queryValues = "(string \<times> string list) list"

text \<open>A pair with a semicolon or a bad escape is dropped, as \<open>Query\<close> ignores the error.\<close>

definition add_pair :: "string \<Rightarrow> queryValues \<Rightarrow> queryValues" where
  "add_pair piece m =
     (if CHR '';'' \<in> set piece \<or> piece = [] then m
      else case cut CHR ''='' piece of (k, v, _) \<Rightarrow>
        (case (unescape EncodeQueryComponent k, unescape EncodeQueryComponent v) of
           (Some k', Some v') \<Rightarrow>
             AList.update k' ((case map_of m k' of None \<Rightarrow> [] | Some vs \<Rightarrow> vs) @ [v']) m
         | _ \<Rightarrow> m))"

definition parse_query :: "string \<Rightarrow> queryValues" where
  "parse_query q = fold add_pair (split_on CHR ''&'' q) []"

definition query_get :: "queryValues \<Rightarrow> string \<Rightarrow> string" where
  "query_get m k = (case map_of m k of Some (v # _) \<Rightarrow> v | _ \<Rightarrow> [])"

definition query_pieces :: "queryValues \<Rightarrow> string list" where
  "query_pieces m =
     concat (map (\<lambda>(k, vs). map (\<lambda>v. escape EncodeQueryComponent k @ CHR ''='' # escape EncodeQueryComponent v) vs)
       (sort_key fst m))"

fun join_with :: "char \<Rightarrow> string list \<Rightarrow> string" where
  "join_with c [] = []"
| "join_with c [p] = p"
| "join_with c (p # q # ps) = p @ c # join_with c (q # ps)"

definition query_encode :: "queryValues \<Rightarrow> string" where
  "query_encode m = join_with CHR ''&'' (query_pieces m)"

section \<open>Escaping round trips\<close>

lemma unhex_upper_hex [simp]: "unhex (upper_hex n) = Some (n mod 16)"
proof -
  have "\<forall>k \<in> set [0..<16]. unhex (''0123456789ABCDEF'' ! k) = Some k" by code_simp
  moreover have "n mod 16 \<in> set [0..<16]" by simp
  ultimately show ?thesis unfolding upper_hex_def by blast
qed

lemma byte_div: "(of_char c :: nat) div 16 < 16"
proof -
  have "(of_char c :: nat) < 16 * 16" by simp
  then show ?thesis by (rule less_mult_imp_div_less)
qed

lemma byte_split: "16 * ((of_char c :: nat) div 16 mod 16) + of_char c mod 16 = of_char c"
  using byte_div [of c] by simp

lemma percent_code: "(char_of (37 :: nat) :: char) = CHR ''%''"
  by code_simp

lemma unescape_plain:
  "c \<noteq> CHR ''%'' \<Longrightarrow> \<not> ((mode = EncodeHost \<or> mode = EncodeZone) \<and> of_char c < (128 :: nat) \<and> shouldEscape c mode) \<Longrightarrow>
   unescape mode (c # s) =
     map_option (\<lambda>t. (if c = CHR ''+'' \<and> mode = EncodeQueryComponent then CHR '' '' else c) # t) (unescape mode s)"
  by auto

text \<open>What a mode can write and read back, byte by byte.\<close>

definition writable :: "encoding \<Rightarrow> char \<Rightarrow> bool" where
  "writable mode c \<longleftrightarrow>
     (mode = EncodeHost \<longrightarrow> c = CHR ''%'' \<or> 128 \<le> (of_char c :: nat) \<or> \<not> shouldEscape c EncodeHost)"

lemma percent_escapes [simp]: "shouldEscape CHR ''%'' mode"
  by (cases mode) (simp_all add: shouldEscape_def mark_defs is_alnum_def)

lemma plus_query [simp]: "shouldEscape CHR ''+'' EncodeQueryComponent"
  by (simp add: shouldEscape_def mark_defs is_alnum_def)

lemma unescape_escape_char:
  assumes "writable mode c" "mode \<noteq> EncodeZone"
  shows "unescape mode (escape_char mode c @ s) = map_option (\<lambda>t. c # t) (unescape mode s)"
proof -
  consider "c = CHR '' ''" "mode = EncodeQueryComponent"
    | "\<not> (c = CHR '' '' \<and> mode = EncodeQueryComponent)" "shouldEscape c mode"
    | "\<not> (c = CHR '' '' \<and> mode = EncodeQueryComponent)" "\<not> shouldEscape c mode" by blast
  then show ?thesis
  proof cases
    case 1
    then show ?thesis by (simp add: escape_char_def)
  next
    case 2
    have "percent_ok mode (of_char c div 16 mod 16) (of_char c mod 16)"
    proof (cases "mode = EncodeHost")
      case True
      with assms(1) 2(2) consider "c = CHR ''%''" | "128 \<le> (of_char c :: nat)" by (auto simp: writable_def)
      then show ?thesis
      proof cases
        case 1
        then show ?thesis using True by (simp add: percent_ok_def)
      next
        case 2
        then have "128 div 16 \<le> (of_char c :: nat) div 16" by (rule div_le_mono)
        then have "8 \<le> (of_char c :: nat) div 16 mod 16" using byte_div [of c] by simp
        with True show ?thesis by (simp add: percent_ok_def)
      qed
    next
      case False
      with assms(2) show ?thesis by (cases mode) (simp_all add: percent_ok_def)
    qed
    with 2 byte_split [of c] show ?thesis by (simp add: escape_char_def)
  next
    case 3
    then have "c \<noteq> CHR ''%''" by auto
    moreover have "\<not> (c = CHR ''+'' \<and> mode = EncodeQueryComponent)" using 3(2) by auto
    ultimately show ?thesis using 3 by (auto simp: escape_char_def unescape_plain simp del: unescape.simps)
  qed
qed

lemma escape_simps [simp]:
  "escape mode [] = []" "escape mode (c # s) = escape_char mode c @ escape mode s"
  "escape mode (s @ t) = escape mode s @ escape mode t"
  by (simp_all add: escape_def)

lemma unescape_escape:
  assumes "list_all (writable mode) s" "mode \<noteq> EncodeZone"
  shows "unescape mode (escape mode s) = Some s"
  using assms by (induction s) (simp_all add: unescape_escape_char)

lemma writable_other [simp]: "mode \<noteq> EncodeHost \<Longrightarrow> list_all (writable mode) s"
  by (simp add: writable_def list_all_iff)

lemma unescape_host_writable: "unescape EncodeHost raw = Some h \<Longrightarrow> list_all (writable EncodeHost) h"
proof (induction "EncodeHost" raw arbitrary: h rule: unescape.induct)
  case 1
  then show ?case by simp
next
  case (2 c s)
  show ?case
  proof (cases "c = CHR ''%''")
    case True
    with 2(3) obtain a b rest x y t where s: "s = a # b # rest" "unhex a = Some x" "unhex b = Some y"
      "percent_ok EncodeHost x y" "unescape EncodeHost rest = Some t" "h = char_of (16 * x + y) # t"
      by (auto split: list.splits option.splits if_splits)
    have "x < 16" "y < 16" using s(2,3) by (auto simp: unhex_def Let_def split: if_splits)
    then have "of_char (char_of (16 * x + y) :: char) = 16 * x + y" by simp
    then have "writable EncodeHost (char_of (16 * x + y))"
      using s(4) percent_code by (auto simp: writable_def percent_ok_def)
    moreover have "list_all (writable EncodeHost) t"
      by (rule 2(1) [OF True s(1) refl _ s(2,3) s(4) s(5)]) simp
    ultimately show ?thesis by (simp add: s(6))
  next
    case False
    with 2(3) obtain t where t: "unescape EncodeHost s = Some t" "h = c # t"
      "\<not> (of_char c < (128 :: nat) \<and> shouldEscape c EncodeHost)"
      by (auto split: if_splits)
    have "writable EncodeHost c" using t(3) by (auto simp: writable_def)
    moreover have "list_all (writable EncodeHost) t"
      by (rule 2(2) [OF False _ t(1)]) (use t(3) in auto)
    ultimately show ?thesis by (simp add: t(2))
  qed
qed

text \<open>The bytes an escaped string can hold.\<close>

lemma upper_hex_alnum: "is_alnum (upper_hex n)"
proof -
  have "\<forall>k \<in> set [0..<16]. is_alnum (''0123456789ABCDEF'' ! k)" by code_simp
  moreover have "n mod 16 \<in> set [0..<16]" by simp
  ultimately show ?thesis unfolding upper_hex_def by blast
qed

lemma alnum_plain: "is_alnum c \<Longrightarrow> \<not> shouldEscape c mode"
  by (simp add: shouldEscape_def)

lemma escape_range:
  assumes "d \<in> set (escape mode s)" "d \<noteq> CHR ''%''" "\<not> (d = CHR ''+'' \<and> mode = EncodeQueryComponent)"
  shows "\<not> shouldEscape d mode"
proof -
  from assms(1) obtain c where c: "d \<in> set (escape_char mode c)" by (auto simp: escape_def)
  then show ?thesis
    using assms(2,3) upper_hex_alnum by (auto simp: escape_char_def alnum_plain split: if_splits)
qed

lemma escape_avoids:
  assumes "shouldEscape d mode" "d \<noteq> CHR ''%''" "d \<noteq> CHR ''+''"
  shows "d \<notin> set (escape mode s)"
  using escape_range [of d mode s] assms by blast

lemma escape_eq_Nil [simp]: "escape mode s = [] \<longleftrightarrow> s = []"
  by (cases s) (simp_all add: escape_char_def)

section \<open>Query round trip\<close>

lemma query_seps [simp]:
  "CHR ''&'' \<notin> set (escape EncodeQueryComponent s)" "CHR '';'' \<notin> set (escape EncodeQueryComponent s)"
  "CHR ''='' \<notin> set (escape EncodeQueryComponent s)" "CHR ''#'' \<notin> set (escape EncodeQueryComponent s)"
  "CHR ''?'' \<notin> set (escape EncodeQueryComponent s)"
  by (rule escape_avoids; simp add: shouldEscape_def mark_defs is_alnum_def)+

definition query_piece :: "string \<Rightarrow> string \<Rightarrow> string" where
  "query_piece k v = escape EncodeQueryComponent k @ CHR ''='' # escape EncodeQueryComponent v"

lemma add_query_piece:
  "add_pair (query_piece k v) m =
     AList.update k ((case map_of m k of None \<Rightarrow> [] | Some vs \<Rightarrow> vs) @ [v]) m"
  by (simp add: add_pair_def query_piece_def cut_append unescape_escape)

lemma split_join:
  assumes "\<forall>p \<in> set ps. c \<notin> set p" "ps \<noteq> []"
  shows "split_on c (join_with c ps) = ps"
  using assms by (induction c ps rule: join_with.induct) (simp_all add: split_on_notin split_on_append)

lemma query_pieces_eq:
  "query_pieces m = concat (map (\<lambda>(k, vs). map (query_piece k) vs) (sort_key fst m))"
  by (simp add: query_pieces_def query_piece_def [abs_def])

lemma parse_query_pieces: "parse_query (query_encode m) = fold add_pair (query_pieces m) []"
proof (cases "query_pieces m = []")
  case True
  then show ?thesis by (simp add: query_encode_def parse_query_def add_pair_def)
next
  case False
  have "\<forall>p \<in> set (query_pieces m). CHR ''&'' \<notin> set p"
    by (auto simp: query_pieces_eq query_piece_def)
  with False show ?thesis by (simp add: query_encode_def parse_query_def split_join)
qed

lemma fold_add_values:
  "map_of (fold add_pair (map (query_piece k) vs) m) j =
     (if j = k \<and> vs \<noteq> [] then Some ((case map_of m k of None \<Rightarrow> [] | Some ws \<Rightarrow> ws) @ vs) else map_of m j)"
  by (induction vs arbitrary: m) (auto simp: add_query_piece split: option.splits)

lemma fold_add_entries:
  assumes "distinct (map fst es)"
  shows "map_of (fold add_pair (concat (map (\<lambda>(k, vs). map (query_piece k) vs) es)) m) j =
     (case map_of es j of
        Some (v # vs) \<Rightarrow> Some ((case map_of m j of None \<Rightarrow> [] | Some ws \<Rightarrow> ws) @ v # vs)
      | _ \<Rightarrow> map_of m j)"
  using assms
proof (induction es arbitrary: m)
  case Nil
  then show ?case by simp
next
  case (Cons e es)
  obtain k vs where e: "e = (k, vs)" by (cases e)
  with Cons.prems have d: "distinct (map fst es)" "map_of es k = None" by (auto simp: map_of_eq_None_iff)
  have step: "fold add_pair (concat (map (\<lambda>(k, vs). map (query_piece k) vs) ((k, vs) # es))) m =
      fold add_pair (concat (map (\<lambda>(k, vs). map (query_piece k) vs) es))
        (fold add_pair (map (query_piece k) vs) m)"
    by simp
  show ?case
    unfolding e step Cons.IH [OF d(1)] fold_add_values using d(2)
    by (auto split: option.splits list.splits)
qed

text \<open>Encoding and parsing again keeps every key that has values.\<close>

lemma parse_query_encode:
  assumes "distinct (map fst m)"
  shows "map_of (parse_query (query_encode m)) k =
     (case map_of m k of Some (v # vs) \<Rightarrow> Some (v # vs) | _ \<Rightarrow> None)"
proof -
  have d: "distinct (map fst (sort_key fst m))" using assms by (simp add: distinct_map)
  have "map_of (sort_key fst m) k = map_of m k"
    using assms d by (metis map_of_inject_set set_sort)
  then show ?thesis
    unfolding parse_query_pieces query_pieces_eq fold_add_entries [OF d] by (simp cong: option.case_cong list.case_cong)
qed

section \<open>Printing and parsing absolute URLs\<close>

definition scheme_char :: "char \<Rightarrow> bool" where
  "scheme_char c \<longleftrightarrow> is_letter c \<or> is_digit c \<or> c \<in> set ''+-.''"

definition scheme_ok :: "string \<Rightarrow> bool" where
  "scheme_ok s \<longleftrightarrow> s \<noteq> [] \<and> is_letter (hd s) \<and> list_all scheme_char s"

definition url_byte :: "char \<Rightarrow> bool" where
  "url_byte c \<longleftrightarrow> \<not> is_ctl c \<and> c \<noteq> CHR ''#'' \<and> c \<noteq> CHR ''?''"

text \<open>
  An absolute URL with a host name, as parsing leaves it: no user, no literal address.
\<close>

definition url_ok :: "url \<Rightarrow> bool" where
  "url_ok u \<longleftrightarrow> scheme_ok (u_Scheme u) \<and> map lower_char (u_Scheme u) = u_Scheme u \<and> u_Opaque u = []
     \<and> u_User u = None \<and> u_Host u \<noteq> [] \<and> CHR ''['' \<notin> set (u_Host u)
     \<and> list_all (writable EncodeHost) (u_Host u)
     \<and> (case cut CHR '':'' (u_Host u) of (_, port, found) \<Rightarrow> found \<longrightarrow> list_all is_digit port)
     \<and> (escapedPath u = [] \<or> hd (escapedPath u) = CHR ''/'')
     \<and> list_all url_byte (escapedPath u)
     \<and> unescape EncodePath (escapedPath u) = Some (u_Path u)
     \<and> unescape EncodeFragment (escapedFragment u) = Some (u_Fragment u)"

lemma letter_not_colon: "scheme_char c \<Longrightarrow> c \<noteq> CHR '':''"
  by (auto simp: scheme_char_def is_letter_def is_alnum_def is_digit_def)

lemma scheme_from_rest:
  "list_all scheme_char s \<Longrightarrow> scheme_from False acc whole (s @ CHR '':'' # rest) = Some (acc @ s, rest)"
proof (induction s arbitrary: acc)
  case Nil
  then show ?case by (simp add: is_letter_def is_alnum_def is_digit_def)
next
  case (Cons c s)
  then show ?case by (auto simp: scheme_char_def)
qed

lemma getScheme_scheme:
  assumes "scheme_ok s"
  shows "getScheme (s @ CHR '':'' # rest) = Some (s, rest)"
proof -
  from assms obtain c cs where s: "s = c # cs" "is_letter c" "list_all scheme_char cs"
    by (cases s) (auto simp: scheme_ok_def)
  then show ?thesis by (simp add: getScheme_def scheme_from_rest)
qed

lemma scheme_from_chars:
  "scheme_from first acc whole s = Some (sch, rest) \<Longrightarrow> sch \<noteq> [] \<Longrightarrow> list_all scheme_char acc \<Longrightarrow>
   (first \<Longrightarrow> acc = []) \<Longrightarrow> (acc \<noteq> [] \<Longrightarrow> is_letter (hd acc)) \<Longrightarrow> (\<not> first \<Longrightarrow> acc \<noteq> []) \<Longrightarrow> scheme_ok sch"
proof (induction first acc whole s rule: scheme_from.induct)
  case (1 first acc whole)
  then show ?case by simp
next
  case (2 first acc whole c s)
  show ?case
  proof (cases "is_letter c")
    case True
    with 2 show ?thesis by (cases acc) (simp_all add: scheme_char_def)
  next
    case False
    with 2 show ?thesis
      by (cases acc) (auto simp: scheme_char_def scheme_ok_def list_all_iff split: if_splits)
  qed
qed

lemma is_letter_iff:
  "is_letter c \<longleftrightarrow> (65 \<le> (of_char c :: nat) \<and> (of_char c :: nat) \<le> 90)
     \<or> (97 \<le> (of_char c :: nat) \<and> (of_char c :: nat) \<le> 122)"
  unfolding is_letter_def is_alnum_def is_digit_def Let_def by linarith

lemma lower_scheme:
  "scheme_ok s \<Longrightarrow> scheme_ok (map lower_char s)"
  "map lower_char (map lower_char s) = map lower_char s"
proof -
  have o0: "lower_char c = c" if "\<not> (65 \<le> (of_char c :: nat) \<and> (of_char c :: nat) \<le> 90)" for c
    using that by (simp only: lower_char_def Let_def if_False)
  have u: "(of_char (lower_char c) :: nat) = of_char c + 32"
    if "65 \<le> (of_char c :: nat)" "(of_char c :: nat) \<le> 90" for c
    using that by (simp add: lower_char_def Let_def)
  have l: "is_letter (lower_char c)" if "is_letter c" for c
  proof (cases "65 \<le> (of_char c :: nat) \<and> (of_char c :: nat) \<le> 90")
    case True
    then have "97 \<le> (of_char (lower_char c) :: nat) \<and> (of_char (lower_char c) :: nat) \<le> 122"
      using u [of c] by linarith
    then show ?thesis unfolding is_letter_iff by blast
  next
    case False
    from o0 [OF this] that show ?thesis by simp
  qed
  have o: "lower_char c = c" if "\<not> is_letter c" for c
    by (rule o0) (use that in \<open>simp add: is_letter_iff\<close>)
  have "scheme_char c \<Longrightarrow> scheme_char (lower_char c)" for c
    using l [of c] o [of c] by (cases "is_letter c") (auto simp: scheme_char_def)
  with l show "scheme_ok s \<Longrightarrow> scheme_ok (map lower_char s)"
    by (auto simp: scheme_ok_def list_all_iff hd_map)
  have "lower_char (lower_char c) = lower_char c" for c
    by (cases "65 \<le> (of_char c :: nat) \<and> (of_char c :: nat) \<le> 90")
      (use u [of c] o0 in auto)
  then show "map lower_char (map lower_char s) = map lower_char s" by simp
qed

lemma unescaped_char:
  assumes "\<not> shouldEscape c mode"
  shows "is_alnum c \<or> c \<in> host_marks \<or> c \<in> unreserved_marks \<or> c \<in> reserved_marks \<or> c \<in> fragment_marks"
  using assms unfolding shouldEscape_def by (auto split: if_splits)

lemma marks_range:
  "c \<in> host_marks \<or> c \<in> unreserved_marks \<or> c \<in> reserved_marks \<or> c \<in> fragment_marks \<Longrightarrow>
     33 \<le> (of_char c :: nat) \<and> (of_char c :: nat) \<le> 126"
  unfolding mark_defs by auto

lemma ctl_escapes:
  assumes "is_ctl c"
  shows "shouldEscape c mode"
proof (rule ccontr)
  assume "\<not> shouldEscape c mode"
  from unescaped_char [OF this] have "33 \<le> (of_char c :: nat) \<and> (of_char c :: nat) \<le> 126"
  proof
    assume "is_alnum c"
    then show ?thesis unfolding is_alnum_def Let_def by linarith
  qed (rule marks_range)
  with assms show False unfolding is_ctl_def by linarith
qed

lemma hash_escapes [simp]: "shouldEscape CHR ''#'' EncodePath" "shouldEscape CHR ''#'' EncodeHost"
  "shouldEscape CHR ''?'' EncodePath" "shouldEscape CHR ''?'' EncodeHost" "shouldEscape CHR ''/'' EncodeHost"
  "shouldEscape CHR ''@'' EncodeHost"
  by (simp_all add: shouldEscape_def mark_defs is_alnum_def)

lemma percent_byte: "\<not> is_ctl CHR ''%''"
  by (simp add: is_ctl_def)

lemma escape_url_byte:
  assumes "c \<in> set (escape mode s)" "mode = EncodePath \<or> mode = EncodeHost"
  shows "url_byte c"
proof -
  have "c = CHR ''%'' \<or> \<not> shouldEscape c mode"
    using escape_range [OF assms(1)] assms(2) by auto
  then show ?thesis
    using ctl_escapes [of c mode] percent_byte assms(2) by (auto simp: url_byte_def)
qed

lemma escape_bytes: "mode = EncodePath \<or> mode = EncodeHost \<Longrightarrow> list_all url_byte (escape mode s)"
  unfolding list_all_iff using escape_url_byte by blast

lemma escape_host_no_slash: "CHR ''/'' \<notin> set (escape EncodeHost h)" "CHR ''@'' \<notin> set (escape EncodeHost h)"
  by (rule escape_avoids; simp)+

lemma escape_new: "d \<in> set (escape mode s) \<Longrightarrow> d \<in> set s \<or> d = CHR ''%'' \<or> d = CHR ''+'' \<or> is_alnum d"
  using upper_hex_alnum by (induction s) (auto simp: escape_char_def split: if_splits)

lemma escape_host_bracket: "CHR ''['' \<notin> set h \<Longrightarrow> CHR ''['' \<notin> set (escape EncodeHost h)"
  by (auto dest!: escape_new simp: is_alnum_def)

lemma digit_escape: "list_all is_digit s \<Longrightarrow> escape mode s = s"
  by (induction s) (auto simp: escape_char_def shouldEscape_def mark_defs is_alnum_def is_digit_def)

lemma escape_host_colon: "CHR '':'' \<notin> set h \<Longrightarrow> CHR '':'' \<notin> set (escape EncodeHost h)"
  by (auto dest!: escape_new simp: is_alnum_def)

lemma parse_escaped_host:
  assumes "CHR ''['' \<notin> set h" "list_all (writable EncodeHost) h"
    and "case cut CHR '':'' h of (_, port, found) \<Rightarrow> found \<longrightarrow> list_all is_digit port"
  shows "parseHost (escape EncodeHost h) = Some h"
proof -
  obtain a p f where c: "cut CHR '':'' h = (a, p, f)" by (cases "cut CHR '':'' h")
  have "case cut CHR '':'' (escape EncodeHost h) of (_, port, found) \<Rightarrow> found \<longrightarrow> list_all is_digit port"
  proof (cases f)
    case True
    with c have h: "h = a @ CHR '':'' # p" "CHR '':'' \<notin> set a" by (auto dest: cut_found)
    from assms(3) c True have p: "list_all is_digit p" by simp
    have "escape EncodeHost h = escape EncodeHost a @ CHR '':'' # p"
      using p by (simp add: h(1) digit_escape) (simp add: escape_char_def shouldEscape_def mark_defs is_alnum_def)
    with escape_host_colon [OF h(2)] p show ?thesis by (simp add: cut_append)
  next
    case False
    with c have "CHR '':'' \<notin> set h" by (auto dest: cut_missing)
    then show ?thesis using escape_host_colon by (simp add: cut_notin)
  qed
  then show ?thesis
    using escape_host_bracket [OF assms(1)] unescape_escape [OF assms(2)]
    by (auto simp: parseHost_def split: prod.splits)
qed

lemma escaped_frame [simp]:
  "escapedPath (u\<lparr>u_RawQuery := q\<rparr>) = escapedPath u"
  "escapedFragment (u\<lparr>u_RawQuery := q\<rparr>) = escapedFragment u"
  by (simp_all add: escapedPath_def escapedFragment_def)

text \<open>The printed query, with its question mark if there is one.\<close>

definition query_part :: "url \<Rightarrow> string" where
  "query_part u = (if u_ForceQuery u \<or> u_RawQuery u \<noteq> [] then CHR ''?'' # u_RawQuery u else [])"

lemma url_string_ok:
  assumes "url_ok u"
  shows "url_string u =
    u_Scheme u @ CHR '':'' # ''//'' @ escape EncodeHost (u_Host u) @ escapedPath u @ query_part u
    @ (if u_Fragment u \<noteq> [] then CHR ''#'' # escapedFragment u else [])"
  using assms by (auto simp: url_string_def url_prefix_def url_ok_def scheme_ok_def query_part_def Let_def)

lemma url_ok_query [simp]: "url_ok (u\<lparr>u_RawQuery := q\<rparr>) = url_ok u"
  by (simp add: url_ok_def)

lemma url_bytes_scheme: "list_all scheme_char s \<Longrightarrow> list_all url_byte s"
proof -
  have "url_byte c" if "scheme_char c" for c
  proof -
    from that have "\<not> shouldEscape c EncodePath"
      by (auto simp: scheme_char_def is_letter_def shouldEscape_def mark_defs is_digit_def is_alnum_def)
    with ctl_escapes [of c EncodePath] show ?thesis by (auto simp: url_byte_def)
  qed
  then show "list_all scheme_char s \<Longrightarrow> list_all url_byte s" by (simp add: list_all_iff)
qed

lemma url_byteD: "list_all url_byte s \<Longrightarrow> CHR ''#'' \<notin> set s \<and> CHR ''?'' \<notin> set s \<and> \<not> list_ex is_ctl s"
  by (induction s) (auto simp: url_byte_def)

lemma slash_bytes: "url_byte CHR ''/''" "url_byte CHR '':''"
  by (simp_all add: url_byte_def is_ctl_def)

definition part_byte :: "char \<Rightarrow> bool" where
  "part_byte c \<longleftrightarrow> \<not> is_ctl c \<and> c \<noteq> CHR ''#''"

lemma part_byte_marks: "part_byte CHR ''?''" "part_byte CHR '':''" "part_byte CHR ''/''"
  by (simp_all add: part_byte_def is_ctl_def)

lemma url_byte_part: "list_all url_byte s \<Longrightarrow> list_all part_byte s"
  by (auto simp: list_all_iff url_byte_def part_byte_def)

lemma part_byteD: "list_all part_byte s \<Longrightarrow> CHR ''#'' \<notin> set s" "list_all part_byte s \<Longrightarrow> \<not> list_ex is_ctl s"
  by (auto simp: list_all_iff list_ex_iff part_byte_def)

lemma parseQueryPart_query:
  assumes "CHR ''?'' \<notin> set a" "v = u\<lparr>u_ForceQuery := fq, u_RawQuery := q\<rparr>" "\<not> u_ForceQuery u" "u_RawQuery u = []"
  shows "\<exists>fq. parseQueryPart (a @ query_part v) u = (a, u\<lparr>u_ForceQuery := fq, u_RawQuery := q\<rparr>)"
proof -
  have self: "u\<lparr>u_RawQuery := x\<rparr> = u\<lparr>u_ForceQuery := False, u_RawQuery := x\<rparr>"
    "(u\<lparr>u_ForceQuery := True\<rparr>)\<lparr>u_RawQuery := []\<rparr> = u\<lparr>u_ForceQuery := True\<rparr>" for x
    using assms(3,4) by (cases u, simp)+
  have a0: "count_list a CHR ''?'' = 0" "\<not> ends_with a ''?''"
    using assms(1) by (simp add: count_list_0_iff, cases a rule: rev_cases) (auto simp: ends_with_def)
  consider "q \<noteq> []" | "q = []" "fq" | "q = []" "\<not> fq" by blast
  then show ?thesis
  proof cases
    case 1
    then obtain q' c where q: "q = q' @ [c]" by (cases q rule: rev_cases) auto
    have "\<not> (ends_with (a @ CHR ''?'' # q) ''?'' \<and> count_list (a @ CHR ''?'' # q) CHR ''?'' = 1)"
      using a0(1) by (auto simp: ends_with_def q)
    then have "parseQueryPart (a @ CHR ''?'' # q) u = (a, u\<lparr>u_RawQuery := q\<rparr>)"
      using assms(1) by (auto simp: parseQueryPart_def cut_append)
    then show ?thesis using 1 by (intro exI [of _ False]) (simp add: query_part_def assms(2) self)
  next
    case 2
    have "ends_with (a @ ''?'') ''?''" "count_list (a @ ''?'') CHR ''?'' = 1"
      using a0(1) by (simp_all add: ends_with_def)
    then have "parseQueryPart (a @ ''?'') u = (a, u\<lparr>u_ForceQuery := True\<rparr>)"
      by (simp add: parseQueryPart_def)
    then show ?thesis using 2 by (intro exI [of _ True]) (simp add: query_part_def assms(2,4) self)
  next
    case 3
    have "parseQueryPart a u = (a, u\<lparr>u_RawQuery := []\<rparr>)"
      using a0 assms(1) by (simp add: parseQueryPart_def cut_notin)
    then show ?thesis using 3 by (intro exI [of _ False]) (simp add: query_part_def assms(2) self)
  qed
qed

lemma parseHier_host:
  assumes "u_Scheme u \<noteq> []" "parseHost eh = Some h" "CHR ''/'' \<notin> set eh" "CHR ''@'' \<notin> set eh"
    "p = [] \<or> hd p = CHR ''/''" "unescape EncodePath p = Some path"
  shows "parseHier (''//'' @ eh @ p) u =
     Some (u\<lparr>u_User := None, u_Host := h, u_Path := path,
             u_RawPath := (if escape EncodePath path = p then [] else p)\<rparr>)"
proof -
  have "fst (cut CHR ''/'' (eh @ p)) = eh"
    using assms(3,5) by (cases p) (simp_all add: cut_notin cut_append)
  moreover have "cut_last CHR ''@'' eh = None" using assms(4) by (simp only: cut_last_None not_False_eq_True)
  with assms(2) have "parseAuthority eh = Some (None, h)" by (simp add: parseAuthority_def)
  ultimately show ?thesis
    using assms(1,6) by (simp add: parseHier_def setPath_def Let_def)
qed

lemma url_parse_string:
  assumes ok: "url_ok u" and q: "list_all part_byte (u_RawQuery u)"
  shows "\<exists>u'. url_parse (url_string u) = Some u'
    \<and> u_Scheme u' = u_Scheme u \<and> u_Host u' = u_Host u \<and> u_Path u' = u_Path u \<and> u_User u' = None
    \<and> u_RawQuery u' = u_RawQuery u \<and> u_Fragment u' = u_Fragment u \<and> u_Opaque u' = []
    \<and> u_RawPath u' = (if escape EncodePath (u_Path u) = escapedPath u then [] else escapedPath u)"
proof -
  let ?s = "u_Scheme u" and ?eh = "escape EncodeHost (u_Host u)" and ?p = "escapedPath u"
  let ?rest = "''//'' @ ?eh @ ?p"
  let ?q = "u_RawQuery u"
  let ?r = "?s @ CHR '':'' # ?rest @ query_part u"
  note ok' = ok [unfolded url_ok_def]
  have s: "scheme_ok ?s" "list_all url_byte ?s" "?s \<noteq> []"
    using ok' url_bytes_scheme by (auto simp: scheme_ok_def)
  have eh: "list_all url_byte ?eh" by (simp add: escape_bytes)
  have p: "list_all url_byte ?p" "?p = [] \<or> hd ?p = CHR ''/''" "unescape EncodePath ?p = Some (u_Path u)"
    using ok' by simp_all
  have host: "parseHost ?eh = Some (u_Host u)"
    using ok' by (intro parse_escaped_host) simp_all
  have rest: "list_all url_byte ?rest" using eh p(1) slash_bytes by simp
  have "list_all part_byte ?r"
    using url_byte_part [OF s(2)] url_byte_part [OF rest] q by (simp add: part_byte_marks query_part_def)
  then have r: "CHR ''#'' \<notin> set ?r" "\<not> list_ex is_ctl ?r" by (rule part_byteD)+
  let ?e = "empty_url\<lparr>u_Scheme := map lower_char ?s\<rparr>"
  have "query_part u = query_part (?e\<lparr>u_ForceQuery := u_ForceQuery u, u_RawQuery := ?q\<rparr>)"
    by (simp add: query_part_def)
  then obtain fq where fq: "parseQueryPart (?rest @ query_part u) ?e =
      (?rest, ?e\<lparr>u_ForceQuery := fq, u_RawQuery := ?q\<rparr>)"
    using parseQueryPart_query [where a = ?rest and u = ?e and fq = "u_ForceQuery u" and q = ?q, OF _ refl]
      url_byteD [OF rest]
    by (auto simp: empty_url_def)
  let ?u0 = "?e\<lparr>u_ForceQuery := fq, u_RawQuery := ?q\<rparr>"
  let ?u1 = "?u0\<lparr>u_User := None, u_Host := u_Host u, u_Path := u_Path u,
      u_RawPath := (if escape EncodePath (u_Path u) = ?p then [] else ?p)\<rparr>"
  have "?r \<noteq> ''*''" using s(3) by (cases ?s) auto
  moreover have "parseHier ?rest ?u0 = Some ?u1"
    by (rule parseHier_host [OF _ host escape_host_no_slash p(2,3)]) (use s(3) in simp)
  ultimately have nf: "parse_nofrag ?r = Some ?u1"
    using getScheme_scheme [OF s(1), of "?rest @ query_part u"] r(2) fq
    by (simp add: parse_nofrag_def)
  have str: "url_string u =
      ?r @ (if u_Fragment u \<noteq> [] then CHR ''#'' # escapedFragment u else [])"
    by (simp add: url_string_ok [OF ok])
  have low: "map lower_char ?s = ?s" using ok' by simp
  show ?thesis
  proof (cases "u_Fragment u = []")
    case True
    with str nf r(1) low show ?thesis
      by (simp add: url_parse_def cut_notin empty_url_def)
  next
    case False
    with ok' have f: "unescape EncodeFragment (escapedFragment u) = Some (u_Fragment u)"
      "escapedFragment u \<noteq> []" by auto
    have "url_string u = ?r @ CHR ''#'' # escapedFragment u"
      using str False by simp
    then have "url_parse (url_string u) = setFragment (escapedFragment u) ?u1"
      using nf f(2) cut_append [OF r(1), of "escapedFragment u"] by (simp add: url_parse_def)
    with f(1) low show ?thesis by (simp add: setFragment_def empty_url_def)
  qed
qed

section \<open>What parsing yields\<close>

lemma escapedPath_cases:
  obtains "escapedPath u = u_RawPath u" "u_RawPath u \<noteq> []"
  | "escapedPath u = ''*''" "u_Path u = ''*''"
  | "escapedPath u = escape EncodePath (u_Path u)"
proof -
  have "escapedPath u = u_RawPath u \<and> u_RawPath u \<noteq> [] \<or> escapedPath u = ''*'' \<and> u_Path u = ''*''
      \<or> escapedPath u = escape EncodePath (u_Path u)"
    by (simp add: escapedPath_def)
  with that show thesis by blast
qed

lemma setPath_ok:
  assumes "setPath p u = Some u'" "list_all url_byte p"
  shows "unescape EncodePath (escapedPath u') = Some (u_Path u') \<and> list_all url_byte (escapedPath u')
    \<and> (p = [] \<or> hd p = CHR ''/'' \<longrightarrow> escapedPath u' = [] \<or> hd (escapedPath u') = CHR ''/'')
    \<and> u' = u\<lparr>u_Path := u_Path u', u_RawPath := u_RawPath u'\<rparr>"
proof -
  from assms(1) obtain path where path: "unescape EncodePath p = Some path"
    "u' = u\<lparr>u_Path := path, u_RawPath := (if escape EncodePath path = p then [] else p)\<rparr>"
    by (auto simp: setPath_def split: option.splits)
  have esc: "unescape EncodePath (escape EncodePath path) = Some path" by (simp add: unescape_escape)
  have eb: "list_all url_byte (escape EncodePath path)" by (simp add: escape_bytes)
  have hd: "escape EncodePath path = [] \<or> hd (escape EncodePath path) = CHR ''/''" if "p = [] \<or> hd p = CHR ''/''"
  proof (cases p)
    case Nil
    with path(1) show ?thesis by simp
  next
    case (Cons c s)
    with that path(1) obtain t where "path = CHR ''/'' # t" by (auto split: if_splits)
    then show ?thesis by (simp add: escape_char_def shouldEscape_def mark_defs is_alnum_def)
  qed
  have star: "unescape EncodePath ''*'' = Some ''*''" by simp
  have f: "u_Path u' = path" "u_RawPath u' = (if escape EncodePath path = p then [] else p)"
    using path(2) by simp_all
  have self: "u' = u\<lparr>u_Path := u_Path u', u_RawPath := u_RawPath u'\<rparr>" using path(2) by simp
  show ?thesis
  proof (cases rule: escapedPath_cases [of u'])
    case 1
    then have "escapedPath u' = p" using f(2) by (simp split: if_splits)
    with path(1) assms(2) f(1) self show ?thesis by simp
  next
    case 2
    have "p \<noteq> [] \<and> (hd p = CHR ''/'' \<longrightarrow> False)"
      using path(1) 2(2) f(1) by (cases p) (auto split: if_splits)
    moreover have "url_byte CHR ''*''" by (simp add: url_byte_def is_ctl_def)
    ultimately show ?thesis using 2 star self by simp
  next
    case 3
    with esc eb hd f(1) self show ?thesis by simp
  qed
qed

lemma setFragment_ok:
  assumes "setFragment f u = Some u'"
  shows "unescape EncodeFragment (escapedFragment u') = Some (u_Fragment u')"
    and "u_Scheme u' = u_Scheme u" "u_Opaque u' = u_Opaque u" "u_User u' = u_User u" "u_Host u' = u_Host u"
    and "u_Path u' = u_Path u" "escapedPath u' = escapedPath u" "u_RawQuery u' = u_RawQuery u"
proof -
  from assms obtain frag where f: "unescape EncodeFragment f = Some frag"
    "u' = u\<lparr>u_Fragment := frag, u_RawFragment := (if escape EncodeFragment frag = f then [] else f)\<rparr>"
    by (auto simp: setFragment_def split: option.splits)
  have "unescape EncodeFragment (escape EncodeFragment frag) = Some frag" by (simp add: unescape_escape)
  then show "unescape EncodeFragment (escapedFragment u') = Some (u_Fragment u')"
    using f by (simp add: escapedFragment_def)
  show "u_Scheme u' = u_Scheme u" "u_Opaque u' = u_Opaque u" "u_User u' = u_User u" "u_Host u' = u_Host u"
    "u_Path u' = u_Path u" "escapedPath u' = escapedPath u" "u_RawQuery u' = u_RawQuery u"
    by (simp_all add: f(2) escapedPath_def)
qed

lemma scheme_from_suffix:
  "scheme_from first acc whole s = Some (sch, rest) \<Longrightarrow> set s \<subseteq> set whole \<Longrightarrow> set rest \<subseteq> set whole"
  by (induction first acc whole s rule: scheme_from.induct) (auto split: if_splits)

lemma getScheme_parts:
  assumes "getScheme r = Some (sch, rest)"
  shows "set rest \<subseteq> set r" "sch \<noteq> [] \<Longrightarrow> scheme_ok sch"
  using assms scheme_from_suffix [of True "[]" r r sch rest] scheme_from_chars [of True "[]" r r sch rest]
  by (auto simp: getScheme_def)

lemma parseQueryPart_parts:
  assumes "parseQueryPart rest u = (rest', u')"
  shows "set rest' \<subseteq> set rest" "CHR ''?'' \<notin> set rest'"
    "u_Scheme u' = u_Scheme u" "u_Opaque u' = u_Opaque u" "u_User u' = u_User u" "u_Host u' = u_Host u"
    "u_Fragment u' = u_Fragment u" "u_RawFragment u' = u_RawFragment u"
proof -
  have "set rest' \<subseteq> set rest \<and> CHR ''?'' \<notin> set rest'"
  proof (cases "ends_with rest ''?'' \<and> count_list rest CHR ''?'' = 1")
    case True
    then obtain a where a: "rest = a @ ''?''"
      by (cases rest rule: rev_cases) (auto simp: ends_with_def)
    with True have "count_list a CHR ''?'' = 0" by simp
    with True a assms show ?thesis by (auto simp: parseQueryPart_def count_list_0_iff)
  next
    case False
    obtain a q f where c: "cut CHR ''?'' rest = (a, q, f)" by (cases "cut CHR ''?'' rest")
    with False assms have "rest' = a" by (auto simp: parseQueryPart_def)
    with c show ?thesis by (cases f) (auto dest: cut_found cut_missing)
  qed
  then show "set rest' \<subseteq> set rest" "CHR ''?'' \<notin> set rest'" by blast+
  show "u_Scheme u' = u_Scheme u" "u_Opaque u' = u_Opaque u" "u_User u' = u_User u" "u_Host u' = u_Host u"
    "u_Fragment u' = u_Fragment u" "u_RawFragment u' = u_RawFragment u"
    using assms by (auto simp: parseQueryPart_def split: if_splits prod.splits)
qed

text \<open>Unescaping a host name makes no colon, and leaves the port as it is.\<close>

lemma digit_alnum: "is_digit c \<Longrightarrow> is_alnum c"
  by (simp add: is_digit_def is_alnum_def)

lemma unescape_digits:
  assumes "list_all is_digit s"
  shows "unescape EncodeHost s = Some s"
proof -
  have "list_all (writable EncodeHost) s"
    using assms alnum_plain digit_alnum by (auto simp: list_all_iff writable_def)
  from unescape_escape [OF this] digit_escape [OF assms] show ?thesis by simp
qed

lemma unescape_host_port:
  assumes "unescape EncodeHost raw = Some h" "cut CHR '':'' raw = (a, p, f)" "f \<longrightarrow> list_all is_digit p"
  shows "case cut CHR '':'' h of (_, port, found) \<Rightarrow> found \<longrightarrow> list_all is_digit port"
  using assms
proof (induction "EncodeHost" raw arbitrary: h a p f rule: unescape.induct)
  case 1
  then show ?case by simp
next
  case (2 c s)
  show ?case
  proof (cases "c = CHR ''%''")
    case True
    with 2(3) obtain x1 x2 rest x y t where s: "s = x1 # x2 # rest" "unhex x1 = Some x" "unhex x2 = Some y"
      "percent_ok EncodeHost x y" "unescape EncodeHost rest = Some t" "h = char_of (16 * x + y) # t"
      by (auto split: list.splits option.splits if_splits)
    have "x < 16" "y < 16" using s(2,3) by (auto simp: unhex_def Let_def split: if_splits)
    then have "(of_char (char_of (16 * x + y) :: char) :: nat) = 16 * x + y" by simp
    moreover have "16 * x + y \<noteq> 58" using s(4) \<open>y < 16\<close> by (auto simp: percent_ok_def)
    moreover have "(of_char CHR '':'' :: nat) = 58" by simp
    ultimately have nc: "char_of (16 * x + y) \<noteq> CHR '':''" by metis
    have x: "x1 \<noteq> CHR '':''" "x2 \<noteq> CHR '':''" using s(2,3) by (auto simp: unhex_def)
    obtain a' p' f' where c': "cut CHR '':'' rest = (a', p', f')" by (cases "cut CHR '':'' rest")
    with 2(4) True s(1) x have "p = p'" "f = f'" by auto
    with 2(5) c' have "case cut CHR '':'' t of (_, port, found) \<Rightarrow> found \<longrightarrow> list_all is_digit port"
      by (intro 2(1) [OF True s(1) refl _ s(2,3) s(4) s(5) c']) auto
    with nc show ?thesis by (simp add: s(6) split: prod.splits)
  next
    case False
    with 2(3) obtain t where t: "unescape EncodeHost s = Some t" "h = c # t"
      "\<not> (of_char c < (128 :: nat) \<and> shouldEscape c EncodeHost)"
      by (auto split: if_splits)
    show ?thesis
    proof (cases "c = CHR '':''")
      case True
      with 2(4,5) have "list_all is_digit s" by simp
      with t(1) unescape_digits have "t = s" by simp
      with t(2) True \<open>list_all is_digit s\<close> show ?thesis by simp
    next
      case colon: False
      obtain a' p' f' where c': "cut CHR '':'' s = (a', p', f')" by (cases "cut CHR '':'' s")
      with 2(4) colon have "p = p'" "f = f'" by auto
      with 2(5) have "case cut CHR '':'' t of (_, port, found) \<Rightarrow> found \<longrightarrow> list_all is_digit port"
        by (intro 2(2) [OF False _ t(1) c']) (use t(3) in auto)
      with colon show ?thesis by (simp add: t(2) split: prod.splits)
    qed
  qed
qed

lemma plain_host_parts:
  assumes "parseHost raw = Some h" "CHR ''['' \<notin> set h"
  shows "list_all (writable EncodeHost) h"
    "case cut CHR '':'' h of (_, port, found) \<Rightarrow> found \<longrightarrow> list_all is_digit port"
proof -
  have nb: "CHR ''['' \<notin> set raw"
  proof
    assume "CHR ''['' \<in> set raw"
    with assms show False
      by (auto simp: parseHost_def split: list.splits if_splits option.splits prod.splits)
  qed
  obtain a p f where c: "cut CHR '':'' raw = (a, p, f)" by (cases "cut CHR '':'' raw")
  with assms(1) nb have u: "unescape EncodeHost raw = Some h" and p: "f \<longrightarrow> list_all is_digit p"
    by (auto simp: parseHost_def split: if_splits)
  show "list_all (writable EncodeHost) h" by (rule unescape_host_writable [OF u])
  show "case cut CHR '':'' h of (_, port, found) \<Rightarrow> found \<longrightarrow> list_all is_digit port"
    using u c p by (rule unescape_host_port)
qed

lemma parseHier_ok:
  assumes "parseHier rest u = Some u'" "u_Host u = []" "u_Host u' \<noteq> []" "u_User u' = None"
    "CHR ''['' \<notin> set (u_Host u')" "list_all url_byte rest"
  shows "list_all (writable EncodeHost) (u_Host u')
    \<and> (case cut CHR '':'' (u_Host u') of (_, port, found) \<Rightarrow> found \<longrightarrow> list_all is_digit port)
    \<and> (escapedPath u' = [] \<or> hd (escapedPath u') = CHR ''/'')
    \<and> list_all url_byte (escapedPath u') \<and> unescape EncodePath (escapedPath u') = Some (u_Path u')
    \<and> u_Scheme u' = u_Scheme u \<and> u_Opaque u' = u_Opaque u
    \<and> u_Fragment u' = u_Fragment u \<and> u_RawFragment u' = u_RawFragment u"
proof -
  have noauth: "u_Host v' = []" if "setPath p v = Some v'" "u_Host v = []" for p v v'
    using that by (auto simp: setPath_def split: option.splits)
  let ?auth = "fst (cut CHR ''/'' (drop 2 rest))"
  let ?path = "drop (length ?auth) (drop 2 rest)"
  obtain user host where a: "parseAuthority ?auth = Some (user, host)"
    "setPath ?path (u\<lparr>u_User := user, u_Host := host\<rparr>) = Some u'"
    using assms(1,2,3) noauth
    by (auto simp: parseHier_def Let_def split: if_splits option.splits prod.splits)
  have path: "?path = [] \<or> hd ?path = CHR ''/''" "list_all url_byte ?path"
  proof -
    obtain x y f where c: "cut CHR ''/'' (drop 2 rest) = (x, y, f)" by (cases "cut CHR ''/'' (drop 2 rest)")
    show "?path = [] \<or> hd ?path = CHR ''/''"
    proof (cases f)
      case True
      with c have "drop 2 rest = x @ CHR ''/'' # y" by (auto dest: cut_found)
      with c show ?thesis by (simp only: fst_conv append_eq_conv_conj) simp
    next
      case False
      with c have "drop 2 rest = x" by (auto dest: cut_missing)
      with c show ?thesis by (simp only: fst_conv) simp
    qed
    show "list_all url_byte ?path"
      using assms(6) by (auto simp: list_all_iff dest: in_set_dropD)
  qed
  note sp = setPath_ok [OF a(2) path(2)]
  have h: "u_User u' = user" "u_Host u' = host" "u_Scheme u' = u_Scheme u" "u_Opaque u' = u_Opaque u"
    "u_Fragment u' = u_Fragment u" "u_RawFragment u' = u_RawFragment u"
    using a(2) by (auto simp: setPath_def split: option.splits)
  have "parseHost ?auth = Some host"
    using a(1) h(1) assms(4) by (auto simp: parseAuthority_def split: option.splits prod.splits if_splits)
  from plain_host_parts [OF this] assms(5) h(2) sp path(1) h(3-) show ?thesis by auto
qed

lemma url_parse_ok:
  assumes "url_parse raw = Some u" "u_Scheme u \<noteq> []" "u_Host u \<noteq> []" "u_User u = None"
    "CHR ''['' \<notin> set (u_Host u)"
  shows "url_ok u"
proof -
  obtain r frag f where c: "cut CHR ''#'' raw = (r, frag, f)" by (cases "cut CHR ''#'' raw")
  have hash: "CHR ''#'' \<notin> set r" using c by (cases f) (auto dest: cut_found cut_missing)
  from assms(1) c obtain u0 where u0: "parse_nofrag r = Some u0"
    and u: "u = u0 \<and> frag = [] \<or> setFragment frag u0 = Some u"
    by (auto simp: url_parse_def split: option.splits if_splits)
  have same: "u_Scheme u0 = u_Scheme u" "u_Opaque u0 = u_Opaque u" "u_User u0 = u_User u" "u_Host u0 = u_Host u"
    "u_Path u0 = u_Path u" "escapedPath u0 = escapedPath u"
    using u setFragment_ok [of frag u0 u] by auto
  from u0 assms(3) same(4) have r: "\<not> list_ex is_ctl r" "r \<noteq> ''*''"
    by (auto simp: parse_nofrag_def empty_url_def split: if_splits)
  from u0 r obtain sch rest rest' v where p: "getScheme r = Some (sch, rest)"
    "parseQueryPart rest (empty_url\<lparr>u_Scheme := map lower_char sch\<rparr>) = (rest', v)"
    "parseHier rest' v = Some u0"
    by (auto simp: parse_nofrag_def split: if_splits option.splits prod.splits)
  note q = parseQueryPart_parts [OF p(2)]
  have "set rest' \<subseteq> set r" using q(1) getScheme_parts(1) [OF p(1)] by blast
  then have "list_all url_byte rest'"
    using q(2) hash r(1) by (auto simp: list_all_iff list_ex_iff url_byte_def)
  note hier = parseHier_ok [OF p(3) _ _ _ _ this]
  have hier: "list_all (writable EncodeHost) (u_Host u)
    \<and> (case cut CHR '':'' (u_Host u) of (_, port, found) \<Rightarrow> found \<longrightarrow> list_all is_digit port)
    \<and> (escapedPath u = [] \<or> hd (escapedPath u) = CHR ''/'')
    \<and> list_all url_byte (escapedPath u) \<and> unescape EncodePath (escapedPath u) = Some (u_Path u)
    \<and> u_Scheme u = map lower_char sch \<and> u_Opaque u = []
    \<and> u_Fragment u0 = [] \<and> u_RawFragment u0 = []"
    using hier q(3-) assms(3-5) same by (simp add: empty_url_def)
  then have "scheme_ok (u_Scheme u)"
    using assms(2) lower_scheme(1) getScheme_parts(2) [OF p(1)] by auto
  moreover have "map lower_char (u_Scheme u) = u_Scheme u" using hier lower_scheme(2) [of sch] by metis
  moreover have "unescape EncodeFragment (escapedFragment u) = Some (u_Fragment u)"
    using u hier setFragment_ok(1) [of frag u0 u] by (auto simp: escapedFragment_def)
  ultimately show ?thesis using hier assms(3-5) by (simp add: url_ok_def)
qed

section \<open>The values of a query\<close>

definition values_ok :: "queryValues \<Rightarrow> bool" where
  "values_ok m \<longleftrightarrow> distinct (map fst m) \<and> (\<forall>kv \<in> set m. snd kv \<noteq> [])"

lemma values_ok_update: "values_ok m \<Longrightarrow> vs \<noteq> [] \<Longrightarrow> values_ok (AList.update k vs m)"
proof -
  have "set (AList.update k vs m) \<subseteq> insert (k, vs) (set m)" by (induction m) auto
  moreover assume "values_ok m" "vs \<noteq> []"
  ultimately show ?thesis by (auto simp: values_ok_def distinct_update)
qed

lemma values_ok_parse: "values_ok (parse_query q)"
proof -
  have "values_ok m \<Longrightarrow> values_ok (fold add_pair ps m)" for ps m
  proof (induction ps arbitrary: m)
    case (Cons p ps)
    have "values_ok (add_pair p m)"
      using Cons.prems by (auto simp: add_pair_def values_ok_update split: prod.splits option.splits)
    with Cons.IH show ?case by simp
  qed simp
  moreover have "values_ok []" by (simp add: values_ok_def)
  ultimately show ?thesis unfolding parse_query_def by blast
qed

lemma values_ok_nonempty: "values_ok m \<Longrightarrow> map_of m k \<noteq> Some []"
  by (auto simp: values_ok_def dest: map_of_SomeD)

lemma parse_query_encode_ok:
  assumes "values_ok m"
  shows "map_of (parse_query (query_encode m)) k = map_of m k"
  using parse_query_encode [of m k] values_ok_nonempty [OF assms, of k] assms
  by (auto simp: values_ok_def split: option.splits list.splits)

lemma escape_query_part: "list_all part_byte (escape EncodeQueryComponent s)"
proof -
  have "part_byte c" if "c \<in> set (escape EncodeQueryComponent s)" for c
  proof -
    have "c = CHR ''%'' \<or> c = CHR ''+'' \<or> \<not> shouldEscape c EncodeQueryComponent"
      using escape_range [OF that] by auto
    moreover have "part_byte CHR ''%''" "part_byte CHR ''+''" by (simp_all add: part_byte_def is_ctl_def)
    moreover have "c \<noteq> CHR ''#''" using that query_seps by auto
    ultimately show ?thesis using ctl_escapes [of c EncodeQueryComponent] by (auto simp: part_byte_def)
  qed
  then show ?thesis by (simp add: list_all_iff)
qed

lemma join_part: "\<forall>p \<in> set ps. list_all part_byte p \<Longrightarrow> part_byte c \<Longrightarrow> list_all part_byte (join_with c ps)"
  by (induction c ps rule: join_with.induct) simp_all

lemma query_encode_part: "list_all part_byte (query_encode m)"
  unfolding query_encode_def
  by (rule join_part)
    (auto simp: query_pieces_eq query_piece_def escape_query_part, simp_all add: part_byte_def is_ctl_def)

lemma query_encode_ne: "map_of m k = Some (v # vs) \<Longrightarrow> query_encode m \<noteq> []"
proof
  assume m: "map_of m k = Some (v # vs)" and e: "query_encode m = []"
  have "query_piece k v \<in> set (query_pieces m)"
    using map_of_SomeD [OF m] by (force simp: query_pieces_eq)
  with e have "query_piece k v = []"
    by (cases "query_pieces m" rule: remdups_adj.cases) (auto simp: query_encode_def)
  then show False by (simp add: query_piece_def)
qed

text \<open>The raw query of a parsed URL can be printed again.\<close>

lemma parseQueryPart_raw:
  assumes "parseQueryPart rest u = (rest', u')" "list_all part_byte rest" "list_all part_byte (u_RawQuery u)"
  shows "list_all part_byte (u_RawQuery u')"
proof -
  obtain a q f where c: "cut CHR ''?'' rest = (a, q, f)" by (cases "cut CHR ''?'' rest")
  have "list_all part_byte q"
    using c assms(2) by (cases f) (auto dest!: cut_found cut_missing)
  with c assms show ?thesis by (auto simp: parseQueryPart_def split: if_splits)
qed

lemma parseHier_raw: "parseHier rest u = Some u' \<Longrightarrow> u_RawQuery u' = u_RawQuery u"
  by (auto simp: parseHier_def setPath_def Let_def split: if_splits option.splits prod.splits)

lemma url_parse_raw:
  assumes "url_parse raw = Some u"
  shows "list_all part_byte (u_RawQuery u)"
proof -
  obtain r frag f where c: "cut CHR ''#'' raw = (r, frag, f)" by (cases "cut CHR ''#'' raw")
  have hash: "CHR ''#'' \<notin> set r" using c by (cases f) (auto dest: cut_found cut_missing)
  from assms c obtain u0 where u0: "parse_nofrag r = Some u0"
    and u: "u = u0 \<or> setFragment frag u0 = Some u"
    by (auto simp: url_parse_def split: option.splits if_splits)
  have same: "u_RawQuery u0 = u_RawQuery u" using u setFragment_ok(8) [of frag u0 u] by auto
  show ?thesis
  proof (cases "r = ''*''")
    case True
    with u0 same show ?thesis by (auto simp: parse_nofrag_def empty_url_def split: if_splits)
  next
    case False
    with u0 obtain sch rest rest' v where p: "\<not> list_ex is_ctl r" "getScheme r = Some (sch, rest)"
      "parseQueryPart rest (empty_url\<lparr>u_Scheme := map lower_char sch\<rparr>) = (rest', v)"
      "parseHier rest' v = Some u0"
      by (auto simp: parse_nofrag_def split: if_splits option.splits prod.splits)
    have "list_all part_byte rest"
      using getScheme_parts(1) [OF p(2)] hash p(1) by (auto simp: list_all_iff list_ex_iff part_byte_def)
    from parseQueryPart_raw [OF p(3) this] parseHier_raw [OF p(4)] same show ?thesis
      by (simp add: empty_url_def)
  qed
qed

lemma parseHier_rawpath:
  "parseHier rest u = Some u' \<Longrightarrow> u_RawPath u = [] \<Longrightarrow>
     u_RawPath u' = [] \<or> unescape EncodePath (u_RawPath u') = Some (u_Path u')"
  by (auto simp: parseHier_def setPath_def Let_def split: if_splits option.splits prod.splits)

lemma parseQueryPart_rawpath: "parseQueryPart rest u = (rest', u') \<Longrightarrow> u_RawPath u' = u_RawPath u"
  by (auto simp: parseQueryPart_def split: if_splits prod.splits)

lemma url_parse_rawpath:
  assumes "url_parse raw = Some u"
  shows "u_RawPath u = [] \<or> unescape EncodePath (u_RawPath u) = Some (u_Path u)"
proof -
  obtain r frag f where c: "cut CHR ''#'' raw = (r, frag, f)" by (cases "cut CHR ''#'' raw")
  from assms c obtain u0 where u0: "parse_nofrag r = Some u0"
    and u: "u = u0 \<or> setFragment frag u0 = Some u"
    by (auto simp: url_parse_def split: option.splits if_splits)
  have same: "u_RawPath u0 = u_RawPath u" "u_Path u0 = u_Path u"
    using u by (auto simp: setFragment_def split: option.splits)
  have "u_RawPath u0 = [] \<or> unescape EncodePath (u_RawPath u0) = Some (u_Path u0)"
  proof (cases "r = ''*''")
    case True
    with u0 show ?thesis by (auto simp: parse_nofrag_def empty_url_def split: if_splits)
  next
    case False
    with u0 obtain sch rest rest' v where p:
      "parseQueryPart rest (empty_url\<lparr>u_Scheme := map lower_char sch\<rparr>) = (rest', v)"
      "parseHier rest' v = Some u0"
      by (auto simp: parse_nofrag_def split: if_splits option.splits prod.splits)
    from parseHier_rawpath [OF p(2)] parseQueryPart_rawpath [OF p(1)] show ?thesis
      by (simp add: empty_url_def)
  qed
  with same show ?thesis by simp
qed

text \<open>A printed URL with another path is parsed as that path, if the path is absolute.\<close>

lemma url_parse_new_path:
  assumes "url_parse raw = Some u" "url_ok u" "p = CHR ''/'' # t" "p \<noteq> u_Path u"
  shows "\<exists>v. url_parse (url_string (u\<lparr>u_Path := p\<rparr>)) = Some v
    \<and> u_Scheme v = u_Scheme u \<and> u_Host v = u_Host u \<and> u_Path v = p \<and> u_User v = None
    \<and> u_RawQuery v = u_RawQuery u \<and> u_RawPath v = []"
proof -
  let ?w = "u\<lparr>u_Path := p\<rparr>"
  have ep: "escapedPath ?w = escape EncodePath p"
    using url_parse_rawpath [OF assms(1)] assms(3,4) by (auto simp: escapedPath_def)
  have hd: "hd (escape EncodePath p) = CHR ''/''"
    by (simp add: assms(3) escape_char_def shouldEscape_def mark_defs is_alnum_def)
  have "escapedFragment ?w = escapedFragment u" by (simp add: escapedFragment_def)
  then have "url_ok ?w"
    using assms(2) hd by (simp add: url_ok_def ep escape_bytes unescape_escape)
  from url_parse_string [OF this] url_parse_raw [OF assms(1)] ep show ?thesis by auto
qed

end
