(* ===== verification/Md5.thy ===== *)
theory Md5
  imports Sha256
begin

text \<open>
  \<open>crypto/md5\<close>'s \<open>Sum\<close> (RFC 1321) on machine words: the fake WOPI host derives a
  file's version from it.
\<close>

definition le_word :: "bytes \<Rightarrow> u32" where
  "le_word bs = be_word (rev bs)"

definition le_bytes4 :: "u32 \<Rightarrow> bytes" where
  "le_bytes4 w = rev (be_bytes4 w)"

definition le_bytes8 :: "u64 \<Rightarrow> bytes" where
  "le_bytes8 w = rev (be_bytes8 w)"

definition md5_k :: "u32 list" where
  "md5_k =
    [3614090360, 3905402710, 606105819, 3250441966, 4118548399, 1200080426, 2821735955,
     4249261313, 1770035416, 2336552879, 4294925233, 2304563134, 1804603682, 4254626195,
     2792965006, 1236535329, 4129170786, 3225465664, 643717713, 3921069994, 3593408605,
     38016083, 3634488961, 3889429448, 568446438, 3275163606, 4107603335, 1163531501,
     2850285829, 4243563512, 1735328473, 2368359562, 4294588738, 2272392833, 1839030562,
     4259657740, 2763975236, 1272893353, 4139469664, 3200236656, 681279174, 3936430074,
     3572445317, 76029189, 3654602809, 3873151461, 530742520, 3299628645, 4096336452,
     1126891415, 2878612391, 4237533241, 1700485571, 2399980690, 4293915773, 2240044497,
     1873313359, 4264355552, 2734768916, 1309151649, 4149444226, 3174756917, 718787259,
     3951481745]"

definition md5_shift :: "nat \<Rightarrow> nat" where
  "md5_shift i =
     (if i < 16 then [7, 12, 17, 22] else if i < 32 then [5, 9, 14, 20]
      else if i < 48 then [4, 11, 16, 23] else [6, 10, 15, 21]) ! (i mod 4)"

type_synonym md5_state = "u32 \<times> u32 \<times> u32 \<times> u32"

definition md5_init :: md5_state where
  "md5_init = (1732584193, 4023233417, 2562383102, 271733878)"

definition md5_pad :: "bytes \<Rightarrow> bytes" where
  "md5_pad m = m @ [char_of (128::nat)]
     @ replicate ((119 - length m mod 64) mod 64) (char_of (0::nat))
     @ le_bytes8 (word_of_int (8 * int (length m)))"

text \<open>Round \<open>i\<close>: which word of the block it takes, and how it mixes three state words.\<close>

definition md5_index :: "nat \<Rightarrow> nat" where
  "md5_index i =
     (if i < 16 then i else if i < 32 then 5 * i + 1 else if i < 48 then 3 * i + 5 else 7 * i) mod 16"

definition md5_mix :: "nat \<Rightarrow> u32 \<Rightarrow> u32 \<Rightarrow> u32 \<Rightarrow> u32" where
  "md5_mix i b c d =
     (if i < 16 then (b AND c) OR (NOT b AND d)
      else if i < 32 then (d AND b) OR (NOT d AND c)
      else if i < 48 then b XOR c XOR d
      else c XOR (b OR NOT d))"

definition md5_round :: "u32 list \<Rightarrow> md5_state \<Rightarrow> nat \<Rightarrow> md5_state" where
  "md5_round ws s i = (case s of (a, b, c, d) \<Rightarrow>
     (d, b + word_rotl (md5_shift i) (a + md5_mix i b c d + md5_k ! i + ws ! md5_index i), b, c))"

fun le_words :: "bytes \<Rightarrow> u32 list" where
  "le_words (a # b # c # d # bs) = le_word [a, b, c, d] # le_words bs"
| "le_words _ = []"

definition md5_block :: "md5_state \<Rightarrow> bytes \<Rightarrow> md5_state" where
  "md5_block s blk = (case (s, foldl (md5_round (le_words blk)) s [0..<64]) of
     ((a, b, c, d), (a', b', c', d')) \<Rightarrow> (a + a', b + b', c + c', d + d'))"

function md5_blocks :: "md5_state \<Rightarrow> bytes \<Rightarrow> md5_state" where
  "md5_blocks s m = (if m = [] then s else md5_blocks (md5_block s (take 64 m)) (drop 64 m))"
  by auto
termination by (relation "measure (\<lambda>(s, m). length m)") auto

declare md5_blocks.simps [simp del]

definition md5_sum :: "bytes \<Rightarrow> bytes" where
  "md5_sum m = (case md5_blocks md5_init (md5_pad m) of
     (a, b, c, d) \<Rightarrow> le_bytes4 a @ le_bytes4 b @ le_bytes4 c @ le_bytes4 d)"

lemma length_md5_sum [simp]: "length (md5_sum m) = 16"
  by (simp add: md5_sum_def le_bytes4_def split: prod.split)

text \<open>The RFC's test vector, evaluated by the kernel.\<close>

lemma md5_sum_abc: "hex_encode (md5_sum ''abc'') = ''900150983cd24fb0d6963f7d28e17f72''"
  by code_simp

end
