(* ===== verification/WopiHost.thy ===== *)
theory WopiHost
  imports Md5 WopiTypes
begin

text \<open>
  \<open>internal/wopitest/host.go\<close>: the in-memory WOPI host of the tests and of the
  \<open>--fake-host\<close> mode, which mimics La Suite Drive. Each handler is one function of
  the time, the request and the host; \<open>h.mu\<close> makes it one step. The response
  carries the headers and the body the client reads.
\<close>

section \<open>State\<close>

record hostUser =
  hu_ID :: string
  hu_Name :: string
  hu_CanWrite :: bool

record hostFile =
  hf_name :: string
  hf_ownerID :: string
  hf_content :: bytes
  hf_version :: string
  hf_lock :: string
  hf_lockExp :: time
  hf_putCount :: int

record tokenClaim =
  tk_userID :: string
  tk_fileID :: string

record wopiHost =
  wh_lockTTL :: duration
  wh_users :: "string \<rightharpoonup> hostUser"
  wh_files :: "string \<rightharpoonup> hostFile"
  wh_tokens :: "string \<rightharpoonup> tokenClaim"

record fileStats =
  st_Size :: int
  st_Version :: string
  st_PutCount :: int

definition contentVersion :: "bytes \<Rightarrow> string" where
  "contentVersion content = hex_encode (md5_sum content)"

definition newHost :: "duration \<Rightarrow> wopiHost" where
  "newHost lockTTL =
     \<lparr>wh_lockTTL = lockTTL, wh_users = Map.empty, wh_files = Map.empty, wh_tokens = Map.empty\<rparr>"

definition AddUser :: "hostUser \<Rightarrow> wopiHost \<Rightarrow> wopiHost" where
  "AddUser u h = h\<lparr>wh_users := (wh_users h)(hu_ID u \<mapsto> u)\<rparr>"

definition AddFile :: "string \<Rightarrow> string \<Rightarrow> string \<Rightarrow> bytes \<Rightarrow> wopiHost \<Rightarrow> wopiHost" where
  "AddFile fid name ownerID content h =
     h\<lparr>wh_files := (wh_files h)(fid \<mapsto>
        \<lparr>hf_name = name, hf_ownerID = ownerID, hf_content = content,
         hf_version = contentVersion content, hf_lock = [], hf_lockExp = zero_time,
         hf_putCount = 0\<rparr>)\<rparr>"

text \<open>The token is what \<open>randomToken\<close> drew.\<close>

definition MintToken :: "string \<Rightarrow> string \<Rightarrow> string \<Rightarrow> wopiHost \<Rightarrow> wopiHost" where
  "MintToken token userID fileID h =
     h\<lparr>wh_tokens := (wh_tokens h)(token \<mapsto> \<lparr>tk_userID = userID, tk_fileID = fileID\<rparr>)\<rparr>"

definition Stats :: "string \<Rightarrow> wopiHost \<Rightarrow> fileStats option" where
  "Stats fid h = (case wh_files h fid of
     None \<Rightarrow> None
   | Some f \<Rightarrow> Some \<lparr>st_Size = int (length (hf_content f)), st_Version = hf_version f,
                      st_PutCount = hf_putCount f\<rparr>)"

definition Content :: "string \<Rightarrow> wopiHost \<Rightarrow> bytes option" where
  "Content fid h = (case wh_files h fid of None \<Rightarrow> None | Some f \<Rightarrow> Some (hf_content f))"

section \<open>Requests and responses\<close>

text \<open>
  A request that the host's mux has routed: the path value \<open>id\<close>, whether the path
  ends in \<open>/contents\<close>, the headers and the query value the handlers read. A body of
  \<open>None\<close> is one that fails while it is read.
\<close>

record wopiReq =
  rq_method :: string
  rq_id :: string
  rq_contents :: bool
  rq_queryToken :: string
  rq_authorization :: string
  rq_override :: string
  rq_lock :: string
  rq_oldLock :: string
  rq_body :: "bytes option"

record wopiResp =
  rp_status :: int
  rp_lock :: string
  rp_version :: string
  rp_info :: "fileInfo option"
  rp_body :: bytes

definition resp :: "int \<Rightarrow> wopiResp" where
  "resp status = \<lparr>rp_status = status, rp_lock = [], rp_version = [], rp_info = None, rp_body = []\<rparr>"

definition has_prefix :: "string \<Rightarrow> string \<Rightarrow> bool" where
  "has_prefix s p \<longleftrightarrow> take (length p) s = p"

definition requestToken :: "wopiReq \<Rightarrow> string" where
  "requestToken r =
     (if rq_queryToken r \<noteq> [] then rq_queryToken r
      else if has_prefix (rq_authorization r) ''Bearer '' then drop 7 (rq_authorization r)
      else [])"

section \<open>Locks\<close>

text \<open>The file with an expired lock cleared, which \<open>effectiveLock\<close> leaves behind.\<close>

definition effectiveLock :: "time \<Rightarrow> hostFile \<Rightarrow> string \<times> hostFile" where
  "effectiveLock now f =
     (let f' = (if hf_lock f \<noteq> [] \<and> hf_lockExp f < now then f\<lparr>hf_lock := []\<rparr> else f)
      in (hf_lock f', f'))"

definition writeLockConflict :: "string \<Rightarrow> wopiResp" where
  "writeLockConflict currentLock = (resp StatusConflict)\<lparr>rp_lock := currentLock\<rparr>"

definition hostLock :: "duration \<Rightarrow> time \<Rightarrow> string \<Rightarrow> hostFile \<Rightarrow> wopiResp \<times> hostFile" where
  "hostLock ttl now newLock f0 =
     (case effectiveLock now f0 of (current, f) \<Rightarrow>
        if current \<noteq> [] \<and> current \<noteq> newLock then (writeLockConflict current, f)
        else (resp StatusOK, f\<lparr>hf_lock := newLock, hf_lockExp := now + ttl\<rparr>))"

definition hostGetLock :: "time \<Rightarrow> hostFile \<Rightarrow> wopiResp \<times> hostFile" where
  "hostGetLock now f0 =
     (case effectiveLock now f0 of (current, f) \<Rightarrow> ((resp StatusOK)\<lparr>rp_lock := current\<rparr>, f))"

definition hostRefreshLock :: "duration \<Rightarrow> time \<Rightarrow> string \<Rightarrow> hostFile \<Rightarrow> wopiResp \<times> hostFile" where
  "hostRefreshLock ttl now lock f0 =
     (case effectiveLock now f0 of (current, f) \<Rightarrow>
        if current = [] \<or> current \<noteq> lock then (writeLockConflict current, f)
        else (resp StatusOK, f\<lparr>hf_lockExp := now + ttl\<rparr>))"

definition hostUnlock :: "time \<Rightarrow> string \<Rightarrow> hostFile \<Rightarrow> wopiResp \<times> hostFile" where
  "hostUnlock now lock f0 =
     (case effectiveLock now f0 of (current, f) \<Rightarrow>
        if current = [] \<or> current \<noteq> lock then (writeLockConflict current, f)
        else (resp StatusOK, f\<lparr>hf_lock := []\<rparr>))"

definition hostUnlockAndRelock ::
  "duration \<Rightarrow> time \<Rightarrow> string \<Rightarrow> string \<Rightarrow> hostFile \<Rightarrow> wopiResp \<times> hostFile" where
  "hostUnlockAndRelock ttl now newLock oldLock f0 =
     (case effectiveLock now f0 of (current, f) \<Rightarrow>
        if current = [] \<or> current \<noteq> oldLock then (writeLockConflict current, f)
        else (resp StatusOK, f\<lparr>hf_lock := newLock, hf_lockExp := now + ttl\<rparr>))"

section \<open>Handlers\<close>

text \<open>The error response, or the user and the file of the request's token.\<close>

definition authenticateLocked ::
  "wopiReq \<Rightarrow> string \<Rightarrow> bool \<Rightarrow> wopiHost \<Rightarrow> wopiResp + hostUser \<times> hostFile" where
  "authenticateLocked r fileID needsWrite h =
     (let token = requestToken r
      in case wh_tokens h token of
           None \<Rightarrow> Inl (resp StatusForbidden)
         | Some claim \<Rightarrow>
             if token = [] \<or> tk_fileID claim \<noteq> fileID then Inl (resp StatusForbidden)
             else (case (wh_users h (tk_userID claim), wh_files h fileID) of
                     (Some user, Some f) \<Rightarrow>
                       if needsWrite \<and> \<not> hu_CanWrite user then Inl (resp StatusUnauthorized)
                       else Inr (user, f)
                   | _ \<Rightarrow> Inl (resp StatusForbidden)))"

definition set_file :: "string \<Rightarrow> hostFile \<Rightarrow> wopiHost \<Rightarrow> wopiHost" where
  "set_file fid f h = h\<lparr>wh_files := (wh_files h)(fid \<mapsto> f)\<rparr>"

definition handleCheckFileInfo :: "wopiReq \<Rightarrow> wopiHost \<Rightarrow> wopiResp \<times> wopiHost" where
  "handleCheckFileInfo r h =
     (case authenticateLocked r (rq_id r) False h of
        Inl e \<Rightarrow> (e, h)
      | Inr (user, f) \<Rightarrow>
          ((resp StatusOK)\<lparr>rp_info := Some
             \<lparr>fi_BaseFileName = hf_name f, fi_OwnerID = hf_ownerID f,
              fi_UserFriendlyName = hu_Name user, fi_Size = int (length (hf_content f)),
              fi_UserID = hu_ID user, fi_Version = hf_version f,
              fi_UserCanWrite = hu_CanWrite user, fi_ReadOnly = (\<not> hu_CanWrite user),
              fi_SupportsUpdate = True, fi_SupportsGetLock = True, fi_SupportsLocks = True\<rparr>\<rparr>, h))"

definition handleGetFile :: "wopiReq \<Rightarrow> wopiHost \<Rightarrow> wopiResp \<times> wopiHost" where
  "handleGetFile r h =
     (case authenticateLocked r (rq_id r) False h of
        Inl e \<Rightarrow> (e, h)
      | Inr (user, f) \<Rightarrow>
          ((resp StatusOK)\<lparr>rp_version := hf_version f, rp_body := hf_content f\<rparr>, h))"

definition handlePutFile :: "time \<Rightarrow> wopiReq \<Rightarrow> wopiHost \<Rightarrow> wopiResp \<times> wopiHost" where
  "handlePutFile now r h =
     (if rq_override r \<noteq> ''PUT'' then (resp StatusNotFound, h)
      else case authenticateLocked r (rq_id r) True h of
        Inl e \<Rightarrow> (e, h)
      | Inr (user, f0) \<Rightarrow>
          (case effectiveLock now f0 of (current, f) \<Rightarrow>
             let h' = set_file (rq_id r) f h;
                 lock = rq_lock r
             in if lock = [] \<and> (current \<noteq> [] \<or> length (hf_content f) \<noteq> 0)
                then (writeLockConflict current, h')
                else if lock \<noteq> [] \<and> lock \<noteq> current then (writeLockConflict current, h')
                else (case rq_body r of
                        None \<Rightarrow> (resp StatusInternalServerError, h')
                      | Some body \<Rightarrow>
                          ((resp StatusOK)\<lparr>rp_version := contentVersion body\<rparr>,
                           set_file (rq_id r)
                             (f\<lparr>hf_content := body, hf_version := contentVersion body,
                                hf_putCount := hf_putCount f + 1\<rparr>) h))))"

definition handleFileOp :: "time \<Rightarrow> wopiReq \<Rightarrow> wopiHost \<Rightarrow> wopiResp \<times> wopiHost" where
  "handleFileOp now r h =
     (case authenticateLocked r (rq_id r) True h of
        Inl e \<Rightarrow> (e, h)
      | Inr (user, f) \<Rightarrow>
          (let done = (\<lambda>(rp, f'). (rp, set_file (rq_id r) f' h))
           in if rq_override r = ''LOCK'' then
                (if rq_oldLock r \<noteq> []
                 then done (hostUnlockAndRelock (wh_lockTTL h) now (rq_lock r) (rq_oldLock r) f)
                 else done (hostLock (wh_lockTTL h) now (rq_lock r) f))
              else if rq_override r = ''GET_LOCK'' then done (hostGetLock now f)
              else if rq_override r = ''REFRESH_LOCK''
                then done (hostRefreshLock (wh_lockTTL h) now (rq_lock r) f)
              else if rq_override r = ''UNLOCK'' then done (hostUnlock now (rq_lock r) f)
              else (resp StatusNotFound, h)))"

text \<open>The four routes; a GET route also takes HEAD, and the mux answers other methods itself.\<close>

definition Handler :: "time \<Rightarrow> wopiReq \<Rightarrow> wopiHost \<Rightarrow> wopiResp \<times> wopiHost" where
  "Handler now r h =
     (if rq_method r = ''GET'' \<or> rq_method r = ''HEAD'' then
        (if rq_contents r then handleGetFile r h else handleCheckFileInfo r h)
      else if rq_method r = ''POST'' then
        (if rq_contents r then handlePutFile now r h else handleFileOp now r h)
      else (resp 405, h))"

definition HostLockValue :: "time \<Rightarrow> string \<Rightarrow> wopiHost \<Rightarrow> string option \<times> wopiHost" where
  "HostLockValue now fid h =
     (case wh_files h fid of
        None \<Rightarrow> (None, h)
      | Some f \<Rightarrow> (case effectiveLock now f of (current, f') \<Rightarrow> (Some current, set_file fid f' h)))"

section \<open>The lock state machine\<close>

text \<open>
  The contract: a file is free or held with a value, until a time. This is the
  abstraction of the two fields, in which an expired lock is no lock.
\<close>

definition held :: "time \<Rightarrow> hostFile \<Rightarrow> string option" where
  "held now f = (if hf_lock f \<noteq> [] \<and> now \<le> hf_lockExp f then Some (hf_lock f) else None)"

text \<open>What each operation answers and leaves, over the abstraction: status, lock header, holder.\<close>

definition spec_lock :: "string \<Rightarrow> string option \<Rightarrow> int \<times> string \<times> string option" where
  "spec_lock new cur =
     (case cur of
        Some l \<Rightarrow> if l = new then (200, [], Some new) else (409, l, Some l)
      | None \<Rightarrow> (200, [], if new = [] then None else Some new))"

definition spec_refresh :: "string \<Rightarrow> string option \<Rightarrow> int \<times> string \<times> string option" where
  "spec_refresh lock cur =
     (case cur of
        Some l \<Rightarrow> if l = lock then (200, [], Some l) else (409, l, Some l)
      | None \<Rightarrow> (409, [], None))"

definition spec_unlock :: "string \<Rightarrow> string option \<Rightarrow> int \<times> string \<times> string option" where
  "spec_unlock lock cur =
     (case cur of
        Some l \<Rightarrow> if l = lock then (200, [], None) else (409, l, Some l)
      | None \<Rightarrow> (409, [], None))"

definition spec_relock :: "string \<Rightarrow> string \<Rightarrow> string option \<Rightarrow> int \<times> string \<times> string option" where
  "spec_relock new old cur =
     (case cur of
        Some l \<Rightarrow> if l = old then (200, [], if new = [] then None else Some new) else (409, l, Some l)
      | None \<Rightarrow> (409, [], None))"

definition spec_view :: "time \<Rightarrow> wopiResp \<times> hostFile \<Rightarrow> int \<times> string \<times> string option" where
  "spec_view now rf = (rp_status (fst rf), rp_lock (fst rf), held now (snd rf))"

lemma resp_simps [simp]:
  "rp_status (resp st) = st" "rp_lock (resp st) = []" "rp_version (resp st) = []"
  "rp_status (writeLockConflict l) = 409" "rp_lock (writeLockConflict l) = l"
  by (simp_all add: resp_def writeLockConflict_def StatusConflict_def)

lemma effectiveLock_held:
  "fst (effectiveLock now f) = (case held now f of None \<Rightarrow> [] | Some l \<Rightarrow> l)"
  "held t (snd (effectiveLock now f)) = (if held now f = None then None else held t f)"
  by (auto simp: effectiveLock_def held_def Let_def)

lemmas lock_op_defs = hostLock_def hostGetLock_def hostRefreshLock_def hostUnlock_def
  hostUnlockAndRelock_def spec_view_def spec_lock_def spec_refresh_def spec_unlock_def spec_relock_def

text \<open>
  C18. The host's lock handling refines the contract: for every operation, at
  every time and with a lifetime that is not negative, the status, the lock header
  and the holder it leaves are those of the abstract machine.
\<close>

theorem lock_machine_refines:
  assumes "0 \<le> ttl"
  shows "spec_view now (hostLock ttl now new f) = spec_lock new (held now f)
    \<and> spec_view now (hostRefreshLock ttl now new f) = spec_refresh new (held now f)
    \<and> spec_view now (hostUnlock now new f) = spec_unlock new (held now f)
    \<and> spec_view now (hostUnlockAndRelock ttl now new old f) = spec_relock new old (held now f)
    \<and> spec_view now (hostGetLock now f) = (200, (case held now f of None \<Rightarrow> [] | Some l \<Rightarrow> l), held now f)"
  using assms
  by (simp add: lock_op_defs effectiveLock_def Let_def StatusOK_def)
    (auto simp: held_def writeLockConflict_def resp_def StatusConflict_def)

text \<open>A file as \<open>AddFile\<close> makes it, for the examples.\<close>

definition demoFile :: hostFile where
  "demoFile = \<lparr>hf_name = ''a.excalidraw'', hf_ownerID = ''o'', hf_content = ''old'', hf_version = ''v0'',
     hf_lock = ''mine'', hf_lockExp = 100, hf_putCount = 0\<rparr>"

theorem lock_machine_refines_witness:
  "spec_view 50 (hostLock 10 50 ''yours'' demoFile) = (409, ''mine'', Some ''mine'')
    \<and> spec_view 150 (hostLock 10 150 ''yours'' demoFile) = (200, [], Some ''yours'')"
  using lock_machine_refines [of 10 50 "''yours''" demoFile "[]"]
    lock_machine_refines [of 10 150 "''yours''" demoFile "[]"]
  by (simp add: spec_lock_def held_def demoFile_def)

section \<open>A held lock protects the file\<close>

text \<open>A request that does not name the lock in either header.\<close>

definition foreign_to :: "string \<Rightarrow> wopiReq \<Rightarrow> bool" where
  "foreign_to l r \<longleftrightarrow> rq_lock r \<noteq> l \<and> rq_oldLock r \<noteq> l"

definition protected_file :: "string \<Rightarrow> string \<Rightarrow> hostFile \<Rightarrow> wopiHost \<Rightarrow> bool" where
  "protected_file fid l f h \<longleftrightarrow> wh_files h fid = Some f \<and> hf_lock f = l \<and> l \<noteq> []"

lemma effectiveLock_unexpired:
  "hf_lock f = l \<Longrightarrow> now \<le> hf_lockExp f \<Longrightarrow> effectiveLock now f = (l, f)"
  by (simp add: effectiveLock_def Let_def)

lemma set_file_same: "wh_files h fid = Some f \<Longrightarrow> set_file fid f h = h"
  by (simp add: set_file_def fun_upd_idem)

lemma set_file_other: "fid \<noteq> gid \<Longrightarrow> wh_files (set_file gid f h) fid = wh_files h fid"
  by (simp add: set_file_def)

lemma authenticate_file:
  "authenticateLocked r fid w h = Inr (user, f) \<Longrightarrow> wh_files h fid = Some f"
  by (auto simp: authenticateLocked_def Let_def split: option.splits if_splits)

lemma Handler_protected:
  assumes "protected_file fid l f h" "now \<le> hf_lockExp f" "foreign_to l r"
  shows "protected_file fid l f (snd (Handler now r h))"
proof (cases "rq_id r = fid")
  case False
  have "wh_files (snd (Handler now r h)) fid = wh_files h fid"
    using False
    by (auto simp: Handler_def handleGetFile_def handleCheckFileInfo_def handlePutFile_def
        handleFileOp_def Let_def set_file_def split: sum.split prod.split option.split)
  with assms(1) show ?thesis by (simp add: protected_file_def)
next
  case True
  have hf: "wh_files h fid = Some f" and l: "hf_lock f = l" "l \<noteq> []"
    using assms(1) by (simp_all add: protected_file_def)
  have auth: "\<And>w user g. authenticateLocked r (rq_id r) w h = Inr (user, g) \<Longrightarrow> g = f"
    using hf True authenticate_file by fastforce
  have eff: "effectiveLock now f = (l, f)" by (rule effectiveLock_unexpired [OF l(1) assms(2)])
  have same: "set_file (rq_id r) f h = h" using hf True by (simp add: set_file_same)
  have ne: "l \<noteq> rq_lock r" "l \<noteq> rq_oldLock r" "rq_lock r \<noteq> l" "rq_oldLock r \<noteq> l"
    using assms(3) by (auto simp: foreign_to_def)
  have "snd (handleFileOp now r h) = h"
  proof (cases "authenticateLocked r (rq_id r) True h")
    case (Inr uf)
    then obtain user where "authenticateLocked r (rq_id r) True h = Inr (user, f)"
      using auth by (cases uf) blast
    then show ?thesis
      using ne l(2) by (simp add: handleFileOp_def Let_def eff lock_op_defs same)
  qed (simp add: handleFileOp_def)
  moreover have "snd (handlePutFile now r h) = h"
  proof (cases "authenticateLocked r (rq_id r) True h")
    case (Inr uf)
    then obtain user where "authenticateLocked r (rq_id r) True h = Inr (user, f)"
      using auth by (cases uf) blast
    then show ?thesis
      using ne l(2) by (simp add: handlePutFile_def Let_def eff same)
  qed (simp add: handlePutFile_def)
  ultimately have "snd (Handler now r h) = h"
    by (simp add: Handler_def handleGetFile_def handleCheckFileInfo_def split: sum.split prod.split)
  with assms(1) show ?thesis by simp
qed

text \<open>
  C24. A held lock protects the file: while the lock has not run out, no sequence
  of requests, by any users and with any tokens, that do not name the lock's value
  changes the file's content, its version, its lock or the lock's end.
\<close>

theorem held_lock_protects_file:
  assumes "wh_files h fid = Some f" and "hf_lock f = l" and "l \<noteq> []"
    and "\<forall>(now, r)\<in>set reqs. now \<le> hf_lockExp f \<and> foreign_to l r"
  shows "wh_files (fold (\<lambda>(now, r) h. snd (Handler now r h)) reqs h) fid = Some f"
proof -
  have "protected_file fid l f h" using assms(1-3) by (simp add: protected_file_def)
  then have "protected_file fid l f (fold (\<lambda>(now, r) h. snd (Handler now r h)) reqs h)"
    using assms(4) by (induction reqs arbitrary: h) (auto intro: Handler_protected)
  then show ?thesis by (simp add: protected_file_def)
qed

definition demoHost :: wopiHost where
  "demoHost = MintToken ''tok'' ''u'' ''f''
     (AddUser \<lparr>hu_ID = ''u'', hu_Name = ''U'', hu_CanWrite = True\<rparr>
       (set_file ''f'' demoFile (newHost 10)))"

definition demoPut :: "string \<Rightarrow> wopiReq" where
  "demoPut lock = \<lparr>rq_method = ''POST'', rq_id = ''f'', rq_contents = True, rq_queryToken = ''tok'',
     rq_authorization = [], rq_override = ''PUT'', rq_lock = lock, rq_oldLock = [],
     rq_body = Some ''new''\<rparr>"

theorem held_lock_protects_file_witness:
  "Content ''f'' (fold (\<lambda>(now, r) h. snd (Handler now r h))
     [(10, demoPut ''yours''), (90, demoPut [])] demoHost) = Some ''old''"
proof -
  have "wh_files (fold (\<lambda>(now, r) h. snd (Handler now r h))
      [(10, demoPut ''yours''), (90, demoPut [])] demoHost) ''f'' = Some demoFile"
    by (rule held_lock_protects_file [where l = "''mine''"])
      (simp_all add: demoHost_def demoFile_def demoPut_def foreign_to_def MintToken_def AddUser_def
        set_file_def)
  then show ?thesis by (simp add: Content_def demoFile_def)
qed

end
