(* ===== verification/RoomLadder.thy ===== *)
theory RoomLadder
  imports RoomSaves WopiHost
begin

text \<open>
  The save on a host that goes by tokens: the contract of such a host as a locale,
  the outcome of a save of a room on it, and the fake host of \<open>wopitest\<close>, reached
  through the WOPI client's requests, as its instance.
\<close>

section \<open>The ladder\<close>

lemma tokens_ok_perm:
  assumes "tokens_ok rs" "mset toks = mset (rs_tokens rs)"
  shows "tokens_ok (rs\<lparr>rs_tokens := toks\<rparr>)" "map_of toks = map_of (rs_tokens rs)"
proof -
  have "mset (map fst toks) = mset (map fst (rs_tokens rs))" using assms(2) by simp
  then have d: "distinct (map fst toks)"
    using assms(1) mset_eq_imp_distinct_iff unfolding tokens_ok_def by blast
  then show "tokens_ok (rs\<lparr>rs_tokens := toks\<rparr>)" by (simp add: tokens_ok_def)
  show "map_of toks = map_of (rs_tokens rs)"
    using d assms by (intro map_of_eqI) (auto simp: tokens_ok_def map_of_eq_Some_iff dest: mset_eq_setD)
qed

lemma usableRest_perm:
  assumes "tokens_ok rs" "mset toks = mset (rs_tokens rs)"
  shows "usableRest (rs\<lparr>rs_tokens := toks\<rparr>) now = usableRest rs now"
proof (rule sorted_key_list_unique [where f = tc_userID])
  note t = tokens_ok_perm [OF assms]
  have "tokenUsable (rs\<lparr>rs_tokens := toks\<rparr>) = tokenUsable rs"
    by (intro ext) (simp add: tokenUsable_def tokenRecentlyFailedLocked_def)
  then show "set (usableRest (rs\<lparr>rs_tokens := toks\<rparr>) now) = set (usableRest rs now)"
    using usableRest_props(3) [OF t(1)] usableRest_props(3) [OF assms(1)] t(2) by simp
qed (use usableRest_props(1,2) [OF tokens_ok_perm(1) [OF assms]] usableRest_props(1,2) [OF assms(1)]
      in simp_all)

text \<open>
  The ladder of a room is fixed by the room's state, whatever order the Go map is
  ranged over in: it holds exactly the tokens that may still be tried, one per user,
  the last writer's first if it is one of them and the others by user id.
\<close>

theorem ladder_order:
  assumes "tokens_ok rs"
  shows "set (tokenLadder rs now) =
      {c. \<exists>info. map_of (rs_tokens rs) (tc_userID c) = Some info
                \<and> tokenUsable rs now info \<and> tc_token c = ti_token info}
    \<and> distinct (map tc_userID (tokenLadder rs now))
    \<and> sorted (map tc_userID (filter (\<lambda>c. tc_userID c \<noteq> rs_lastWriterUserID rs) (tokenLadder rs now)))
    \<and> (rs_lastWriterUserID rs \<in> tc_userID ` set (tokenLadder rs now) \<longrightarrow>
        tc_userID (hd (tokenLadder rs now)) = rs_lastWriterUserID rs)
    \<and> (mset toks = mset (rs_tokens rs) \<longrightarrow>
        tokenLadder (rs\<lparr>rs_tokens := toks\<rparr>) now = tokenLadder rs now)"
proof -
  note props = usableRest_props [OF assms, of now]
  have rest: "filter (\<lambda>c. tc_userID c \<noteq> rs_lastWriterUserID rs) (usableRest rs now) = usableRest rs now"
    using props(3) by (auto intro: filter_True)
  have perm: "tokenLadder (rs\<lparr>rs_tokens := toks\<rparr>) now = tokenLadder rs now"
    if m: "mset toks = mset (rs_tokens rs)"
  proof -
    note t = tokens_ok_perm [OF assms m]
    have "tokenUsable (rs\<lparr>rs_tokens := toks\<rparr>) = tokenUsable rs"
      by (intro ext) (simp add: tokenUsable_def tokenRecentlyFailedLocked_def)
    then show ?thesis
      by (simp add: tokenLadder_eq assms t usableRest_perm m split: option.split)
  qed
  let ?L = "tokenLadder rs now" and ?w = "rs_lastWriterUserID rs"
  consider (without) "?L = usableRest rs now" "\<And>info. map_of (rs_tokens rs) ?w = Some info \<Longrightarrow> \<not> tokenUsable rs now info"
    | (first) info where "?L = \<lparr>tc_userID = ?w, tc_token = ti_token info\<rparr> # usableRest rs now"
        "map_of (rs_tokens rs) ?w = Some info" "tokenUsable rs now info"
    using tokenLadder_eq [OF assms, of now]
    by (cases "map_of (rs_tokens rs) ?w") (auto split: if_splits)
  then show ?thesis
  proof cases
    case without
    have "?w \<notin> tc_userID ` set ?L" using without(1) props(3) by auto
    moreover have "set ?L = {c. \<exists>info. map_of (rs_tokens rs) (tc_userID c) = Some info
        \<and> tokenUsable rs now info \<and> tc_token c = ti_token info}"
      unfolding without(1) props(3) using without(2) by (intro Collect_cong) auto
    ultimately show ?thesis using without(1) props(1,2) rest perm by auto
  next
    case first
    have "set ?L = {c. \<exists>info. map_of (rs_tokens rs) (tc_userID c) = Some info
        \<and> tokenUsable rs now info \<and> tc_token c = ti_token info}"
    proof (rule set_eqI)
      fix c
      show "c \<in> set ?L \<longleftrightarrow> c \<in> {c. \<exists>info. map_of (rs_tokens rs) (tc_userID c) = Some info
        \<and> tokenUsable rs now info \<and> tc_token c = ti_token info}"
        using first(2,3) unfolding first(1) list.set insert_iff props(3)
        by (cases c) auto
    qed
    moreover have "?w \<notin> tc_userID ` set (usableRest rs now)" using props(3) by auto
    ultimately show ?thesis using first(1) props(1,2) rest perm by auto
  qed
qed

theorem ladder_order_witness:
  "distinct (map tc_userID (tokenLadder (m_heap easyStart 0) second))
    \<and> tokenLadder ((m_heap easyStart 0)\<lparr>rs_tokens := rs_tokens (m_heap easyStart 0)\<rparr>) second
        = [\<lparr>tc_userID = ''u'', tc_token = ''tok''\<rparr>]"
  using ladder_order [of "m_heap easyStart 0" second "rs_tokens (m_heap easyStart 0)"] easyStart_ladder
  by (simp add: tokens_ok_def easyStart_room)

section \<open>Saves that fail\<close>

lemma saveFailureRoom_fields:
  "rs_dirty (saveFailureRoom t an rs) = rs_dirty rs" "rs_scene (saveFailureRoom t an rs) = rs_scene rs"
  "rs_conflict (saveFailureRoom t an rs) = rs_conflict rs"
  "rs_backoff (saveFailureRoom t an rs) = nextBackoff (rs_backoff rs)"
  "rs_nextRetryAt (saveFailureRoom t an rs) = t + nextBackoff (rs_backoff rs)"
  "rs_writeLost (saveFailureRoom t an rs) \<longleftrightarrow> rs_writeLost rs \<or> an"
  by (simp_all add: saveFailureRoom_def Let_def)

section \<open>The contract\<close>

text \<open>
  At time \<open>now\<close>, for file \<open>src\<close> and lock value \<open>l\<close>: \<open>verdict\<close> says what a call with
  a token meets, \<open>ready\<close> holds of a host whose file is free or locked by \<open>l\<close>,
  \<open>locked\<close> of one where \<open>l\<close> holds it, and \<open>body\<close> is the stored file.
\<close>

locale token_host =
  fixes c :: "'h client" and now :: time and src l :: string
    and verdict :: "string \<Rightarrow> wopi_error option"
    and ready locked :: "'h \<Rightarrow> bool" and body :: "'h \<Rightarrow> bytes"
  assumes verdict_error: "verdict t = Some e \<Longrightarrow> e = ErrTokenRejected \<or> e = ErrNoWriteAccess"
    and lock_refused: "ready h \<Longrightarrow> verdict t = Some e \<Longrightarrow>
           \<exists>h'. cli_Lock c now src t l h = (Some e, h') \<and> ready h' \<and> body h' = body h"
    and lock_taken: "ready h \<Longrightarrow> verdict t = None \<Longrightarrow>
           \<exists>h'. cli_Lock c now src t l h = (None, h') \<and> locked h'"
    and put_taken: "locked h \<Longrightarrow> verdict t = None \<Longrightarrow>
           \<exists>v h'. cli_PutFile c now src t l d h = (Inr v, h') \<and> body h' = d"
begin

text \<open>What stays fixed while a save walks past refused tokens.\<close>

definition walking :: "rid \<Rightarrow> roomState \<Rightarrow> bytes \<Rightarrow> 'h sys \<Rightarrow> bool" where
  "walking r rs0 b s \<longleftrightarrow>
     m_sched s = [] \<and> m_clock s = now \<and> ready (m_host s) \<and> body (m_host s) = b
     \<and> (\<exists>toks failed. m_heap s r
          = rs0\<lparr>rs_tokens := toks, rs_forceUnlockValue := [], rs_failedTokens := failed\<rparr>)"

lemma walkingI:
  "m_sched s = [] \<Longrightarrow> m_clock s = now \<Longrightarrow> ready (m_host s) \<Longrightarrow> body (m_host s) = b \<Longrightarrow>
     m_heap s r = rs0\<lparr>rs_tokens := toks, rs_forceUnlockValue := [], rs_failedTokens := failed\<rparr> \<Longrightarrow>
     walking r rs0 b s"
  unfolding walking_def by blast

lemma walkingE:
  assumes "walking r rs0 b s"
  obtains toks failed where "m_sched s = []" "m_clock s = now" "ready (m_host s)" "body (m_host s) = b"
    "m_heap s r = rs0\<lparr>rs_tokens := toks, rs_forceUnlockValue := [], rs_failedTokens := failed\<rparr>"
  using assms unfolding walking_def by blast

lemma attempt_refused:
  assumes w: "walking r rs0 b s" and v: "verdict (tc_token cand) = Some e"
    and rs: "rs_wopiSrc rs0 = src" "rs_lockValue rs0 = l"
  shows "\<exists>t. run_state (attemptSave c r cand tnow sc q l first) s
      = (SaveOutcomeTryNext e (e = ErrNoWriteAccess), t) \<and> walking r rs0 b t"
proof -
  obtain toks failed where room:
      "m_heap s r = rs0\<lparr>rs_tokens := toks, rs_forceUnlockValue := [], rs_failedTokens := failed\<rparr>"
    and s: "m_sched s = []" "m_clock s = now" "ready (m_host s)" "body (m_host s) = b"
    using w by (auto simp: walking_def)
  obtain h' where h': "cli_Lock c now src (tc_token cand) l (m_host s) = (Some e, h')"
    "ready h'" "body h' = body (m_host s)"
    using lock_refused [OF s(3) v] by blast
  from verdict_error [OF v] show ?thesis
  proof
    assume "e = ErrTokenRejected"
    then show ?thesis
      using room s h' rs
      by (simp add: attemptSave_def ensureLocked_def plainLock_def callLock_def host_call_def
          classifyTokenAttempt_def markTokenFailed_def walking_def) blast
  next
    assume "e = ErrNoWriteAccess"
    then show ?thesis
      using room s h' rs
      by (simp add: attemptSave_def ensureLocked_def plainLock_def callLock_def host_call_def
          classifyTokenAttempt_def markTokenNoWrite_def walking_def)
        (rule exI [of _ "map (dropWrite (tc_token cand)) toks"],
          rule exI [of _ "failed(tc_token cand \<mapsto> tnow)"], simp)
  qed
qed

lemma attempt_taken:
  assumes w: "walking r rs0 b s" and v: "verdict (tc_token cand) = None"
    and rs: "rs_wopiSrc rs0 = src" "rs_lockValue rs0 = l"
    and q: "rs_sceneSeq rs0 = q"
  shows "\<exists>t. run_state (attemptSave c r cand tnow sc q l first) s = (SaveOutcomeDone, t)
      \<and> body (m_host t) = slice_bytes sc \<and> \<not> rs_dirty (m_heap t r) \<and> rs_haveLock (m_heap t r)
      \<and> rs_conflict (m_heap t r) = rs_conflict rs0 \<and> rs_backoff (m_heap t r) = 0
      \<and> \<not> rs_writeLost (m_heap t r)"
proof -
  obtain toks failed where room:
      "m_heap s r = rs0\<lparr>rs_tokens := toks, rs_forceUnlockValue := [], rs_failedTokens := failed\<rparr>"
    and s: "m_sched s = []" "m_clock s = now" "ready (m_host s)" "body (m_host s) = b"
    using w by (auto simp: walking_def)
  obtain h1 where h1: "cli_Lock c now src (tc_token cand) l (m_host s) = (None, h1)" "locked h1"
    using lock_taken [OF s(3) v] by blast
  obtain ver h2 where h2: "cli_PutFile c now src (tc_token cand) l (slice_bytes sc) h1 = (Inr ver, h2)"
    "body h2 = slice_bytes sc"
    using put_taken [OF h1(2) v] by blast
  show ?thesis
    using room s h1 h2 rs q
    by (simp add: attemptSave_def ensureLocked_def plainLock_def callLock_def callPutFile_def
        host_call_def markLocked_def recordSaveSuccess_def saveSuccessRoom_def Let_def)
qed

text \<open>The rungs of the ladder, walked to the end.\<close>

definition loop_end :: "rid \<Rightarrow> roomState \<Rightarrow> bytes \<Rightarrow> time \<Rightarrow> bytes option \<Rightarrow> bool
    \<Rightarrow> tokenCandidate list \<Rightarrow> 'h sys \<Rightarrow> bool" where
  "loop_end r rs0 b tnow sc an cands t =
     (if \<exists>cand \<in> set cands. verdict (tc_token cand) = None
      then body (m_host t) = slice_bytes sc \<and> \<not> rs_dirty (m_heap t r)
           \<and> rs_haveLock (m_heap t r) \<and> rs_conflict (m_heap t r) = rs_conflict rs0
           \<and> rs_backoff (m_heap t r) = 0 \<and> \<not> rs_writeLost (m_heap t r)
      else body (m_host t) = b
           \<and> (\<exists>toks failed. m_heap t r = saveFailureRoom tnow
                (an \<and> (\<forall>cand \<in> set cands. verdict (tc_token cand) = Some ErrNoWriteAccess))
                (rs0\<lparr>rs_tokens := toks, rs_forceUnlockValue := [], rs_failedTokens := failed\<rparr>)))"

lemma loop_outcome:
  assumes "walking r rs0 b s"
    and rs: "rs_wopiSrc rs0 = src" "rs_lockValue rs0 = l" "rs_sceneSeq rs0 = q"
  shows "\<exists>t. run_state (saveLoop c r tnow sc q l first an cands) s = ((), t)
     \<and> loop_end r rs0 b tnow sc an cands t"
  using assms(1)
proof (induction cands arbitrary: s an)
  case Nil
  from Nil obtain toks failed where "m_sched s = []" "body (m_host s) = b"
    "m_heap s r = rs0\<lparr>rs_tokens := toks, rs_forceUnlockValue := [], rs_failedTokens := failed\<rparr>"
    by (elim walkingE)
  then show ?case
    by (simp add: recordSaveFailure_def loop_end_def) (rule exI [of _ toks], rule exI [of _ failed], rule refl)
next
  case (Cons cand cands)
  show ?case
  proof (cases "verdict (tc_token cand)")
    case None
    from attempt_taken [OF Cons.prems None rs, where tnow = tnow and sc = sc and first = first]
    obtain t where "run_state (attemptSave c r cand tnow sc q l first) s = (SaveOutcomeDone, t)"
      "body (m_host t) = slice_bytes sc \<and> \<not> rs_dirty (m_heap t r) \<and> rs_haveLock (m_heap t r)
        \<and> rs_conflict (m_heap t r) = rs_conflict rs0 \<and> rs_backoff (m_heap t r) = 0
        \<and> \<not> rs_writeLost (m_heap t r)" by blast
    with None show ?thesis by (simp add: loop_end_def)
  next
    case (Some e)
    from attempt_refused [OF Cons.prems Some rs(1,2), where tnow = tnow and sc = sc and q = q
        and first = first]
    obtain t where t: "run_state (attemptSave c r cand tnow sc q l first) s
        = (SaveOutcomeTryNext e (e = ErrNoWriteAccess), t)" "walking r rs0 b t" by blast
    from Cons.IH [OF t(2), of "an \<and> e = ErrNoWriteAccess"]
    obtain u where u: "run_state (saveLoop c r tnow sc q l first (an \<and> e = ErrNoWriteAccess) cands) t
        = ((), u)" "loop_end r rs0 b tnow sc (an \<and> e = ErrNoWriteAccess) cands u" by blast
    have "(if e = ErrNoWriteAccess then an else False) = (an \<and> e = ErrNoWriteAccess)" by simp
    with t(1) u(1) have "run_state (saveLoop c r tnow sc q l first an (cand # cands)) s = ((), u)"
      by (simp del: if_False if_True)
    moreover have "loop_end r rs0 b tnow sc an (cand # cands) u"
    proof -
      have "(an \<and> (\<forall>x \<in> set (cand # cands). verdict (tc_token x) = Some ErrNoWriteAccess))
          = ((an \<and> e = ErrNoWriteAccess)
             \<and> (\<forall>x \<in> set cands. verdict (tc_token x) = Some ErrNoWriteAccess))"
        "(\<exists>x \<in> set (cand # cands). verdict (tc_token x) = None)
          = (\<exists>x \<in> set cands. verdict (tc_token x) = None)"
        using Some by auto
      then show ?thesis using u(2) unfolding loop_end_def by (simp only:)
    qed
    ultimately show ?thesis by blast
  qed
qed

lemma save_outcome:
  assumes "m_heap s r = rs0" "m_sched s = []" "m_clock s = now" "ready (m_host s)"
    and "rs_dirty rs0" "\<not> rs_conflict rs0" "rs_forceUnlockValue rs0 = []"
    and "rs_wopiSrc rs0 = src" "rs_lockValue rs0 = l"
    and ladder: "lad = tokenLadder rs0 tnow" "lad \<noteq> []"
  shows "\<exists>t. run_state (performSave c r tnow) s = ((), t)
     \<and> (if \<exists>cand \<in> set lad. verdict (tc_token cand) = None
        then body (m_host t) = slice_bytes (rs_scene rs0) \<and> \<not> rs_dirty (m_heap t r)
             \<and> rs_haveLock (m_heap t r) \<and> \<not> rs_conflict (m_heap t r)
             \<and> rs_backoff (m_heap t r) = 0 \<and> \<not> rs_writeLost (m_heap t r)
        else body (m_host t) = body (m_host s) \<and> rs_dirty (m_heap t r)
             \<and> rs_scene (m_heap t r) = rs_scene rs0 \<and> \<not> rs_conflict (m_heap t r)
             \<and> rs_backoff (m_heap t r) = nextBackoff (rs_backoff rs0)
             \<and> rs_nextRetryAt (m_heap t r) = tnow + nextBackoff (rs_backoff rs0)
             \<and> (rs_writeLost (m_heap t r) \<longleftrightarrow> rs_writeLost rs0
                 \<or> (\<forall>cand \<in> set lad. verdict (tc_token cand) = Some ErrNoWriteAccess)))"
proof -
  let ?rs1 = "rs0\<lparr>rs_firstSaveDone := True\<rparr>"
  define s1 where "s1 = s\<lparr>m_heap := (m_heap s)(r := ?rs1)\<rparr>"
  have "walking r ?rs1 (body (m_host s)) s1"
    by (rule walkingI [where toks = "rs_tokens rs0" and failed = "rs_failedTokens rs0"])
      (use assms in \<open>simp_all add: s1_def\<close>)
  from loop_outcome [OF this, of "rs_sceneSeq rs0" tnow "rs_scene rs0" "\<not> rs_firstSaveDone rs0" True lad]
  obtain t where t: "run_state (saveLoop c r tnow (rs_scene rs0) (rs_sceneSeq rs0) l
        (\<not> rs_firstSaveDone rs0) True lad) s1 = ((), t)"
    and out: "loop_end r ?rs1 (body (m_host s)) tnow (rs_scene rs0) True lad t"
    using assms by auto
  have "run_state (performSave c r tnow) s = ((), t)"
    using t assms by (simp add: performSave_def s1_def upd_room_def)
  moreover from out have "if \<exists>cand \<in> set lad. verdict (tc_token cand) = None
        then body (m_host t) = slice_bytes (rs_scene rs0) \<and> \<not> rs_dirty (m_heap t r)
             \<and> rs_haveLock (m_heap t r) \<and> \<not> rs_conflict (m_heap t r)
             \<and> rs_backoff (m_heap t r) = 0 \<and> \<not> rs_writeLost (m_heap t r)
        else body (m_host t) = body (m_host s) \<and> rs_dirty (m_heap t r)
             \<and> rs_scene (m_heap t r) = rs_scene rs0 \<and> \<not> rs_conflict (m_heap t r)
             \<and> rs_backoff (m_heap t r) = nextBackoff (rs_backoff rs0)
             \<and> rs_nextRetryAt (m_heap t r) = tnow + nextBackoff (rs_backoff rs0)
             \<and> (rs_writeLost (m_heap t r) \<longleftrightarrow> rs_writeLost rs0
                 \<or> (\<forall>cand \<in> set lad. verdict (tc_token cand) = Some ErrNoWriteAccess))"
  proof (cases "\<exists>cand \<in> set lad. verdict (tc_token cand) = None")
    case True
    with out assms(6) show ?thesis by (simp add: loop_end_def)
  next
    case False
    with out obtain toks failed where "body (m_host t) = body (m_host s)"
      "m_heap t r = saveFailureRoom tnow
         (\<forall>cand \<in> set lad. verdict (tc_token cand) = Some ErrNoWriteAccess)
         (?rs1\<lparr>rs_tokens := toks, rs_forceUnlockValue := [], rs_failedTokens := failed\<rparr>)"
      by (auto simp: loop_end_def simp del: not_None_eq)
    with False assms(5,6) show ?thesis
      by (simp add: saveFailureRoom_fields del: not_None_eq)
  qed
  ultimately show ?thesis by blast
qed

end

section \<open>The host of the tests, through the client\<close>

text \<open>
  The client's calls on the in-memory host: each builds the request the host reads
  and maps a status other than 200 through \<open>mapErr\<close>. \<open>idOf\<close> is the
  route, the file id the host's mux takes from a \<open>WOPISrc\<close>.
\<close>

definition hostLockOp :: "(string \<Rightarrow> string) \<Rightarrow> string \<Rightarrow> string \<Rightarrow> time \<Rightarrow> string \<Rightarrow> string
    \<Rightarrow> string \<Rightarrow> string \<Rightarrow> wopiHost \<Rightarrow> wopi_error option \<times> wopiHost" where
  "hostLockOp idOf op override now src token lock oldLock h =
     (case Handler now \<lparr>rq_method = ''POST'', rq_id = idOf src, rq_contents = False,
             rq_queryToken = token, rq_authorization = [], rq_override = override,
             rq_lock = lock, rq_oldLock = oldLock, rq_body = Some []\<rparr> h of
        (rp, h') \<Rightarrow>
          ((if rp_status rp \<noteq> StatusOK then Some (mapErr op (rp_status rp) (rp_lock rp) (rp_body rp))
            else None), h'))"

definition hostClient :: "(string \<Rightarrow> string) \<Rightarrow> wopiHost client" where
  "hostClient idOf = \<lparr>
     cli_CheckFileInfo = (\<lambda>now src token h.
       (case Handler now \<lparr>rq_method = ''GET'', rq_id = idOf src, rq_contents = False,
               rq_queryToken = token, rq_authorization = [], rq_override = [],
               rq_lock = [], rq_oldLock = [], rq_body = Some []\<rparr> h of
          (rp, h') \<Rightarrow>
            ((if rp_status rp \<noteq> StatusOK
              then Inl (mapErr ''CheckFileInfo'' (rp_status rp) (rp_lock rp) (rp_body rp))
              else (case rp_info rp of Some i \<Rightarrow> Inr i | None \<Rightarrow> Inl (OtherError ''decode response''))),
             h'))),
     cli_PutFile = (\<lambda>now src token lock body h.
       (case Handler now \<lparr>rq_method = ''POST'', rq_id = idOf src, rq_contents = True,
               rq_queryToken = token, rq_authorization = [], rq_override = ''PUT'',
               rq_lock = lock, rq_oldLock = [], rq_body = Some body\<rparr> h of
          (rp, h') \<Rightarrow>
            ((if rp_status rp \<noteq> StatusOK
              then Inl (mapErr ''PutFile'' (rp_status rp) (rp_lock rp) (rp_body rp))
              else Inr (rp_version rp)), h'))),
     cli_Lock = (\<lambda>now src token lock. hostLockOp idOf ''Lock'' ''LOCK'' now src token lock []),
     cli_RefreshLock = (\<lambda>now src token lock.
       hostLockOp idOf ''RefreshLock'' ''REFRESH_LOCK'' now src token lock []),
     cli_Unlock = (\<lambda>now src token lock. hostLockOp idOf ''Unlock'' ''UNLOCK'' now src token lock []),
     cli_UnlockAndRelock = (\<lambda>now src token newLock oldLock.
       hostLockOp idOf ''UnlockAndRelock'' ''LOCK'' now src token newLock oldLock)\<rparr>"

text \<open>What a writing call with a token meets on a host with these users and tokens.\<close>

definition hostVerdict ::
  "(string \<rightharpoonup> hostUser) \<Rightarrow> (string \<rightharpoonup> tokenClaim) \<Rightarrow> string \<Rightarrow> string \<Rightarrow> wopi_error option" where
  "hostVerdict users tokens fid t =
     (case tokens t of
        None \<Rightarrow> Some ErrTokenRejected
      | Some claim \<Rightarrow>
          if t = [] \<or> tk_fileID claim \<noteq> fid then Some ErrTokenRejected
          else (case users (tk_userID claim) of
                  None \<Rightarrow> Some ErrTokenRejected
                | Some u \<Rightarrow> if hu_CanWrite u then None else Some ErrNoWriteAccess))"

definition hostReady :: "(string \<rightharpoonup> hostUser) \<Rightarrow> (string \<rightharpoonup> tokenClaim) \<Rightarrow> string \<Rightarrow> string \<Rightarrow> time
    \<Rightarrow> wopiHost \<Rightarrow> bool" where
  "hostReady users tokens fid l now h \<longleftrightarrow>
     l \<noteq> [] \<and> wh_users h = users \<and> wh_tokens h = tokens \<and> 0 \<le> wh_lockTTL h
     \<and> (\<exists>f. wh_files h fid = Some f \<and> (held now f = None \<or> held now f = Some l))"

definition hostLocked :: "(string \<rightharpoonup> hostUser) \<Rightarrow> (string \<rightharpoonup> tokenClaim) \<Rightarrow> string \<Rightarrow> string \<Rightarrow> time
    \<Rightarrow> wopiHost \<Rightarrow> bool" where
  "hostLocked users tokens fid l now h \<longleftrightarrow>
     wh_users h = users \<and> wh_tokens h = tokens \<and> 0 \<le> wh_lockTTL h
     \<and> (\<exists>f. wh_files h fid = Some f \<and> held now f = Some l)"

definition hostBody :: "string \<Rightarrow> wopiHost \<Rightarrow> bytes" where
  "hostBody fid h = slice_bytes (Content fid h)"

lemma auth_refused:
  assumes "wh_files h fid = Some f"
    and "hostVerdict (wh_users h) (wh_tokens h) fid (requestToken r) = Some e"
  shows "authenticateLocked r fid True h
    = Inl (resp (if e = ErrTokenRejected then StatusForbidden else StatusUnauthorized))"
  using assms
  by (auto simp: authenticateLocked_def hostVerdict_def Let_def split: option.splits if_splits)

lemma auth_taken:
  assumes "wh_files h fid = Some f"
    and "hostVerdict (wh_users h) (wh_tokens h) fid (requestToken r) = None"
  obtains u where "authenticateLocked r fid True h = Inr (u, f)"
  using assms
  by (auto simp: authenticateLocked_def hostVerdict_def Let_def split: option.splits if_splits)

lemma verdict_error_cases:
  "hostVerdict users tokens fid t = Some e \<Longrightarrow> e = ErrTokenRejected \<or> e = ErrNoWriteAccess"
  by (auto simp: hostVerdict_def split: option.splits if_splits)

lemma hostLock_own:
  "0 \<le> ttl \<Longrightarrow> l \<noteq> [] \<Longrightarrow> held now f = None \<or> held now f = Some l \<Longrightarrow>
     rp_status (fst (hostLock ttl now l f)) = StatusOK
     \<and> held now (snd (hostLock ttl now l f)) = Some l"
  by (auto simp: hostLock_def effectiveLock_def held_def Let_def split: if_splits)

lemma effectiveLock_own:
  "held now f = Some l \<Longrightarrow> effectiveLock now f = (l, f) \<and> l \<noteq> []"
  by (auto simp: effectiveLock_def held_def Let_def split: if_splits)

interpretation fake_host: token_host "hostClient idOf" now src l "hostVerdict users tokens (idOf src)"
  "hostReady users tokens (idOf src) l now" "hostLocked users tokens (idOf src) l now" "hostBody (idOf src)"
proof
  fix h t e d
  show "e = ErrTokenRejected \<or> e = ErrNoWriteAccess"
    if "hostVerdict users tokens (idOf src) t = Some e"
    using that by (rule verdict_error_cases)
  show "\<exists>h'. cli_Lock (hostClient idOf) now src t l h = (Some e, h')
      \<and> hostReady users tokens (idOf src) l now h' \<and> hostBody (idOf src) h' = hostBody (idOf src) h"
    if r: "hostReady users tokens (idOf src) l now h" and v: "hostVerdict users tokens (idOf src) t = Some e"
  proof -
    from r obtain f where f: "wh_files h (idOf src) = Some f" by (auto simp: hostReady_def)
    let ?r = "\<lparr>rq_method = ''POST'', rq_id = idOf src, rq_contents = False,
             rq_queryToken = t, rq_authorization = [], rq_override = ''LOCK'',
             rq_lock = l, rq_oldLock = [], rq_body = Some []\<rparr>"
    have "requestToken ?r = t" by (simp add: requestToken_def has_prefix_def)
    with auth_refused [OF f, of ?r e] r v
    have "Handler now ?r h
        = (resp (if e = ErrTokenRejected then StatusForbidden else StatusUnauthorized), h)"
      by (simp add: Handler_def handleFileOp_def hostReady_def)
    with verdict_error_cases [OF v] have "cli_Lock (hostClient idOf) now src t l h = (Some e, h)"
      by (auto simp: hostClient_def hostLockOp_def status_defs)
    with r show ?thesis by blast
  qed
  show "\<exists>h'. cli_Lock (hostClient idOf) now src t l h = (None, h')
      \<and> hostLocked users tokens (idOf src) l now h'"
    if r: "hostReady users tokens (idOf src) l now h" and v: "hostVerdict users tokens (idOf src) t = None"
  proof -
    from r obtain f where f: "wh_files h (idOf src) = Some f" "l \<noteq> []" "0 \<le> wh_lockTTL h"
      "held now f = None \<or> held now f = Some l" by (auto simp: hostReady_def)
    let ?r = "\<lparr>rq_method = ''POST'', rq_id = idOf src, rq_contents = False,
             rq_queryToken = t, rq_authorization = [], rq_override = ''LOCK'',
             rq_lock = l, rq_oldLock = [], rq_body = Some []\<rparr>"
    have "hostVerdict (wh_users h) (wh_tokens h) (idOf src) (requestToken ?r) = None"
      using r v by (auto simp: hostReady_def requestToken_def has_prefix_def)
    then obtain u where a: "authenticateLocked ?r (idOf src) True h = Inr (u, f)"
      by (rule auth_taken [OF f(1)])
    have "Handler now ?r h = (fst (hostLock (wh_lockTTL h) now l f),
        set_file (idOf src) (snd (hostLock (wh_lockTTL h) now l f)) h)"
      by (simp add: Handler_def handleFileOp_def a Let_def split: prod.split)
    with hostLock_own [OF f(3,2,4)] r f(2) show ?thesis
      by (simp add: hostClient_def hostLockOp_def hostLocked_def hostReady_def set_file_def)
  qed
  show "\<exists>v h'. cli_PutFile (hostClient idOf) now src t l d h = (Inr v, h')
      \<and> hostBody (idOf src) h' = d"
    if r: "hostLocked users tokens (idOf src) l now h" and v: "hostVerdict users tokens (idOf src) t = None"
  proof -
    from r obtain f where f: "wh_files h (idOf src) = Some f" "held now f = Some l"
      by (auto simp: hostLocked_def)
    let ?r = "\<lparr>rq_method = ''POST'', rq_id = idOf src, rq_contents = True,
             rq_queryToken = t, rq_authorization = [], rq_override = ''PUT'',
             rq_lock = l, rq_oldLock = [], rq_body = Some d\<rparr>"
    have "hostVerdict (wh_users h) (wh_tokens h) (idOf src) (requestToken ?r) = None"
      using r v by (auto simp: hostLocked_def requestToken_def has_prefix_def)
    then obtain u where a: "authenticateLocked ?r (idOf src) True h = Inr (u, f)"
      by (rule auth_taken [OF f(1)])
    from effectiveLock_own [OF f(2)] show ?thesis
      by (simp add: hostClient_def Handler_def handlePutFile_def a Let_def hostBody_def Content_def
          set_file_def resp_def StatusOK_def)
  qed
qed

text \<open>
  C19. Which save lands. Let the test host, reached with the client's requests and its error
  mapping, have the file, let nobody else hold its lock and the life of its locks not be negative; let the room be dirty, not in
  conflict, with no forced unlock pending and at least one token to try, and let nothing
  interfere with the save. (A foreign lock would end it in a conflict instead.) Then the save
  ends in one of two ways. If one of the ladder's tokens may write, the host's file is the
  room's scene, the room is clean and locked, and backoff and write loss are cleared. If none
  may, the file is untouched, the room is still dirty with the same scene and retries after
  the next backoff step, and it is reported as having lost write access exactly if it was
  before or every token met a 401.
\<close>

theorem save_lands_iff_some_token_may_write:
  fixes s :: "wopiHost sys"
  assumes "m_heap s r = rs" "m_sched s = []" "m_clock s = now"
    and "hostReady users tokens (idOf (rs_wopiSrc rs)) (rs_lockValue rs) now (m_host s)"
    and "rs_dirty rs" "\<not> rs_conflict rs" "rs_forceUnlockValue rs = []" "tokenLadder rs tnow \<noteq> []"
  shows "\<exists>t. run_state (performSave (hostClient idOf) r tnow) s = ((), t)
     \<and> (if \<exists>cand \<in> set (tokenLadder rs tnow).
             hostVerdict users tokens (idOf (rs_wopiSrc rs)) (tc_token cand) = None
        then hostBody (idOf (rs_wopiSrc rs)) (m_host t) = slice_bytes (rs_scene rs)
             \<and> \<not> rs_dirty (m_heap t r) \<and> rs_haveLock (m_heap t r) \<and> \<not> rs_conflict (m_heap t r)
             \<and> rs_backoff (m_heap t r) = 0 \<and> \<not> rs_writeLost (m_heap t r)
        else hostBody (idOf (rs_wopiSrc rs)) (m_host t) = hostBody (idOf (rs_wopiSrc rs)) (m_host s)
             \<and> rs_dirty (m_heap t r) \<and> rs_scene (m_heap t r) = rs_scene rs
             \<and> \<not> rs_conflict (m_heap t r)
             \<and> rs_backoff (m_heap t r) = nextBackoff (rs_backoff rs)
             \<and> rs_nextRetryAt (m_heap t r) = tnow + nextBackoff (rs_backoff rs)
             \<and> (rs_writeLost (m_heap t r) \<longleftrightarrow> rs_writeLost rs
                 \<or> (\<forall>cand \<in> set (tokenLadder rs tnow).
                       hostVerdict users tokens (idOf (rs_wopiSrc rs)) (tc_token cand)
                         = Some ErrNoWriteAccess)))"
  by (rule fake_host.save_outcome [where idOf = idOf and src = "rs_wopiSrc rs"
        and l = "rs_lockValue rs"]) (use assms in simp_all)

text \<open>A manager over the test host, with a board just edited.\<close>

definition hostStart :: "wopiHost sys" where
  "hostStart =
     env_step (EvPutScene ''src'' ''scene'' ''u'')
      (env_step (EvObserve \<lparr>cl_FileID = ''f'', cl_WOPISrc = ''src'', cl_UserID = ''u'',
          cl_UserName = ''U'', cl_CanWrite = True, cl_AccessToken = ''tok'',
          cl_ExpiresAt = 36000 * second\<rparr>)
        (newManager 100 True True True second demoHost))"

lemma hostStart_room:
  "m_sched hostStart = []" "m_clock hostStart = second" "m_host hostStart = demoHost"
  "rs_dirty (m_heap hostStart 0)" "\<not> rs_conflict (m_heap hostStart 0)"
  "rs_forceUnlockValue (m_heap hostStart 0) = []"
  "rs_wopiSrc (m_heap hostStart 0) = ''src''" "rs_lockValue (m_heap hostStart 0) = lockValueFor ''f''"
  "rs_scene (m_heap hostStart 0) = Some ''scene''"
  "tokenLadder (m_heap hostStart 0) second = [\<lparr>tc_userID = ''u'', tc_token = ''tok''\<rparr>]"
  by (simp_all add: hostStart_def room_exec_defs tokenLadder_def tokenUsable_def
      tokenRecentlyFailedLocked_def candidateOf_def cong: if_cong)

lemma demoHost_ready:
  "hostReady (wh_users demoHost) (wh_tokens demoHost) ''f'' (lockValueFor ''f'') second demoHost"
  "hostVerdict (wh_users demoHost) (wh_tokens demoHost) ''f'' ''tok'' = None"
  by (simp_all add: hostReady_def hostVerdict_def demoHost_def demoFile_def MintToken_def AddUser_def
      set_file_def newHost_def held_def second_def lockValueFor_def lockValuePrefix_def)

theorem save_lands_iff_some_token_may_write_witness:
  "hostBody ''f'' (m_host (exec (performSave (hostClient (\<lambda>_. ''f'')) 0 second) hostStart)) = ''scene''"
proof -
  obtain t where "run_state (performSave (hostClient (\<lambda>_. ''f'')) 0 second) hostStart = ((), t)"
    "hostBody ''f'' (m_host t) = ''scene''"
    using save_lands_iff_some_token_may_write [OF refl hostStart_room(1,2), of "wh_users demoHost"
        "wh_tokens demoHost" "\<lambda>_. ''f''" 0 second] demoHost_ready hostStart_room by auto
  then show ?thesis by (simp add: exec_def)
qed

end
