(* ===== verification/WopiClient.thy ===== *)
theory WopiClient
  imports NetUrl Json RoomLadder
begin

text \<open>
  \<open>internal/wopiclient/client.go\<close>: the URLs, headers and answers of the WOPI client's
  requests, and the client against the in-memory host, which is the client the room
  manager's theories use.
\<close>

section \<open>URLs\<close>

definition query_set :: "string \<Rightarrow> string \<Rightarrow> queryValues \<Rightarrow> queryValues" where
  "query_set k v m = AList.update k [v] m"

definition withAccessToken :: "string \<Rightarrow> string \<Rightarrow> string option" where
  "withAccessToken rawURL token =
     (case url_parse rawURL of
        None \<Rightarrow> None
      | Some u \<Rightarrow>
          Some (url_string (u\<lparr>u_RawQuery :=
            query_encode (query_set ''access_token'' token (parse_query (u_RawQuery u)))\<rparr>)))"

definition contentsURL :: "string \<Rightarrow> string option" where
  "contentsURL src =
     (case url_parse src of
        None \<Rightarrow> None
      | Some u \<Rightarrow> Some (url_string (u\<lparr>u_Path := trim_suffix (u_Path u) ''/'' @ ''/contents''\<rparr>)))"

section \<open>Requests and responses\<close>

record httpReq =
  hq_method :: string
  hq_url :: string
  hq_header :: "(string \<times> string) list"
  hq_body :: bytes

text \<open>\<open>Header.Get\<close> as a function; \<open>hs_bodyErr\<close> says that reading the body fails.\<close>

record httpResp =
  hs_status :: int
  hs_header :: "string \<Rightarrow> string"
  hs_body :: bytes
  hs_bodyErr :: bool

definition header_set :: "string \<Rightarrow> string \<Rightarrow> (string \<times> string) list \<Rightarrow> (string \<times> string) list" where
  "header_set k v hs = AList.update k v hs"

definition header_get :: "(string \<times> string) list \<Rightarrow> string \<Rightarrow> string" where
  "header_get hs k = (case map_of hs k of None \<Rightarrow> [] | Some v \<Rightarrow> v)"

text \<open>
  The client: what sends a request (a transport error has a text), the signer and the host
  profile, if there is one.
\<close>

record 'h wopiClient =
  wc_http :: "time \<Rightarrow> httpReq \<Rightarrow> 'h \<Rightarrow> (string + httpResp) \<times> 'h"
  wc_signer :: "(string \<Rightarrow> string \<Rightarrow> string \<times> string \<times> string) option"
  wc_profile :: "((string \<Rightarrow> int \<Rightarrow> string \<Rightarrow> wopi_error option) \<times> ((string \<Rightarrow> string) \<Rightarrow> string)) option"

definition driveProfile :: "(string \<Rightarrow> int \<Rightarrow> string \<Rightarrow> wopi_error option) \<times> ((string \<Rightarrow> string) \<Rightarrow> string)" where
  "driveProfile = (MapError, \<lambda>header. header ''X-WOPI-ItemVersion'')"

definition newWopiClient ::
  "(time \<Rightarrow> httpReq \<Rightarrow> 'h \<Rightarrow> (string + httpResp) \<times> 'h)
   \<Rightarrow> (string \<Rightarrow> string \<Rightarrow> string \<times> string \<times> string) option
   \<Rightarrow> ((string \<Rightarrow> int \<Rightarrow> string \<Rightarrow> wopi_error option) \<times> ((string \<Rightarrow> string) \<Rightarrow> string)) option \<Rightarrow> 'h wopiClient" where
  "newWopiClient http signer profile = \<lparr>wc_http = http, wc_signer = signer, wc_profile = profile\<rparr>"

definition clientMapErr :: "'h wopiClient \<Rightarrow> string \<Rightarrow> httpResp \<Rightarrow> bytes \<Rightarrow> wopi_error" where
  "clientMapErr c op rsp body =
     (case (case wc_profile c of None \<Rightarrow> None
            | Some (mapError, _) \<Rightarrow> mapError op (hs_status rsp) (hs_header rsp ''X-WOPI-Lock'')) of
        Some e \<Rightarrow> e
      | None \<Rightarrow> HTTPError op (hs_status rsp) body)"

definition itemVersion :: "'h wopiClient \<Rightarrow> (string \<Rightarrow> string) \<Rightarrow> string" where
  "itemVersion c header =
     (case wc_profile c of Some (_, version) \<Rightarrow> version header | None \<Rightarrow> header ''X-WOPI-ItemVersion'')"

text \<open>\<open>strings.ReplaceAll(text, token, "REDACTED")\<close>, for a token that is not empty.\<close>

fun replace_all :: "nat \<Rightarrow> string \<Rightarrow> string \<Rightarrow> string \<Rightarrow> string" where
  "replace_all 0 p r s = s"
| "replace_all (Suc n) p r s =
     (case cut_at p s of None \<Rightarrow> s | Some (a, b) \<Rightarrow> a @ r @ replace_all n p r b)"

definition redactedError :: "string \<Rightarrow> string \<Rightarrow> string" where
  "redactedError token err = (if token = [] then err else replace_all (length err) token ''REDACTED'' err)"

definition send :: "'h wopiClient \<Rightarrow> time \<Rightarrow> string \<Rightarrow> string \<Rightarrow> string \<Rightarrow> string \<Rightarrow> (string \<times> string) list
    \<Rightarrow> bytes \<Rightarrow> 'h \<Rightarrow> (wopi_error + httpResp) \<times> 'h" where
  "send c now op method reqURL token header body h =
     (case url_parse reqURL of
        None \<Rightarrow> (Inl (OtherError (''wopiclient: '' @ op @ '': build request'')), h)
      | Some _ \<Rightarrow>
          (let header' = (case wc_signer c of
                 None \<Rightarrow> header
               | Some sign \<Rightarrow>
                   (case sign token reqURL of (proof, proofOld, timestamp) \<Rightarrow>
                      header_set ''X-WOPI-TimeStamp'' timestamp
                        ((if proofOld \<noteq> [] then header_set ''X-WOPI-ProofOld'' proofOld else id)
                          (header_set ''X-WOPI-Proof'' proof header))))
           in case wc_http c now \<lparr>hq_method = method, hq_url = reqURL, hq_header = header', hq_body = body\<rparr> h of
                (Inl err, h') \<Rightarrow>
                  (Inl (OtherError (''wopiclient: '' @ op @ '': '' @ redactedError token err)), h')
              | (Inr rsp, h') \<Rightarrow> (Inr rsp, h')))"

section \<open>CheckFileInfo's answer\<close>

text \<open>
  The name a member is matched under: ASCII letters count without their case, and so do the
  two other runes that fold to one, the long s and the Kelvin sign.
\<close>

fun fold_name :: "string \<Rightarrow> string" where
  "fold_name [] = []"
| "fold_name (a # s) =
     (if starts_with (a # s) [CHR 0xC5, CHR 0xBF] then CHR ''S'' # fold_name (drop 1 s)
      else if starts_with (a # s) [CHR 0xE2, CHR 0x84, CHR 0xAA] then CHR ''K'' # fold_name (drop 2 s)
      else (if 97 \<le> (of_char a :: nat) \<and> (of_char a :: nat) \<le> 122 then char_of ((of_char a :: nat) - 32) else a)
           # fold_name s)"

definition take_str :: "json \<Rightarrow> (string \<Rightarrow> 'a) \<Rightarrow> 'a \<Rightarrow> bool \<Rightarrow> 'a \<times> bool" where
  "take_str v upd i ok = (case v of JStr t \<Rightarrow> (upd t, ok) | JNull \<Rightarrow> (i, ok) | _ \<Rightarrow> (i, False))"

definition take_bool :: "json \<Rightarrow> (bool \<Rightarrow> 'a) \<Rightarrow> 'a \<Rightarrow> bool \<Rightarrow> 'a \<times> bool" where
  "take_bool v upd i ok = (case v of JBool b \<Rightarrow> (upd b, ok) | JNull \<Rightarrow> (i, ok) | _ \<Rightarrow> (i, False))"

definition take_int :: "json \<Rightarrow> (int \<Rightarrow> 'a) \<Rightarrow> 'a \<Rightarrow> bool \<Rightarrow> 'a \<times> bool" where
  "take_int v upd i ok =
     (case v of
        JNum n \<Rightarrow> (case parse_int n of Some k \<Rightarrow> (upd k, ok) | None \<Rightarrow> (i, False))
      | JNull \<Rightarrow> (i, ok)
      | _ \<Rightarrow> (i, False))"

definition fileInfo_member :: "string \<times> json \<Rightarrow> fileInfo \<times> bool \<Rightarrow> fileInfo \<times> bool" where
  "fileInfo_member kv acc =
     (case (kv, acc) of ((k, v), (i, ok)) \<Rightarrow>
       (let isf = (\<lambda>field. fold_name k = fold_name field) in
        if isf ''BaseFileName'' then take_str v (\<lambda>s. i\<lparr>fi_BaseFileName := s\<rparr>) i ok
        else if isf ''OwnerId'' then take_str v (\<lambda>s. i\<lparr>fi_OwnerID := s\<rparr>) i ok
        else if isf ''UserFriendlyName'' then take_str v (\<lambda>s. i\<lparr>fi_UserFriendlyName := s\<rparr>) i ok
        else if isf ''Size'' then take_int v (\<lambda>n. i\<lparr>fi_Size := n\<rparr>) i ok
        else if isf ''UserId'' then take_str v (\<lambda>s. i\<lparr>fi_UserID := s\<rparr>) i ok
        else if isf ''Version'' then take_str v (\<lambda>s. i\<lparr>fi_Version := s\<rparr>) i ok
        else if isf ''UserCanWrite'' then take_bool v (\<lambda>b. i\<lparr>fi_UserCanWrite := b\<rparr>) i ok
        else if isf ''ReadOnly'' then take_bool v (\<lambda>b. i\<lparr>fi_ReadOnly := b\<rparr>) i ok
        else if isf ''SupportsUpdate'' then take_bool v (\<lambda>b. i\<lparr>fi_SupportsUpdate := b\<rparr>) i ok
        else if isf ''SupportsGetLock'' then take_bool v (\<lambda>b. i\<lparr>fi_SupportsGetLock := b\<rparr>) i ok
        else if isf ''SupportsLocks'' then take_bool v (\<lambda>b. i\<lparr>fi_SupportsLocks := b\<rparr>) i ok
        else (i, ok)))"

definition zeroFileInfo :: fileInfo where
  "zeroFileInfo = \<lparr>fi_BaseFileName = [], fi_OwnerID = [], fi_UserFriendlyName = [], fi_Size = 0,
     fi_UserID = [], fi_Version = [], fi_UserCanWrite = False, fi_ReadOnly = False,
     fi_SupportsUpdate = False, fi_SupportsGetLock = False, fi_SupportsLocks = False\<rparr>"

definition unmarshal_fileInfo :: "bytes \<Rightarrow> fileInfo option" where
  "unmarshal_fileInfo body =
     (case parse_json body of
        None \<Rightarrow> None
      | Some JNull \<Rightarrow> Some zeroFileInfo
      | Some (JObj ms) \<Rightarrow>
          (case fold fileInfo_member ms (zeroFileInfo, True) of (i, ok) \<Rightarrow> if ok then Some i else None)
      | Some _ \<Rightarrow> None)"

section \<open>The operations\<close>

definition parseError :: wopi_error where
  "parseError = OtherError ''wopiclient: parse WOPISrc''"

definition CheckFileInfo :: "'h wopiClient \<Rightarrow> time \<Rightarrow> string \<Rightarrow> string \<Rightarrow> 'h \<Rightarrow> (wopi_error + fileInfo) \<times> 'h" where
  "CheckFileInfo c now src token h =
     (case withAccessToken src token of
        None \<Rightarrow> (Inl parseError, h)
      | Some reqURL \<Rightarrow>
          (case send c now ''CheckFileInfo'' ''GET'' reqURL token [] [] h of
             (Inl e, h') \<Rightarrow> (Inl e, h')
           | (Inr rsp, h') \<Rightarrow>
               ((if hs_bodyErr rsp then Inl (OtherError ''wopiclient: CheckFileInfo: read response'')
                 else if hs_status rsp \<noteq> StatusOK
                 then Inl (clientMapErr c ''CheckFileInfo'' rsp (hs_body rsp))
                 else (case unmarshal_fileInfo (hs_body rsp) of
                         None \<Rightarrow> Inl (OtherError ''wopiclient: CheckFileInfo: decode response'')
                       | Some i \<Rightarrow> Inr i)), h')))"

text \<open>The body is handed on as a reader, with whether reading it will fail.\<close>

definition GetFile :: "'h wopiClient \<Rightarrow> time \<Rightarrow> string \<Rightarrow> string \<Rightarrow> int option \<Rightarrow> 'h
    \<Rightarrow> (wopi_error + (bytes \<times> bool) \<times> string) \<times> 'h" where
  "GetFile c now src token maxExpectedSize h =
     (case contentsURL src of
        None \<Rightarrow> (Inl parseError, h)
      | Some contents \<Rightarrow>
          (case withAccessToken contents token of
             None \<Rightarrow> (Inl parseError, h)
           | Some reqURL \<Rightarrow>
               (let header = (case maxExpectedSize of
                       None \<Rightarrow> []
                     | Some n \<Rightarrow> header_set ''X-WOPI-MaxExpectedSize'' (format_int n) [])
                in case send c now ''GetFile'' ''GET'' reqURL token header [] h of
                     (Inl e, h') \<Rightarrow> (Inl e, h')
                   | (Inr rsp, h') \<Rightarrow>
                       ((if hs_status rsp \<noteq> StatusOK
                         then Inl (clientMapErr c ''GetFile'' rsp (hs_body rsp))
                         else Inr ((hs_body rsp, hs_bodyErr rsp), itemVersion c (hs_header rsp))), h'))))"

definition PutFile :: "'h wopiClient \<Rightarrow> time \<Rightarrow> string \<Rightarrow> string \<Rightarrow> string \<Rightarrow> bytes \<Rightarrow> 'h
    \<Rightarrow> (wopi_error + string) \<times> 'h" where
  "PutFile c now src token lock body h =
     (case contentsURL src of
        None \<Rightarrow> (Inl parseError, h)
      | Some contents \<Rightarrow>
          (case withAccessToken contents token of
             None \<Rightarrow> (Inl parseError, h)
           | Some reqURL \<Rightarrow>
               (let header = (if lock \<noteq> [] then header_set ''X-WOPI-Lock'' lock else id)
                       (header_set ''Content-Type'' ''application/octet-stream''
                         (header_set ''X-WOPI-Override'' ''PUT'' []))
                in case send c now ''PutFile'' ''POST'' reqURL token header body h of
                     (Inl e, h') \<Rightarrow> (Inl e, h')
                   | (Inr rsp, h') \<Rightarrow>
                       ((if hs_status rsp \<noteq> StatusOK
                         then Inl (clientMapErr c ''PutFile'' rsp (hs_body rsp))
                         else Inr (itemVersion c (hs_header rsp))), h'))))"

definition lockOp :: "'h wopiClient \<Rightarrow> time \<Rightarrow> string \<Rightarrow> string \<Rightarrow> string \<Rightarrow> string \<Rightarrow> (string \<times> string) list
    \<Rightarrow> 'h \<Rightarrow> wopi_error option \<times> 'h" where
  "lockOp c now op override src token header h =
     (case withAccessToken src token of
        None \<Rightarrow> (Some parseError, h)
      | Some reqURL \<Rightarrow>
          (case send c now op ''POST'' reqURL token (header_set ''X-WOPI-Override'' override header) [] h of
             (Inl e, h') \<Rightarrow> (Some e, h')
           | (Inr rsp, h') \<Rightarrow>
               ((if hs_status rsp \<noteq> StatusOK then Some (clientMapErr c op rsp (hs_body rsp)) else None), h')))"

definition Lock :: "'h wopiClient \<Rightarrow> time \<Rightarrow> string \<Rightarrow> string \<Rightarrow> string \<Rightarrow> 'h \<Rightarrow> wopi_error option \<times> 'h" where
  "Lock c now src token lock = lockOp c now ''Lock'' ''LOCK'' src token (header_set ''X-WOPI-Lock'' lock [])"

definition GetLock :: "'h wopiClient \<Rightarrow> time \<Rightarrow> string \<Rightarrow> string \<Rightarrow> 'h \<Rightarrow> (wopi_error + string) \<times> 'h" where
  "GetLock c now src token h =
     (case withAccessToken src token of
        None \<Rightarrow> (Inl parseError, h)
      | Some reqURL \<Rightarrow>
          (case send c now ''GetLock'' ''POST'' reqURL token (header_set ''X-WOPI-Override'' ''GET_LOCK'' []) [] h of
             (Inl e, h') \<Rightarrow> (Inl e, h')
           | (Inr rsp, h') \<Rightarrow>
               ((if hs_status rsp \<noteq> StatusOK then Inl (clientMapErr c ''GetLock'' rsp (hs_body rsp))
                 else Inr (hs_header rsp ''X-WOPI-Lock'')), h')))"

definition RefreshLock :: "'h wopiClient \<Rightarrow> time \<Rightarrow> string \<Rightarrow> string \<Rightarrow> string \<Rightarrow> 'h \<Rightarrow> wopi_error option \<times> 'h" where
  "RefreshLock c now src token lock =
     lockOp c now ''RefreshLock'' ''REFRESH_LOCK'' src token (header_set ''X-WOPI-Lock'' lock [])"

definition Unlock :: "'h wopiClient \<Rightarrow> time \<Rightarrow> string \<Rightarrow> string \<Rightarrow> string \<Rightarrow> 'h \<Rightarrow> wopi_error option \<times> 'h" where
  "Unlock c now src token lock =
     lockOp c now ''Unlock'' ''UNLOCK'' src token (header_set ''X-WOPI-Lock'' lock [])"

definition UnlockAndRelock ::
  "'h wopiClient \<Rightarrow> time \<Rightarrow> string \<Rightarrow> string \<Rightarrow> string \<Rightarrow> string \<Rightarrow> 'h \<Rightarrow> wopi_error option \<times> 'h" where
  "UnlockAndRelock c now src token newLock oldLock =
     lockOp c now ''UnlockAndRelock'' ''LOCK'' src token
       (header_set ''X-WOPI-OldLock'' oldLock (header_set ''X-WOPI-Lock'' newLock []))"

section \<open>What a request's URL says\<close>

text \<open>A URL a launch lets through: absolute, with a host that is a name.\<close>

definition plain_url :: "string \<Rightarrow> url \<Rightarrow> bool" where
  "plain_url src u \<longleftrightarrow> url_parse src = Some u \<and> u_Scheme u \<noteq> [] \<and> u_Host u \<noteq> [] \<and> u_User u = None
     \<and> CHR ''['' \<notin> set (u_Host u)"

lemma plain_ok: "plain_url src u \<Longrightarrow> url_ok u"
  unfolding plain_url_def by (blast intro: url_parse_ok)

lemma escapedPath_absolute: "url_ok u \<Longrightarrow> u_Path u = [] \<or> hd (u_Path u) = CHR ''/''"
proof -
  assume "url_ok u"
  then have e: "escapedPath u = [] \<or> hd (escapedPath u) = CHR ''/''"
    "unescape EncodePath (escapedPath u) = Some (u_Path u)" by (simp_all add: url_ok_def)
  show ?thesis
  proof (cases "escapedPath u")
    case (Cons c s)
    with e obtain z where "CHR ''/'' # z = u_Path u" by auto
    then show ?thesis by (metis list.sel(1))
  qed (use e in simp)
qed

text \<open>A path that came with Go's own escapes, or none, is printed as it came.\<close>

lemma default_path: "plain_url src u \<Longrightarrow> u_RawPath u = [] \<Longrightarrow> escapedPath u = escape EncodePath (u_Path u)"
  using escapedPath_absolute [OF plain_ok [of src u]] by (auto simp: escapedPath_def)

lemma token_url:
  assumes "plain_url src u"
  obtains out v where "withAccessToken src token = Some out" "plain_url out v"
    "u_Scheme v = u_Scheme u" "u_Host v = u_Host u" "u_Path v = u_Path u"
    "query_get (parse_query (u_RawQuery v)) ''access_token'' = token"
    "\<And>k. k \<noteq> ''access_token'' \<Longrightarrow>
       map_of (parse_query (u_RawQuery v)) k = map_of (parse_query (u_RawQuery u)) k"
    "u_RawPath u = [] \<Longrightarrow> u_RawPath v = []"
proof -
  let ?m = "query_set ''access_token'' token (parse_query (u_RawQuery u))"
  let ?w = "u\<lparr>u_RawQuery := query_encode ?m\<rparr>"
  have m: "values_ok ?m" by (simp add: query_set_def values_ok_update values_ok_parse)
  have "url_ok ?w" using plain_ok [OF assms] by simp
  from url_parse_string [OF this] query_encode_part obtain v where v: "url_parse (url_string ?w) = Some v"
    "u_Scheme v = u_Scheme u" "u_Host v = u_Host u" "u_Path v = u_Path u" "u_User v = None"
    "u_RawQuery v = query_encode ?m"
    "u_RawPath v = (if escape EncodePath (u_Path u) = escapedPath u then [] else escapedPath u)"
    by (auto simp: escapedPath_def)
  have out: "withAccessToken src token = Some (url_string ?w)"
    using assms by (simp add: withAccessToken_def plain_url_def)
  have plain: "plain_url (url_string ?w) v" using assms v by (simp add: plain_url_def)
  have q: "map_of (parse_query (u_RawQuery v)) k = map_of ?m k" for k
    unfolding v(6) by (rule parse_query_encode_ok [OF m])
  show thesis
    by (rule that [OF out plain v(2-4)]) (simp_all add: query_get_def q query_set_def v(7) default_path [OF assms])
qed

lemma trim_slash_length: "length (trim_suffix s ''/'' @ ''/contents'') > length s"
  by (auto simp: trim_suffix_def ends_with_def)

lemma contents_path:
  assumes "p = [] \<or> hd p = CHR ''/''"
  shows "\<exists>t. trim_suffix p ''/'' @ ''/contents'' = CHR ''/'' # t"
proof (cases "trim_suffix p ''/''")
  case Nil
  then show ?thesis by simp
next
  case (Cons c t)
  have "trim_suffix p ''/'' = take (length (trim_suffix p ''/'')) p"
    by (auto simp: trim_suffix_def)
  with Cons have "hd p = c" "p \<noteq> []" by (cases p; simp)+
  with assms Cons show ?thesis by simp
qed

lemma contents_url:
  assumes "plain_url src u"
  obtains out v where "contentsURL src = Some out" "plain_url out v"
    "u_Scheme v = u_Scheme u" "u_Host v = u_Host u"
    "u_Path v = trim_suffix (u_Path u) ''/'' @ ''/contents''" "u_RawQuery v = u_RawQuery u" "u_RawPath v = []"
proof -
  let ?p = "trim_suffix (u_Path u) ''/'' @ ''/contents''"
  have ne: "?p \<noteq> u_Path u" using trim_slash_length [of "u_Path u"] by (metis less_irrefl)
  obtain t where t: "?p = CHR ''/'' # t"
    using contents_path escapedPath_absolute [OF plain_ok [OF assms]] by blast
  have parse: "url_parse src = Some u" using assms by (simp add: plain_url_def)
  from url_parse_new_path [OF parse plain_ok [OF assms] t ne] obtain v
    where v: "url_parse (url_string (u\<lparr>u_Path := ?p\<rparr>)) = Some v" "u_Scheme v = u_Scheme u"
      "u_Host v = u_Host u" "u_Path v = ?p" "u_User v = None" "u_RawQuery v = u_RawQuery u" "u_RawPath v = []" by blast
  have "contentsURL src = Some (url_string (u\<lparr>u_Path := ?p\<rparr>))" using parse by (simp add: contentsURL_def)
  moreover have "plain_url (url_string (u\<lparr>u_Path := ?p\<rparr>)) v" using assms v by (simp add: plain_url_def)
  ultimately show thesis using v by (intro that)
qed

section \<open>Properties of the URLs\<close>

text \<open>
  A WOPI request goes to the file it is about and carries the token: for every
  \<open>WOPISrc\<close> that is an absolute URL with a host name, and every token, the URL that is sent
  parses to the same scheme, host and path (with \<open>/contents\<close> appended for \<open>GetFile\<close> and
  \<open>PutFile\<close>), its query gives the token back byte for byte, and every other query key of
  the \<open>WOPISrc\<close> keeps its values.
\<close>

theorem request_carries_token:
  assumes "plain_url src u"
  shows "(\<exists>out v. withAccessToken src token = Some out \<and> plain_url out v
      \<and> u_Scheme v = u_Scheme u \<and> u_Host v = u_Host u \<and> u_Path v = u_Path u
      \<and> query_get (parse_query (u_RawQuery v)) ''access_token'' = token
      \<and> (\<forall>k. k \<noteq> ''access_token'' \<longrightarrow>
           map_of (parse_query (u_RawQuery v)) k = map_of (parse_query (u_RawQuery u)) k))
    \<and> (\<exists>contents out v. contentsURL src = Some contents \<and> withAccessToken contents token = Some out
      \<and> plain_url out v \<and> u_Scheme v = u_Scheme u \<and> u_Host v = u_Host u
      \<and> u_Path v = trim_suffix (u_Path u) ''/'' @ ''/contents''
      \<and> query_get (parse_query (u_RawQuery v)) ''access_token'' = token)"
proof
  obtain out v where "withAccessToken src token = Some out" "plain_url out v"
    "u_Scheme v = u_Scheme u" "u_Host v = u_Host u" "u_Path v = u_Path u"
    "query_get (parse_query (u_RawQuery v)) ''access_token'' = token"
    "\<And>k. k \<noteq> ''access_token'' \<Longrightarrow>
       map_of (parse_query (u_RawQuery v)) k = map_of (parse_query (u_RawQuery u)) k"
    using token_url [OF assms, of token] by blast
  then show "\<exists>out v. withAccessToken src token = Some out \<and> plain_url out v
      \<and> u_Scheme v = u_Scheme u \<and> u_Host v = u_Host u \<and> u_Path v = u_Path u
      \<and> query_get (parse_query (u_RawQuery v)) ''access_token'' = token
      \<and> (\<forall>k. k \<noteq> ''access_token'' \<longrightarrow>
           map_of (parse_query (u_RawQuery v)) k = map_of (parse_query (u_RawQuery u)) k)"
    by blast
  obtain contents w where c: "contentsURL src = Some contents" "plain_url contents w"
    "u_Scheme w = u_Scheme u" "u_Host w = u_Host u"
    "u_Path w = trim_suffix (u_Path u) ''/'' @ ''/contents''"
    using contents_url [OF assms] by blast
  obtain out v where "withAccessToken contents token = Some out" "plain_url out v"
    "u_Scheme v = u_Scheme w" "u_Host v = u_Host w" "u_Path v = u_Path w"
    "query_get (parse_query (u_RawQuery v)) ''access_token'' = token"
    using token_url [OF c(2), of token] by blast
  with c show "\<exists>contents out v. contentsURL src = Some contents \<and> withAccessToken contents token = Some out
      \<and> plain_url out v \<and> u_Scheme v = u_Scheme u \<and> u_Host v = u_Host u
      \<and> u_Path v = trim_suffix (u_Path u) ''/'' @ ''/contents''
      \<and> query_get (parse_query (u_RawQuery v)) ''access_token'' = token"
    by metis
qed

definition demoSrc :: string where
  "demoSrc = ''http://drive:8000/wopi/files/f1?v=2''"

lemma demoSrc_plain: "plain_url demoSrc (the (url_parse demoSrc))"
  by code_simp

theorem request_carries_token_witness:
  "\<exists>out v. withAccessToken demoSrc ''a/b+c='' = Some out \<and> url_parse out = Some v
     \<and> query_get (parse_query (u_RawQuery v)) ''access_token'' = ''a/b+c=''"
  using request_carries_token [OF demoSrc_plain, of "''a/b+c=''"] unfolding plain_url_def by metis

text \<open>
  The redaction of transport errors misses an escaped token: whenever the text that
  quotes the request's URL does not hold the token byte for byte, it is logged as it is,
  and the URL in it gives the token back.
\<close>

theorem escaped_token_is_logged:
  assumes "plain_url src u" "withAccessToken src token = Some out"
    and "cut_at token (before @ out @ after) = None" "token \<noteq> []"
  shows "redactedError token (before @ out @ after) = before @ out @ after
    \<and> (\<exists>v. url_parse out = Some v \<and> query_get (parse_query (u_RawQuery v)) ''access_token'' = token)"
proof
  show "redactedError token (before @ out @ after) = before @ out @ after"
    using assms(3,4)
    by (cases "length (before @ out @ after)") (simp_all add: redactedError_def)
  obtain out' v where "withAccessToken src token = Some out'" "plain_url out' v"
    "query_get (parse_query (u_RawQuery v)) ''access_token'' = token"
    using token_url [OF assms(1), of token] by blast
  with assms(2) show "\<exists>v. url_parse out = Some v \<and> query_get (parse_query (u_RawQuery v)) ''access_token'' = token"
    by (auto simp: plain_url_def)
qed

lemma demo_escaped: "withAccessToken demoSrc ''a/b+c='' =
   Some ''http://drive:8000/wopi/files/f1?access_token=a%2Fb%2Bc%3D&v=2''"
  by code_simp

theorem escaped_token_is_logged_witness:
  "redactedError ''a/b+c='' ''Get http://drive:8000/wopi/files/f1?access_token=a%2Fb%2Bc%3D&v=2: EOF''
     = ''Get http://drive:8000/wopi/files/f1?access_token=a%2Fb%2Bc%3D&v=2: EOF''"
proof -
  have "cut_at ''a/b+c='' (''Get '' @ ''http://drive:8000/wopi/files/f1?access_token=a%2Fb%2Bc%3D&v=2'' @ '': EOF'') = None"
    by code_simp
  from escaped_token_is_logged [OF demoSrc_plain demo_escaped this] show ?thesis by simp
qed

text \<open>
  \<open>contentsURL\<close> undoes the escapes of a path: a \<open>WOPISrc\<close> with an escaped slash names
  another resource once \<open>/contents\<close> is appended, while \<open>CheckFileInfo\<close> and the lock calls
  keep the escape.
\<close>

theorem contents_url_loses_escapes:
  "contentsURL ''http://h/wopi/a%2Fb/f1'' = Some ''http://h/wopi/a/b/f1/contents''
   \<and> withAccessToken ''http://h/wopi/a%2Fb/f1'' ''t'' = Some ''http://h/wopi/a%2Fb/f1?access_token=t''"
  by (rule conjI; code_simp)

end
