(* ===== verification/JsonText.thy ===== *)
theory JsonText
  imports Json GoText
begin

text \<open>
  What the text of \<open>encoding/json\<close> looks like: integers are numbers of its grammar, ASCII
  text is carried as it is, and with HTML escaping on the text holds no angle bracket and
  no ampersand.
\<close>

section \<open>Integers\<close>

lemma is_digit_json: "Json.is_digit c \<longleftrightarrow> GoText.is_digit c"
  by (simp add: Json.is_digit_def GoText.is_digit_def in_range_def)

lemma nat_digits_head: "0 < n \<Longrightarrow> hd (nat_digits n) \<noteq> CHR ''0''"
proof (induction n rule: nat_digits.induct)
  case (1 n)
  show ?case
  proof (cases "n < 10")
    case True
    have "(of_char (char_of (48 + n) :: char) :: nat) = 48 + n" using True by (rule of_char_digit)
    moreover have "(of_char CHR ''0'' :: nat) = 48" by simp
    ultimately have "char_of (48 + n) \<noteq> CHR ''0''" using 1(2) by (metis add_cancel_left_right less_irrefl)
    with True show ?thesis by (subst nat_digits.simps) simp
  next
    case False
    with 1 have "hd (nat_digits (n div 10)) \<noteq> CHR ''0''" by simp
    with False nat_digits_props(1) [of "n div 10"] show ?thesis
      by (subst nat_digits.simps) simp
  qed
qed

lemma num_ok_format:
  assumes "0 \<le> n"
  shows "num_ok (format_int n)"
proof -
  obtain c cs where c: "nat_digits (nat n) = c # cs"
    using nat_digits_props(1) [of "nat n"] by (cases "nat_digits (nat n)") auto
  then have d: "list_all Json.is_digit (c # cs)"
    using nat_digits_props(2) [of "nat n"] by (simp add: list_all_iff is_digit_json)
  have "c \<noteq> CHR ''-''" using d by (auto simp: Json.is_digit_def in_range_def)
  then have sign: "num_sign (c # cs) = ([], c # cs)" by (simp add: num_sign_def)
  have "num_int (c # cs) = Some (c # cs, [])"
  proof (cases "nat n = 0")
    case True
    moreover have "(char_of (48 :: nat) :: char) = CHR ''0''" by code_simp
    ultimately have "c = CHR ''0''" "cs = []" using c by (auto simp: nat_digits.simps)
    then show ?thesis by (simp add: num_int_def)
  next
    case False
    with c nat_digits_head [of "nat n"] have "c \<noteq> CHR ''0''" by simp
    moreover have "takeWhile Json.is_digit (c # cs) = c # cs" "dropWhile Json.is_digit (c # cs) = []"
      using d by (simp_all add: list_all_iff)
    ultimately show ?thesis by (simp add: num_int_def digits1_def)
  qed
  with sign assms c show ?thesis
    by (simp add: num_ok_def parse_num_def format_int_def num_frac_def num_exp_def prepend_def)
qed

section \<open>HTML escaping\<close>

definition html_safe :: "string \<Rightarrow> bool" where
  "html_safe s \<longleftrightarrow> CHR ''<'' \<notin> set s \<and> CHR ''>'' \<notin> set s \<and> CHR 0x26 \<notin> set s"

lemma html_safe_simps [simp]:
  "html_safe []" "html_safe (c # s) \<longleftrightarrow> c \<noteq> CHR ''<'' \<and> c \<noteq> CHR ''>'' \<and> c \<noteq> CHR 0x26 \<and> html_safe s"
  "html_safe (s @ t) \<longleftrightarrow> html_safe s \<and> html_safe t"
  by (auto simp: html_safe_def)

lemma html_safe_high: "\<forall>c \<in> set s. 128 \<le> code c \<Longrightarrow> html_safe s"
  by (auto simp: html_safe_def)

lemma html_safe_code: "html_safe [c] \<longleftrightarrow> code c \<noteq> 60 \<and> code c \<noteq> 62 \<and> code c \<noteq> 38"
proof -
  have "c = d \<longleftrightarrow> code c = code d" for d by (simp only: of_char_eq_iff)
  from this [of "CHR ''<''"] this [of "CHR ''>''"] this [of "CHR 0x26"] show ?thesis by simp
qed

lemma hex_digit_safe: "n < 16 \<Longrightarrow> html_safe [hex_digit n]"
  unfolding html_safe_code hex_digit_def by (auto simp: of_char_of)

lemma u00_safe: "html_safe (u00 (code c))"
proof -
  have "code c div 16 < 16" by (rule less_mult_imp_div_less) simp
  moreover have "code c mod 16 < 16" by simp
  moreover note hex_digit_safe [of "code c div 16"] hex_digit_safe [of "code c mod 16"]
  ultimately show ?thesis by (simp add: u00_def)
qed

lemma print_ascii_safe: "html_safe (print_ascii c)"
  by (auto simp: print_ascii_def u00_safe)

lemma rune_high:
  assumes "\<not> code a < 128" "c \<in> set (take (rune_len (a # s)) (a # s))"
  shows "128 \<le> code c"
proof -
  consider "in_range 194 223 a" | "in_range 224 239 a" | "in_range 240 244 a" | "rune_len (a # s) = 0"
    using assms(1) unfolding rune_len.simps by meson
  then show ?thesis
  proof cases
    case 1
    then show ?thesis using assms
      by (cases s) (auto simp: rune_len.simps in_range_def split: if_splits)
  next
    case 2
    then have "\<not> in_range 194 223 a" by (simp add: in_range_def)
    with 2 show ?thesis using assms
      by (cases s; cases "tl s") (auto simp: rune_len.simps in_range_def split: if_splits)
  next
    case 3
    then have "\<not> in_range 194 223 a" "\<not> in_range 224 239 a" by (simp_all add: in_range_def)
    with 3 show ?thesis using assms
      by (cases s; cases "tl s"; cases "tl (tl s)") (auto simp: rune_len.simps in_range_def split: if_splits)
  qed (use assms in simp)
qed

lemma print_chars_safe: "html_safe (print_chars s)"
proof (induction s rule: print_chars.induct)
  case (2 a s)
  have "html_safe (print_rune (take (rune_len (a # s)) (a # s)))" if "\<not> code a < 128"
    using rune_high [OF that] html_safe_high by (auto simp: print_rune_def)
  with 2 show ?case by (simp add: print_ascii_safe)
qed simp

lemma sep_by_safe: "html_safe sep \<Longrightarrow> list_all html_safe xs \<Longrightarrow> html_safe (sep_by sep xs)"
  by (induction sep xs rule: sep_by.induct) auto

lemma format_int_safe: "html_safe (format_int n)"
proof -
  have "html_safe ds" if "list_all GoText.is_digit ds" for ds
    using that
  proof (induction ds)
    case (Cons d ds)
    then have "html_safe [d]" unfolding html_safe_code by (auto simp: GoText.is_digit_def)
    with Cons show ?case by simp
  qed simp
  then show ?thesis using nat_digits_props(2) by (simp add: format_int_def)
qed

text \<open>A document whose numbers are integers: its text never ends a script element.\<close>

fun int_json :: "json \<Rightarrow> bool" where
  "int_json (JNum n) \<longleftrightarrow> (\<exists>k. n = format_int k)"
| "int_json (JArr vs) \<longleftrightarrow> list_all int_json vs"
| "int_json (JObj ms) \<longleftrightarrow> list_all (\<lambda>kv. int_json (snd kv)) ms"
| "int_json _ \<longleftrightarrow> True"

lemma print_str_safe: "html_safe (print_str s)"
  by (simp add: print_str_def print_chars_safe)

lemma print_json_safe: "int_json v \<Longrightarrow> html_safe (print_json v)"
proof (induction v)
  case (JArr vs)
  then have "list_all html_safe (map print_json vs)" by (auto simp: list_all_iff)
  with sep_by_safe [of "'',''"] show ?case by simp
next
  case (JObj ms)
  have "html_safe (print_json (snd kv))" if "kv \<in> set ms" for kv
    using JObj that by (cases kv) (fastforce simp: list_all_iff)
  then have "list_all html_safe (map (\<lambda>kv. print_str (fst kv) @ '':'' @ print_json (snd kv)) ms)"
    by (auto simp: list_all_iff print_str_safe)
  with sep_by_safe [of "'',''"] show ?case by simp
qed (auto simp: format_int_safe print_str_safe)

end
