(* ===== verification/GoHttp.thy ===== *)
theory GoHttp
  imports NetUrl
begin

text \<open>
  The part of \<open>net/http\<close> and \<open>path\<close> that the HTTP handlers use: a reply, \<open>http.Error\<close>,
  the form of a POST request and \<open>path.Base\<close>.
\<close>

section \<open>Replies\<close>

record httpReply =
  hr_status :: int
  hr_header :: "(string \<times> string) list"
  hr_body :: bytes

definition http_error :: "string \<Rightarrow> int \<Rightarrow> httpReply" where
  "http_error msg status =
     \<lparr>hr_status = status,
      hr_header = [(''Content-Type'', ''text/plain; charset=utf-8''), (''X-Content-Type-Options'', ''nosniff'')],
      hr_body = msg @ [CHR 0x0A]\<rparr>"

lemma http_error_simps [simp]: "hr_status (http_error msg st) = st" "hr_body (http_error msg st) = msg @ [CHR 0x0A]"
  by (simp_all add: http_error_def)

section \<open>Forms\<close>

text \<open>Whether \<open>url.ParseQuery\<close> reports an error; what it parses nevertheless is \<open>parse_query\<close>.\<close>

definition bad_pair :: "string \<Rightarrow> bool" where
  "bad_pair piece \<longleftrightarrow> CHR '';'' \<in> set piece \<or>
     (piece \<noteq> [] \<and> (case cut CHR ''='' piece of (k, v, _) \<Rightarrow>
        unescape EncodeQueryComponent k = None \<or> unescape EncodeQueryComponent v = None))"

definition query_err :: "string \<Rightarrow> bool" where
  "query_err q = list_ex bad_pair (split_on CHR ''&'' q)"

text \<open>A POST request; \<open>po_mediaType\<close> is \<open>None\<close> where \<open>mime.ParseMediaType\<close> fails.\<close>

record postReq =
  po_rawQuery :: string
  po_mediaType :: "string option"
  po_body :: bytes

definition maxFormSize :: nat where
  "maxFormSize = 10 * 2 ^ 20"

text \<open>\<open>r.ParseForm()\<close> and the \<open>PostForm\<close> it leaves; \<open>None\<close> is an error, also one of the query.\<close>

definition parse_form :: "postReq \<Rightarrow> queryValues option" where
  "parse_form r =
     (if query_err (po_rawQuery r) then None
      else case po_mediaType r of
        None \<Rightarrow> None
      | Some mt \<Rightarrow>
          if mt = ''application/x-www-form-urlencoded'' then
            (if maxFormSize < length (po_body r) \<or> query_err (po_body r) then None
             else Some (parse_query (po_body r)))
          else Some [])"

section \<open>Paths\<close>

definition path_base :: "string \<Rightarrow> string" where
  "path_base p =
     (if p = [] then ''.''
      else let q = rev (dropWhile (\<lambda>c. c = CHR ''/'') (rev p));
               b = rev (takeWhile (\<lambda>c. c \<noteq> CHR ''/'') (rev q))
           in if b = [] then ''/'' else b)"

lemma path_base_file:
  assumes "s \<noteq> []" "CHR ''/'' \<notin> set s"
  shows "path_base (p @ CHR ''/'' # s) = s"
proof -
  obtain c t where r: "rev s = c # t" using assms(1) by (cases "rev s") auto
  then have "c \<noteq> CHR ''/''" using assms(2) by (metis list.set_intros(1) set_rev)
  then have "dropWhile (\<lambda>c. c = CHR ''/'') (rev (p @ CHR ''/'' # s)) = rev s @ CHR ''/'' # rev p"
    by (simp add: r)
  moreover have "takeWhile (\<lambda>c. c \<noteq> CHR ''/'') (rev s @ CHR ''/'' # rev p) = rev s"
    using assms(2) by (subst takeWhile_append2) auto
  ultimately show ?thesis using assms(1) by (simp add: path_base_def Let_def)
qed

end
