(* ===== verification/HttpServer.thy ===== *)
theory HttpServer
  imports GoHttp
begin

text \<open>
  \<open>internal/httpserver/server.go\<close>: the health check and the handler of the frontend's files,
  over the lexical functions of \<open>path\<close> and the file server of \<open>net/http\<close>.
\<close>

section \<open>Paths\<close>

text \<open>\<open>path.Clean\<close>: the elements that stay, the last one first.\<close>

fun clean_step :: "bool \<Rightarrow> string \<Rightarrow> string list \<Rightarrow> string list" where
  "clean_step rooted e stack =
     (if e = [] \<or> e = ''.'' then stack
      else if e = ''..'' then
        (case stack of
           [] \<Rightarrow> if rooted then [] else [e]
         | e1 # below \<Rightarrow> if e1 = ''..'' then e # stack else below)
      else e # stack)"

fun join_slash :: "string list \<Rightarrow> string" where
  "join_slash [] = []"
| "join_slash [e] = e"
| "join_slash (e # f # es) = e @ ''/'' @ join_slash (f # es)"

definition path_clean :: "string \<Rightarrow> string" where
  "path_clean p =
     (let rooted = starts_with p ''/'';
          out = join_slash (rev (fold (clean_step rooted) (split_on CHR ''/'' p) []))
      in if rooted then ''/'' @ out else if out = [] then ''.'' else out)"

text \<open>\<open>path.Ext\<close>: from the last dot of the last element.\<close>

definition path_ext :: "string \<Rightarrow> string" where
  "path_ext p =
     (let name = (case cut_last CHR ''/'' p of None \<Rightarrow> p | Some (_, b) \<Rightarrow> b)
      in case cut_last CHR ''.'' name of None \<Rightarrow> [] | Some (_, e) \<Rightarrow> ''.'' @ e)"

definition contains_dotdot :: "string \<Rightarrow> bool" where
  "contains_dotdot p \<longleftrightarrow>
     ''..'' \<in> set (concat (map (split_on (CHR 0x5C)) (split_on CHR ''/'' p)))"

section \<open>Files\<close>

datatype fsEntry = Dir | File bytes

text \<open>\<open>fs.Stat\<close> on the embedded tree; \<open>fs.ValidPath\<close> comes first.\<close>

definition valid_path :: "string \<Rightarrow> bool" where
  "valid_path p \<longleftrightarrow> p = ''.'' \<or> (\<forall>e \<in> set (split_on CHR ''/'' p). e \<notin> {[], ''.'', ''..''})"

definition fs_stat :: "(string \<Rightarrow> fsEntry option) \<Rightarrow> string \<Rightarrow> fsEntry option" where
  "fs_stat fs p = (if valid_path p then fs p else None)"

definition notFound :: httpReply where
  "notFound = http_error ''404 page not found'' 404"

definition local_redirect :: "string \<Rightarrow> string \<Rightarrow> httpReply" where
  "local_redirect query target =
     \<lparr>hr_status = 301, hr_header = [(''Location'', target @ (if query = [] then [] else ''?'' @ query))], hr_body = []\<rparr>"

definition ok_reply :: "bytes \<Rightarrow> httpReply" where
  "ok_reply body = \<lparr>hr_status = 200, hr_header = [], hr_body = body\<rparr>"

definition index_suffix :: string where "index_suffix = ''/index.html''"

text \<open>
  \<open>http.ServeFileFS\<close> of a file of the tree, and the \<open>FileServer\<close> for a path that names a file.
  The content type, ranges and conditional requests are left out.
\<close>

definition serveFileFS :: "(string \<Rightarrow> fsEntry option) \<Rightarrow> string \<Rightarrow> string \<Rightarrow> string \<Rightarrow> httpReply" where
  "serveFileFS fs path query name =
     (if contains_dotdot path then http_error ''invalid URL path'' 400
      else if ends_with path index_suffix then local_redirect query ''./''
      else case fs_stat fs name of
        Some (File body) \<Rightarrow> ok_reply body
      | _ \<Rightarrow> notFound)"

definition fileServer :: "(string \<Rightarrow> fsEntry option) \<Rightarrow> string \<Rightarrow> string \<Rightarrow> httpReply" where
  "fileServer fs path0 query =
     (let path = (if starts_with path0 ''/'' then path0 else ''/'' @ path0); name = path_clean path in
      if ends_with path index_suffix then local_redirect query ''./''
      else case fs_stat fs (if name = ''/'' then ''.'' else tl name) of
        Some (File body) \<Rightarrow>
          if ends_with path ''/'' then local_redirect query (''../'' @ path_base path) else ok_reply body
      | _ \<Rightarrow> notFound)"

section \<open>The handlers\<close>

definition handleHealthz :: httpReply where
  "handleHealthz =
     \<lparr>hr_status = 200, hr_header = [(''Content-Type'', ''text/plain; charset=utf-8'')], hr_body = ''ok''\<rparr>"

definition spaServe :: "(string \<Rightarrow> fsEntry option) \<Rightarrow> string \<Rightarrow> string \<Rightarrow> httpReply" where
  "spaServe fs path query =
     (let clean = path_clean (trim_prefix path ''/'') in
      if clean = ''.'' then serveFileFS fs path query ''index.html''
      else case fs_stat fs clean of
        Some Dir \<Rightarrow> notFound
      | Some (File _) \<Rightarrow> fileServer fs path query
      | None \<Rightarrow>
          if path_ext clean \<noteq> [] then notFound
          else serveFileFS fs path query ''index.html'')"

section \<open>The mux\<close>

text \<open>
  What a request is given to. The patterns of the other packages are registered on the same
  mux; the frontend's \<open>/\<close> takes whatever no other pattern matches, whatever its method.
\<close>

datatype endpoint =
    Healthz
  | Spa
  | DiscoveryDoc
  | LaunchPage
  | BoardAPI
  | SocketIO
  | FakeHost
  | FakeLaunch
  | FakeState

datatype dispatch = Dispatch endpoint | MovedTo string

text \<open>A pattern: the methods it names (none is all), the path, and whether that is a prefix.\<close>

type_synonym pattern = "string \<times> string \<times> bool"

definition method_matches :: "string \<Rightarrow> string \<Rightarrow> bool" where
  "method_matches pat m \<longleftrightarrow> pat = [] \<or> pat = m \<or> (pat = ''GET'' \<and> m = ''HEAD'')"

definition pattern_matches :: "string \<Rightarrow> string \<Rightarrow> pattern \<Rightarrow> bool" where
  "pattern_matches m path pat =
     (case pat of (pm, p, prefix) \<Rightarrow>
        method_matches pm m \<and> (if prefix then starts_with path p else path = p))"

definition coreRoutes :: "(pattern \<times> endpoint) list" where
  "coreRoutes = [((''GET'', ''/healthz'', False), Healthz), (([], ''/'', True), Spa)]"

text \<open>
  The most specific pattern: the longest path, an exact one before a prefix, one with a
  method before one without. A path that is not clean, or that only lacks the slash of a
  prefix pattern, is redirected. Left out: \<open>CONNECT\<close> requests, whose paths the mux does not
  clean, and a slash that is escaped inside a segment.
\<close>

definition more_specific :: "pattern \<Rightarrow> pattern \<Rightarrow> bool" where
  "more_specific a b =
     (case (a, b) of ((am, ap, aprefix), (bm, bp, bprefix)) \<Rightarrow>
        length bp < length ap \<or> (ap = bp \<and> ((bprefix \<and> \<not> aprefix) \<or> (bprefix = aprefix \<and> am \<noteq> [] \<and> bm = []))))"

definition best_route :: "string \<Rightarrow> string \<Rightarrow> (pattern \<times> endpoint) list \<Rightarrow> (pattern \<times> endpoint) option" where
  "best_route m path routes =
     fold (\<lambda>r best. case best of
             None \<Rightarrow> Some r
           | Some b \<Rightarrow> if more_specific (fst r) (fst b) then Some r else best)
       (filter (\<lambda>r. pattern_matches m path (fst r)) routes) None"

definition mux_clean :: "string \<Rightarrow> string" where
  "mux_clean path =
     (if path = [] then ''/''
      else let p = path_clean (if starts_with path ''/'' then path else ''/'' @ path)
           in if ends_with path ''/'' \<and> p \<noteq> ''/'' then p @ ''/'' else p)"

definition dispatch_to :: "(pattern \<times> endpoint) list \<Rightarrow> string \<Rightarrow> string \<Rightarrow> dispatch option" where
  "dispatch_to routes m path0 =
     (let path = mux_clean path0;
          exact = (\<lambda>p. case best_route m p routes of
                     Some ((_, q, prefix), _) \<Rightarrow> q = p | None \<Rightarrow> False)
      in if \<not> exact path \<and> \<not> ends_with path ''/'' \<and> exact (path @ ''/'') then Some (MovedTo (path @ ''/''))
         else if path \<noteq> path0 then Some (MovedTo path)
         else map_option (Dispatch \<circ> snd) (best_route m path routes))"

end
