(* ===== verification/WopiClientHost.thy ===== *)
theory WopiClientHost
  imports WopiClient JsonText HttpServer
begin

text \<open>
  The WOPI client against the in-memory host over HTTP: what the transport does to headers,
  the host's mux, its reading of a request and its JSON, and the proof that the client then behaves as the one the room
  manager's theories use (\<open>hostClient\<close>).
\<close>

section \<open>Headers on the wire\<close>

text \<open>
  The transport refuses to send a header value with a control character other than a tab,
  and both sides cut the white space around a value; in an answer a line break becomes a space.
\<close>

definition header_value_ok :: "string \<Rightarrow> bool" where
  "header_value_ok v = list_all (\<lambda>c. is_ctl c \<longrightarrow> c = CHR 0x09) v"

definition wire_value :: "string \<Rightarrow> string" where
  "wire_value v =
     (let blank = (\<lambda>c. c = CHR '' '' \<or> c = CHR 0x09);
          line = map (\<lambda>c. if c = CHR 0x0A \<or> c = CHR 0x0D then CHR '' '' else c) v
      in rev (dropWhile blank (rev (dropWhile blank line))))"

text \<open>A value that arrives as it was sent.\<close>

definition header_text :: "string \<Rightarrow> bool" where
  "header_text v \<longleftrightarrow> header_value_ok v \<and> wire_value v = v"

section \<open>Routes\<close>

text \<open>
  The mux patterns \<open>base/{id}\<close> and \<open>base/{id}/contents\<close>. The mux cleans the escaped path and
  redirects when that changes it; then it matches segment by segment, each with its escapes
  undone, and a wildcard is one segment. \<open>base\<close> is a clean path of literals.
\<close>

definition path_segments :: "string \<Rightarrow> string list" where
  "path_segments path =
     map (\<lambda>s. case unescape EncodePath s of None \<Rightarrow> s | Some t \<Rightarrow> t) (tl (split_on CHR ''/'' path))"

datatype hostRouting = HostFile string bool | HostMoved string | HostNone

definition hostRoute :: "string \<Rightarrow> string \<Rightarrow> hostRouting" where
  "hostRoute base raw =
     (if mux_clean raw \<noteq> raw then HostMoved (mux_clean raw)
      else let root = path_segments base; segs = path_segments raw in
        if take (length root) segs \<noteq> root then HostNone
        else (case drop (length root) segs of
                [fid] \<Rightarrow> if fid = [] then HostNone else HostFile fid False
              | [fid, final] \<Rightarrow> if final = ''contents'' then HostFile fid True else HostNone
              | _ \<Rightarrow> HostNone))"

text \<open>What the handler reads of a request for a file.\<close>

definition hostRequest :: "url \<Rightarrow> string \<Rightarrow> bool \<Rightarrow> httpReq \<Rightarrow> wopiReq" where
  "hostRequest u fid contents r =
     (let header = (\<lambda>k. wire_value (header_get (hq_header r) k)) in
      \<lparr>rq_method = hq_method r, rq_id = fid, rq_contents = contents,
       rq_queryToken = query_get (parse_query (u_RawQuery u)) ''access_token'',
       rq_authorization = header ''Authorization'', rq_override = header ''X-WOPI-Override'',
       rq_lock = header ''X-WOPI-Lock'', rq_oldLock = header ''X-WOPI-OldLock'',
       rq_body = Some (hq_body r)\<rparr>)"

text \<open>\<open>json.NewEncoder(w).Encode(info)\<close>.\<close>

definition fileInfo_json :: "fileInfo \<Rightarrow> json" where
  "fileInfo_json i = JObj
     [(''BaseFileName'', JStr (fi_BaseFileName i)), (''OwnerId'', JStr (fi_OwnerID i)),
      (''UserFriendlyName'', JStr (fi_UserFriendlyName i)), (''Size'', JNum (format_int (fi_Size i))),
      (''UserId'', JStr (fi_UserID i)), (''Version'', JStr (fi_Version i)),
      (''UserCanWrite'', JBool (fi_UserCanWrite i)), (''ReadOnly'', JBool (fi_ReadOnly i)),
      (''SupportsUpdate'', JBool (fi_SupportsUpdate i)), (''SupportsGetLock'', JBool (fi_SupportsGetLock i)),
      (''SupportsLocks'', JBool (fi_SupportsLocks i))]"

definition hostResponse :: "wopiResp \<Rightarrow> httpResp" where
  "hostResponse rp =
     \<lparr>hs_status = rp_status rp,
      hs_header = (\<lambda>k. if k = ''X-WOPI-Lock'' then wire_value (rp_lock rp)
                       else if k = ''X-WOPI-ItemVersion'' then wire_value (rp_version rp) else []),
      hs_body = (case rp_info rp of
                   None \<Rightarrow> rp_body rp
                 | Some i \<Rightarrow> print_json (fileInfo_json i) @ [CHR 0x0A]),
      hs_bodyErr = False\<rparr>"

text \<open>
  What \<open>net/http\<close> words itself: the error of a request it does not send, the redirect to a
  cleaned path. The client follows no redirect, so it is an answer like any other.
\<close>

record netWords =
  nw_refused :: "httpReq \<Rightarrow> string"
  nw_moved :: "httpReq \<Rightarrow> string \<Rightarrow> httpResp"

text \<open>
  One exchange, with the in-memory host at the address of the URL. The transport sends only
  to an \<open>http\<close> or \<open>https\<close> URL with a host; an empty path is sent as a slash.
\<close>

definition hostHTTP :: "netWords \<Rightarrow> string \<Rightarrow> time \<Rightarrow> httpReq \<Rightarrow> wopiHost
    \<Rightarrow> (string + httpResp) \<times> wopiHost" where
  "hostHTTP net base now r h =
     (case url_parse (hq_url r) of
        None \<Rightarrow> (Inl (nw_refused net r), h)
      | Some u \<Rightarrow>
          if u_Scheme u \<notin> {''http'', ''https''} \<or> u_Host u = []
             \<or> \<not> list_all (\<lambda>kv. header_value_ok (snd kv)) (hq_header r)
          then (Inl (nw_refused net r), h)
          else (case hostRoute base (if escapedPath u = [] then ''/'' else escapedPath u) of
                  HostMoved path \<Rightarrow> (Inr (nw_moved net r path), h)
                | HostNone \<Rightarrow> (Inr (hostResponse (resp 404)), h)
                | HostFile fid contents \<Rightarrow>
                    (case Handler now (hostRequest u fid contents r) h of
                       (rp, h') \<Rightarrow> (Inr (hostResponse rp), h'))))"

section \<open>The mux on a clean path\<close>

definition slashed :: "string list \<Rightarrow> string" where
  "slashed es = concat (map (\<lambda>e. CHR ''/'' # e) es)"

text \<open>A segment that path cleaning leaves alone.\<close>

definition seg_ok :: "string \<Rightarrow> bool" where
  "seg_ok e \<longleftrightarrow> e \<notin> {[], ''.'', ''..''} \<and> CHR ''/'' \<notin> set e"

lemma slashed_append [simp]: "slashed (es @ fs) = slashed es @ slashed fs"
  by (simp add: slashed_def)

lemma slashed_Cons [simp]: "slashed (e # es) = CHR ''/'' # e @ slashed es"
  by (simp add: slashed_def)

lemma slashed_Nil [simp]: "slashed [] = []"
  by (simp add: slashed_def)

lemma split_slashed: "list_all seg_ok es \<Longrightarrow> CHR ''/'' \<notin> set a \<Longrightarrow> split_on CHR ''/'' (a @ slashed es) = a # es"
proof (induction es arbitrary: a)
  case Nil
  then show ?case by (simp add: split_on_notin)
next
  case (Cons e es)
  then show ?case by (simp add: split_on_append seg_ok_def)
qed

lemma clean_kept: "list_all seg_ok es \<Longrightarrow> fold (clean_step rooted) es stack = rev es @ stack"
  by (induction es arbitrary: stack) (simp_all add: seg_ok_def)

lemma join_slashed: "slashed (e # es) = CHR ''/'' # join_slash (e # es)"
  by (induction es arbitrary: e) simp_all

lemma mux_clean_slashed:
  assumes "list_all seg_ok es" "es \<noteq> []"
  shows "mux_clean (slashed es) = slashed es"
proof -
  obtain e fs where es: "es = e # fs" using assms(2) by (cases es) auto
  have "split_on CHR ''/'' (slashed es) = [] # es"
    using split_slashed [OF assms(1), of "[]"] by simp
  then have "path_clean (slashed es) = slashed es"
    using clean_kept [OF assms(1), of True "[]"] join_slashed [of e fs]
    by (simp add: path_clean_def starts_with_def es)
  moreover have "\<not> ends_with (slashed es) ''/''"
  proof -
    obtain l gs where l: "es = gs @ [l]" using assms(2) by (cases es rule: rev_cases) auto
    with assms(1) have "l \<noteq> []" "CHR ''/'' \<notin> set l" by (simp_all add: seg_ok_def)
    then show ?thesis unfolding l by (cases l rule: rev_cases) (auto simp: ends_with_def)
  qed
  ultimately show ?thesis by (simp add: mux_clean_def starts_with_def es)
qed

lemma escape_slash: "NetUrl.escape_char EncodePath CHR ''/'' = ''/''"
  by code_simp

lemma escape_slashed: "escape EncodePath (slashed es) = slashed (map (escape EncodePath) es)"
  by (induction es) (simp_all add: escape_def escape_slash)

lemma escape_no_slash: "CHR ''/'' \<notin> set e \<Longrightarrow> CHR ''/'' \<notin> set (escape EncodePath e)"
proof (induction e)
  case (Cons c e)
  have "\<not> is_alnum CHR ''/''" by code_simp
  then have "CHR ''/'' \<noteq> upper_hex n" for n using upper_hex_alnum [of n] by metis
  then have "CHR ''/'' \<notin> set (NetUrl.escape_char EncodePath c)"
    using Cons.prems by (simp add: NetUrl.escape_char_def)
  with Cons show ?case by simp
qed simp

lemma seg_ok_escape: "seg_ok e \<Longrightarrow> seg_ok (escape EncodePath e)"
proof -
  assume e: "seg_ok e"
  have dots: "escape EncodePath ''.'' = ''.''" "escape EncodePath ''..'' = ''..''" by code_simp+
  have "escape EncodePath e = d \<Longrightarrow> escape EncodePath d = d \<Longrightarrow> e = d" for d
    using unescape_escape [of EncodePath e] unescape_escape [of EncodePath d] by simp
  then have "escape EncodePath e \<notin> {''.'', ''..''}" using e dots by (auto simp: seg_ok_def)
  moreover have "CHR ''/'' \<notin> set (escape EncodePath e)"
    using e by (simp add: seg_ok_def escape_no_slash)
  ultimately show ?thesis using e by (simp add: seg_ok_def)
qed

lemma path_segments_escaped:
  assumes "list_all seg_ok es"
  shows "path_segments (slashed (map (escape EncodePath) es)) = es"
proof -
  have "list_all seg_ok (map (escape EncodePath) es)"
    using assms by (simp add: list_all_iff seg_ok_escape)
  from split_slashed [OF this, of "[]"] show ?thesis
    by (simp add: path_segments_def unescape_escape o_def)
qed

section \<open>The answer to CheckFileInfo\<close>

text \<open>A \<open>FileInfo\<close> whose strings are UTF-8 and whose size is an \<open>int64\<close>.\<close>

definition info_ok :: "fileInfo \<Rightarrow> bool" where
  "info_ok i \<longleftrightarrow> utf8_fix (fi_BaseFileName i) = fi_BaseFileName i \<and> utf8_fix (fi_OwnerID i) = fi_OwnerID i
     \<and> utf8_fix (fi_UserFriendlyName i) = fi_UserFriendlyName i \<and> utf8_fix (fi_UserID i) = fi_UserID i
     \<and> utf8_fix (fi_Version i) = fi_Version i \<and> 0 \<le> fi_Size i \<and> fi_Size i < 2 ^ 63"

lemma parse_fileInfo:
  assumes "info_ok i"
  shows "parse_json (print_json (fileInfo_json i) @ [CHR 0x0A]) = Some (fileInfo_json i)"
proof -
  have p: "printable (fileInfo_json i)" "jdepth (fileInfo_json i) \<le> maxNestingDepth"
    using assms by (simp_all add: fileInfo_json_def num_ok_format info_ok_def maxNestingDepth_def)
  have "fix_json (fileInfo_json i) = fileInfo_json i"
    using assms by (simp add: fileInfo_json_def info_ok_def utf8_fix_of_ascii)
  moreover have "stops [CHR 0x0A]" by code_simp
  ultimately show ?thesis
    using value_okD [OF printable_ok [OF p(1)] _ p(2), of "2 * length (print_json (fileInfo_json i) @ [CHR 0x0A]) + 2" "[CHR 0x0A]"]
    by (simp add: parse_json_def is_ws_def)
qed

lemma fold_names:
  "fold_name ''BaseFileName'' = ''BASEFILENAME''" "fold_name ''OwnerId'' = ''OWNERID''"
  "fold_name ''UserFriendlyName'' = ''USERFRIENDLYNAME''" "fold_name ''Size'' = ''SIZE''"
  "fold_name ''UserId'' = ''USERID''" "fold_name ''Version'' = ''VERSION''"
  "fold_name ''UserCanWrite'' = ''USERCANWRITE''" "fold_name ''ReadOnly'' = ''READONLY''"
  "fold_name ''SupportsUpdate'' = ''SUPPORTSUPDATE''" "fold_name ''SupportsGetLock'' = ''SUPPORTSGETLOCK''"
  "fold_name ''SupportsLocks'' = ''SUPPORTSLOCKS''"
  by code_simp+

lemma unmarshal_print:
  assumes "info_ok i"
  shows "unmarshal_fileInfo (print_json (fileInfo_json i) @ [CHR 0x0A]) = Some i"
proof -
  have n: "parse_int (format_int (fi_Size i)) = Some (fi_Size i)"
    using assms by (intro parse_format_int) (simp_all add: info_ok_def)
  show ?thesis
    unfolding unmarshal_fileInfo_def parse_fileInfo [OF assms]
    by (simp add: fileInfo_json_def fileInfo_member_def fold_names n take_str_def take_int_def take_bool_def
        zeroFileInfo_def Let_def)
qed

section \<open>Texts that survive the wire\<close>

lemma dropWhile_none: "list_all (\<lambda>c. \<not> P c) v \<Longrightarrow> dropWhile P v = v"
  by (cases v) simp_all

lemma wire_value_alnum: "list_all is_alnum v \<Longrightarrow> wire_value v = v"
proof -
  assume v: "list_all is_alnum v"
  have marks: "\<not> is_alnum CHR '' ''" "\<not> is_alnum CHR 0x09" "\<not> is_alnum CHR 0x0A" "\<not> is_alnum CHR 0x0D"
    by code_simp+
  have "map (\<lambda>c. if c = CHR 0x0A \<or> c = CHR 0x0D then CHR '' '' else c) v = v"
    by (rule map_idI) (use v marks in \<open>auto simp: list_all_iff\<close>)
  moreover have "list_all (\<lambda>c. \<not> (c = CHR '' '' \<or> c = CHR 0x09)) v"
    using v marks by (auto simp: list_all_iff)
  ultimately show ?thesis by (simp add: wire_value_def dropWhile_none)
qed

lemma wire_value_Nil [simp]: "wire_value [] = []"
  by (simp add: wire_value_def)

lemma hex_alnum: "list_all is_alnum (hex_encode bs)"
proof -
  have "list_all is_alnum ''0123456789abcdef''" by code_simp
  then have "is_alnum (''0123456789abcdef'' ! n)" if "n < 16" for n
    using that by (simp add: list_all_length)
  then show ?thesis
    by (auto simp: hex_encode_def Sha256.hex_digit_def list_all_iff)
qed

text \<open>A host whose names are UTF-8, whose files have an \<open>int64\<close> size and whose locks fit a header.\<close>

definition host_text_ok :: "wopiHost \<Rightarrow> bool" where
  "host_text_ok h \<longleftrightarrow>
     (\<forall>k u. wh_users h k = Some u \<longrightarrow> utf8_fix (hu_ID u) = hu_ID u \<and> utf8_fix (hu_Name u) = hu_Name u)
   \<and> (\<forall>k f. wh_files h k = Some f \<longrightarrow> utf8_fix (hf_name f) = hf_name f \<and> utf8_fix (hf_ownerID f) = hf_ownerID f
        \<and> utf8_fix (hf_version f) = hf_version f \<and> length (hf_content f) < 2 ^ 63
        \<and> wire_value (hf_version f) = hf_version f \<and> wire_value (hf_lock f) = hf_lock f)"

lemma auth_file:
  "authenticateLocked r fid w h = Inr (u, f) \<Longrightarrow>
     wh_files h fid = Some f \<and> (\<exists>k. wh_users h k = Some u)"
  by (auto simp: authenticateLocked_def Let_def split: option.splits if_splits)

lemma auth_error:
  "authenticateLocked r fid w h = Inl e \<Longrightarrow> rp_lock e = [] \<and> rp_version e = [] \<and> rp_info e = None \<and> rp_status e \<noteq> StatusOK"
  by (auto simp: authenticateLocked_def resp_def Let_def status_defs split: option.splits if_splits)

lemma lock_ops:
  "hostLock ttl now l f = (rp, f') \<Longrightarrow> rp_lock rp \<in> {[], hf_lock f} \<and> rp_version rp = []"
  "hostGetLock now f = (rp, f') \<Longrightarrow> rp_lock rp \<in> {[], hf_lock f} \<and> rp_version rp = []"
  "hostRefreshLock ttl now l f = (rp, f') \<Longrightarrow> rp_lock rp \<in> {[], hf_lock f} \<and> rp_version rp = []"
  "hostUnlock now l f = (rp, f') \<Longrightarrow> rp_lock rp \<in> {[], hf_lock f} \<and> rp_version rp = []"
  "hostUnlockAndRelock ttl now l l' f = (rp, f') \<Longrightarrow> rp_lock rp \<in> {[], hf_lock f} \<and> rp_version rp = []"
  by (auto simp: hostLock_def hostGetLock_def hostRefreshLock_def hostUnlock_def hostUnlockAndRelock_def
      writeLockConflict_def effectiveLock_def resp_def Let_def split: if_splits)

text \<open>What an answer's two headers may hold: nothing, the file's, or the version just made.\<close>

definition host_texts :: "hostFile \<Rightarrow> wopiResp \<Rightarrow> bool" where
  "host_texts f rp \<longleftrightarrow> rp_lock rp \<in> {[], hf_lock f}
     \<and> (rp_version rp \<in> {[], hf_version f} \<or> (\<exists>d. rp_version rp = contentVersion d))"

lemma host_texts_resp [simp]: "host_texts f (resp n)"
  by (simp add: host_texts_def resp_def)

lemma fileOp_texts:
  assumes "authenticateLocked r (rq_id r) True h = Inr (u, f)"
  shows "host_texts f (fst (handleFileOp now r h))"
proof -
  have "host_texts f (fst (case p of (rp, f') \<Rightarrow> (rp, g f')))"
    if "rp_lock (fst p) \<in> {[], hf_lock f} \<and> rp_version (fst p) = []" for p and g :: "hostFile \<Rightarrow> wopiHost"
    using that by (cases p) (simp add: host_texts_def)
  note done_ = this [where g = "\<lambda>f'. set_file (rq_id r) f' h"]
  note op = done_ [OF lock_ops(1) [OF surjective_pairing]] done_ [OF lock_ops(2) [OF surjective_pairing]]
    done_ [OF lock_ops(3) [OF surjective_pairing]] done_ [OF lock_ops(4) [OF surjective_pairing]]
    done_ [OF lock_ops(5) [OF surjective_pairing]]
  show ?thesis unfolding handleFileOp_def assms Let_def by (simp add: op)
qed

lemma putFile_texts:
  assumes "authenticateLocked r (rq_id r) True h = Inr (u, f)"
  shows "host_texts f (fst (handlePutFile now r h))"
proof -
  have "host_texts f (writeLockConflict (fst (effectiveLock now f)))"
    "rp_version (writeLockConflict l) = []" for l
    by (simp_all add: host_texts_def writeLockConflict_def effectiveLock_def resp_def Let_def)
  moreover have "host_texts f ((resp n)\<lparr>rp_version := contentVersion d\<rparr>)" for n d
    by (auto simp: host_texts_def resp_def)
  ultimately show ?thesis
    unfolding handlePutFile_def assms
    by (cases "effectiveLock now f") (simp add: Let_def split: option.split)
qed

lemma handler_texts:
  assumes "authenticateLocked r (rq_id r) (rq_method r = ''POST'') h = Inr (u, f)"
  shows "host_texts f (fst (Handler now r h))"
proof (cases "rq_method r = ''POST''")
  case True
  with assms show ?thesis by (simp add: Handler_def fileOp_texts putFile_texts)
next
  case False
  with assms show ?thesis
    by (simp add: Handler_def handleCheckFileInfo_def handleGetFile_def)
      (simp add: host_texts_def resp_def)
qed

lemma handler_refused:
  assumes "authenticateLocked r (rq_id r) (rq_method r = ''POST'') h = Inl e"
  shows "host_texts f (fst (Handler now r h))"
  using assms auth_error [OF assms]
  by (cases "rq_method r = ''POST''")
    (simp_all add: Handler_def handleCheckFileInfo_def handleGetFile_def handlePutFile_def handleFileOp_def,
      simp_all add: host_texts_def resp_def)

lemma handler_wire:
  assumes "host_text_ok h" "Handler now r h = (rp, h')"
  shows "wire_value (rp_lock rp) = rp_lock rp" "wire_value (rp_version rp) = rp_version rp"
proof -
  have cv: "wire_value (contentVersion d) = contentVersion d" for d
    by (simp add: contentVersion_def wire_value_alnum hex_alnum)
  have "\<exists>f. host_texts f rp \<and> wire_value (hf_version f) = hf_version f \<and> wire_value (hf_lock f) = hf_lock f"
  proof (cases "authenticateLocked r (rq_id r) (rq_method r = ''POST'') h")
    case (Inl e)
    define f where "f = \<lparr>hf_name = [], hf_ownerID = [], hf_content = [], hf_version = [], hf_lock = [],
      hf_lockExp = 0, hf_putCount = 0\<rparr>"
    have "host_texts f rp" using handler_refused [OF Inl, of f now] assms(2) by simp
    then show ?thesis by (intro exI [of _ f]) (simp add: f_def)
  next
    case (Inr uf)
    then obtain u f where uf: "authenticateLocked r (rq_id r) (rq_method r = ''POST'') h = Inr (u, f)"
      by (cases uf) simp
    with handler_texts [OF uf, of now] auth_file [OF uf] assms show ?thesis
      by (auto simp: host_text_ok_def)
  qed
  then show "wire_value (rp_lock rp) = rp_lock rp" "wire_value (rp_version rp) = rp_version rp"
    using cv by (auto simp: host_texts_def)
qed

section \<open>The client on the host\<close>

lemma header_get_set [simp]: "header_get (header_set k v hs) j = (if j = k then v else header_get hs j)"
  by (simp add: header_get_def header_set_def)

lemma header_get_Nil [simp]: "header_get [] j = []"
  by (simp add: header_get_def)

abbreviation sendable :: "(string \<times> string) list \<Rightarrow> bool" where
  "sendable hs \<equiv> list_all (\<lambda>kv. header_value_ok (snd kv)) hs"

lemma sendable_set [simp]: "header_value_ok v \<Longrightarrow> sendable hs \<Longrightarrow> sendable (header_set k v hs)"
  unfolding header_set_def by (induction hs) auto

text \<open>A signer whose texts the transport accepts, as Base64 and decimals are.\<close>

definition signer_ok :: "(string \<Rightarrow> string \<Rightarrow> string \<times> string \<times> string) option \<Rightarrow> bool" where
  "signer_ok signer \<longleftrightarrow>
     (case signer of None \<Rightarrow> True
      | Some sign \<Rightarrow> \<forall>token url. (case sign token url of (proof, proofOld, timestamp) \<Rightarrow>
          header_value_ok proof \<and> header_value_ok proofOld \<and> header_value_ok timestamp))"

definition wired :: "netWords \<Rightarrow> string \<Rightarrow> (string \<Rightarrow> string \<Rightarrow> string \<times> string \<times> string) option
    \<Rightarrow> wopiHost wopiClient" where
  "wired net base signer = newWopiClient (hostHTTP net base) signer (Some driveProfile)"

text \<open>
  The \<open>WOPISrc\<close> of a file of the host: an \<open>http\<close> or \<open>https\<close> URL with a host name whose path
  is the host's base and the file's id, no segment empty, a dot or two dots, the id with
  Go's own escapes where it needs any and the base without.
\<close>

definition names_file :: "string \<Rightarrow> url \<Rightarrow> string list \<Rightarrow> string \<Rightarrow> bool" where
  "names_file src u bs fid \<longleftrightarrow> plain_url src u \<and> u_Scheme u \<in> {''http'', ''https''}
     \<and> u_RawPath u = [] \<and> u_Path u = slashed (bs @ [fid]) \<and> list_all seg_ok (bs @ [fid])
     \<and> map (escape EncodePath) bs = bs"

lemma hostRoute_file:
  assumes "list_all seg_ok (bs @ [fid])" "map (escape EncodePath) bs = bs"
  shows "hostRoute (slashed bs) (escape EncodePath (slashed (bs @ [fid]))) = HostFile fid False"
    "hostRoute (slashed bs) (escape EncodePath (slashed (bs @ [fid, ''contents'']))) = HostFile fid True"
proof -
  have c: "seg_ok ''contents''" by code_simp
  have fid: "fid \<noteq> []" and bs: "list_all seg_ok bs" using assms(1) by (auto simp: seg_ok_def)
  have root: "path_segments (slashed bs) = bs" using path_segments_escaped [OF bs] assms(2) by simp
  have route: "hostRoute (slashed bs) (escape EncodePath (slashed (bs @ x # xs))) =
      (case x # xs of [f] \<Rightarrow> if f = [] then HostNone else HostFile f False
       | [f, final] \<Rightarrow> if final = ''contents'' then HostFile f True else HostNone | _ \<Rightarrow> HostNone)"
    if ok: "list_all seg_ok (bs @ x # xs)" for x xs
  proof -
    have "list_all seg_ok (map (escape EncodePath) (bs @ x # xs))"
      using ok by (auto simp: list_all_iff seg_ok_escape)
    then have "mux_clean (slashed (map (escape EncodePath) (bs @ x # xs)))
        = slashed (map (escape EncodePath) (bs @ x # xs))"
      by (rule mux_clean_slashed) simp
    then show ?thesis
      unfolding hostRoute_def escape_slashed path_segments_escaped [OF ok] root by simp
  qed
  show "hostRoute (slashed bs) (escape EncodePath (slashed (bs @ [fid]))) = HostFile fid False"
    using route [of fid "[]"] assms(1) fid by simp
  show "hostRoute (slashed bs) (escape EncodePath (slashed (bs @ [fid, ''contents'']))) = HostFile fid True"
    using route [of fid "[''contents'']"] assms(1) c by simp
qed

lemma send_wired:
  assumes "plain_url url v" "u_Scheme v \<in> {''http'', ''https''}" "u_RawPath v = []" "u_Path v \<noteq> []"
    "hostRoute base (escape EncodePath (u_Path v)) = HostFile fid ct"
    "query_get (parse_query (u_RawQuery v)) ''access_token'' = token"
    "sendable header" "signer_ok signer"
  shows "send (wired net base signer) now op method url token header body h =
     (case Handler now \<lparr>rq_method = method, rq_id = fid, rq_contents = ct, rq_queryToken = token,
              rq_authorization = wire_value (header_get header ''Authorization''),
              rq_override = wire_value (header_get header ''X-WOPI-Override''),
              rq_lock = wire_value (header_get header ''X-WOPI-Lock''),
              rq_oldLock = wire_value (header_get header ''X-WOPI-OldLock''), rq_body = Some body\<rparr> h of
        (rp, h') \<Rightarrow> (Inr (hostResponse rp), h'))"
proof -
  have u: "url_parse url = Some v" "u_Host v \<noteq> []" using assms(1) by (simp_all add: plain_url_def)
  have e: "escapedPath v = escape EncodePath (u_Path v)" by (rule default_path [OF assms(1,3)])
  show ?thesis
  proof (cases signer)
    case None
    then show ?thesis
      using assms u e
      by (simp add: send_def wired_def newWopiClient_def hostHTTP_def hostRequest_def split: prod.split)
  next
    case (Some sign)
    obtain proof' old ts where sg: "sign token url = (proof', old, ts)" by (cases "sign token url")
    have "header_value_ok proof'" "header_value_ok old" "header_value_ok ts"
      using assms(8) Some sg by (auto simp: signer_ok_def split: prod.splits)
    with assms u e Some sg show ?thesis
      by (simp add: send_def wired_def newWopiClient_def hostHTTP_def hostRequest_def split: prod.split)
  qed
qed

lemma post_no_info: "rq_method r = ''POST'' \<Longrightarrow> rp_info (fst (Handler now r h)) = None"
  by (auto simp: Handler_def handlePutFile_def handleFileOp_def hostLock_def hostGetLock_def hostRefreshLock_def
      hostUnlock_def hostUnlockAndRelock_def writeLockConflict_def resp_def authenticateLocked_def Let_def
      split: sum.splits prod.splits option.splits if_splits)

lemma wired_error:
  assumes "rp_info rp = None" "wire_value (rp_lock rp) = rp_lock rp"
  shows "clientMapErr (wired net base signer) op (hostResponse rp) (hs_body (hostResponse rp)) =
     mapErr op (rp_status rp) (rp_lock rp) (rp_body rp)"
  using assms
  by (simp add: clientMapErr_def wired_def newWopiClient_def driveProfile_def hostResponse_def mapErr_def
      split: option.split)

text \<open>What the two URLs of a request are, for a file of the host.\<close>

lemma file_url:
  assumes "names_file src u bs fid"
  obtains out v where "withAccessToken src token = Some out"
    "\<And>header signer op method body now h. sendable header \<Longrightarrow> signer_ok signer \<Longrightarrow>
       send (wired net (slashed bs) signer) now op method out token header body h =
       (case Handler now \<lparr>rq_method = method, rq_id = fid, rq_contents = False, rq_queryToken = token,
              rq_authorization = wire_value (header_get header ''Authorization''),
              rq_override = wire_value (header_get header ''X-WOPI-Override''),
              rq_lock = wire_value (header_get header ''X-WOPI-Lock''),
              rq_oldLock = wire_value (header_get header ''X-WOPI-OldLock''), rq_body = Some body\<rparr> h of
        (rp, h') \<Rightarrow> (Inr (hostResponse rp), h'))"
proof -
  note n = assms [unfolded names_file_def]
  obtain out v where o: "withAccessToken src token = Some out" "plain_url out v" "u_Scheme v = u_Scheme u"
    "u_Path v = u_Path u" "query_get (parse_query (u_RawQuery v)) ''access_token'' = token" "u_RawPath v = []"
    using token_url [of src u token] n by metis
  have r: "hostRoute (slashed bs) (escape EncodePath (u_Path v)) = HostFile fid False"
    using hostRoute_file(1) [of bs fid] n o(4) by simp
  show thesis
    by (rule that [OF o(1) send_wired [OF o(2) _ o(6) _ r o(5)]]) (use n o in auto)
qed

lemma file_contents_url:
  assumes "names_file src u bs fid"
  obtains contents out v where "contentsURL src = Some contents" "withAccessToken contents token = Some out"
    "\<And>header signer op method body now h. sendable header \<Longrightarrow> signer_ok signer \<Longrightarrow>
       send (wired net (slashed bs) signer) now op method out token header body h =
       (case Handler now \<lparr>rq_method = method, rq_id = fid, rq_contents = True, rq_queryToken = token,
              rq_authorization = wire_value (header_get header ''Authorization''),
              rq_override = wire_value (header_get header ''X-WOPI-Override''),
              rq_lock = wire_value (header_get header ''X-WOPI-Lock''),
              rq_oldLock = wire_value (header_get header ''X-WOPI-OldLock''), rq_body = Some body\<rparr> h of
        (rp, h') \<Rightarrow> (Inr (hostResponse rp), h'))"
proof -
  note n = assms [unfolded names_file_def]
  have trim: "trim_suffix (slashed (bs @ [fid])) ''/'' = slashed (bs @ [fid])"
    using n by (cases fid rule: rev_cases) (auto simp: trim_suffix_def ends_with_def seg_ok_def)
  obtain contents w where c: "contentsURL src = Some contents" "plain_url contents w" "u_Scheme w = u_Scheme u"
    "u_Path w = trim_suffix (u_Path u) ''/'' @ ''/contents''" "u_RawPath w = []"
    using contents_url [of src u] n by metis
  obtain out v where o: "withAccessToken contents token = Some out" "plain_url out v" "u_Scheme v = u_Scheme w"
    "u_Path v = u_Path w" "query_get (parse_query (u_RawQuery v)) ''access_token'' = token" "u_RawPath v = []"
    using token_url [OF c(2), of token] c(5) by metis
  have p: "u_Path v = slashed (bs @ [fid, ''contents''])"
    using o(4) c(4) n trim by simp
  have r: "hostRoute (slashed bs) (escape EncodePath (u_Path v)) = HostFile fid True"
    unfolding p using hostRoute_file(2) [of bs fid] n by simp
  show thesis
    by (rule that [OF c(1) o(1) send_wired [OF o(2) _ o(6) _ r o(5)]]) (use n o(3) c(3) p in auto)
qed

lemma const_sendable [simp]:
  "header_value_ok ''PUT''" "header_value_ok ''LOCK''" "header_value_ok ''REFRESH_LOCK''"
  "header_value_ok ''UNLOCK''" "header_value_ok ''application/octet-stream''"
  "wire_value ''PUT'' = ''PUT''" "wire_value ''LOCK'' = ''LOCK''"
  "wire_value ''REFRESH_LOCK'' = ''REFRESH_LOCK''" "wire_value ''UNLOCK'' = ''UNLOCK''"
  by code_simp+

lemma lockOp_wired:
  assumes "names_file src u bs fid" "idOf src = fid" "signer_ok signer" "host_text_ok h"
    and "sendable header" "header_value_ok override" "wire_value override = override"
    and "header_get header ''Authorization'' = []" "wire_value (header_get header ''X-WOPI-Lock'') = lock"
    and "wire_value (header_get header ''X-WOPI-OldLock'') = oldLock"
  shows "lockOp (wired net (slashed bs) signer) now op override src token header h
     = hostLockOp idOf op override now src token lock oldLock h"
proof -
  let ?rq = "\<lparr>rq_method = ''POST'', rq_id = fid, rq_contents = False, rq_queryToken = token, rq_authorization = [],
      rq_override = override, rq_lock = lock, rq_oldLock = oldLock, rq_body = Some []\<rparr>"
  obtain rp h' where rp: "Handler now ?rq h = (rp, h')" by fastforce
  have i: "rp_info rp = None" using post_no_info [of ?rq now h] rp by simp
  note w = handler_wire(1) [OF assms(4) rp]
  obtain out where o: "withAccessToken src token = Some out"
    "send (wired net (slashed bs) signer) now op ''POST'' out token (header_set ''X-WOPI-Override'' override header) [] h
       = (Inr (hostResponse rp), h')"
    by (rule file_url [OF assms(1), of token net]) (use assms(3,5-) rp in auto)
  have "hs_status (hostResponse rp) = rp_status rp" by (simp add: hostResponse_def)
  with o rp wired_error [OF i w] assms(2) show ?thesis
    by (simp add: lockOp_def hostLockOp_def)
qed

lemma putFile_wired:
  assumes "names_file src u bs fid" "idOf src = fid" "signer_ok signer" "host_text_ok h" "header_text lock"
  shows "PutFile (wired net (slashed bs) signer) now src token lock body h
     = cli_PutFile (hostClient idOf) now src token lock body h"
proof -
  let ?rq = "\<lparr>rq_method = ''POST'', rq_id = fid, rq_contents = True, rq_queryToken = token, rq_authorization = [],
      rq_override = ''PUT'', rq_lock = lock, rq_oldLock = [], rq_body = Some body\<rparr>"
  let ?hd = "(if lock \<noteq> [] then header_set ''X-WOPI-Lock'' lock else id)
     (header_set ''Content-Type'' ''application/octet-stream'' (header_set ''X-WOPI-Override'' ''PUT'' []))"
  obtain rp h' where rp: "Handler now ?rq h = (rp, h')" by fastforce
  have i: "rp_info rp = None" using post_no_info [of ?rq now h] rp by simp
  note w = handler_wire [OF assms(4) rp]
  obtain contents out where o: "contentsURL src = Some contents" "withAccessToken contents token = Some out"
    "send (wired net (slashed bs) signer) now ''PutFile'' ''POST'' out token ?hd body h = (Inr (hostResponse rp), h')"
    by (rule file_contents_url [OF assms(1), of token net], rule that, assumption, assumption)
      (use assms(3,5) rp in \<open>cases "lock = []"; simp add: header_text_def\<close>)
  have "itemVersion (wired net (slashed bs) signer) (hs_header (hostResponse rp)) = rp_version rp"
    using w(2) by (simp add: itemVersion_def wired_def newWopiClient_def driveProfile_def hostResponse_def)
  moreover have "hs_status (hostResponse rp) = rp_status rp" by (simp add: hostResponse_def)
  ultimately show ?thesis
    using o rp wired_error [OF i w(1)] assms(2)
    by (simp add: PutFile_def hostClient_def Let_def)
qed

lemma checkFileInfo_wired:
  assumes "names_file src u bs fid" "idOf src = fid" "signer_ok signer" "host_text_ok h"
  shows "CheckFileInfo (wired net (slashed bs) signer) now src token h = cli_CheckFileInfo (hostClient idOf) now src token h"
proof -
  let ?rq = "\<lparr>rq_method = ''GET'', rq_id = fid, rq_contents = False, rq_queryToken = token, rq_authorization = [],
      rq_override = [], rq_lock = [], rq_oldLock = [], rq_body = Some []\<rparr>"
  obtain rp h' where rp: "Handler now ?rq h = (rp, h')" by fastforce
  note w = handler_wire(1) [OF assms(4) rp]
  from rp have cfi: "handleCheckFileInfo ?rq h = (rp, h')" by (simp add: Handler_def)
  have info: "(rp_status rp = StatusOK \<and> (\<exists>i. rp_info rp = Some i \<and> info_ok i))
      \<or> (rp_status rp \<noteq> StatusOK \<and> rp_info rp = None)"
  proof (cases "authenticateLocked ?rq fid False h")
    case (Inl e)
    with cfi auth_error [OF Inl] show ?thesis by (auto simp: handleCheckFileInfo_def)
  next
    case (Inr uf)
    obtain user f where uf: "uf = (user, f)" by (cases uf)
    with Inr auth_file [of ?rq fid False h user f]
    have "\<exists>k. wh_users h k = Some user" "wh_files h fid = Some f" by simp_all
    with assms(4) Inr uf cfi show ?thesis
      by (auto simp: handleCheckFileInfo_def host_text_ok_def info_ok_def resp_def status_defs)
  qed
  obtain out where o: "withAccessToken src token = Some out"
    "send (wired net (slashed bs) signer) now ''CheckFileInfo'' ''GET'' out token [] [] h = (Inr (hostResponse rp), h')"
    by (rule file_url [OF assms(1), of token net]) (use assms(3) rp in auto)
  with info rp wired_error [OF _ w] assms(2) show ?thesis
    by (auto simp: CheckFileInfo_def hostClient_def)
      (simp_all add: hostResponse_def unmarshal_print)
qed

text \<open>
  C33. The HTTP client refines the abstract one: with the in-memory host at the other end,
  reached through the URLs, headers, mux and JSON the two sides really exchange, and whether
  requests are signed or not, each operation the room manager calls returns and does what
  the abstract client of the save properties returns and does. This is for a \<open>WOPISrc\<close> that
  names a file of the host: an \<open>http(s)\<close> URL with a host name whose path is the host's base
  and the file's id (no segment empty, a dot or two dots, as the mux redirects those), written
  with Go's own escapes and no others; for lock values that pass the transport unchanged (no
  control character but the tab, no white space around them) and signatures it accepts; and for a host whose names and
  versions are UTF-8, whose locks and versions pass unchanged and whose files have an
  \<open>int64\<close> size.
\<close>

theorem client_refines_host_client:
  assumes "names_file src u bs fid" "idOf src = fid" "signer_ok signer" "host_text_ok h"
    and "header_text lock" "header_text oldLock"
  shows "CheckFileInfo (wired net (slashed bs) signer) now src token h
        = cli_CheckFileInfo (hostClient idOf) now src token h
    \<and> PutFile (wired net (slashed bs) signer) now src token lock body h
        = cli_PutFile (hostClient idOf) now src token lock body h
    \<and> Lock (wired net (slashed bs) signer) now src token lock h = cli_Lock (hostClient idOf) now src token lock h
    \<and> RefreshLock (wired net (slashed bs) signer) now src token lock h
        = cli_RefreshLock (hostClient idOf) now src token lock h
    \<and> Unlock (wired net (slashed bs) signer) now src token lock h
        = cli_Unlock (hostClient idOf) now src token lock h
    \<and> UnlockAndRelock (wired net (slashed bs) signer) now src token lock oldLock h
        = cli_UnlockAndRelock (hostClient idOf) now src token lock oldLock h"
proof -
  note lockOp = lockOp_wired [where idOf = idOf, OF assms(1-4)]
  show ?thesis
    using checkFileInfo_wired [where idOf = idOf, OF assms(1-4)]
      putFile_wired [where idOf = idOf, OF assms(1-5)] assms(5,6)
    by (simp add: Lock_def RefreshLock_def Unlock_def UnlockAndRelock_def hostClient_def lockOp header_text_def)
qed

definition plainWords :: netWords where
  "plainWords = \<lparr>nw_refused = (\<lambda>r. ''refused''),
     nw_moved = (\<lambda>r path. \<lparr>hs_status = 307, hs_header = (\<lambda>k. []), hs_body = [], hs_bodyErr = False\<rparr>)\<rparr>"

lemma demoSrc_file: "names_file demoSrc (the (url_parse demoSrc)) [''wopi'', ''files''] ''f1''"
  unfolding names_file_def by (intro conjI demoSrc_plain; code_simp)

theorem client_refines_host_client_witness:
  "Lock (wired plainWords ''/wopi/files'' None) 0 demoSrc ''tok'' ''l'' (newHost 10)
     = cli_Lock (hostClient (\<lambda>_. ''f1'')) 0 demoSrc ''tok'' ''l'' (newHost 10)"
proof -
  have h: "host_text_ok (newHost 10)" by (simp add: host_text_ok_def newHost_def)
  have l: "header_text ''l''" "header_text []" by code_simp+
  have b: "slashed [''wopi'', ''files''] = ''/wopi/files''" by simp
  have s: "signer_ok None" by (simp add: signer_ok_def)
  show ?thesis
    using client_refines_host_client [where idOf = "\<lambda>_. ''f1''" and net = plainWords, OF demoSrc_file refl s h l]
    unfolding b by blast
qed

text \<open>
  The mux's redirect and the transport's trimming are real: an id of two dots never reaches
  the host's handler, and a lock with a space around it arrives without it.
\<close>

theorem dots_are_redirected:
  "hostRoute ''/wopi/files'' ''/wopi/files/..'' = HostMoved ''/wopi''
   \<and> hostRoute ''/wopi/files'' ''/wopi/files/a%2Fb/contents'' = HostFile ''a/b'' True
   \<and> wire_value '' lock '' = ''lock''"
  by (intro conjI; code_simp)

end
