(* ===== verification/Crypto.thy ===== *)
theory Crypto
  imports Sha256
begin

text \<open>
  The part of Go's standard library that the session tokens are sealed with:
  \<open>crypto/hmac\<close> and \<open>crypto/hkdf\<close> over SHA-256, \<open>crypto/aes\<close>
  and the GCM mode of \<open>crypto/cipher\<close> (FIPS 197, SP 800-38D, with a nonce of
  twelve bytes and a tag of sixteen), and \<open>encoding/base64\<close>'s unpadded URL
  alphabet. What the sessions need of them is proved at the end of each section:
  the key of the stream cancels, the tag of what was sealed matches, and base64 is undone
  by its decoder.
\<close>

section \<open>HMAC and HKDF\<close>

definition xor_bytes :: "bytes \<Rightarrow> bytes \<Rightarrow> bytes" where
  "xor_bytes xs ys = map (\<lambda>(x, y). char_of ((of_char x :: nat) XOR of_char y)) (zip xs ys)"

definition hmac_block :: "bytes \<Rightarrow> bytes" where
  "hmac_block key =
     (let k = (if 64 < length key then sum256 key else key)
      in k @ replicate (64 - length k) (char_of (0 :: nat)))"

definition hmac_sha256 :: "bytes \<Rightarrow> bytes \<Rightarrow> bytes" where
  "hmac_sha256 key m =
     (let k = hmac_block key;
          ipad = xor_bytes k (replicate 64 (char_of (54 :: nat)));
          opad = xor_bytes k (replicate 64 (char_of (92 :: nat)))
      in sum256 (opad @ sum256 (ipad @ m)))"

text \<open>\<open>hkdf.Key(sha256.New, secret, nil, info, n)\<close>; an absent salt is 32 zero bytes.\<close>

fun hkdf_blocks :: "nat \<Rightarrow> bytes \<Rightarrow> bytes \<Rightarrow> bytes \<Rightarrow> nat \<Rightarrow> bytes" where
  "hkdf_blocks 0 prk info prev i = []"
| "hkdf_blocks (Suc n) prk info prev i =
     (let t = hmac_sha256 prk (prev @ info @ [char_of i]) in t @ hkdf_blocks n prk info t (i + 1))"

definition hkdf_key :: "bytes \<Rightarrow> bytes \<Rightarrow> nat \<Rightarrow> bytes option" where
  "hkdf_key secret info n =
     (if 255 * 32 < n then None
      else let prk = hmac_sha256 (replicate 32 (char_of (0 :: nat))) secret
           in Some (take n (hkdf_blocks ((n + 31) div 32) prk info [] 1)))"

lemma length_hmac [simp]: "length (hmac_sha256 k m) = 32"
  by (simp add: hmac_sha256_def Let_def)

lemma length_hkdf_32: "hkdf_key secret info 32 = Some k \<Longrightarrow> length k = 32"
  by (auto simp: hkdf_key_def Let_def)

lemma hkdf_32_total: "\<exists>k. hkdf_key secret info 32 = Some k \<and> length k = 32"
  by (simp add: hkdf_key_def Let_def)

section \<open>AES\<close>

type_synonym u8 = "8 word"

definition sbox :: "u8 list" where
  "sbox =
    [99, 124, 119, 123, 242, 107, 111, 197, 48, 1, 103, 43, 254, 215, 171, 118, 202, 130,
     201, 125, 250, 89, 71, 240, 173, 212, 162, 175, 156, 164, 114, 192, 183, 253, 147, 38,
     54, 63, 247, 204, 52, 165, 229, 241, 113, 216, 49, 21, 4, 199, 35, 195, 24, 150, 5,
     154, 7, 18, 128, 226, 235, 39, 178, 117, 9, 131, 44, 26, 27, 110, 90, 160, 82, 59,
     214, 179, 41, 227, 47, 132, 83, 209, 0, 237, 32, 252, 177, 91, 106, 203, 190, 57, 74,
     76, 88, 207, 208, 239, 170, 251, 67, 77, 51, 133, 69, 249, 2, 127, 80, 60, 159, 168,
     81, 163, 64, 143, 146, 157, 56, 245, 188, 182, 218, 33, 16, 255, 243, 210, 205, 12,
     19, 236, 95, 151, 68, 23, 196, 167, 126, 61, 100, 93, 25, 115, 96, 129, 79, 220, 34,
     42, 144, 136, 70, 238, 184, 20, 222, 94, 11, 219, 224, 50, 58, 10, 73, 6, 36, 92, 194,
     211, 172, 98, 145, 149, 228, 121, 231, 200, 55, 109, 141, 213, 78, 169, 108, 86, 244,
     234, 101, 122, 174, 8, 186, 120, 37, 46, 28, 166, 180, 198, 232, 221, 116, 31, 75,
     189, 139, 138, 112, 62, 181, 102, 72, 3, 246, 14, 97, 53, 87, 185, 134, 193, 29, 158,
     225, 248, 152, 17, 105, 217, 142, 148, 155, 30, 135, 233, 206, 85, 40, 223, 140, 161,
     137, 13, 191, 230, 66, 104, 65, 153, 45, 15, 176, 84, 187, 22]"

definition sub_byte :: "u8 \<Rightarrow> u8" where
  "sub_byte b = sbox ! unat b"

text \<open>Multiplication by \<open>x\<close> in GF(2^8) modulo \<open>x^8 + x^4 + x^3 + x + 1\<close>.\<close>

definition xtime :: "u8 \<Rightarrow> u8" where
  "xtime b = (if bit b 7 then push_bit 1 b XOR 27 else push_bit 1 b)"

type_synonym column = "u8 list"

definition xor_col :: "column \<Rightarrow> column \<Rightarrow> column" where
  "xor_col a b = map (\<lambda>(x, y). x XOR y) (zip a b)"

text \<open>The key schedule: \<open>ws\<close> holds the words made so far, newest first.\<close>

fun expand_key :: "nat \<Rightarrow> nat \<Rightarrow> nat \<Rightarrow> u8 \<Rightarrow> column list \<Rightarrow> column list" where
  "expand_key 0 nk i rcon ws = rev ws"
| "expand_key (Suc n) nk i rcon ws =
     (let t = hd ws;
          t' = (if i mod nk = 0 then xor_col (map sub_byte (rotate1 t)) [rcon, 0, 0, 0]
                else if 6 < nk \<and> i mod nk = 4 then map sub_byte t else t)
      in expand_key n nk (i + 1) (if i mod nk = 0 then xtime rcon else rcon)
           (xor_col (ws ! (nk - 1)) t' # ws))"

fun columns :: "u8 list \<Rightarrow> column list" where
  "columns (a # b # c # d # xs) = [a, b, c, d] # columns xs"
| "columns _ = []"

definition shift_rows :: "u8 list \<Rightarrow> u8 list" where
  "shift_rows s = map (\<lambda>i. s ! ((i + 4 * (i mod 4)) mod 16)) [0..<16]"

definition mix_column :: "column \<Rightarrow> column" where
  "mix_column c =
     (case c of [a0, a1, a2, a3] \<Rightarrow>
        [xtime a0 XOR (xtime a1 XOR a1) XOR a2 XOR a3, a0 XOR xtime a1 XOR (xtime a2 XOR a2) XOR a3,
         a0 XOR a1 XOR xtime a2 XOR (xtime a3 XOR a3), (xtime a0 XOR a0) XOR a1 XOR a2 XOR xtime a3]
      | _ \<Rightarrow> c)"

definition mix_columns :: "u8 list \<Rightarrow> u8 list" where
  "mix_columns s = concat (map mix_column (columns s))"

fun aes_rounds :: "column list \<Rightarrow> u8 list \<Rightarrow> u8 list" where
  "aes_rounds [] s = s"
| "aes_rounds (k # ks) s =
     (let t = shift_rows (map sub_byte s) in
      if ks = [] then xor_col t k else aes_rounds ks (xor_col (mix_columns t) k))"

fun round_keys :: "column list \<Rightarrow> u8 list list" where
  "round_keys (a # b # c # d # ws) = (a @ b @ c @ d) # round_keys ws"
| "round_keys _ = []"

text \<open>\<open>aes.NewCipher\<close>: a key of 16, 24 or 32 bytes, else an error.\<close>

definition new_cipher :: "bytes \<Rightarrow> u8 list list option" where
  "new_cipher key =
     (let nk = length key div 4 in
      if length key \<in> {16, 24, 32}
      then Some (round_keys (expand_key (4 * (nk + 7) - nk) nk nk 1
             (rev (columns (map (\<lambda>c. word_of_int (of_char c)) key)))))
      else None)"

definition aes_encrypt :: "u8 list list \<Rightarrow> bytes \<Rightarrow> bytes" where
  "aes_encrypt ks block =
     map (\<lambda>b. char_of (unat b))
       (aes_rounds (tl ks) (xor_col (map (\<lambda>c. word_of_int (of_char c)) block) (hd ks)))"

section \<open>GCM\<close>

type_synonym u128 = "128 word"

definition be_bytes16 :: "u128 \<Rightarrow> bytes" where
  "be_bytes16 w = map (\<lambda>k. byte_at (15 - k) w) [0..<16]"

text \<open>Multiplication in GF(2^128): bit 127 is the coefficient of \<open>x^0\<close>.\<close>

fun gf_mul :: "nat \<Rightarrow> u128 \<Rightarrow> u128 \<Rightarrow> u128 \<Rightarrow> u128" where
  "gf_mul 0 x v z = z"
| "gf_mul (Suc n) x v z =
     gf_mul n x (if bit v 0 then drop_bit 1 v XOR push_bit 120 225 else drop_bit 1 v)
       (if bit x n then z XOR v else z)"

definition zero_pad :: "bytes \<Rightarrow> bytes" where
  "zero_pad bs = bs @ replicate ((16 - length bs mod 16) mod 16) (char_of (0 :: nat))"

fun blocks :: "nat \<Rightarrow> bytes \<Rightarrow> bytes list" where
  "blocks 0 bs = []"
| "blocks (Suc n) bs = take 16 bs # blocks n (drop 16 bs)"

definition ghash :: "u128 \<Rightarrow> bytes \<Rightarrow> u128" where
  "ghash h bs = fold (\<lambda>b y. gf_mul 128 (y XOR be_word b) h 0) (blocks (length bs div 16) bs) 0"

text \<open>The key stream of the counter mode: blocks \<open>i\<close>, \<open>i + 1\<close>, ... under one nonce.\<close>

fun keystream :: "nat \<Rightarrow> u8 list list \<Rightarrow> bytes \<Rightarrow> u32 \<Rightarrow> bytes" where
  "keystream 0 ks nonce i = []"
| "keystream (Suc n) ks nonce i = aes_encrypt ks (nonce @ be_bytes4 i) @ keystream n ks nonce (i + 1)"

definition gcm_stream :: "u8 list list \<Rightarrow> bytes \<Rightarrow> bytes \<Rightarrow> bytes" where
  "gcm_stream ks nonce bs =
     (let s = keystream ((length bs + 15) div 16) ks nonce 2
      in xor_bytes bs (s @ replicate (length bs - length s) (char_of (0 :: nat))))"

definition gcm_tag :: "u8 list list \<Rightarrow> bytes \<Rightarrow> bytes \<Rightarrow> bytes \<Rightarrow> bytes" where
  "gcm_tag ks nonce aad ct =
     (let h = be_word (aes_encrypt ks (replicate 16 (char_of (0 :: nat))));
          len = (\<lambda>bs :: bytes. be_bytes8 (word_of_int (8 * int (length bs))));
          s = ghash h (zero_pad aad @ zero_pad ct @ len aad @ len ct)
      in be_bytes16 (be_word (aes_encrypt ks (nonce @ be_bytes4 1)) XOR s))"

definition nonceSize :: nat where "nonceSize = 12"

text \<open>\<open>Seal(nonce, nonce, plaintext, aad)\<close> and \<open>Open(nil, nonce, ciphertext, aad)\<close>.\<close>

definition gcm_seal :: "u8 list list \<Rightarrow> bytes \<Rightarrow> bytes \<Rightarrow> bytes \<Rightarrow> bytes" where
  "gcm_seal ks nonce pt aad =
     (let ct = gcm_stream ks nonce pt in nonce @ ct @ gcm_tag ks nonce aad ct)"

definition gcm_open :: "u8 list list \<Rightarrow> bytes \<Rightarrow> bytes \<Rightarrow> bytes \<Rightarrow> bytes option" where
  "gcm_open ks nonce ciphertext aad =
     (if length ciphertext < 16 then None
      else let ct = take (length ciphertext - 16) ciphertext;
               tag = drop (length ciphertext - 16) ciphertext
           in if gcm_tag ks nonce aad ct = tag then Some (gcm_stream ks nonce ct) else None)"

lemma length_xor_bytes [simp]: "length (xor_bytes xs ys) = min (length xs) (length ys)"
  by (simp add: xor_bytes_def)

lemma xor_char_cancel:
  "char_of ((of_char (char_of ((of_char x :: nat) XOR of_char y) :: char) :: nat) XOR of_char y) = x"
proof -
  have "take_bit 8 (of_char c :: nat) = of_char c" for c :: char
    by (rule take_bit_nat_eq_self) simp
  then have "take_bit 8 ((of_char x :: nat) XOR of_char y) = of_char x XOR of_char y"
    by (simp add: take_bit_xor)
  then have "(of_char (char_of ((of_char x :: nat) XOR of_char y) :: char) :: nat) = of_char x XOR of_char y"
    by (simp only: of_char_of take_bit_eq_mod) simp
  then show ?thesis by (simp add: xor.assoc)
qed

lemma xor_bytes_cancel: "length xs \<le> length ys \<Longrightarrow> xor_bytes (xor_bytes xs ys) ys = xs"
  by (induction xs ys rule: list_induct2') (simp_all add: xor_bytes_def xor_char_cancel del: of_char_of)

lemma gcm_stream_stream [simp]: "gcm_stream ks nonce (gcm_stream ks nonce bs) = bs"
  by (simp add: gcm_stream_def Let_def xor_bytes_cancel)

lemma length_gcm_stream [simp]: "length (gcm_stream ks nonce bs) = length bs"
  by (simp add: gcm_stream_def Let_def)

lemma length_gcm_tag [simp]: "length (gcm_tag ks nonce aad ct) = 16"
  by (simp add: gcm_tag_def Let_def be_bytes16_def)

lemma gcm_open_seal:
  "length nonce = nonceSize \<Longrightarrow>
   gcm_open ks nonce (drop nonceSize (gcm_seal ks nonce pt aad)) aad = Some pt"
  by (simp add: gcm_open_def gcm_seal_def Let_def)

section \<open>Base64\<close>

text \<open>\<open>base64.RawURLEncoding\<close>. The decoder skips line ends and ignores the spare bits.\<close>

definition b64url_alphabet :: string where
  "b64url_alphabet = ''ABCDEFGHIJKLMNOPQRSTUVWXYZabcdefghijklmnopqrstuvwxyz0123456789-_''"

fun b64_encode :: "string \<Rightarrow> bytes \<Rightarrow> string" where
  "b64_encode al (a # b # c # bs) =
     (let n = 65536 * of_char a + 256 * of_char b + of_char c
      in al ! (n div 262144) # al ! (n div 4096 mod 64) # al ! (n div 64 mod 64) # al ! (n mod 64)
         # b64_encode al bs)"
| "b64_encode al [a, b] =
     (let n = 65536 * of_char a + 256 * of_char b
      in [al ! (n div 262144), al ! (n div 4096 mod 64), al ! (n div 64 mod 64)])"
| "b64_encode al [a] =
     (let n = 65536 * of_char a in [al ! (n div 262144), al ! (n div 4096 mod 64)])"
| "b64_encode al [] = []"

fun index_of :: "char \<Rightarrow> string \<Rightarrow> nat option" where
  "index_of c [] = None"
| "index_of c (x # xs) = (if x = c then Some 0 else map_option Suc (index_of c xs))"

fun b64_groups :: "nat list \<Rightarrow> bytes option" where
  "b64_groups (p # q # r # s # ds) =
     (let n = 262144 * p + 4096 * q + 64 * r + s
      in map_option (\<lambda>t. char_of (n div 65536) # char_of (n div 256) # char_of n # t) (b64_groups ds))"
| "b64_groups [p, q, r] =
     (let n = 262144 * p + 4096 * q + 64 * r in Some [char_of (n div 65536), char_of (n div 256)])"
| "b64_groups [p, q] = (let n = 262144 * p + 4096 * q in Some [char_of (n div 65536)])"
| "b64_groups [p] = None"
| "b64_groups [] = Some []"

fun those_digits :: "string \<Rightarrow> string \<Rightarrow> nat list option" where
  "those_digits al [] = Some []"
| "those_digits al (c # cs) =
     (case (index_of c al, those_digits al cs) of
        (Some d, Some ds) \<Rightarrow> Some (d # ds)
      | _ \<Rightarrow> None)"

definition b64_decode :: "string \<Rightarrow> string \<Rightarrow> bytes option" where
  "b64_decode al s =
     (case those_digits al (filter (\<lambda>c. c \<noteq> CHR 0x0A \<and> c \<noteq> CHR 0x0D) s) of
        None \<Rightarrow> None
      | Some ds \<Rightarrow> b64_groups ds)"

text \<open>Four digits of a 24-bit number, put together again.\<close>

lemma sextets:
  fixes n :: nat
  shows "262144 * (n div 262144) + 4096 * (n div 4096 mod 64) + 64 * (n div 64 mod 64) + n mod 64 = n"
proof -
  have "n = 64 * (n div 64) + n mod 64" "n div 64 = 64 * (n div 4096) + n div 64 mod 64"
    "n div 4096 = 64 * (n div 262144) + n div 4096 mod 64"
    by (simp_all add: div_mult2_eq [symmetric] mod_mult2_eq [symmetric])
       (simp_all add: div_mult2_eq [of n 64 64, simplified] div_mult2_eq [of n 4096 64, simplified])
  then show ?thesis by linarith
qed

text \<open>The bytes of a 24-bit number.\<close>

lemma byte_parts:
  "char_of ((65536 * (of_char a :: nat) + 256 * of_char b + of_char c) div 65536) = a"
  "char_of ((65536 * (of_char a :: nat) + 256 * of_char b + of_char c) div 256) = b"
  "char_of (65536 * (of_char a :: nat) + 256 * of_char b + of_char c) = c"
proof -
  have r: "(of_char a :: nat) < 256" "(of_char b :: nat) < 256" "(of_char c :: nat) < 256" by simp_all
  have "(65536 * (of_char a :: nat) + 256 * of_char b + of_char c) div 65536 = of_char a"
    using r by linarith
  then show "char_of ((65536 * (of_char a :: nat) + 256 * of_char b + of_char c) div 65536) = a" by simp
  have "(65536 * (of_char a :: nat) + 256 * of_char b + of_char c) div 256 = of_char b + 256 * of_char a"
    using r by linarith
  moreover have "(of_char b + 256 * (of_char a :: nat)) mod 256 = of_char b" by simp
  ultimately have "char_of ((65536 * (of_char a :: nat) + 256 * of_char b + of_char c) div 256)
      = (char_of (of_char b :: nat) :: char)"
    by (metis char_of_mod_256)
  then show "char_of ((65536 * (of_char a :: nat) + 256 * of_char b + of_char c) div 256) = b" by simp
  have "65536 * (of_char a :: nat) + 256 * of_char b + of_char c = of_char c + 256 * (256 * of_char a + of_char b)"
    by simp
  moreover have "(of_char c + 256 * k) mod (256 :: nat) = of_char c" for k by simp
  ultimately have "char_of (65536 * (of_char a :: nat) + 256 * of_char b + of_char c)
      = (char_of (of_char c :: nat) :: char)"
    by (metis char_of_mod_256)
  then show "char_of (65536 * (of_char a :: nat) + 256 * of_char b + of_char c) = c" by simp
qed

definition no_eol :: "string \<Rightarrow> string" where
  "no_eol = filter (\<lambda>c. c \<noteq> CHR 0x0A \<and> c \<noteq> CHR 0x0D)"

lemma no_eol_Nil: "no_eol [] = []"
  by (simp add: no_eol_def)

lemma byte_bounds:
  "(65536 * (of_char a :: nat) + 256 * of_char b + of_char c) div 262144 < 64"
proof -
  have "(of_char a :: nat) < 256" "(of_char b :: nat) < 256" "(of_char c :: nat) < 256" by simp_all
  then show ?thesis by linarith
qed

text \<open>The three-byte steps of the encoder, as an induction.\<close>

lemma b64_induct [case_names 1 2 3 4]:
  "(\<And>a b c bs. P bs \<Longrightarrow> P (a # b # c # bs)) \<Longrightarrow> (\<And>a b. P [a, b]) \<Longrightarrow> (\<And>a. P [a]) \<Longrightarrow> P [] \<Longrightarrow> P (bs :: bytes)"
  by (rule b64_encode.induct [of "\<lambda>_. P"]) blast+

text \<open>What the round trip needs of an alphabet.\<close>

locale b64_alphabet =
  fixes al :: string
  assumes index: "n < 64 \<Longrightarrow> index_of (al ! n) al = Some n"
    and not_eol: "n < 64 \<Longrightarrow> al ! n \<noteq> CHR 0x0A \<and> al ! n \<noteq> CHR 0x0D"
    and ascii: "n < 64 \<Longrightarrow> (of_char (al ! n) :: nat) < 128"
begin

lemma digits_Cons:
  "n < 64 \<Longrightarrow> those_digits al (no_eol (al ! n # s)) = map_option ((#) n) (those_digits al (no_eol s))"
  using index [of n] not_eol [of n] by (simp add: no_eol_def split: option.split)

lemma round_trip: "b64_decode al (b64_encode al bs) = Some bs"
proof -
  have "\<exists>ds. those_digits al (no_eol (b64_encode al bs)) = Some ds \<and> b64_groups ds = Some bs"
  proof (induction bs rule: b64_induct)
    case (1 a b c bs)
    then obtain ds where "those_digits al (no_eol (b64_encode al bs)) = Some ds"
      "b64_groups ds = Some bs" by auto
    then show ?case
      by (simp add: Let_def digits_Cons byte_bounds sextets byte_parts)
  next
    case (2 a b)
    obtain n :: nat where n: "n = 65536 * of_char a + 256 * of_char b" by blast
    have "n mod 64 = 0" unfolding n by presburger
    with sextets [of n] have
      "262144 * (n div 262144) + 4096 * (n div 4096 mod 64) + 64 * (n div 64 mod 64) = n" by simp
    moreover have "n div 262144 < 64" "char_of (n div 65536) = a" "char_of (n div 256) = b"
      using byte_parts(1,2) [of a b "char_of (0::nat)"] byte_bounds [of a b "char_of (0::nat)"]
      by (simp_all add: n)
    ultimately show ?case
      unfolding b64_encode.simps Let_def n [symmetric] by (simp add: digits_Cons no_eol_Nil)
  next
    case (3 a)
    obtain n :: nat where n: "n = 64 * (64 * (16 * of_char a))" by blast
    then have m: "n = 65536 * of_char a" by simp
    have "n mod 64 = 0" "n div 64 mod 64 = 0" unfolding n by simp_all
    with sextets [of n] have "262144 * (n div 262144) + 4096 * (n div 4096 mod 64) = n" by simp
    moreover have "n div 262144 < 64" "char_of (n div 65536) = a"
      using byte_parts(1) [of a "char_of (0::nat)" "char_of (0::nat)"]
        byte_bounds [of a "char_of (0::nat)" "char_of (0::nat)"]
      by (simp_all add: m)
    ultimately show ?case
      unfolding b64_encode.simps Let_def m [symmetric] by (simp add: digits_Cons no_eol_Nil)
  next
    case 4
    then show ?case by (simp add: no_eol_def)
  qed
  then show ?thesis by (auto simp: b64_decode_def no_eol_def)
qed

lemma encode_set: "set (b64_encode al bs) \<subseteq> (!) al ` {..<64}"
proof -
  have m: "al ! (n mod 64) \<in> (!) al ` {..<64}" for n by simp
  have l: "n < 64 \<Longrightarrow> al ! n \<in> (!) al ` {..<64}" for n by simp
  show ?thesis
  proof (induction bs rule: b64_induct)
    case (1 a b c bs)
    then show ?case using l [OF byte_bounds [of a b c]] m by (simp add: Let_def)
  next
    case (2 a b)
    then show ?case using l [OF byte_bounds [of a b "char_of (0::nat)"]] m by (simp add: Let_def)
  next
    case (3 a)
    then show ?case
      using l [OF byte_bounds [of a "char_of (0::nat)" "char_of (0::nat)"]] m by (simp add: Let_def)
  qed simp
qed

lemma encode_chars: "c \<in> set (b64_encode al bs) \<Longrightarrow> \<exists>n < 64. c = al ! n"
  using encode_set by blast

lemma encode_ascii: "c \<in> set (b64_encode al bs) \<Longrightarrow> (of_char c :: nat) < 128"
  using encode_chars ascii by blast

end

lemma alphabet_facts:
  assumes "length al = 64" "distinct al" "CHR 0x0A \<notin> set al" "CHR 0x0D \<notin> set al"
    "\<forall>c \<in> set al. (of_char c :: nat) < 128"
  shows "b64_alphabet al"
proof
  have i: "distinct xs \<Longrightarrow> n < length xs \<Longrightarrow> index_of (xs ! n) xs = Some n" for xs n
  proof (induction xs arbitrary: n)
    case (Cons x xs)
    then show ?case by (cases n) auto
  qed simp
  fix n :: nat
  assume n: "n < 64"
  then have "al ! n \<in> set al" using assms(1) by simp
  then have "al ! n \<noteq> CHR 0x0A" "al ! n \<noteq> CHR 0x0D" using assms(3,4) by metis+
  with \<open>al ! n \<in> set al\<close> assms i [of al n] n show "index_of (al ! n) al = Some n" "al ! n \<noteq> CHR 0x0A \<and> al ! n \<noteq> CHR 0x0D"
    "(of_char (al ! n) :: nat) < 128"
    by auto
qed

definition b64std_alphabet :: string where
  "b64std_alphabet = ''ABCDEFGHIJKLMNOPQRSTUVWXYZabcdefghijklmnopqrstuvwxyz0123456789+/''"

interpretation b64url: b64_alphabet b64url_alphabet
  by (rule alphabet_facts) (simp_all add: b64url_alphabet_def)

interpretation b64std: b64_alphabet b64std_alphabet
  by (rule alphabet_facts) (simp_all add: b64std_alphabet_def)

text \<open>\<open>base64.StdEncoding\<close>: the text is filled up to a multiple of four.\<close>

definition std_encode :: "bytes \<Rightarrow> string" where
  "std_encode bs =
     (let s = b64_encode b64std_alphabet bs in s @ replicate ((4 - length s mod 4) mod 4) CHR ''='')"

definition std_decode :: "string \<Rightarrow> bytes option" where
  "std_decode s = b64_decode b64std_alphabet (rev (dropWhile (\<lambda>c. c = CHR ''='') (rev s)))"

lemma std_round_trip [simp]: "std_decode (std_encode bs) = Some bs"
proof -
  let ?s = "b64_encode b64std_alphabet bs"
  have "CHR ''='' \<notin> set ?s"
  proof
    assume "CHR ''='' \<in> set ?s"
    then obtain n where n: "n < 64" "CHR ''='' = b64std_alphabet ! n" using b64std.encode_chars by blast
    moreover have "length b64std_alphabet = 64" by (simp add: b64std_alphabet_def)
    ultimately have "CHR ''='' \<in> set b64std_alphabet" by (metis nth_mem)
    then show False by (simp add: b64std_alphabet_def)
  qed
  then have d: "dropWhile (\<lambda>c. c = CHR ''='') (rev ?s) = rev ?s"
    by (cases "rev ?s") (auto simp: dropWhile_eq_self_iff)
  have "dropWhile (\<lambda>c. c = CHR ''='') (replicate k CHR ''='' @ rev ?s) = rev ?s" for k
    by (induction k) (simp_all add: d)
  then show ?thesis by (simp add: std_decode_def std_encode_def Let_def b64std.round_trip)
qed

end
