(* ===== verification/SessionTokens.thy ===== *)
theory SessionTokens
  imports Session Crypto JsonText
begin

text \<open>
  \<open>internal/session/session.go\<close>: how a session token is minted and verified. The keys, the
  sealing and the base64 text are the standard library's (\<open>Crypto\<close>); the JSON Web Token
  library is a parameter, and what is relied on of it is \<open>jwt_ok\<close>.
\<close>

section \<open>Keys\<close>

definition signingKeyInfo :: string where
  "signingKeyInfo = ''excalidraw-wopi/session/signing-key/v1''"

definition sealingKeyInfo :: string where
  "sealingKeyInfo = ''excalidraw-wopi/session/sealing-key/v1''"

definition signingKeyLen :: nat where "signingKeyLen = 32"
definition sealingKeyLen :: nat where "sealingKeyLen = 32"

record sessionManager =
  sm_signingKey :: bytes
  sm_sealingKey :: bytes

datatype session_error =
    ErrDeriveKey
  | ErrSeal
  | ErrSign
  | ErrVerify
  | ErrUnseal

definition newSessions :: "bytes \<Rightarrow> session_error + sessionManager" where
  "newSessions secret =
     (case hkdf_key secret signingKeyInfo signingKeyLen of
        None \<Rightarrow> Inl ErrDeriveKey
      | Some signingKey \<Rightarrow>
          (case hkdf_key secret sealingKeyInfo sealingKeyLen of
             None \<Rightarrow> Inl ErrDeriveKey
           | Some sealingKey \<Rightarrow> Inr \<lparr>sm_signingKey = signingKey, sm_sealingKey = sealingKey\<rparr>))"

section \<open>Claims\<close>

record mintParams =
  mp_FileID :: string
  mp_WOPISrc :: string
  mp_UserID :: string
  mp_UserName :: string
  mp_CanWrite :: bool
  mp_AccessToken :: string
  mp_ExpiresAt :: time

record tokenClaims =
  tk_FileID :: string
  tk_WOPISrc :: string
  tk_UserID :: string
  tk_UserName :: string
  tk_CanWrite :: bool
  tk_SealedToken :: string
  tk_ExpiresAt :: "time option"

text \<open>
  The JWT library: signing a claims set with HS256, parsing a token against a key at a
  time (HS256 only, with an expiry required), and the dates its claims can hold.
\<close>

record jwtLib =
  jwt_SignedString :: "tokenClaims \<Rightarrow> bytes \<Rightarrow> string option"
  jwt_ParseWithClaims :: "time \<Rightarrow> bytes \<Rightarrow> string \<Rightarrow> tokenClaims option"
  jwt_NewNumericDate :: "time \<Rightarrow> time"

section \<open>Sealing\<close>

definition gcm :: "sessionManager \<Rightarrow> u8 list list option" where
  "gcm m = new_cipher (sm_sealingKey m)"

text \<open>\<open>rand\<close> is what the random reader fills the nonce with.\<close>

definition seal :: "sessionManager \<Rightarrow> bytes option \<Rightarrow> string \<Rightarrow> string \<Rightarrow> string option" where
  "seal m rand plaintext fileID =
     (case gcm m of
        None \<Rightarrow> None
      | Some g \<Rightarrow>
          (case rand of
             None \<Rightarrow> None
           | Some nonce \<Rightarrow> Some (b64_encode b64url_alphabet (gcm_seal g nonce plaintext fileID))))"

definition unseal :: "sessionManager \<Rightarrow> string \<Rightarrow> string \<Rightarrow> string option" where
  "unseal m sealed fileID =
     (case b64_decode b64url_alphabet sealed of
        None \<Rightarrow> None
      | Some raw \<Rightarrow>
          (case gcm m of
             None \<Rightarrow> None
           | Some g \<Rightarrow>
               if length raw < nonceSize then None
               else gcm_open g (take nonceSize raw) (drop nonceSize raw) fileID))"

section \<open>Minting and verifying\<close>

definition Mint :: "jwtLib \<Rightarrow> sessionManager \<Rightarrow> bytes option \<Rightarrow> mintParams \<Rightarrow> session_error + string" where
  "Mint J m rand p =
     (case seal m rand (mp_AccessToken p) (mp_FileID p) of
        None \<Rightarrow> Inl ErrSeal
      | Some sealed \<Rightarrow>
          (case jwt_SignedString J
                  \<lparr>tk_FileID = mp_FileID p, tk_WOPISrc = mp_WOPISrc p, tk_UserID = mp_UserID p,
                   tk_UserName = mp_UserName p, tk_CanWrite = mp_CanWrite p, tk_SealedToken = sealed,
                   tk_ExpiresAt = Some (jwt_NewNumericDate J (mp_ExpiresAt p))\<rparr>
                  (sm_signingKey m) of
             None \<Rightarrow> Inl ErrSign
           | Some token \<Rightarrow> Inr token))"

definition Verify :: "jwtLib \<Rightarrow> sessionManager \<Rightarrow> time \<Rightarrow> string \<Rightarrow> session_error + claims" where
  "Verify J m now raw =
     (case jwt_ParseWithClaims J now (sm_signingKey m) raw of
        None \<Rightarrow> Inl ErrVerify
      | Some c \<Rightarrow>
          (case unseal m (tk_SealedToken c) (tk_FileID c) of
             None \<Rightarrow> Inl ErrUnseal
           | Some accessToken \<Rightarrow>
               Inr \<lparr>cl_FileID = tk_FileID c, cl_WOPISrc = tk_WOPISrc c, cl_UserID = tk_UserID c,
                    cl_UserName = tk_UserName c, cl_CanWrite = tk_CanWrite c,
                    cl_AccessToken = accessToken,
                    cl_ExpiresAt = (case tk_ExpiresAt c of None \<Rightarrow> zero_time | Some t \<Rightarrow> t)\<rparr>))"

section \<open>What seals also opens\<close>

text \<open>The contract of an authenticated cipher that puts its nonce first, and of a text encoding.\<close>

locale sealing =
  fixes sealer :: "bytes \<Rightarrow> bytes \<Rightarrow> bytes \<Rightarrow> bytes"
    and opener :: "bytes \<Rightarrow> bytes \<Rightarrow> bytes \<Rightarrow> bytes option"
    and encode :: "bytes \<Rightarrow> string"
    and decode :: "string \<Rightarrow> bytes option"
    and n :: nat
  assumes nonce_first: "length nonce = n \<Longrightarrow> \<exists>rest. sealer nonce pt aad = nonce @ rest \<and> opener nonce rest aad = Some pt"
    and decode_encode: "decode (encode bs) = Some bs"
begin

lemma opens_sealed:
  assumes "length nonce = n" "raw = sealer nonce pt aad"
  shows "decode (encode raw) = Some raw" "n \<le> length raw"
    "opener (take n raw) (drop n raw) aad = Some pt"
  using nonce_first [OF assms(1), of pt aad] assms by (auto simp: decode_encode)

end

interpretation gcm_sealing: sealing "gcm_seal g" "gcm_open g" "b64_encode b64url_alphabet"
  "b64_decode b64url_alphabet" nonceSize for g
proof
  fix nonce pt aad :: bytes
  assume "length nonce = nonceSize"
  from gcm_open_seal [OF this, of g pt aad]
  show "\<exists>rest. gcm_seal g nonce pt aad = nonce @ rest \<and> gcm_open g nonce rest aad = Some pt"
    using \<open>length nonce = nonceSize\<close> by (auto simp: gcm_seal_def Let_def)
qed (rule b64url.round_trip)

lemma newSessions_total:
  "\<exists>m. newSessions secret = Inr m \<and> length (sm_signingKey m) = 32 \<and> length (sm_sealingKey m) = 32"
  using hkdf_32_total [of secret signingKeyInfo] hkdf_32_total [of secret sealingKeyInfo]
  by (auto simp: newSessions_def signingKeyLen_def sealingKeyLen_def)

lemma gcm_total:
  assumes "newSessions secret = Inr m"
  shows "\<exists>g. gcm m = Some g"
proof -
  have "length (sm_sealingKey m) = 32" using newSessions_total [of secret] assms by auto
  then show ?thesis by (simp add: gcm_def new_cipher_def Let_def)
qed

lemma unseal_seal:
  assumes "newSessions secret = Inr m" "length nonce = nonceSize"
  shows "\<exists>sealed. seal m (Some nonce) token fileID = Some sealed \<and> unseal m sealed fileID = Some token"
proof -
  obtain g where "gcm m = Some g" using gcm_total [OF assms(1)] by blast
  then show ?thesis
    using gcm_sealing.opens_sealed [OF assms(2) refl, of g token fileID]
    by (simp add: seal_def unseal_def)
qed

section \<open>The round trip\<close>

text \<open>
  What the library documents: a claims set whose strings are UTF-8 can be signed and is
  parsed back with the same key until it expires, expiry included, as long as the date is
  a number of seconds that JSON carries exactly; \<open>NewNumericDate\<close> cuts a time to a
  whole second (its \<open>TimePrecision\<close>).
\<close>

definition json_text :: "string \<Rightarrow> bool" where
  "json_text s \<longleftrightarrow> utf8_fix s = s"

definition date_ok :: "time \<Rightarrow> bool" where
  "date_ok t \<longleftrightarrow> unixEpoch \<le> t \<and> t < unixEpoch + 2 ^ 53 * second"

definition jwt_ok :: "jwtLib \<Rightarrow> bool" where
  "jwt_ok J \<longleftrightarrow>
     (\<forall>c k e. json_text (tk_FileID c) \<and> json_text (tk_WOPISrc c) \<and> json_text (tk_UserID c)
          \<and> json_text (tk_UserName c) \<and> json_text (tk_SealedToken c)
          \<and> tk_ExpiresAt c = Some (jwt_NewNumericDate J e) \<and> date_ok e \<longrightarrow>
        (\<exists>raw. jwt_SignedString J c k = Some raw \<and>
           (\<forall>now. jwt_ParseWithClaims J now k raw = (if now < jwt_NewNumericDate J e then Some c else None))))
   \<and> (\<forall>t. jwt_NewNumericDate J t \<le> t \<and> t < jwt_NewNumericDate J t + second)"

lemma numeric_date_le: "jwt_ok J \<Longrightarrow> jwt_NewNumericDate J t \<le> t"
  by (simp add: jwt_ok_def)

lemma b64_encode_text: "json_text (b64_encode b64url_alphabet bs)"
  by (simp add: json_text_def utf8_fix_of_ascii b64url.encode_ascii)

lemma mint_verify:
  assumes "jwt_ok J" "newSessions secret = Inr m" "length nonce = nonceSize"
    and "json_text (mp_FileID p)" "json_text (mp_WOPISrc p)" "json_text (mp_UserID p)"
    and "json_text (mp_UserName p)" "date_ok (mp_ExpiresAt p)"
  shows "\<exists>raw. Mint J m (Some nonce) p = Inr raw \<and>
    (\<forall>now. Verify J m now raw =
      (if now < jwt_NewNumericDate J (mp_ExpiresAt p)
       then Inr \<lparr>cl_FileID = mp_FileID p, cl_WOPISrc = mp_WOPISrc p, cl_UserID = mp_UserID p,
                 cl_UserName = mp_UserName p, cl_CanWrite = mp_CanWrite p,
                 cl_AccessToken = mp_AccessToken p, cl_ExpiresAt = jwt_NewNumericDate J (mp_ExpiresAt p)\<rparr>
       else Inl ErrVerify))"
proof -
  let ?e = "jwt_NewNumericDate J (mp_ExpiresAt p)"
  obtain sealed where s: "seal m (Some nonce) (mp_AccessToken p) (mp_FileID p) = Some sealed"
    "unseal m sealed (mp_FileID p) = Some (mp_AccessToken p)"
    using unseal_seal [OF assms(2,3)] by blast
  have t: "json_text sealed"
    using s(1) b64_encode_text by (auto simp: seal_def split: option.splits)
  let ?c = "\<lparr>tk_FileID = mp_FileID p, tk_WOPISrc = mp_WOPISrc p, tk_UserID = mp_UserID p,
    tk_UserName = mp_UserName p, tk_CanWrite = mp_CanWrite p, tk_SealedToken = sealed, tk_ExpiresAt = Some ?e\<rparr>"
  from assms(1) have "json_text (tk_FileID ?c) \<and> json_text (tk_WOPISrc ?c) \<and> json_text (tk_UserID ?c)
      \<and> json_text (tk_UserName ?c) \<and> json_text (tk_SealedToken ?c)
      \<and> tk_ExpiresAt ?c = Some ?e \<and> date_ok (mp_ExpiresAt p) \<longrightarrow>
      (\<exists>raw. jwt_SignedString J ?c (sm_signingKey m) = Some raw \<and>
        (\<forall>now. jwt_ParseWithClaims J now (sm_signingKey m) raw = (if now < ?e then Some ?c else None)))"
    unfolding jwt_ok_def by blast
  with assms(4-8) t obtain raw where raw: "jwt_SignedString J ?c (sm_signingKey m) = Some raw"
    "jwt_ParseWithClaims J now (sm_signingKey m) raw = (if now < ?e then Some ?c else None)" for now
    by auto
  have "Mint J m (Some nonce) p = Inr raw" by (simp add: Mint_def s(1) raw(1))
  moreover have "Verify J m now raw =
      (if now < ?e
       then Inr \<lparr>cl_FileID = mp_FileID p, cl_WOPISrc = mp_WOPISrc p, cl_UserID = mp_UserID p,
                 cl_UserName = mp_UserName p, cl_CanWrite = mp_CanWrite p,
                 cl_AccessToken = mp_AccessToken p, cl_ExpiresAt = ?e\<rparr>
       else Inl ErrVerify)" for now
    by (simp add: Verify_def raw(2) s(2))
  ultimately show ?thesis by blast
qed

lemma verify_minted:
  assumes "jwt_ok J" "newSessions secret = Inr m" "length nonce = nonceSize"
    and "json_text (mp_FileID p)" "json_text (mp_WOPISrc p)" "json_text (mp_UserID p)"
    and "json_text (mp_UserName p)" "date_ok (mp_ExpiresAt p)" "Mint J m (Some nonce) p = Inr raw"
  shows "Verify J m now raw =
      (if now < jwt_NewNumericDate J (mp_ExpiresAt p)
       then Inr \<lparr>cl_FileID = mp_FileID p, cl_WOPISrc = mp_WOPISrc p, cl_UserID = mp_UserID p,
                 cl_UserName = mp_UserName p, cl_CanWrite = mp_CanWrite p,
                 cl_AccessToken = mp_AccessToken p, cl_ExpiresAt = jwt_NewNumericDate J (mp_ExpiresAt p)\<rparr>
       else Inl ErrVerify)"
  using mint_verify [OF assms(1-8)] assms(9) by auto

text \<open>
  C15. A minted session verifies to what it was minted with, and for exactly as long as it
  should. Let the file id, the WOPISrc, the user id and the user name be valid UTF-8 (JSON
  replaces other bytes, and such a session comes back changed), and the expiry a date that
  a JSON number holds to the second. Then, with any secret and any twelve-byte nonce,
  \<open>Mint\<close> succeeds, and \<open>Verify\<close> of its token, by a manager with the same secret, gives
  the file, the WOPISrc, the user, the write flag and the unsealed access token (any bytes)
  until the expiry, cut to a whole second, has come, and an error from then on. So the session
  never outlives the access token and falls short of it by less than a second. The JWT
  library behaves as \<open>jwt_ok\<close> says.
\<close>

theorem session_round_trip:
  assumes "jwt_ok J" "newSessions secret = Inr m" "length nonce = nonceSize"
    and "json_text (mp_FileID p)" "json_text (mp_WOPISrc p)" "json_text (mp_UserID p)"
    and "json_text (mp_UserName p)" "date_ok (mp_ExpiresAt p)"
  shows "\<exists>raw e. Mint J m (Some nonce) p = Inr raw \<and> e \<le> mp_ExpiresAt p \<and> mp_ExpiresAt p < e + second \<and>
    Verify J m now raw =
      (if now < e
       then Inr \<lparr>cl_FileID = mp_FileID p, cl_WOPISrc = mp_WOPISrc p, cl_UserID = mp_UserID p,
                 cl_UserName = mp_UserName p, cl_CanWrite = mp_CanWrite p,
                 cl_AccessToken = mp_AccessToken p, cl_ExpiresAt = e\<rparr>
       else Inl ErrVerify)"
proof -
  have "jwt_NewNumericDate J (mp_ExpiresAt p) \<le> mp_ExpiresAt p"
    "mp_ExpiresAt p < jwt_NewNumericDate J (mp_ExpiresAt p) + second"
    using assms(1) by (simp_all add: jwt_ok_def)
  with mint_verify [OF assms] show ?thesis by blast
qed

section \<open>A library that does it\<close>

text \<open>
  A token format of the same make: the JSON of the claims behind its HMAC. It shows that
  \<open>jwt_ok\<close> can hold.
\<close>

definition demo_json :: "tokenClaims \<Rightarrow> json" where
  "demo_json c = JObj
     [(''fid'', JStr (tk_FileID c)), (''src'', JStr (tk_WOPISrc c)), (''uid'', JStr (tk_UserID c)),
      (''name'', JStr (tk_UserName c)), (''canWrite'', JBool (tk_CanWrite c)), (''tok'', JStr (tk_SealedToken c)),
      (''exp'', JNum (format_int (case tk_ExpiresAt c of None \<Rightarrow> 0 | Some t \<Rightarrow> (t - unixEpoch) div second)))]"

definition demo_claims :: "json \<Rightarrow> tokenClaims option" where
  "demo_claims j =
     (case j of
        JObj [(_, JStr fid), (_, JStr src), (_, JStr uid), (_, JStr name), (_, JBool w), (_, JStr tok), (_, JNum e)] \<Rightarrow>
          map_option (\<lambda>n. \<lparr>tk_FileID = fid, tk_WOPISrc = src, tk_UserID = uid, tk_UserName = name,
              tk_CanWrite = w, tk_SealedToken = tok, tk_ExpiresAt = Some (unixEpoch + n * second)\<rparr>) (parse_int e)
      | _ \<Rightarrow> None)"

definition demoJwt :: jwtLib where
  "demoJwt =
     \<lparr>jwt_SignedString = (\<lambda>c k. Some (hmac_sha256 k (print_json (demo_json c)) @ print_json (demo_json c))),
      jwt_ParseWithClaims = (\<lambda>now k raw.
        if take 32 raw = hmac_sha256 k (drop 32 raw)
        then (case Option.bind (parse_json (drop 32 raw)) demo_claims of
                Some c \<Rightarrow> (case tk_ExpiresAt c of Some t \<Rightarrow> if now < t then Some c else None | None \<Rightarrow> None)
              | None \<Rightarrow> None)
        else None),
      jwt_NewNumericDate = (\<lambda>t. unixEpoch + (t - unixEpoch) div second * second)\<rparr>"

lemma demo_parse:
  assumes "json_text (tk_FileID c)" "json_text (tk_WOPISrc c)" "json_text (tk_UserID c)"
    "json_text (tk_UserName c)" "json_text (tk_SealedToken c)"
    and "tk_ExpiresAt c = Some (unixEpoch + n * second)" "0 \<le> n" "n < 2 ^ 53"
  shows "Option.bind (parse_json (print_json (demo_json c))) demo_claims = Some c"
proof -
  have "printable (demo_json c)" "jdepth (demo_json c) \<le> maxNestingDepth"
    using assms(6,7) by (simp_all add: demo_json_def num_ok_format maxNestingDepth_def second_def)
  moreover have "fix_json (demo_json c) = demo_json c"
    using assms(1-5) by (simp add: demo_json_def json_text_def utf8_fix_of_ascii)
  moreover have "parse_int (format_int n) = Some n" using assms(7,8) by (intro parse_format_int) simp_all
  ultimately show ?thesis
    using assms(6) by (simp add: parse_print) (simp add: demo_json_def demo_claims_def second_def)
qed

lemma demoJwt_ok: "jwt_ok demoJwt"
proof -
  have "\<exists>raw. jwt_SignedString demoJwt c k = Some raw \<and>
      (\<forall>now. jwt_ParseWithClaims demoJwt now k raw = (if now < jwt_NewNumericDate demoJwt e then Some c else None))"
    if a: "json_text (tk_FileID c)" "json_text (tk_WOPISrc c)" "json_text (tk_UserID c)"
      "json_text (tk_UserName c)" "json_text (tk_SealedToken c)"
      "tk_ExpiresAt c = Some (jwt_NewNumericDate demoJwt e)" "date_ok e" for c k e
  proof -
    let ?n = "(e - unixEpoch) div second"
    have n: "0 \<le> ?n" "?n < 2 ^ 53"
      using a(7) by (auto simp: date_ok_def second_def intro: pos_imp_zdiv_nonneg_iff [THEN iffD2])
    have "tk_ExpiresAt c = Some (unixEpoch + ?n * second)" using a(6) by (simp add: demoJwt_def)
    from demo_parse [OF a(1-5) this n] a(6) show ?thesis by (simp add: demoJwt_def)
  qed
  moreover have "jwt_NewNumericDate demoJwt t \<le> t \<and> t < jwt_NewNumericDate demoJwt t + second" for t
  proof -
    have "t - unixEpoch = (t - unixEpoch) div second * second + (t - unixEpoch) mod second" by simp
    moreover have "0 \<le> (t - unixEpoch) mod second" "(t - unixEpoch) mod second < second" by simp_all
    ultimately show ?thesis unfolding demoJwt_def by (simp only: jwtLib.simps) linarith
  qed
  ultimately show ?thesis unfolding jwt_ok_def by blast
qed

definition demoMint :: mintParams where
  "demoMint = \<lparr>mp_FileID = ''f1'', mp_WOPISrc = ''http://h/wopi/files/f1'', mp_UserID = ''u1'',
     mp_UserName = ''Ada'', mp_CanWrite = True, mp_AccessToken = ''secret+token'',
     mp_ExpiresAt = unixEpoch + 1800000000 * second\<rparr>"

lemma demoMint_ok: "json_text (mp_FileID demoMint)" "json_text (mp_WOPISrc demoMint)"
  "json_text (mp_UserID demoMint)" "json_text (mp_UserName demoMint)" "date_ok (mp_ExpiresAt demoMint)"
  by (simp_all add: demoMint_def json_text_def utf8_fix_of_ascii date_ok_def second_def)

theorem session_round_trip_witness:
  "\<exists>m raw. newSessions ''0123456789abcdef0123456789abcdef'' = Inr m
     \<and> Mint demoJwt m (Some (replicate 12 (char_of (7 :: nat)))) demoMint = Inr raw
     \<and> (case Verify demoJwt m unixEpoch raw of Inl _ \<Rightarrow> False
        | Inr c \<Rightarrow> cl_AccessToken c = ''secret+token'' \<and> cl_CanWrite c)"
proof -
  obtain m where m: "newSessions ''0123456789abcdef0123456789abcdef'' = Inr m"
    using newSessions_total by blast
  have n: "length (replicate 12 (char_of (7 :: nat) :: char)) = nonceSize" by (simp add: nonceSize_def)
  from session_round_trip [OF demoJwt_ok m n demoMint_ok, of unixEpoch] m show ?thesis
    by (auto simp: demoMint_def second_def)
qed

end
