(* ===== verification/BoardApi.thy ===== *)
theory BoardApi
  imports SessionTokens GoHttp RoomManager RoomInvariants WopiClient
begin

text \<open>
  \<open>internal/boardapi/boardapi.go\<close>: the REST API of the frontend over the room manager.
  A handler runs in the state of the manager; before each of its calls other goroutines
  may run critical sections of theirs (\<open>lock_mu\<close>).
\<close>

section \<open>Parameters and requests\<close>

text \<open>
  The handler as production builds it: the manager is the store, the observer and the
  conflict store, each optional one with a flag.
\<close>

record 'h boardHandler =
  bh_jwt :: jwtLib
  bh_sessions :: sessionManager
  bh_getFile :: "time \<Rightarrow> string \<Rightarrow> string \<Rightarrow> int option \<Rightarrow> 'h \<Rightarrow> (wopi_error + (bytes \<times> bool) \<times> string) \<times> 'h"
  bh_maxSceneBytes :: int
  bh_observer :: bool
  bh_conflicts :: bool
  bh_isOwner :: "(string \<Rightarrow> bool) option"

definition newBoard ::
  "jwtLib \<Rightarrow> sessionManager \<Rightarrow>
   (time \<Rightarrow> string \<Rightarrow> string \<Rightarrow> int option \<Rightarrow> 'h \<Rightarrow> (wopi_error + (bytes \<times> bool) \<times> string) \<times> 'h) \<Rightarrow>
   int \<Rightarrow> bool \<Rightarrow> bool \<Rightarrow> (string \<Rightarrow> bool) option \<Rightarrow> 'h boardHandler" where
  "newBoard J sessions getFile maxSceneBytes observer conflicts isOwner =
     \<lparr>bh_jwt = J, bh_sessions = sessions, bh_getFile = getFile, bh_maxSceneBytes = maxSceneBytes,
      bh_observer = observer, bh_conflicts = conflicts, bh_isOwner = isOwner\<rparr>"

text \<open>The body as far as it can be read, and whether reading fails there.\<close>

record boardReq =
  br_authorization :: string
  br_body :: bytes
  br_bodyErr :: bool

text \<open>A sum of two \<open>int64\<close>.\<close>

definition wrap64 :: "int \<Rightarrow> int" where
  "wrap64 n = (n + 2 ^ 63) mod 2 ^ 64 - 2 ^ 63"

text \<open>\<open>io.ReadAll(io.LimitReader(body, n))\<close>: an error past the limit is not met.\<close>

definition read_limited :: "bytes \<Rightarrow> bool \<Rightarrow> int \<Rightarrow> bytes option" where
  "read_limited body bodyErr n =
     (if n \<le> 0 then Some []
      else if n \<le> int (length body) then Some (take (nat n) body)
      else if bodyErr then None else Some body)"

section \<open>Authentication\<close>

datatype auth_error = ErrMissingBearer | ErrSession session_error | ErrWrongReplica

definition bearer :: string where "bearer = ''Bearer ''"

definition boardAuthenticate :: "'h boardHandler \<Rightarrow> boardReq \<Rightarrow> ('h sys, auth_error + claims) state" where
  "boardAuthenticate b r =
     (if \<not> starts_with (br_authorization r) bearer then ret (Inl ErrMissingBearer)
      else do {
        now \<leftarrow> clock_now;
        (case Verify (bh_jwt b) (bh_sessions b) now (trim_prefix (br_authorization r) bearer) of
           Inl e \<Rightarrow> ret (Inl (ErrSession e))
         | Inr c \<Rightarrow>
             if (case bh_isOwner b of None \<Rightarrow> False | Some isOwner \<Rightarrow> \<not> isOwner (cl_FileID c))
             then ret (Inl ErrWrongReplica)
             else do {
               when_do (bh_observer b) (do { lock_mu; Observe c });
               ret (Inr c) }) })"

definition writeAuthError :: "auth_error \<Rightarrow> httpReply" where
  "writeAuthError err =
     (if err = ErrWrongReplica then http_error ''wrong replica'' 421 else http_error ''unauthorized'' 401)"

definition writeWOPIError :: "wopi_error \<Rightarrow> httpReply" where
  "writeWOPIError err =
     (if err = ErrTokenRejected then http_error ''the WOPI access token was rejected'' 403
      else if err = ErrNotFound then http_error ''board not found'' 404
      else http_error ''upstream WOPI host error'' 502)"

definition writeJSON :: "bytes \<Rightarrow> httpReply" where
  "writeJSON data =
     \<lparr>hr_status = 200,
      hr_header = [(''Content-Type'', ''application/json''), (''X-Content-Type-Options'', ''nosniff'')],
      hr_body = data\<rparr>"

definition noContent :: httpReply where
  "noContent = \<lparr>hr_status = 204, hr_header = [], hr_body = []\<rparr>"

section \<open>The handlers\<close>

definition getFileCall :: "'h boardHandler \<Rightarrow> claims \<Rightarrow> ('h sys, wopi_error + (bytes \<times> bool) \<times> string) state" where
  "getFileCall b c = State (\<lambda>s.
     case bh_getFile b (m_clock s) (cl_WOPISrc c) (cl_AccessToken c) (Some (bh_maxSceneBytes b)) (m_host s) of
       (res, host) \<Rightarrow> (res, s\<lparr>m_host := host\<rparr>))"

definition handleGetBoard :: "'h boardHandler \<Rightarrow> boardReq \<Rightarrow> ('h sys, httpReply) state" where
  "handleGetBoard b r = do {
     auth \<leftarrow> boardAuthenticate b r;
     (case auth of
        Inl e \<Rightarrow> ret (writeAuthError e)
      | Inr c \<Rightarrow> do {
          lock_mu;
          scene \<leftarrow> GetScene (cl_WOPISrc c);
          (case scene of
             Some data \<Rightarrow> ret (writeJSON data)
           | None \<Rightarrow> do {
               res \<leftarrow> getFileCall b c;
               ret (case res of
                 Inl e \<Rightarrow> writeWOPIError e
               | Inr ((body, bodyErr), _) \<Rightarrow>
                   (case read_limited body bodyErr (wrap64 (bh_maxSceneBytes b + 1)) of
                      None \<Rightarrow> http_error ''upstream WOPI host error'' 502
                    | Some data \<Rightarrow>
                        if bh_maxSceneBytes b < int (length data)
                        then http_error ''upstream scene exceeds the configured size limit'' 502
                        else writeJSON data)) }) }) }"

definition handlePutBoard :: "'h boardHandler \<Rightarrow> boardReq \<Rightarrow> ('h sys, httpReply) state" where
  "handlePutBoard b r = do {
     auth \<leftarrow> boardAuthenticate b r;
     (case auth of
        Inl e \<Rightarrow> ret (writeAuthError e)
      | Inr c \<Rightarrow>
          if \<not> cl_CanWrite c then ret (http_error ''read-only session cannot save'' 403)
          else case read_limited (br_body r) (br_bodyErr r) (wrap64 (bh_maxSceneBytes b + 1)) of
            None \<Rightarrow> ret (http_error ''read request body'' 400)
          | Some data \<Rightarrow>
              if bh_maxSceneBytes b < int (length data)
              then ret (http_error ''scene exceeds the configured size limit'' 413)
              else do {
                lock_mu;
                err \<leftarrow> PutScene (cl_WOPISrc c) data (cl_UserID c);
                ret (case err of None \<Rightarrow> noContent | Some _ \<Rightarrow> http_error ''internal error'' 500) }) }"

definition conflictState_json :: "bool \<Rightarrow> bool \<Rightarrow> json" where
  "conflictState_json inConflict saveStalled =
     JObj [(''inConflict'', JBool inConflict), (''saveStalled'', JBool saveStalled)]"

definition handleGetConflict :: "'h boardHandler \<Rightarrow> boardReq \<Rightarrow> ('h sys, httpReply) state" where
  "handleGetConflict b r = do {
     auth \<leftarrow> boardAuthenticate b r;
     (case auth of
        Inl e \<Rightarrow> ret (writeAuthError e)
      | Inr c \<Rightarrow>
          if bh_conflicts b then do {
            lock_mu;
            inConflict \<leftarrow> Conflict (cl_WOPISrc c);
            lock_mu;
            saveStalled \<leftarrow> SaveStalled (cl_WOPISrc c);
            ret (writeJSON (print_json (conflictState_json inConflict saveStalled))) }
          else ret (writeJSON (print_json (conflictState_json False False)))) }"

text \<open>
  \<open>json.NewDecoder\<close> on at most 4096 bytes: the first value of the body, whatever follows
  it, into a struct of one boolean. A member is matched without regard to case, \<open>null\<close>
  changes nothing, and a value of another type is an error.
\<close>

definition overwrite_member :: "string \<times> json \<Rightarrow> bool \<times> bool \<Rightarrow> bool \<times> bool" where
  "overwrite_member kv st =
     (case kv of (k, v) \<Rightarrow> case st of (overwrite, ok) \<Rightarrow>
        if fold_name k = fold_name ''overwrite'' then
          (case v of JBool x \<Rightarrow> (x, ok) | JNull \<Rightarrow> (overwrite, ok) | _ \<Rightarrow> (overwrite, False))
        else (overwrite, ok))"

definition decode_resolve :: "bytes \<Rightarrow> bool option" where
  "decode_resolve body =
     (let text = take 4096 body in
      case parse_value (2 * length text + 2) maxNestingDepth text of
        None \<Rightarrow> None
      | Some (JNull, _) \<Rightarrow> Some False
      | Some (JObj ms, _) \<Rightarrow>
          (case fold overwrite_member ms (False, True) of (overwrite, ok) \<Rightarrow> if ok then Some overwrite else None)
      | Some _ \<Rightarrow> None)"

definition handleResolveConflict :: "'h boardHandler \<Rightarrow> boardReq \<Rightarrow> ('h sys, httpReply) state" where
  "handleResolveConflict b r = do {
     auth \<leftarrow> boardAuthenticate b r;
     (case auth of
        Inl e \<Rightarrow> ret (writeAuthError e)
      | Inr c \<Rightarrow>
          if \<not> cl_CanWrite c then ret (http_error ''read-only session cannot resolve a conflict'' 403)
          else case decode_resolve (br_body r) of
            None \<Rightarrow> ret (http_error ''malformed request body'' 400)
          | Some overwrite \<Rightarrow>
              if bh_conflicts b then do {
                err \<leftarrow> ResolveConflict (cl_WOPISrc c) overwrite;
                ret (case err of None \<Rightarrow> noContent | Some _ \<Rightarrow> http_error ''internal error'' 500) }
              else ret noContent) }"

text \<open>The mux gives a \<open>HEAD\<close> to a \<open>GET\<close> pattern.\<close>

definition is_read :: "string \<Rightarrow> bool" where
  "is_read method \<longleftrightarrow> method = ''GET'' \<or> method = ''HEAD''"

definition RegisterRoutes :: "'h boardHandler \<Rightarrow> string \<Rightarrow> string \<Rightarrow> (boardReq \<Rightarrow> ('h sys, httpReply) state) option" where
  "RegisterRoutes b method path =
     (if is_read method \<and> path = ''/api/board'' then Some (handleGetBoard b)
      else if method = ''PUT'' \<and> path = ''/api/board'' then Some (handlePutBoard b)
      else if is_read method \<and> path = ''/api/board/conflict'' then Some (handleGetConflict b)
      else if method = ''POST'' \<and> path = ''/api/board/conflict/resolve'' then Some (handleResolveConflict b)
      else None)"

end
