(* ===== verification/BoardSafety.thy ===== *)
theory BoardSafety
  imports BoardApi RoomSafety
begin

text \<open>
  What the board API promises, for requests handled one after the other: who may change a
  room, that a scene that was put is got back, and where the size limit ends.
\<close>

section \<open>Sessions\<close>

text \<open>The session a request carries at a time, as a pure function.\<close>

definition boardSession :: "'h boardHandler \<Rightarrow> time \<Rightarrow> boardReq \<Rightarrow> auth_error + claims" where
  "boardSession b now r =
     (if \<not> starts_with (br_authorization r) bearer then Inl ErrMissingBearer
      else case Verify (bh_jwt b) (bh_sessions b) now (trim_prefix (br_authorization r) bearer) of
        Inl e \<Rightarrow> Inl (ErrSession e)
      | Inr c \<Rightarrow>
          if (case bh_isOwner b of None \<Rightarrow> False | Some isOwner \<Rightarrow> \<not> isOwner (cl_FileID c))
          then Inl ErrWrongReplica else Inr c)"

lemma interfere_none [simp]: "m_sched s = [] \<Longrightarrow> interfere s = s"
  by (simp add: interfere_def)

lemma run_lock_mu [simp]: "run_state lock_mu s = ((), interfere s)"
  by (simp add: lock_mu_def)

definition observed :: "'h boardHandler \<Rightarrow> claims \<Rightarrow> 'h sys \<Rightarrow> 'h sys" where
  "observed b c s = (if bh_observer b then exec (Observe c) s else s)"

lemma authenticate_run:
  assumes "m_sched s = []"
  shows "run_state (boardAuthenticate b r) s =
     (boardSession b (m_clock s) r,
      (case boardSession b (m_clock s) r of Inl _ \<Rightarrow> s | Inr c \<Rightarrow> observed b c s))"
  using assms
  by (simp add: boardAuthenticate_def boardSession_def observed_def exec_def split: sum.split prod.split)

section \<open>What a handler does to the rooms\<close>

text \<open>A room's content: what a client would lose if it changed.\<close>

definition content :: "roomState \<Rightarrow> bytes option \<times> bool \<times> bool \<times> u64" where
  "content rs = (rs_scene rs, rs_dirty rs, rs_conflict rs, rs_sceneSeq rs)"

definition same_content :: "'h sys \<Rightarrow> 'h sys \<Rightarrow> bool" where
  "same_content s t \<longleftrightarrow> m_next s \<le> m_next t \<and> (\<forall>k < m_next s. content (m_heap t k) = content (m_heap s k))"

lemma same_content_refl [simp]: "same_content s s"
  by (simp add: same_content_def)

lemma same_content_trans: "same_content s t \<Longrightarrow> same_content t u \<Longrightarrow> same_content s u"
  by (auto simp: same_content_def)

text \<open>The room of an address and a file id, and what finding it leaves of the state.\<close>

lemma roomLocked_facts:
  assumes "run_state (roomLocked src f) s = (r, t)"
  shows "map_of (m_rooms t) src = Some r" "f \<noteq> [] \<Longrightarrow> m_byFileID t f = Some r"
    "map_of (m_rooms s) src = Some r0 \<Longrightarrow> r = r0"
    "map_of (m_rooms s) src = None \<Longrightarrow> f \<noteq> [] \<Longrightarrow> m_byFileID s f = Some r1 \<Longrightarrow> r = r1"
    "src' \<noteq> src \<Longrightarrow> map_of (m_rooms t) src' = map_of (m_rooms s) src'"
    "m_sched t = m_sched s" "m_clock t = m_clock s" "m_maxSceneBytes t = m_maxSceneBytes s"
    "same_content s t"
    "f = [] \<Longrightarrow> m_byFileID t = m_byFileID s"
  using assms
  by (auto simp: roomLocked_run Let_def new_room_def alias_room_def index_room_def upd_room_def
      same_content_def content_def newRoom_def split: option.splits if_splits)

lemma Observe_exec:
  assumes "run_state (roomLocked (cl_WOPISrc c) (cl_FileID c)) s = (r, t)"
  shows "\<exists>g. exec (Observe c) s = (upd_room r g t)\<lparr>m_woken := True\<rparr> \<and> (\<forall>rs. content (g rs) = content rs)"
proof -
  let ?g1 = "observeTokens c (m_clock t)"
  let ?g2 = "\<lambda>rs. (?g1 rs)\<lparr>rs_pendingVersionCheck := True\<rparr>"
  have c: "upd_room r (pruneTokensLocked (m_clock t)) (upd_room r (\<lambda>rs. rs\<lparr>rs_tokens :=
        AList.update (cl_UserID c) \<lparr>ti_token = cl_AccessToken c, ti_expiresAt = cl_ExpiresAt c,
         ti_canWrite = cl_CanWrite c, ti_warned = False\<rparr> (rs_tokens rs)\<rparr>) t) = upd_room r ?g1 t"
    by (simp add: upd_room_def observeTokens_def)
  have p: "upd_room r (\<lambda>rs. rs\<lparr>rs_pendingVersionCheck := True\<rparr>) (upd_room r ?g1 t) = upd_room r ?g2 t"
    by (simp add: upd_room_def)
  have "exec (Observe c) s = (upd_room r ?g1 t)\<lparr>m_woken := True\<rparr>
      \<or> exec (Observe c) s = (upd_room r ?g2 t)\<lparr>m_woken := True\<rparr>"
    using assms by (auto simp: Observe_def exec_def c p simp del: upd_room_simps(12))
  moreover have "content (?g1 rs) = content rs" "content (?g2 rs) = content rs" for rs
    by (simp_all add: content_def observeTokens_def)
  ultimately show ?thesis by blast
qed

lemma Observe_facts:
  assumes "cl_FileID c \<noteq> []"
  obtains r where "map_of (m_rooms (exec (Observe c) s)) (cl_WOPISrc c) = Some r"
    "m_byFileID (exec (Observe c) s) (cl_FileID c) = Some r"
    "\<And>r0. map_of (m_rooms s) (cl_WOPISrc c) = Some r0 \<Longrightarrow> r = r0"
    "\<And>r1. map_of (m_rooms s) (cl_WOPISrc c) = None \<Longrightarrow> m_byFileID s (cl_FileID c) = Some r1 \<Longrightarrow> r = r1"
    "\<And>src. src \<noteq> cl_WOPISrc c \<Longrightarrow> map_of (m_rooms (exec (Observe c) s)) src = map_of (m_rooms s) src"
proof -
  obtain r t where rt: "run_state (roomLocked (cl_WOPISrc c) (cl_FileID c)) s = (r, t)" by fastforce
  from Observe_exec [OF this] obtain g where g: "exec (Observe c) s = (upd_room r g t)\<lparr>m_woken := True\<rparr>" by blast
  show ?thesis
    by (rule that [of r]) (use roomLocked_facts [OF rt] assms in \<open>simp_all add: g\<close>)
qed

lemma Observe_frame:
  "m_sched (exec (Observe c) s) = m_sched s" "m_clock (exec (Observe c) s) = m_clock s"
  "m_maxSceneBytes (exec (Observe c) s) = m_maxSceneBytes s" "same_content s (exec (Observe c) s)"
proof -
  obtain r t where rt: "run_state (roomLocked (cl_WOPISrc c) (cl_FileID c)) s = (r, t)" by fastforce
  from Observe_exec [OF this] obtain g where g: "exec (Observe c) s = (upd_room r g t)\<lparr>m_woken := True\<rparr>"
    "\<forall>rs. content (g rs) = content rs" by blast
  show "m_sched (exec (Observe c) s) = m_sched s" "m_clock (exec (Observe c) s) = m_clock s"
    "m_maxSceneBytes (exec (Observe c) s) = m_maxSceneBytes s" "same_content s (exec (Observe c) s)"
    using roomLocked_facts(6-9) [OF rt] g by (auto simp: same_content_def)
qed

lemma observed_frame [simp]:
  "m_sched (observed b c s) = m_sched s" "m_clock (observed b c s) = m_clock s"
  "m_maxSceneBytes (observed b c s) = m_maxSceneBytes s" "same_content s (observed b c s)"
  by (simp_all add: observed_def Observe_frame)

lemma PutScene_run:
  assumes "run_state (roomLocked src []) s = (r, t)" "m_maxSceneBytes s \<le> 0 \<or> int (length d) \<le> m_maxSceneBytes s"
  shows "run_state (PutScene src d u) s =
     (None, (upd_room r (putRoom d (m_clock t) u) t)\<lparr>m_puts := Suc (m_puts t), m_woken := True\<rparr>)"
proof -
  have "upd_room r (\<lambda>rs. rs\<lparr>rs_lastWriterUserID := u\<rparr>)
      (upd_room r (\<lambda>rs. rs\<lparr>rs_scene := clone_bytes d, rs_dirty := True,
          rs_sceneSeq := rs_sceneSeq rs + 1, rs_lastPutSceneAt := m_clock t\<rparr>) t)
      = upd_room r (putRoom d (m_clock t) u) t" if "u \<noteq> []"
    using that by (simp add: upd_room_def putRoom_def)
  moreover have "upd_room r (\<lambda>rs. rs\<lparr>rs_scene := clone_bytes d, rs_dirty := True,
          rs_sceneSeq := rs_sceneSeq rs + 1, rs_lastPutSceneAt := m_clock t\<rparr>) t
      = upd_room r (putRoom d (m_clock t) u) t" if "u = []"
    using that by (simp add: upd_room_def putRoom_def)
  ultimately show ?thesis
    using assms roomLocked_facts(7) [OF assms(1)]
    by (auto simp: PutScene_def Let_def simp del: upd_room_simps(12))
qed

lemma getFileCall_content: "same_content s (snd (run_state (getFileCall b c) s))"
  by (simp add: getFileCall_def same_content_def split: prod.split)

text \<open>
  C11. Only a writer's session changes a room through the board API. A request without a
  valid session, or for a file of another replica, is answered 401 or 421 and changes
  nothing at all; one with a session may add its address and its token to the manager, but
  the scene, the dirty flag, the scene counter and the conflict of every room stay as they
  are unless the session may write and the request is a PUT or a POST.
\<close>

theorem board_needs_writer:
  assumes "RegisterRoutes b meth path = Some H" "m_sched s = []" "run_state (H r) s = (rp, t)"
  shows "case boardSession b (m_clock s) r of
      Inl e \<Rightarrow> t = s \<and> hr_status rp = (if e = ErrWrongReplica then 421 else 401)
    | Inr c \<Rightarrow> same_content s t \<or> (cl_CanWrite c \<and> (meth = ''PUT'' \<or> meth = ''POST''))"
proof (cases "boardSession b (m_clock s) r")
  case (Inl e)
  then have "run_state (H r) s = (writeAuthError e, s)"
    using assms(1,2)
    by (auto simp: RegisterRoutes_def handleGetBoard_def handlePutBoard_def handleGetConflict_def
        handleResolveConflict_def authenticate_run split: if_splits)
  with Inl assms(3) show ?thesis by (auto simp: writeAuthError_def)
next
  case (Inr c)
  consider (get) "H = handleGetBoard b" | (conflict) "H = handleGetConflict b"
    | (writing) "meth = ''PUT'' \<or> meth = ''POST''" "H = handlePutBoard b \<or> H = handleResolveConflict b"
    using assms(1) by (auto simp: RegisterRoutes_def split: if_splits)
  then have "same_content s t \<or> (cl_CanWrite c \<and> (meth = ''PUT'' \<or> meth = ''POST''))"
  proof cases
    case get
    let ?u = "observed b c s"
    have "t = ?u \<or> t = snd (run_state (getFileCall b c) ?u)"
      using assms(2,3) Inr get
      by (auto simp: handleGetBoard_def authenticate_run GetScene_def split: option.splits prod.splits)
    then show ?thesis
      using same_content_trans [OF observed_frame(4) getFileCall_content] observed_frame(4) by metis
  next
    case conflict
    then have "t = observed b c s"
      using assms(2,3) Inr
      by (auto simp: handleGetConflict_def authenticate_run Conflict_def SaveStalled_def split: if_splits)
    then show ?thesis by simp
  next
    case writing
    have "t = observed b c s" if "\<not> cl_CanWrite c"
      using writing(2) assms(2,3) Inr that
      by (auto simp: handlePutBoard_def handleResolveConflict_def authenticate_run)
    with writing(1) show ?thesis by auto
  qed
  with Inr show ?thesis by simp
qed

section \<open>Put, then get\<close>

lemma wrap64_id: "- (2 ^ 63) \<le> n \<Longrightarrow> n < 2 ^ 63 \<Longrightarrow> wrap64 n = n"
  by (simp add: wrap64_def)

lemma read_all:
  assumes "int (length body) \<le> n" "0 \<le> n" "n < 2 ^ 63 - 1"
  shows "read_limited body False (wrap64 (n + 1)) = Some body"
proof -
  have "wrap64 (n + 1) = n + 1" using assms by (intro wrap64_id) simp_all
  with assms show ?thesis by (simp add: read_limited_def)
qed

text \<open>The room that a session of a file works on, once it was observed.\<close>

lemma mgr_wf_atoms: "env_atoms ok s t \<Longrightarrow> mgr_wf s \<Longrightarrow> mgr_wf t"
  by (induction rule: rtranclp_induct) (auto intro: mgr_wf_atom)

lemma put_state:
  assumes "m_sched s = []" "boardSession b (m_clock s) r = Inr c" "bh_observer b" "cl_CanWrite c"
    "cl_FileID c \<noteq> []" "br_bodyErr r = False" "int (length (br_body r)) \<le> bh_maxSceneBytes b"
    "bh_maxSceneBytes b < 2 ^ 63 - 1" "m_maxSceneBytes s = bh_maxSceneBytes b"
  obtains k t where "run_state (handlePutBoard b r) s = (noContent, t)"
    "map_of (m_rooms t) (cl_WOPISrc c) = Some k" "m_byFileID t (cl_FileID c) = Some k"
    "rs_scene (m_heap t k) = clone_bytes (br_body r)" "m_sched t = []"
    "\<And>src. src \<noteq> cl_WOPISrc c \<Longrightarrow> map_of (m_rooms t) src = map_of (m_rooms s) src"
    "env_atoms (\<lambda>_. True) s t" "rs_dirty (m_heap t k)"
proof -
  let ?u = "exec (Observe c) s"
  obtain k where k: "map_of (m_rooms ?u) (cl_WOPISrc c) = Some k" "m_byFileID ?u (cl_FileID c) = Some k"
    "\<And>src. src \<noteq> cl_WOPISrc c \<Longrightarrow> map_of (m_rooms ?u) src = map_of (m_rooms s) src"
    using Observe_facts [OF assms(5), of s] by metis
  obtain k' v where v: "run_state (roomLocked (cl_WOPISrc c) []) ?u = (k', v)" by fastforce
  note f = roomLocked_facts [OF v]
  have k': "k' = k" using f(3) k(1) by simp
  let ?t = "(upd_room k (putRoom (br_body r) (m_clock v) (cl_UserID c)) v)\<lparr>m_puts := Suc (m_puts v), m_woken := True\<rparr>"
  have put: "run_state (PutScene (cl_WOPISrc c) (br_body r) (cl_UserID c)) ?u = (None, ?t)"
    unfolding k' [symmetric] by (rule PutScene_run [OF v]) (use assms(7,9) in \<open>simp add: Observe_frame\<close>)
  have rd: "read_limited (br_body r) (br_bodyErr r) (wrap64 (bh_maxSceneBytes b + 1)) = Some (br_body r)"
    using assms(6-8) read_all [of "br_body r" "bh_maxSceneBytes b"] by simp
  then have "run_state (handlePutBoard b r) s = (noContent, ?t)"
    using assms put by (simp add: handlePutBoard_def authenticate_run observed_def Observe_frame)
  moreover have "map_of (m_rooms ?t) (cl_WOPISrc c) = Some k" "m_byFileID ?t (cl_FileID c) = Some k"
    "rs_scene (m_heap ?t k) = clone_bytes (br_body r)" "m_sched ?t = []"
    using f(1,6,10) k k' assms(1) by (simp_all add: putRoom_def Observe_frame)
  moreover have "src \<noteq> cl_WOPISrc c \<Longrightarrow> map_of (m_rooms ?t) src = map_of (m_rooms s) src" for src
    using f(5) k(3) by simp
  moreover have "env_atoms (\<lambda>_. True) s ?t"
  proof -
    have "exec (PutScene (cl_WOPISrc c) (br_body r) (cl_UserID c)) ?u = ?t"
      using put by (simp add: exec_def)
    with PutScene_atoms [of "\<lambda>_. True" ?u] Observe_atoms [of "\<lambda>_. True" c s] show ?thesis
      by (metis rtranclp_trans)
  qed
  moreover have "rs_dirty (m_heap ?t k)" by (simp add: putRoom_def)
  ultimately show ?thesis by (rule that)
qed

lemma get_state:
  assumes "m_sched s = []" "boardSession b (m_clock s) r = Inr c" "bh_observer b" "cl_FileID c \<noteq> []"
    "map_of (m_rooms s) (cl_WOPISrc c) = Some k \<or>
       (map_of (m_rooms s) (cl_WOPISrc c) = None \<and> m_byFileID s (cl_FileID c) = Some k)"
    "k < m_next s" "rs_scene (m_heap s k) = Some data"
  shows "fst (run_state (handleGetBoard b r) s) = writeJSON data"
proof -
  let ?u = "exec (Observe c) s"
  have "map_of (m_rooms ?u) (cl_WOPISrc c) = Some k"
    using Observe_facts [OF assms(4), of s] assms(5) by metis
  moreover have "rs_scene (m_heap ?u k) = Some data"
    using Observe_frame(4) [of s c] assms(6,7) by (auto simp: same_content_def content_def)
  ultimately show ?thesis
    using assms by (simp add: handleGetBoard_def authenticate_run observed_def Observe_frame GetScene_def)
qed

text \<open>
  A \<open>GET\<close> finds the scene under the address of the \<open>PUT\<close>, and under one that the manager has
  not met and that names the same file id.
\<close>

lemma get_finds_scene:
  assumes "mgr_reachable (\<lambda>_. True) cl s" "m_sched s = []"
    and "boardSession b (m_clock s) r1 = Inr c1" "cl_CanWrite c1"
    and "br_bodyErr r1 = False" "br_body r1 \<noteq> []" "int (length (br_body r1)) \<le> bh_maxSceneBytes b"
    and "bh_maxSceneBytes b < 2 ^ 63 - 1" "m_maxSceneBytes s = bh_maxSceneBytes b" "bh_observer b"
    and "boardSession b now r2 = Inr c2" "cl_FileID c2 \<noteq> []" "cl_FileID c1 \<noteq> []"
    and "cl_WOPISrc c2 = cl_WOPISrc c1
      \<or> cl_FileID c2 = cl_FileID c1 \<and> map_of (m_rooms s) (cl_WOPISrc c2) = None"
  shows "\<exists>t. run_state (handlePutBoard b r1) s = (noContent, t)
    \<and> fst (run_state (handleGetBoard b r2) (t\<lparr>m_clock := now\<rparr>)) = writeJSON (br_body r1)"
proof -
  obtain k t where t: "run_state (handlePutBoard b r1) s = (noContent, t)"
    "map_of (m_rooms t) (cl_WOPISrc c1) = Some k" "m_byFileID t (cl_FileID c1) = Some k"
    "rs_scene (m_heap t k) = clone_bytes (br_body r1)" "m_sched t = []"
    "\<And>src. src \<noteq> cl_WOPISrc c1 \<Longrightarrow> map_of (m_rooms t) src = map_of (m_rooms s) src"
    "env_atoms (\<lambda>_. True) s t"
    using put_state [OF assms(2,3,10,4,13,5,7,8,9)] by metis
  have "mgr_wf t" using mgr_wf_atoms [OF t(7)] lockv.reachable_R [OF assms(1)] by blast
  then have "k < m_next t" using t(2) by (simp add: mgr_wf_def)
  moreover have "map_of (m_rooms t) (cl_WOPISrc c2) = Some k \<or>
       (map_of (m_rooms t) (cl_WOPISrc c2) = None \<and> m_byFileID t (cl_FileID c2) = Some k)"
    using assms(14) t(2,3,6) by metis
  ultimately have "fst (run_state (handleGetBoard b r2) (t\<lparr>m_clock := now\<rparr>)) = writeJSON (br_body r1)"
    using assms(6,10-13) t(4,5) by (intro get_state [where c = c2 and k = k]) simp_all
  with t(1) show ?thesis by blast
qed

text \<open>
  C8. What a writer puts, the next reader gets: if the manager is in a reachable state and
  nothing comes in between, a scene that is not empty and within the limit is accepted with
  204, and a GET at any later time with any session for the same WOPISrc, a reader's or a
  writer's, answers exactly the posted bytes. (The two sessions name a file, as those of a launch
  do; limits below the top of \<open>int64\<close>, both parts of the server configured with the same one.)
\<close>

theorem put_then_get:
  assumes "mgr_reachable (\<lambda>_. True) cl s" "m_sched s = []"
    and "boardSession b (m_clock s) r1 = Inr c1" "cl_CanWrite c1"
    and "br_bodyErr r1 = False" "br_body r1 \<noteq> []" "int (length (br_body r1)) \<le> bh_maxSceneBytes b"
    and "bh_maxSceneBytes b < 2 ^ 63 - 1" "m_maxSceneBytes s = bh_maxSceneBytes b" "bh_observer b"
    and "boardSession b now r2 = Inr c2" "cl_FileID c2 \<noteq> []" "cl_FileID c1 \<noteq> []"
    and "cl_WOPISrc c2 = cl_WOPISrc c1"
  shows "\<exists>t. run_state (handlePutBoard b r1) s = (noContent, t)
    \<and> fst (run_state (handleGetBoard b r2) (t\<lparr>m_clock := now\<rparr>)) = writeJSON (br_body r1)"
  by (rule get_finds_scene [OF assms(1-13)]) (simp add: assms(14))

text \<open>
  Two hosts that hand out the same file id are mixed, against what the comment of \<open>RoomStore\<close>
  says: a session whose WOPISrc the manager has not met reads the scene that was put under
  another WOPISrc, of any host, with the same file id.
\<close>

theorem hosts_are_mixed:
  assumes "mgr_reachable (\<lambda>_. True) cl s" "m_sched s = []"
    and "boardSession b (m_clock s) r1 = Inr c1" "cl_CanWrite c1"
    and "br_bodyErr r1 = False" "br_body r1 \<noteq> []" "int (length (br_body r1)) \<le> bh_maxSceneBytes b"
    and "bh_maxSceneBytes b < 2 ^ 63 - 1" "m_maxSceneBytes s = bh_maxSceneBytes b" "bh_observer b"
    and "boardSession b now r2 = Inr c2" "cl_FileID c2 = cl_FileID c1" "cl_FileID c1 \<noteq> []"
    and "map_of (m_rooms s) (cl_WOPISrc c2) = None"
  shows "\<exists>t. run_state (handlePutBoard b r1) s = (noContent, t)
    \<and> fst (run_state (handleGetBoard b r2) (t\<lparr>m_clock := now\<rparr>)) = writeJSON (br_body r1)"
  by (rule get_finds_scene [OF assms(1-11) _ assms(13)]) (use assms(12-14) in simp_all)

text \<open>
  C30. The largest limit is none at all: with \<open>maxSceneBytes\<close> at the top of \<open>int64\<close>, which
  the configuration accepts, the byte past the limit wraps around, the limited reader
  reads nothing, and a PUT of any scene is answered 204 while the room's scene is lost.
\<close>

theorem top_limit_drops_scenes:
  assumes "m_sched s = []" "boardSession b (m_clock s) r = Inr c" "cl_CanWrite c"
    and "bh_maxSceneBytes b = 2 ^ 63 - 1" "m_maxSceneBytes s = bh_maxSceneBytes b"
  shows "\<exists>t. run_state (handlePutBoard b r) s = (noContent, t) \<and> fst (run_state (GetScene (cl_WOPISrc c)) t) = None"
proof -
  let ?u = "observed b c s"
  obtain k v where v: "run_state (roomLocked (cl_WOPISrc c) []) ?u = (k, v)" by fastforce
  note f = roomLocked_facts [OF v]
  let ?t = "(upd_room k (putRoom [] (m_clock v) (cl_UserID c)) v)\<lparr>m_puts := Suc (m_puts v), m_woken := True\<rparr>"
  have "run_state (PutScene (cl_WOPISrc c) [] (cl_UserID c)) ?u = (None, ?t)"
    by (rule PutScene_run [OF v]) (simp add: assms)
  moreover have "read_limited (br_body r) (br_bodyErr r) (wrap64 (bh_maxSceneBytes b + 1)) = Some []"
    by (simp add: assms(4) wrap64_def read_limited_def)
  ultimately have "run_state (handlePutBoard b r) s = (noContent, ?t)"
    using assms by (simp add: handlePutBoard_def authenticate_run)
  moreover have "fst (run_state (GetScene (cl_WOPISrc c)) ?t) = None"
    using f(1) by (simp add: GetScene_def putRoom_def clone_bytes_def)
  ultimately show ?thesis by blast
qed

section \<open>An example\<close>

lemma minted_session:
  assumes "jwt_ok (bh_jwt b)" "newSessions secret = Inr (bh_sessions b)" "length nonce = nonceSize"
    and "json_text (mp_FileID p)" "json_text (mp_WOPISrc p)" "json_text (mp_UserID p)"
    and "json_text (mp_UserName p)" "date_ok (mp_ExpiresAt p)"
    and "Mint (bh_jwt b) (bh_sessions b) (Some nonce) p = Inr raw" "br_authorization r = bearer @ raw"
    and "now < jwt_NewNumericDate (bh_jwt b) (mp_ExpiresAt p)"
    and "case bh_isOwner b of None \<Rightarrow> True | Some isOwner \<Rightarrow> isOwner (mp_FileID p)"
  shows "boardSession b now r = Inr \<lparr>cl_FileID = mp_FileID p, cl_WOPISrc = mp_WOPISrc p, cl_UserID = mp_UserID p,
      cl_UserName = mp_UserName p, cl_CanWrite = mp_CanWrite p, cl_AccessToken = mp_AccessToken p,
      cl_ExpiresAt = jwt_NewNumericDate (bh_jwt b) (mp_ExpiresAt p)\<rparr>"
proof -
  have "trim_prefix (bearer @ raw) bearer = raw" by (simp add: trim_prefix_def)
  then show ?thesis
    using assms(10-12) verify_minted [OF assms(1-9), of now]
    by (simp add: boardSession_def split: option.splits)
qed

definition demoBoard :: "sessionManager \<Rightarrow> int \<Rightarrow> unit boardHandler" where
  "demoBoard m limit = newBoard demoJwt m (\<lambda>_ _ _ _ h. (Inl ErrNotFound, h)) limit True True None"

definition demoBoardMint :: "string \<Rightarrow> mintParams" where
  "demoBoardMint src = demoMint\<lparr>mp_WOPISrc := src\<rparr>"

definition demoNonce :: bytes where
  "demoNonce = replicate 12 (char_of (7 :: nat))"

lemma demo_board_session:
  assumes "newSessions secret = Inr m" "json_text src"
  obtains raw where "\<And>limit body. boardSession (demoBoard m limit) unixEpoch
      \<lparr>br_authorization = bearer @ raw, br_body = body, br_bodyErr = False\<rparr>
    = Inr \<lparr>cl_FileID = ''f1'', cl_WOPISrc = src, cl_UserID = ''u1'', cl_UserName = ''Ada'', cl_CanWrite = True,
        cl_AccessToken = ''secret+token'', cl_ExpiresAt = unixEpoch + 1800000000 * second\<rparr>"
proof -
  let ?p = "demoBoardMint src"
  have n: "length demoNonce = nonceSize" by (simp add: demoNonce_def nonceSize_def)
  have ok: "json_text (mp_FileID ?p)" "json_text (mp_WOPISrc ?p)" "json_text (mp_UserID ?p)"
    "json_text (mp_UserName ?p)" "date_ok (mp_ExpiresAt ?p)"
    using demoMint_ok assms(2) by (simp_all add: demoBoardMint_def)
  obtain raw where raw: "Mint demoJwt m (Some demoNonce) ?p = Inr raw"
    using mint_verify [OF demoJwt_ok assms(1) n ok] by blast
  have e: "jwt_NewNumericDate demoJwt (mp_ExpiresAt ?p) = unixEpoch + 1800000000 * second"
    by (simp add: demoJwt_def demoBoardMint_def demoMint_def second_def)
  have f: "bh_jwt (demoBoard m limit) = demoJwt" "bh_sessions (demoBoard m limit) = m"
    "bh_isOwner (demoBoard m limit) = None" for limit
    by (simp_all add: demoBoard_def newBoard_def)
  have u: "unixEpoch < jwt_NewNumericDate demoJwt (mp_ExpiresAt ?p)" unfolding e by (simp add: second_def)
  have "boardSession (demoBoard m limit) unixEpoch \<lparr>br_authorization = bearer @ raw, br_body = body, br_bodyErr = False\<rparr>
      = Inr \<lparr>cl_FileID = mp_FileID ?p, cl_WOPISrc = mp_WOPISrc ?p, cl_UserID = mp_UserID ?p,
      cl_UserName = mp_UserName ?p, cl_CanWrite = mp_CanWrite ?p, cl_AccessToken = mp_AccessToken ?p,
      cl_ExpiresAt = jwt_NewNumericDate demoJwt (mp_ExpiresAt ?p)\<rparr>" for limit body
    using minted_session [of "demoBoard m limit" secret demoNonce ?p raw "\<lparr>br_authorization = bearer @ raw,
        br_body = body, br_bodyErr = False\<rparr>" unixEpoch] demoJwt_ok assms(1) n ok raw u
    by (simp add: f)
  then show ?thesis
    unfolding e by (intro that [of raw]) (simp add: demoBoardMint_def demoMint_def)
qed

definition demoBoardKeys :: sessionManager where
  "demoBoardKeys = \<lparr>sm_signingKey = [], sm_sealingKey = []\<rparr>"

theorem board_needs_writer_witness:
  "\<exists>rp. run_state (handlePutBoard (demoBoard demoBoardKeys 1000) \<lparr>br_authorization = ''Basic x'', br_body = [], br_bodyErr = False\<rparr>)
      (newManager 1000 False False False 0 ()) = (rp, newManager 1000 False False False 0 ()) \<and> hr_status rp = 401"
proof -
  let ?r = "\<lparr>br_authorization = ''Basic x'', br_body = [], br_bodyErr = False\<rparr>"
  let ?s = "newManager 1000 False False False 0 ()"
  have route: "RegisterRoutes (demoBoard demoBoardKeys 1000) ''PUT'' ''/api/board'' = Some (handlePutBoard (demoBoard demoBoardKeys 1000))"
    by (simp add: RegisterRoutes_def is_read_def)
  have s: "m_sched ?s = []" by (simp add: newManager_def)
  have b: "boardSession (demoBoard demoBoardKeys 1000) (m_clock ?s) ?r = Inl ErrMissingBearer"
    by (simp add: boardSession_def bearer_def)
  obtain rp t where run: "run_state (handlePutBoard (demoBoard demoBoardKeys 1000) ?r) ?s = (rp, t)" by fastforce
  from board_needs_writer [OF route s run] run show ?thesis unfolding b by simp
qed

theorem put_then_get_witness:
  "\<exists>m r1 r2 t. run_state (handlePutBoard (demoBoard m 1000) r1) (newManager 1000 False False False unixEpoch ()) = (noContent, t)
    \<and> fst (run_state (handleGetBoard (demoBoard m 1000) r2) (t\<lparr>m_clock := unixEpoch\<rparr>)) = writeJSON ''{}''"
proof -
  let ?s = "newManager 1000 False False False unixEpoch () :: unit sys"
  obtain m where m: "newSessions ''secret'' = Inr m" using newSessions_total by blast
  have j: "json_text ''http://a/f1''"
    by (simp add: json_text_def utf8_fix_of_ascii)
  obtain raw1 where r1: "\<And>limit body. boardSession (demoBoard m limit) unixEpoch
      \<lparr>br_authorization = bearer @ raw1, br_body = body, br_bodyErr = False\<rparr>
    = Inr \<lparr>cl_FileID = ''f1'', cl_WOPISrc = ''http://a/f1'', cl_UserID = ''u1'', cl_UserName = ''Ada'', cl_CanWrite = True,
        cl_AccessToken = ''secret+token'', cl_ExpiresAt = unixEpoch + 1800000000 * second\<rparr>"
    using demo_board_session [OF m j] by blast
  have reach: "mgr_reachable (\<lambda>_. True) cl ?s" for cl by (rule mgr_init)
  have s: "m_sched ?s = []" "m_clock ?s = unixEpoch" "m_maxSceneBytes ?s = 1000" "m_rooms ?s = []"
    by (simp_all add: newManager_def)
  let ?r1 = "\<lparr>br_authorization = bearer @ raw1, br_body = ''{}'', br_bodyErr = False\<rparr>"
  have "\<exists>t. run_state (handlePutBoard (demoBoard m 1000) ?r1) ?s = (noContent, t)
    \<and> fst (run_state (handleGetBoard (demoBoard m 1000) \<lparr>br_authorization = bearer @ raw1, br_body = [], br_bodyErr = False\<rparr>)
        (t\<lparr>m_clock := unixEpoch\<rparr>)) = writeJSON (br_body ?r1)"
    by (rule put_then_get [OF reach s(1) _ _ _ _ _ _ _ _ r1])
      (simp_all add: s r1, simp_all add: demoBoard_def newBoard_def)
  then show ?thesis by auto
qed

theorem hosts_are_mixed_witness:
  "\<exists>m r1 r2 t. run_state (handlePutBoard (demoBoard m 1000) r1) (newManager 1000 False False False unixEpoch ()) = (noContent, t)
    \<and> fst (run_state (handleGetBoard (demoBoard m 1000) r2) (t\<lparr>m_clock := unixEpoch\<rparr>)) = writeJSON ''{}''"
proof -
  let ?s = "newManager 1000 False False False unixEpoch () :: unit sys"
  obtain m where m: "newSessions ''secret'' = Inr m" using newSessions_total by blast
  have j: "json_text ''http://a/f1''" "json_text ''http://b/f1''"
    by (simp_all add: json_text_def utf8_fix_of_ascii)
  obtain raw1 where r1: "\<And>limit body. boardSession (demoBoard m limit) unixEpoch
      \<lparr>br_authorization = bearer @ raw1, br_body = body, br_bodyErr = False\<rparr>
    = Inr \<lparr>cl_FileID = ''f1'', cl_WOPISrc = ''http://a/f1'', cl_UserID = ''u1'', cl_UserName = ''Ada'', cl_CanWrite = True,
        cl_AccessToken = ''secret+token'', cl_ExpiresAt = unixEpoch + 1800000000 * second\<rparr>"
    using demo_board_session [OF m j(1)] by blast
  obtain raw2 where r2: "\<And>limit body. boardSession (demoBoard m limit) unixEpoch
      \<lparr>br_authorization = bearer @ raw2, br_body = body, br_bodyErr = False\<rparr>
    = Inr \<lparr>cl_FileID = ''f1'', cl_WOPISrc = ''http://b/f1'', cl_UserID = ''u1'', cl_UserName = ''Ada'', cl_CanWrite = True,
        cl_AccessToken = ''secret+token'', cl_ExpiresAt = unixEpoch + 1800000000 * second\<rparr>"
    using demo_board_session [OF m j(2)] by blast
  have reach: "mgr_reachable (\<lambda>_. True) cl ?s" for cl by (rule mgr_init)
  have s: "m_sched ?s = []" "m_clock ?s = unixEpoch" "m_maxSceneBytes ?s = 1000" "m_rooms ?s = []"
    by (simp_all add: newManager_def)
  let ?r1 = "\<lparr>br_authorization = bearer @ raw1, br_body = ''{}'', br_bodyErr = False\<rparr>"
  have "\<exists>t. run_state (handlePutBoard (demoBoard m 1000) ?r1) ?s = (noContent, t)
    \<and> fst (run_state (handleGetBoard (demoBoard m 1000) \<lparr>br_authorization = bearer @ raw2, br_body = [], br_bodyErr = False\<rparr>)
        (t\<lparr>m_clock := unixEpoch\<rparr>)) = writeJSON (br_body ?r1)"
    by (rule hosts_are_mixed [OF reach s(1) _ _ _ _ _ _ _ _ r2])
      (simp_all add: s r1, simp_all add: demoBoard_def newBoard_def)
  then show ?thesis by auto
qed

theorem top_limit_drops_scenes_witness:
  "\<exists>m r t. br_body r = ''{}''
    \<and> run_state (handlePutBoard (demoBoard m (2 ^ 63 - 1)) r) (newManager (2 ^ 63 - 1) False False False unixEpoch ()) = (noContent, t)
    \<and> fst (run_state (GetScene ''http://a/f1'') t) = None"
proof -
  let ?s = "newManager (2 ^ 63 - 1) False False False unixEpoch () :: unit sys"
  obtain m where m: "newSessions ''secret'' = Inr m" using newSessions_total by blast
  have j: "json_text ''http://a/f1''" by (simp add: json_text_def utf8_fix_of_ascii)
  obtain raw where r: "\<And>limit body. boardSession (demoBoard m limit) unixEpoch
      \<lparr>br_authorization = bearer @ raw, br_body = body, br_bodyErr = False\<rparr>
    = Inr \<lparr>cl_FileID = ''f1'', cl_WOPISrc = ''http://a/f1'', cl_UserID = ''u1'', cl_UserName = ''Ada'', cl_CanWrite = True,
        cl_AccessToken = ''secret+token'', cl_ExpiresAt = unixEpoch + 1800000000 * second\<rparr>"
    using demo_board_session [OF m j] by blast
  let ?r = "\<lparr>br_authorization = bearer @ raw, br_body = ''{}'', br_bodyErr = False\<rparr>"
  let ?c = "\<lparr>cl_FileID = ''f1'', cl_WOPISrc = ''http://a/f1'', cl_UserID = ''u1'', cl_UserName = ''Ada'', cl_CanWrite = True,
        cl_AccessToken = ''secret+token'', cl_ExpiresAt = unixEpoch + 1800000000 * second\<rparr>"
  have s: "m_sched ?s = []" "boardSession (demoBoard m (2 ^ 63 - 1)) (m_clock ?s) ?r = Inr ?c" "cl_CanWrite ?c"
    "bh_maxSceneBytes (demoBoard m (2 ^ 63 - 1)) = 2 ^ 63 - 1"
    "m_maxSceneBytes ?s = bh_maxSceneBytes (demoBoard m (2 ^ 63 - 1))"
    using r by (simp_all add: newManager_def demoBoard_def newBoard_def)
  from top_limit_drops_scenes [OF s] obtain t where
    "run_state (handlePutBoard (demoBoard m (2 ^ 63 - 1)) ?r) ?s = (noContent, t)"
    "fst (run_state (GetScene (cl_WOPISrc ?c)) t) = None" by blast
  then show ?thesis by (intro exI [of _ m] exI [of _ ?r] exI [of _ t]) simp
qed

end
