(* ===== verification/EditPath.thy ===== *)
theory EditPath
  imports BoardSafety RoomLadder
begin

text \<open>
  The path of an edit: from the PUT at the board API through the room to the file on the
  WOPI host, over the operations of all three.
\<close>

section \<open>The room of a session\<close>

text \<open>The room a session's requests work on, as it is before the request finds or makes it.\<close>

definition boardRoom :: "claims \<Rightarrow> 'h sys \<Rightarrow> roomState" where
  "boardRoom c s =
     (case map_of (m_rooms s) (cl_WOPISrc c) of
        Some k \<Rightarrow> m_heap s k
      | None \<Rightarrow>
          (case m_byFileID s (cl_FileID c) of
             Some k \<Rightarrow> m_heap s k
           | None \<Rightarrow> newRoom (cl_WOPISrc c)))"

lemma roomLocked_boardRoom:
  assumes "run_state (roomLocked (cl_WOPISrc c) (cl_FileID c)) s = (k, t)" "cl_FileID c \<noteq> []"
  shows "m_heap t k = (boardRoom c s)\<lparr>rs_wopiSrcs := rs_wopiSrcs (m_heap t k), rs_fileID := cl_FileID c,
      rs_lockValue := lockValueFor (cl_FileID c)\<rparr>"
    and "m_host t = m_host s"
  using assms
  by (auto simp: roomLocked_run Let_def boardRoom_def new_room_def alias_room_def index_room_def
      upd_room_def newRoom_def split: option.splits intro!: roomState.equality)

lemma Observe_room:
  assumes "run_state (roomLocked (cl_WOPISrc c) (cl_FileID c)) s = (k, t)"
  shows "\<exists>p. exec (Observe c) s = (upd_room k (\<lambda>rs. (observeTokens c (m_clock t) rs)
      \<lparr>rs_pendingVersionCheck := rs_pendingVersionCheck (observeTokens c (m_clock t) rs) \<or> p\<rparr>) t)\<lparr>m_woken := True\<rparr>"
proof -
  let ?g1 = "observeTokens c (m_clock t)"
  have c: "upd_room k (pruneTokensLocked (m_clock t)) (upd_room k (\<lambda>rs. rs\<lparr>rs_tokens :=
        AList.update (cl_UserID c) \<lparr>ti_token = cl_AccessToken c, ti_expiresAt = cl_ExpiresAt c,
         ti_canWrite = cl_CanWrite c, ti_warned = False\<rparr> (rs_tokens rs)\<rparr>) t) = upd_room k ?g1 t"
    by (simp add: upd_room_def observeTokens_def)
  have p: "upd_room k (\<lambda>rs. rs\<lparr>rs_pendingVersionCheck := True\<rparr>) (upd_room k ?g1 t)
      = upd_room k (\<lambda>rs. (?g1 rs)\<lparr>rs_pendingVersionCheck := rs_pendingVersionCheck (?g1 rs) \<or> True\<rparr>) t"
    by (simp add: upd_room_def)
  have n: "upd_room k ?g1 t
      = upd_room k (\<lambda>rs. (?g1 rs)\<lparr>rs_pendingVersionCheck := rs_pendingVersionCheck (?g1 rs) \<or> False\<rparr>) t"
    by simp
  have "exec (Observe c) s = (upd_room k ?g1 t)\<lparr>m_woken := True\<rparr>
      \<or> exec (Observe c) s = (upd_room k (\<lambda>rs. rs\<lparr>rs_pendingVersionCheck := True\<rparr>) (upd_room k ?g1 t))\<lparr>m_woken := True\<rparr>"
    using assms by (auto simp: Observe_def exec_def c simp del: upd_room_simps(12))
  then show ?thesis
  proof
    assume "exec (Observe c) s = (upd_room k ?g1 t)\<lparr>m_woken := True\<rparr>"
    then show ?thesis by (intro exI [of _ False]) (simp only: n [symmetric])
  next
    assume "exec (Observe c) s = (upd_room k (\<lambda>rs. rs\<lparr>rs_pendingVersionCheck := True\<rparr>) (upd_room k ?g1 t))\<lparr>m_woken := True\<rparr>"
    then show ?thesis by (intro exI [of _ True]) (simp only: p)
  qed
qed

text \<open>What a session's token is in the room after it was observed.\<close>

lemma observed_token:
  assumes "tokens_ok rs" "now0 < cl_ExpiresAt c"
  shows "map_of (rs_tokens (observeTokens c now0 rs)) (cl_UserID c) =
      Some \<lparr>ti_token = cl_AccessToken c, ti_expiresAt = cl_ExpiresAt c, ti_canWrite = cl_CanWrite c, ti_warned = False\<rparr>"
    and "tokens_ok (observeTokens c now0 rs)"
    and "rs_failedTokens rs tok = None \<Longrightarrow> rs_failedTokens (observeTokens c now0 rs) tok = None"
  using assms
  by (simp_all add: observeTokens_def pruneTokensLocked_def Let_def tokens_ok_def distinct_update
      distinct_filter_fst map_of_filter_fst)

lemma observeTokens_fields [simp]:
  "rs_conflict (observeTokens c now rs) = rs_conflict rs"
  "rs_forceUnlockValue (observeTokens c now rs) = rs_forceUnlockValue rs"
  "rs_wopiSrc (observeTokens c now rs) = rs_wopiSrc rs"
  "rs_lockValue (observeTokens c now rs) = rs_lockValue rs"
  by (simp_all add: observeTokens_def)

text \<open>
  The state a PUT leaves: the room holds the scene and is dirty, and the session's own
  token is among those its next save may try.
\<close>

lemma put_room:
  assumes sched: "m_sched s = []" and sess: "boardSession b (m_clock s) r = Inr c"
    and w: "bh_observer b" "cl_CanWrite c" "cl_FileID c \<noteq> []"
    and body: "br_bodyErr r = False" "int (length (br_body r)) \<le> bh_maxSceneBytes b"
      "bh_maxSceneBytes b < 2 ^ 63 - 1" "m_maxSceneBytes s = bh_maxSceneBytes b"
    and room: "tokens_ok (boardRoom c s)" "\<not> rs_conflict (boardRoom c s)"
      "rs_forceUnlockValue (boardRoom c s) = []" "rs_failedTokens (boardRoom c s) (cl_AccessToken c) = None"
    and time: "m_clock s < cl_ExpiresAt c" "now < cl_ExpiresAt c"
  obtains k t where "run_state (handlePutBoard b r) s = (noContent, t)"
    "map_of (m_rooms t) (cl_WOPISrc c) = Some k" "m_sched t = []" "m_host t = m_host s"
    "rs_scene (m_heap t k) = clone_bytes (br_body r)" "rs_dirty (m_heap t k)" "\<not> rs_conflict (m_heap t k)"
    "rs_forceUnlockValue (m_heap t k) = []" "rs_wopiSrc (m_heap t k) = rs_wopiSrc (boardRoom c s)"
    "rs_lockValue (m_heap t k) = lockValueFor (cl_FileID c)"
    "\<exists>cand \<in> set (tokenLadder (m_heap t k) now). tc_token cand = cl_AccessToken c"
proof -
  obtain k v where kv: "run_state (roomLocked (cl_WOPISrc c) (cl_FileID c)) s = (k, v)" by fastforce
  note f = roomLocked_facts [OF kv]
  let ?u = "exec (Observe c) s"
  obtain p where u: "?u = (upd_room k (\<lambda>rs. (observeTokens c (m_clock v) rs)
      \<lparr>rs_pendingVersionCheck := rs_pendingVersionCheck (observeTokens c (m_clock v) rs) \<or> p\<rparr>) v)\<lparr>m_woken := True\<rparr>"
    using Observe_room [OF kv] by blast
  obtain srcs where hv: "m_heap v k = (boardRoom c s)\<lparr>rs_wopiSrcs := srcs, rs_fileID := cl_FileID c,
      rs_lockValue := lockValueFor (cl_FileID c)\<rparr>"
    using roomLocked_boardRoom(1) [OF kv w(3)] ..
  have ku: "map_of (m_rooms ?u) (cl_WOPISrc c) = Some k" using f(1) by (simp add: u)
  have found: "run_state (roomLocked (cl_WOPISrc c) []) ?u = (k, ?u)"
    by (simp add: roomLocked_run ku Let_def)
  let ?t = "(upd_room k (putRoom (br_body r) (m_clock ?u) (cl_UserID c)) ?u)
    \<lparr>m_puts := Suc (m_puts ?u), m_woken := True\<rparr>"
  have put: "run_state (PutScene (cl_WOPISrc c) (br_body r) (cl_UserID c)) ?u = (None, ?t)"
    by (rule PutScene_run [OF found]) (use body in \<open>simp add: Observe_frame\<close>)
  have rd: "read_limited (br_body r) (br_bodyErr r) (wrap64 (bh_maxSceneBytes b + 1)) = Some (br_body r)"
    using body(1-3) read_all [of "br_body r" "bh_maxSceneBytes b"] by simp
  have run: "run_state (handlePutBoard b r) s = (noContent, ?t)"
    using sched sess w body put rd by (simp add: handlePutBoard_def authenticate_run observed_def Observe_frame)
  have clock: "m_clock v = m_clock s" using f(7) .
  define g where "g = observeTokens c (m_clock s) (m_heap v k)"
  have tok: "tokens_ok (m_heap v k)" "rs_failedTokens (m_heap v k) (cl_AccessToken c) = None"
    using room(1,4) by (simp_all add: hv tokens_ok_def)
  note ot = observed_token [where c = c, OF tok(1) time(1), folded g_def]
  have hu: "m_heap ?u k = g\<lparr>rs_pendingVersionCheck := rs_pendingVersionCheck g \<or> p\<rparr>"
    using f(7) by (simp add: u g_def)
  define rs where "rs = m_heap ?t k"
  let ?info = "\<lparr>ti_token = cl_AccessToken c, ti_expiresAt = cl_ExpiresAt c,
      ti_canWrite = cl_CanWrite c, ti_warned = False\<rparr>"
  have rs: "rs = putRoom (br_body r) (m_clock ?u) (cl_UserID c)
      (g\<lparr>rs_pendingVersionCheck := rs_pendingVersionCheck g \<or> p\<rparr>)"
    by (simp add: rs_def hu)
  have toks: "rs_tokens rs = rs_tokens g" "rs_failedTokens rs = rs_failedTokens g"
    by (simp_all add: rs putRoom_def)
  have "tokens_ok rs" using ot(2) toks(1) by (simp add: tokens_ok_def)
  moreover have "tokenUsable rs now ?info"
    using w(2) time(2) ot(3) [OF tok(2)] by (simp add: tokenUsable_def tokenRecentlyFailedLocked_def toks(2))
  ultimately have "\<lparr>tc_userID = cl_UserID c, tc_token = cl_AccessToken c\<rparr> \<in> set (tokenLadder rs now)"
    using ladder_order [of rs now] ot(1) by (simp add: toks(1))
  then have lad: "\<exists>cand \<in> set (tokenLadder rs now). tc_token cand = cl_AccessToken c" by force
  have "map_of (m_rooms ?t) (cl_WOPISrc c) = Some k" using ku by simp
  moreover have "m_sched ?t = []" "m_host ?t = m_host s"
    using f(6) sched roomLocked_boardRoom(2) [OF kv w(3)] by (simp_all add: u)
  moreover have "rs_scene rs = clone_bytes (br_body r)" "rs_dirty rs" by (simp_all add: rs putRoom_def)
  moreover have "\<not> rs_conflict rs" "rs_forceUnlockValue rs = []"
      "rs_wopiSrc rs = rs_wopiSrc (boardRoom c s)" "rs_lockValue rs = lockValueFor (cl_FileID c)"
    using room(2,3) by (simp_all add: rs putRoom_def g_def hv)
  ultimately show ?thesis using run lad unfolding rs_def by (intro that [of ?t k])
qed

section \<open>Properties\<close>

text \<open>
  C2. What a writer puts arrives in the file, if nothing comes in between. In any reachable
  state of the manager let a session that may write put a scene, not empty and within the
  limit (below the top of \<open>int64\<close>, the same in board API and manager), for a room that is not in conflict, in which no forced unlock is pending (an
  overwrite that was decided and not yet saved) and the session's token has not been
  refused. Let the room's save then run (\<open>performSave\<close>, alone: no other request, pass or
  decision between the PUT and its end), at any time before the token expires. If the host
  takes the token for a writer's, has the file, nobody else holds its lock and the life of its
  locks is not negative, then the
  file on the host is exactly the posted bytes, whatever other tokens the room holds and
  whichever of them the host refuses, and the room is clean, locked and not in conflict.
\<close>

theorem put_reaches_the_file:
  fixes s :: "wopiHost sys"
  assumes "mgr_reachable (\<lambda>_. True) cl s" "m_sched s = []"
    and "boardSession b (m_clock s) r = Inr c" "bh_observer b" "cl_CanWrite c" "cl_FileID c \<noteq> []"
    and "br_bodyErr r = False" "br_body r \<noteq> []" "int (length (br_body r)) \<le> bh_maxSceneBytes b"
    and "bh_maxSceneBytes b < 2 ^ 63 - 1" "m_maxSceneBytes s = bh_maxSceneBytes b"
    and "\<not> rs_conflict (boardRoom c s)" "rs_forceUnlockValue (boardRoom c s) = []"
    and "rs_failedTokens (boardRoom c s) (cl_AccessToken c) = None"
    and "m_clock s < cl_ExpiresAt c" "now < cl_ExpiresAt c"
    and "idOf (rs_wopiSrc (boardRoom c s)) = fid"
    and "hostReady users tokens fid (lockValueFor (cl_FileID c)) now (m_host s)"
    and "hostVerdict users tokens fid (cl_AccessToken c) = None"
  shows "\<exists>k t u. run_state (handlePutBoard b r) s = (noContent, t)
    \<and> map_of (m_rooms t) (cl_WOPISrc c) = Some k
    \<and> run_state (performSave (hostClient idOf) k now) (t\<lparr>m_clock := now\<rparr>) = ((), u)
    \<and> hostBody fid (m_host u) = br_body r
    \<and> \<not> rs_dirty (m_heap u k) \<and> rs_haveLock (m_heap u k) \<and> \<not> rs_conflict (m_heap u k)"
proof -
  have tok: "tokens_ok (boardRoom c s)"
    using tok.reachable_R [OF assms(1)] tok.newRoom_R by (simp add: boardRoom_def split: option.split)
  obtain k t where t: "run_state (handlePutBoard b r) s = (noContent, t)"
    "map_of (m_rooms t) (cl_WOPISrc c) = Some k" "m_sched t = []" "m_host t = m_host s"
    "rs_scene (m_heap t k) = clone_bytes (br_body r)" "rs_dirty (m_heap t k)" "\<not> rs_conflict (m_heap t k)"
    "rs_forceUnlockValue (m_heap t k) = []" "rs_wopiSrc (m_heap t k) = rs_wopiSrc (boardRoom c s)"
    "rs_lockValue (m_heap t k) = lockValueFor (cl_FileID c)"
    "\<exists>cand \<in> set (tokenLadder (m_heap t k) now). tc_token cand = cl_AccessToken c"
    by (rule put_room [OF assms(2-7,9-11) tok assms(12-16)])
  from t(11) obtain cand where cand: "cand \<in> set (tokenLadder (m_heap t k) now)"
    "hostVerdict users tokens fid (tc_token cand) = None" using assms(19) by metis
  have lad: "tokenLadder (m_heap t k) now \<noteq> []" using cand(1) by auto
  let ?t = "t\<lparr>m_clock := now\<rparr>" and ?f = "idOf (rs_wopiSrc (m_heap t k))"
  have f: "?f = fid" by (simp add: t(9) assms(17))
  have ready: "hostReady users tokens ?f (rs_lockValue (m_heap t k)) now (m_host ?t)"
    using assms(18) by (simp add: f t(4,10))
  have some: "\<exists>cand \<in> set (tokenLadder (m_heap t k) now). hostVerdict users tokens ?f (tc_token cand) = None"
    unfolding f using cand by blast
  have heap: "m_heap ?t k = m_heap t k" "m_sched ?t = []" "m_clock ?t = now" by (simp_all add: t(3))
  have "\<exists>u. run_state (performSave (hostClient idOf) k now) ?t = ((), u)
     \<and> hostBody fid (m_host u) = slice_bytes (rs_scene (m_heap t k))
     \<and> \<not> rs_dirty (m_heap u k) \<and> rs_haveLock (m_heap u k) \<and> \<not> rs_conflict (m_heap u k)"
    using fake_host.save_outcome [where idOf = idOf, OF heap ready t(6-8) refl refl refl lad] some
    unfolding f by (simp only: if_P simp_thms) blast
  moreover have "slice_bytes (rs_scene (m_heap t k)) = br_body r"
    using assms(8) by (simp add: t(5) clone_bytes_def slice_bytes_def)
  ultimately show ?thesis using t(1,2) cand by auto
qed

text \<open>A writer's first PUT, to a manager over the in-memory host.\<close>

definition editHost :: wopiHost where
  "editHost = MintToken ''secret+token'' ''u1'' ''f1''
     (AddUser \<lparr>hu_ID = ''u1'', hu_Name = ''Ada'', hu_CanWrite = True\<rparr>
       (set_file ''f1'' (demoFile\<lparr>hf_lock := []\<rparr>) (newHost 10)))"

definition editBoard :: "sessionManager \<Rightarrow> wopiHost boardHandler" where
  "editBoard m = newBoard demoJwt m (\<lambda>_ _ _ _ h. (Inl ErrNotFound, h)) 1000 True True None"

lemma edit_session: "boardSession (editBoard m) now r = boardSession (demoBoard m 1000) now r"
  by (simp add: boardSession_def editBoard_def demoBoard_def newBoard_def split: sum.split)

theorem put_reaches_the_file_witness:
  "\<exists>b r k t u. run_state (handlePutBoard b r) (newManager 1000 False False False unixEpoch editHost) = (noContent, t)
    \<and> run_state (performSave (hostClient (\<lambda>_. ''f1'')) k unixEpoch) (t\<lparr>m_clock := unixEpoch\<rparr>) = ((), u)
    \<and> hostBody ''f1'' (m_host u) = ''{}''"
proof -
  let ?s = "newManager 1000 False False False unixEpoch editHost"
  obtain m where m: "newSessions ''secret'' = Inr m" using newSessions_total by blast
  have j: "json_text ''http://a/f1''" by (simp add: json_text_def utf8_fix_of_ascii)
  obtain raw where raw: "\<And>limit body. boardSession (demoBoard m limit) unixEpoch
      \<lparr>br_authorization = bearer @ raw, br_body = body, br_bodyErr = False\<rparr>
    = Inr \<lparr>cl_FileID = ''f1'', cl_WOPISrc = ''http://a/f1'', cl_UserID = ''u1'', cl_UserName = ''Ada'', cl_CanWrite = True,
        cl_AccessToken = ''secret+token'', cl_ExpiresAt = unixEpoch + 1800000000 * second\<rparr>"
    using demo_board_session [OF m j] by blast
  let ?r = "\<lparr>br_authorization = bearer @ raw, br_body = ''{}'', br_bodyErr = False\<rparr>"
  let ?c = "\<lparr>cl_FileID = ''f1'', cl_WOPISrc = ''http://a/f1'', cl_UserID = ''u1'', cl_UserName = ''Ada'', cl_CanWrite = True,
        cl_AccessToken = ''secret+token'', cl_ExpiresAt = unixEpoch + 1800000000 * second\<rparr>"
  have s: "m_sched ?s = []" "m_clock ?s = unixEpoch" "m_maxSceneBytes ?s = 1000" "m_host ?s = editHost"
    "boardRoom ?c ?s = newRoom ''http://a/f1''" "m_rooms ?s = []" "m_byFileID ?s = Map.empty" "m_next ?s = 0"
    by (simp_all add: newManager_def boardRoom_def)
  have h: "hostReady (wh_users editHost) (wh_tokens editHost) ''f1'' (lockValueFor ''f1'') unixEpoch editHost"
    "hostVerdict (wh_users editHost) (wh_tokens editHost) ''f1'' ''secret+token'' = None"
    by (simp_all add: hostReady_def hostVerdict_def editHost_def demoFile_def MintToken_def AddUser_def
      set_file_def newHost_def held_def lockValueFor_def lockValuePrefix_def)
  have b: "bh_observer (editBoard m)" "bh_maxSceneBytes (editBoard m) = 1000"
    by (simp_all add: editBoard_def newBoard_def)
  have reach: "mgr_reachable (\<lambda>_. True) cl ?s" for cl by (rule mgr_init)
  have later: "unixEpoch < unixEpoch + 1800000000 * second" by (simp add: second_def)
  have sess: "boardSession (editBoard m) (m_clock ?s) ?r = Inr ?c" by (simp only: edit_session s raw)
  have "\<exists>k t u. run_state (handlePutBoard (editBoard m) ?r) ?s = (noContent, t)
    \<and> map_of (m_rooms t) (cl_WOPISrc ?c) = Some k
    \<and> run_state (performSave (hostClient (\<lambda>_. ''f1'')) k unixEpoch) (t\<lparr>m_clock := unixEpoch\<rparr>) = ((), u)
    \<and> hostBody ''f1'' (m_host u) = br_body ?r
    \<and> \<not> rs_dirty (m_heap u k) \<and> rs_haveLock (m_heap u k) \<and> \<not> rs_conflict (m_heap u k)"
    by (rule put_reaches_the_file [where users = "wh_users editHost" and tokens = "wh_tokens editHost", OF reach s(1) sess b(1)])
      (simp_all add: s b h newRoom_def later)
  then show ?thesis by (elim exE conjE) (intro exI conjI, assumption, assumption, simp)
qed

end
