(* ===== verification/Launch.thy ===== *)
theory Launch
  imports GoHttp SessionTokens RelayServer WopiClient
begin

text \<open>
  \<open>internal/launch/launch.go\<close>: the handler of \<open>POST /launch\<close>. It checks the WOPISrc
  against the allowlist and the form, asks the WOPI host for the file with the token of
  the form, mints a session and serves the page with its configuration.
\<close>

section \<open>Parameters\<close>

text \<open>
  The JWT library, \<open>strings.ToLower\<close> (beyond ASCII it depends on the Unicode tables) and the
  text of two library values in error messages: the error of \<open>url.Parse\<close> and \<open>%q\<close>.
\<close>

record launchEnv =
  le_jwt :: jwtLib
  le_toLower :: "string \<Rightarrow> string"
  le_urlError :: "string \<Rightarrow> string"
  le_quote :: "string \<Rightarrow> string"

section \<open>Reading the WOPISrc\<close>

definition apiBase :: string where "apiBase = ''/api''"
definition socketPath :: string where "socketPath = ''/socket.io''"
definition maxSessionTTL :: duration where "maxSessionTTL = 10 * hour"

definition fileIDPattern :: "string \<Rightarrow> bool" where
  "fileIDPattern s \<longleftrightarrow> 1 \<le> length s \<and> length s \<le> 64 \<and>
     list_all (\<lambda>c. in_range 97 122 c \<or> in_range 65 90 c \<or> in_range 48 57 c \<or> c = CHR ''_'' \<or> c = CHR ''-'') s"

definition parseWOPISrc :: "launchEnv \<Rightarrow> string \<Rightarrow> string + string" where
  "parseWOPISrc E raw =
     (if raw = [] then Inl ''WOPISrc is required''
      else case url_parse raw of
        None \<Rightarrow> Inl (''parse WOPISrc: '' @ le_urlError E raw)
      | Some u \<Rightarrow>
          if u_Scheme u = [] \<or> u_Host u = [] then Inl ''WOPISrc must be an absolute URL''
          else Inr raw)"

definition fileIDFromWOPISrc :: "launchEnv \<Rightarrow> string \<Rightarrow> string + string" where
  "fileIDFromWOPISrc E wopiSrc =
     (case url_parse wopiSrc of
        None \<Rightarrow> Inl (''parse WOPISrc: '' @ le_urlError E wopiSrc)
      | Some u \<Rightarrow>
          let id = path_base (u_Path u) in
          if id = [] \<or> id = ''.'' \<or> id = ''/'' then Inl ''WOPISrc carries no file id''
          else if \<not> fileIDPattern id
          then Inl (''WOPISrc file id '' @ le_quote E id @ '' has an unsupported character set'')
          else Inr id)"

definition normalizeOrigin :: "launchEnv \<Rightarrow> string \<Rightarrow> string option" where
  "normalizeOrigin E raw =
     (case url_parse raw of
        None \<Rightarrow> None
      | Some u \<Rightarrow>
          if u_Scheme u = [] \<or> u_Host u = [] then None
          else Some (le_toLower E (u_Scheme u) @ ''://'' @ le_toLower E (u_Host u)))"

text \<open>\<open>access_token_ttl\<close>: milliseconds since the Unix epoch, in the future.\<close>

definition parseAccessTokenTTL :: "time \<Rightarrow> string \<Rightarrow> time option" where
  "parseAccessTokenTTL now raw =
     (case parse_int raw of
        None \<Rightarrow> None
      | Some millis \<Rightarrow>
          let ttl = unixEpoch + millis * 1000000 in if now < ttl then Some ttl else None)"

section \<open>The page\<close>

record appConfig =
  ac_FileID :: string
  ac_FileName :: string
  ac_UserID :: string
  ac_UserName :: string
  ac_CanWrite :: bool
  ac_SessionToken :: string
  ac_APIBase :: string
  ac_SocketPath :: string
  ac_MaxImageBytes :: int
  ac_TestHooks :: bool

definition appConfig_json :: "appConfig \<Rightarrow> json" where
  "appConfig_json c = JObj
     ([(''fileId'', JStr (ac_FileID c)), (''fileName'', JStr (ac_FileName c)),
       (''userId'', JStr (ac_UserID c)), (''userName'', JStr (ac_UserName c)),
       (''canWrite'', JBool (ac_CanWrite c)), (''sessionToken'', JStr (ac_SessionToken c)),
       (''apiBase'', JStr (ac_APIBase c)), (''socketPath'', JStr (ac_SocketPath c)),
       (''maxImageBytes'', JNum (format_int (ac_MaxImageBytes c)))]
      @ (if ac_TestHooks c then [(''testHooks'', JBool True)] else []))"

definition configScriptOpen :: string where
  "configScriptOpen = ''<script type='' @ [CHR 0x22] @ ''application/json'' @ [CHR 0x22] @ '' id='' @ [CHR 0x22]
     @ ''ew-config'' @ [CHR 0x22] @ ''>''"

definition configScriptClose :: string where
  "configScriptClose = ''</script>''"

definition configPlaceholder :: string where
  "configPlaceholder = configScriptOpen @ ''{}'' @ configScriptClose"

record 'h launchHandler =
  lh_client :: "time \<Rightarrow> string \<Rightarrow> string \<Rightarrow> 'h \<Rightarrow> (wopi_error + fileInfo) \<times> 'h"
  lh_sessions :: sessionManager
  lh_index :: "bytes option"
  lh_allowedOrigins :: "string list"
  lh_cspFrameValue :: string
  lh_testHooks :: bool
  lh_maxImageBytes :: int

fun join_str :: "string \<Rightarrow> string list \<Rightarrow> string" where
  "join_str sep [] = []"
| "join_str sep [s] = s"
| "join_str sep (s # t # ss) = s @ sep @ join_str sep (t # ss)"

definition cspFrameAncestors :: "string list \<Rightarrow> string" where
  "cspFrameAncestors origins =
     (if origins = [] then [CHR 0x27] @ ''none'' @ [CHR 0x27] else join_str '' '' origins)"

text \<open>\<open>New\<close>; \<open>index\<close> is what reading \<open>index.html\<close> from the file system gives.\<close>

definition newLaunch ::
  "launchEnv \<Rightarrow> (time \<Rightarrow> string \<Rightarrow> string \<Rightarrow> 'h \<Rightarrow> (wopi_error + fileInfo) \<times> 'h) \<Rightarrow> sessionManager \<Rightarrow>
     bytes option \<Rightarrow> string list \<Rightarrow> int \<Rightarrow> bool \<Rightarrow> 'h launchHandler" where
  "newLaunch E client sessions index allowedOrigins maxImageBytes testHooks =
     \<lparr>lh_client = client, lh_sessions = sessions, lh_index = index,
      lh_allowedOrigins = concat (map (\<lambda>o'. case normalizeOrigin E o' of None \<Rightarrow> [] | Some n \<Rightarrow> [n]) allowedOrigins),
      lh_cspFrameValue = cspFrameAncestors allowedOrigins, lh_testHooks = testHooks,
      lh_maxImageBytes = maxImageBytes\<rparr>"

definition originAllowed :: "launchEnv \<Rightarrow> 'h launchHandler \<Rightarrow> string \<Rightarrow> bool" where
  "originAllowed E h wopiSrc =
     (case normalizeOrigin E wopiSrc of None \<Rightarrow> False | Some origin \<Rightarrow> origin \<in> set (lh_allowedOrigins h))"

text \<open>\<open>None\<close>: no file, or no placeholder in it. Marshalling this struct cannot fail.\<close>

definition renderPage :: "'h launchHandler \<Rightarrow> appConfig \<Rightarrow> bytes option" where
  "renderPage h cfg =
     (case lh_index h of
        None \<Rightarrow> None
      | Some page \<Rightarrow>
          let payload = print_json (appConfig_json cfg) in
          (case cut_at configPlaceholder page of
             None \<Rightarrow> None
           | Some (before, after) \<Rightarrow>
               Some (before @ (configScriptOpen @ payload @ configScriptClose) @ after)))"

section \<open>The handler\<close>

definition writeCheckFileInfoError :: "wopi_error \<Rightarrow> httpReply" where
  "writeCheckFileInfoError err =
     (if err = ErrTokenRejected then http_error ''the WOPI access token was rejected'' 403
      else if err = ErrProofRejected then http_error ''upstream WOPI host rejected the request'' 502
      else http_error ''upstream WOPI host error'' 502)"

text \<open>
  The handler reads the clock twice (\<open>t1\<close> for the token's end of life, \<open>t2\<close> for the cap)
  and the client reads it once more; \<open>rand\<close> is the nonce of the sealing.
\<close>

definition ServeHTTP ::
  "launchEnv \<Rightarrow> 'h launchHandler \<Rightarrow> time \<Rightarrow> time \<Rightarrow> time \<Rightarrow> bytes option \<Rightarrow> postReq \<Rightarrow> 'h \<Rightarrow> httpReply \<times> 'h" where
  "ServeHTTP E h t1 t2 t3 rand r w =
     (case parseWOPISrc E (query_get (parse_query (po_rawQuery r)) ''WOPISrc'') of
        Inl err \<Rightarrow> (http_error (''invalid or missing WOPISrc: '' @ err) 400, w)
      | Inr wopiSrc \<Rightarrow>
        if \<not> originAllowed E h wopiSrc then (http_error ''WOPISrc origin is not allowed'' 403, w)
        else case fileIDFromWOPISrc E wopiSrc of
          Inl err \<Rightarrow> (http_error (''invalid WOPISrc: '' @ err) 400, w)
        | Inr fileID \<Rightarrow>
          (case parse_form r of
             None \<Rightarrow> (http_error ''invalid launch form body'' 400, w)
           | Some form \<Rightarrow>
             let accessToken = query_get form ''access_token'' in
             (case (accessToken = [], parseAccessTokenTTL t1 (query_get form ''access_token_ttl'')) of
                (False, Some ttl) \<Rightarrow>
                  let expiresAt = (if t2 + maxSessionTTL < ttl then t2 + maxSessionTTL else ttl) in
                  (case lh_client h t3 wopiSrc accessToken w of
                     (Inl err, w') \<Rightarrow> (writeCheckFileInfoError err, w')
                   | (Inr info, w') \<Rightarrow>
                     (case Mint (le_jwt E) (lh_sessions h) rand
                             \<lparr>mp_FileID = fileID, mp_WOPISrc = wopiSrc, mp_UserID = fi_UserID info,
                              mp_UserName = fi_UserFriendlyName info, mp_CanWrite = fi_UserCanWrite info,
                              mp_AccessToken = accessToken, mp_ExpiresAt = expiresAt\<rparr> of
                        Inl _ \<Rightarrow> (http_error ''internal error'' 502, w')
                      | Inr sessionToken \<Rightarrow>
                        (case renderPage h
                                \<lparr>ac_FileID = fileID, ac_FileName = fi_BaseFileName info,
                                 ac_UserID = fi_UserID info, ac_UserName = fi_UserFriendlyName info,
                                 ac_CanWrite = fi_UserCanWrite info, ac_SessionToken = sessionToken,
                                 ac_APIBase = apiBase, ac_SocketPath = socketPath,
                                 ac_MaxImageBytes = lh_maxImageBytes h, ac_TestHooks = lh_testHooks h\<rparr> of
                           None \<Rightarrow> (http_error ''internal error'' 502, w')
                         | Some page \<Rightarrow>
                             (\<lparr>hr_status = 200,
                               hr_header = [(''Content-Type'', ''text/html; charset=utf-8''),
                                            (''Cache-Control'', ''no-store''),
                                            (''Content-Security-Policy'', ''frame-ancestors '' @ lh_cspFrameValue h)],
                               hr_body = page\<rparr>, w'))))
              | _ \<Rightarrow> (http_error ''missing or invalid access_token or access_token_ttl'' 400, w))))"

section \<open>The page carries the configuration and nothing else\<close>

lemma cut_at_Some: "cut_at p s = Some (a, b) \<Longrightarrow> s = a @ p @ b"
proof (induction s arbitrary: a)
  case (Cons c s)
  show ?case
  proof (cases "starts_with (c # s) p")
    case True
    then have "c # s = p @ drop (length p) (c # s)"
      unfolding starts_with_def by (metis append_take_drop_id)
    with True Cons.prems show ?thesis by auto
  next
    case False
    with Cons show ?thesis by (auto split: option.splits)
  qed
qed (auto split: if_splits)

lemma config_int_json: "int_json (appConfig_json c)"
  by (auto simp: appConfig_json_def)

lemma config_parse:
  assumes "0 \<le> ac_MaxImageBytes c"
  shows "parse_json (print_json (appConfig_json c)) = Some (fix_json (appConfig_json c))"
proof (rule parse_print)
  show "printable (appConfig_json c)" using assms by (simp add: appConfig_json_def num_ok_format)
  show "jdepth (appConfig_json c) \<le> maxNestingDepth"
    by (simp add: appConfig_json_def maxNestingDepth_def)
qed

text \<open>
  C23. The page is the deployed \<open>index.html\<close> with the first placeholder of the configuration
  replaced and nothing else changed. What is put inside the script element has no angle
  bracket and no ampersand, whatever names and identifiers the WOPI host sent, so it
  cannot end the element; and parsing it as JSON gives the configuration back, with
  invalid UTF-8 replaced.
\<close>

theorem page_is_injection_free:
  assumes "renderPage h cfg = Some page" "0 \<le> ac_MaxImageBytes cfg"
  shows "\<exists>index before after. lh_index h = Some index
    \<and> cut_at configPlaceholder index = Some (before, after)
    \<and> index = before @ configPlaceholder @ after
    \<and> page = before @ configScriptOpen @ print_json (appConfig_json cfg) @ configScriptClose @ after
    \<and> html_safe (print_json (appConfig_json cfg))
    \<and> parse_json (print_json (appConfig_json cfg)) = Some (fix_json (appConfig_json cfg))"
proof -
  obtain index before after where i: "lh_index h = Some index" "cut_at configPlaceholder index = Some (before, after)"
    "page = before @ (configScriptOpen @ print_json (appConfig_json cfg) @ configScriptClose) @ after"
    using assms(1) by (auto simp: renderPage_def Let_def split: option.splits prod.splits)
  with cut_at_Some [OF i(2)] print_json_safe [OF config_int_json] config_parse [OF assms(2)]
  show ?thesis by auto
qed

definition demoPage :: bytes where
  "demoPage = ''<html>'' @ configPlaceholder @ ''</html>''"

definition demoConfig :: appConfig where
  "demoConfig = \<lparr>ac_FileID = ''f1'', ac_FileName = ''</script><script>alert(1)'', ac_UserID = ''u1'',
     ac_UserName = ''Ada & co'', ac_CanWrite = True, ac_SessionToken = ''t'', ac_APIBase = apiBase,
     ac_SocketPath = socketPath, ac_MaxImageBytes = 1024, ac_TestHooks = False\<rparr>"

definition demoEnv :: launchEnv where
  "demoEnv = \<lparr>le_jwt = demoJwt, le_toLower = map lower_char, le_urlError = (\<lambda>_. ''bad url''),
     le_quote = (\<lambda>s. [CHR 0x22] @ s @ [CHR 0x22])\<rparr>"

definition demoLaunch :: "sessionManager \<Rightarrow> nat launchHandler" where
  "demoLaunch m = newLaunch demoEnv
     (\<lambda>now src token n. (Inr \<lparr>fi_BaseFileName = ''a'', fi_OwnerID = ''o'', fi_UserFriendlyName = ''Ada'',
        fi_Size = 1, fi_UserID = ''u1'', fi_Version = ''v'', fi_UserCanWrite = True, fi_ReadOnly = False,
        fi_SupportsUpdate = True, fi_SupportsGetLock = True, fi_SupportsLocks = True\<rparr>, n + 1))
     m (Some demoPage) [''HTTP://Drive''] 1024 False"

definition demoKeys :: sessionManager where
  "demoKeys = \<lparr>sm_signingKey = [], sm_sealingKey = []\<rparr>"

lemma demo_cut: "cut_at configPlaceholder demoPage = Some (''<html>'', ''</html>'')"
  by code_simp

theorem page_is_injection_free_witness:
  "renderPage (demoLaunch demoKeys) demoConfig
      = Some (''<html>'' @ configScriptOpen @ print_json (appConfig_json demoConfig) @ configScriptClose @ ''</html>'')
    \<and> html_safe (print_json (appConfig_json demoConfig))"
proof -
  let ?page = "''<html>'' @ configScriptOpen @ print_json (appConfig_json demoConfig) @ configScriptClose @ ''</html>''"
  have r: "renderPage (demoLaunch demoKeys) demoConfig = Some ?page"
    using demo_cut by (simp add: renderPage_def demoLaunch_def newLaunch_def)
  have "0 \<le> ac_MaxImageBytes demoConfig" by (simp add: demoConfig_def)
  from page_is_injection_free [OF r this] r show ?thesis by blast
qed

end
