(* ===== verification/LaunchSafety.thy ===== *)
theory LaunchSafety
  imports Launch
begin

text \<open>
  What a launch promises: who can be called with the token of the form, and what the
  session of a page that was served is worth.
\<close>

section \<open>A launch that was served\<close>

lemma fileIDPattern_room: "fileIDPattern s \<longleftrightarrow> roomIDPattern s"
  by (simp add: fileIDPattern_def roomIDPattern_def room_char_def [abs_def])

lemma file_id_ok: "fileIDFromWOPISrc E src = Inr fileID \<Longrightarrow>
    \<exists>u. url_parse src = Some u \<and> fileID = path_base (u_Path u) \<and> roomIDPattern fileID"
  by (auto simp: fileIDFromWOPISrc_def fileIDPattern_room Let_def split: option.splits if_splits)

lemma file_id_text: "roomIDPattern s \<Longrightarrow> json_text s"
proof -
  assume "roomIDPattern s"
  then have "\<forall>c \<in> set s. code c < 128"
    by (auto simp: roomIDPattern_def list_all_iff room_char_def in_range_def)
  then show "json_text s" by (simp add: json_text_def utf8_fix_of_ascii)
qed

lemma ttl_ok: "parseAccessTokenTTL now raw = Some ttl \<Longrightarrow> now < ttl"
  by (auto simp: parseAccessTokenTTL_def Let_def split: option.splits if_splits)

text \<open>The address and the token the WOPI host is asked with.\<close>

definition launchSrc :: "postReq \<Rightarrow> string" where
  "launchSrc r = query_get (parse_query (po_rawQuery r)) ''WOPISrc''"

definition launchToken :: "postReq \<Rightarrow> string" where
  "launchToken r = (case parse_form r of None \<Rightarrow> [] | Some form \<Rightarrow> query_get form ''access_token'')"

definition launchTTL :: "time \<Rightarrow> postReq \<Rightarrow> time option" where
  "launchTTL now r =
     (case parse_form r of None \<Rightarrow> None
      | Some form \<Rightarrow> parseAccessTokenTTL now (query_get form ''access_token_ttl''))"

definition launchMint :: "string \<Rightarrow> string \<Rightarrow> string \<Rightarrow> fileInfo \<Rightarrow> time \<Rightarrow> mintParams" where
  "launchMint fileID src token info e =
     \<lparr>mp_FileID = fileID, mp_WOPISrc = src, mp_UserID = fi_UserID info,
      mp_UserName = fi_UserFriendlyName info, mp_CanWrite = fi_UserCanWrite info,
      mp_AccessToken = token, mp_ExpiresAt = e\<rparr>"

text \<open>The handler in one equation for the requests that pass its checks.\<close>

definition launch_checks :: "launchEnv \<Rightarrow> 'h launchHandler \<Rightarrow> time \<Rightarrow> postReq \<Rightarrow> string \<Rightarrow> time \<Rightarrow> bool" where
  "launch_checks E h now r fileID ttl \<longleftrightarrow>
     parseWOPISrc E (launchSrc r) = Inr (launchSrc r) \<and> originAllowed E h (launchSrc r)
   \<and> fileIDFromWOPISrc E (launchSrc r) = Inr fileID \<and> launchToken r \<noteq> [] \<and> launchTTL now r = Some ttl"

lemma parse_src_same: "parseWOPISrc E raw = Inr s \<Longrightarrow> s = raw"
  by (auto simp: parseWOPISrc_def split: option.splits if_splits)

lemma launch_refused:
  assumes "\<nexists>fileID ttl. launch_checks E h t1 r fileID ttl"
  shows "\<exists>msg st. ServeHTTP E h t1 t2 t3 rand r w = (http_error msg st, w) \<and> st \<in> {400, 403}"
  using assms
  by (auto simp: ServeHTTP_def launch_checks_def launchSrc_def launchToken_def launchTTL_def Let_def
      dest: parse_src_same split: sum.splits option.splits if_splits bool.splits)

lemma launch_accepted:
  assumes "launch_checks E h t1 r fileID ttl"
  shows "ServeHTTP E h t1 t2 t3 rand r w =
     (case lh_client h t3 (launchSrc r) (launchToken r) w of
        (Inl err, w') \<Rightarrow> (writeCheckFileInfoError err, w')
      | (Inr info, w') \<Rightarrow>
        (case Mint (le_jwt E) (lh_sessions h) rand
                (launchMint fileID (launchSrc r) (launchToken r) info (min ttl (t2 + maxSessionTTL))) of
           Inl _ \<Rightarrow> (http_error ''internal error'' 502, w')
         | Inr sessionToken \<Rightarrow>
           (case renderPage h
                   \<lparr>ac_FileID = fileID, ac_FileName = fi_BaseFileName info,
                    ac_UserID = fi_UserID info, ac_UserName = fi_UserFriendlyName info,
                    ac_CanWrite = fi_UserCanWrite info, ac_SessionToken = sessionToken,
                    ac_APIBase = apiBase, ac_SocketPath = socketPath,
                    ac_MaxImageBytes = lh_maxImageBytes h, ac_TestHooks = lh_testHooks h\<rparr> of
              None \<Rightarrow> (http_error ''internal error'' 502, w')
            | Some page \<Rightarrow>
                (\<lparr>hr_status = 200,
                  hr_header = [(''Content-Type'', ''text/html; charset=utf-8''), (''Cache-Control'', ''no-store''),
                               (''Content-Security-Policy'', ''frame-ancestors '' @ lh_cspFrameValue h)],
                  hr_body = page\<rparr>, w'))))"
proof -
  obtain form where f: "parse_form r = Some form"
    "parseAccessTokenTTL t1 (query_get form ''access_token_ttl'') = Some ttl"
    using assms by (auto simp: launch_checks_def launchTTL_def split: option.splits)
  then have t: "launchToken r = query_get form ''access_token''" by (simp add: launchToken_def)
  have m: "(if t2 + maxSessionTTL < ttl then t2 + maxSessionTTL else ttl) = min ttl (t2 + maxSessionTTL)"
    by (simp add: min_def)
  show ?thesis
    using assms f t
    by (simp add: ServeHTTP_def launch_checks_def launchSrc_def [symmetric] Let_def m launchMint_def
        split: sum.split prod.split option.split)
qed

text \<open>What a served page carries.\<close>

lemma launch_outcome:
  assumes "ServeHTTP E h t1 t2 t3 (Some nonce) r w = (rp, w')" "hr_status rp = 200"
    and "jwt_ok (le_jwt E)" "newSessions secret = Inr (lh_sessions h)" "length nonce = nonceSize"
    and "unixEpoch \<le> t1" "unixEpoch \<le> t2" "t2 + maxSessionTTL < unixEpoch + 2 ^ 53 * second"
  shows "\<exists>fileID info raw cfg e u. url_parse (launchSrc r) = Some u
    \<and> originAllowed E h (launchSrc r) \<and> fileID = path_base (u_Path u) \<and> roomIDPattern fileID
    \<and> lh_client h t3 (launchSrc r) (launchToken r) w = (Inr info, w')
    \<and> renderPage h cfg = Some (hr_body rp) \<and> ac_FileID cfg = fileID \<and> ac_SessionToken cfg = raw
    \<and> (\<exists>ttl. launchTTL t1 r = Some ttl \<and> e \<le> min ttl (t2 + maxSessionTTL) \<and> min ttl (t2 + maxSessionTTL) < e + second)
    \<and> (json_text (launchSrc r) \<and> json_text (fi_UserID info) \<and> json_text (fi_UserFriendlyName info) \<longrightarrow>
        (\<forall>now. Verify (le_jwt E) (lh_sessions h) now raw =
          (if now < e
           then Inr \<lparr>cl_FileID = fileID, cl_WOPISrc = launchSrc r, cl_UserID = fi_UserID info,
                     cl_UserName = fi_UserFriendlyName info, cl_CanWrite = fi_UserCanWrite info,
                     cl_AccessToken = launchToken r, cl_ExpiresAt = e\<rparr>
           else Inl ErrVerify)))"
proof -
  have "\<exists>fileID ttl. launch_checks E h t1 r fileID ttl"
    using launch_refused [of E h t1 r t2 t3 "Some nonce" w] assms(1,2) by fastforce
  then obtain fileID ttl where c: "launch_checks E h t1 r fileID ttl" by blast
  obtain u where u: "url_parse (launchSrc r) = Some u" "fileID = path_base (u_Path u)" "roomIDPattern fileID"
    using c file_id_ok unfolding launch_checks_def by blast
  let ?x = "min ttl (t2 + maxSessionTTL)"
  obtain info raw where i: "lh_client h t3 (launchSrc r) (launchToken r) w = (Inr info, w')"
    and raw: "Mint (le_jwt E) (lh_sessions h) (Some nonce)
        (launchMint fileID (launchSrc r) (launchToken r) info ?x) = Inr raw"
    and page: "renderPage h
                   \<lparr>ac_FileID = fileID, ac_FileName = fi_BaseFileName info,
                    ac_UserID = fi_UserID info, ac_UserName = fi_UserFriendlyName info,
                    ac_CanWrite = fi_UserCanWrite info, ac_SessionToken = raw,
                    ac_APIBase = apiBase, ac_SocketPath = socketPath,
                    ac_MaxImageBytes = lh_maxImageBytes h, ac_TestHooks = lh_testHooks h\<rparr> = Some (hr_body rp)"
    using assms(1,2) unfolding launch_accepted [OF c]
    by (auto simp: writeCheckFileInfoError_def split: prod.splits sum.splits option.splits if_splits)
  let ?e = "jwt_NewNumericDate (le_jwt E) ?x"
  have e: "?e \<le> ?x \<and> ?x < ?e + second" using assms(3) unfolding jwt_ok_def by blast
  have ttl: "launchTTL t1 r = Some ttl" "t1 < ttl"
    using c ttl_ok by (auto simp: launch_checks_def launchTTL_def split: option.splits)
  have "date_ok ?x" using assms(6-8) ttl(2) by (auto simp: date_ok_def maxSessionTTL_def hour_def minute_def)
  moreover have "json_text fileID"
    using u(3) by (simp add: file_id_text)
  ultimately have "\<forall>now. Verify (le_jwt E) (lh_sessions h) now raw =
          (if now < ?e
           then Inr \<lparr>cl_FileID = fileID, cl_WOPISrc = launchSrc r, cl_UserID = fi_UserID info,
                     cl_UserName = fi_UserFriendlyName info, cl_CanWrite = fi_UserCanWrite info,
                     cl_AccessToken = launchToken r, cl_ExpiresAt = ?e\<rparr>
           else Inl ErrVerify)"
    if "json_text (launchSrc r)" "json_text (fi_UserID info)" "json_text (fi_UserFriendlyName info)"
    using verify_minted [OF assms(3-5), of "launchMint fileID (launchSrc r) (launchToken r) info ?x"] that raw
    by (simp add: launchMint_def)
  moreover have "originAllowed E h (launchSrc r)" using c by (simp add: launch_checks_def)
  ultimately show ?thesis
    using u i page ttl(1) e
    by (intro exI [of _ fileID] exI [of _ info] exI [of _ raw] exI [of _ ?e] exI conjI) auto
qed

section \<open>Properties of a launch\<close>

text \<open>
  C3. The session of a page that was served. The WOPISrc of the request lies in the
  allowlist and the WOPI host vouched for the access token; the file id is the last part
  of its path and one that the relay lets into a room; the page is the one for that file, and
  the session in it ends with the life the host gave the token, at most ten hours after the
  launch, to the second. If the WOPISrc, the user id and the user name are valid UTF-8 (JSON
  changes other bytes), that session, read back at any time before its end, names that file,
  the WOPISrc, the user and the write flag the host reported and the token of the form, and
  it is refused from its end on. The JWT library behaves as \<open>jwt_ok\<close> says, and the
  clock shows a time after 1970 that a JSON number can hold.
\<close>

theorem launched_session:
  assumes "ServeHTTP E h t1 t2 t3 (Some nonce) r w = (rp, w')" "hr_status rp = 200"
    and "jwt_ok (le_jwt E)" "newSessions secret = Inr (lh_sessions h)" "length nonce = nonceSize"
    and "unixEpoch \<le> t1" "unixEpoch \<le> t2" "t2 + maxSessionTTL < unixEpoch + 2 ^ 53 * second"
  shows "\<exists>fileID info raw cfg e u. url_parse (launchSrc r) = Some u
    \<and> originAllowed E h (launchSrc r) \<and> fileID = path_base (u_Path u) \<and> roomIDPattern fileID
    \<and> lh_client h t3 (launchSrc r) (launchToken r) w = (Inr info, w')
    \<and> renderPage h cfg = Some (hr_body rp) \<and> ac_FileID cfg = fileID \<and> ac_SessionToken cfg = raw
    \<and> (\<exists>ttl. launchTTL t1 r = Some ttl \<and> e \<le> min ttl (t2 + maxSessionTTL) \<and> min ttl (t2 + maxSessionTTL) < e + second)
    \<and> (json_text (launchSrc r) \<and> json_text (fi_UserID info) \<and> json_text (fi_UserFriendlyName info) \<longrightarrow>
        (\<forall>now. Verify (le_jwt E) (lh_sessions h) now raw =
          (if now < e
           then Inr \<lparr>cl_FileID = fileID, cl_WOPISrc = launchSrc r, cl_UserID = fi_UserID info,
                     cl_UserName = fi_UserFriendlyName info, cl_CanWrite = fi_UserCanWrite info,
                     cl_AccessToken = launchToken r, cl_ExpiresAt = e\<rparr>
           else Inl ErrVerify)))"
  using assms by (rule launch_outcome)

section \<open>An example\<close>

definition demoSecret :: bytes where
  "demoSecret = ''0123456789abcdef0123456789abcdef''"

definition demoPost :: postReq where
  "demoPost = \<lparr>po_rawQuery = ''WOPISrc=http%3A%2F%2Fdrive%2Fwopi%2Ffiles%2Ff1'',
     po_mediaType = Some ''application/x-www-form-urlencoded'',
     po_body = ''access_token=tok%2B&access_token_ttl=1800000000000''\<rparr>"

definition demoTime :: time where
  "demoTime = unixEpoch + 1799999000 * second"

definition demoURL :: "string \<Rightarrow> string \<Rightarrow> string \<Rightarrow> url" where
  "demoURL scheme host path = empty_url\<lparr>u_Scheme := scheme, u_Host := host, u_Path := path\<rparr>"

lemma demo_src_parse: "url_parse ''http://drive/wopi/files/f1'' = Some (demoURL ''http'' ''drive'' ''/wopi/files/f1'')"
  by code_simp

lemma demo_origin_parse: "url_parse ''HTTP://Drive'' = Some (demoURL ''http'' ''Drive'' [])"
  by code_simp

lemma demo_query: "query_get (parse_query ''WOPISrc=http%3A%2F%2Fdrive%2Fwopi%2Ffiles%2Ff1'') ''WOPISrc''
    = ''http://drive/wopi/files/f1''"
  by code_simp

lemma demo_body: "parse_query ''access_token=tok%2B&access_token_ttl=1800000000000''
    = [(''access_token'', [''tok+'']), (''access_token_ttl'', [''1800000000000''])]"
  "query_err ''access_token=tok%2B&access_token_ttl=1800000000000'' \<longleftrightarrow> False"
  "query_err ''WOPISrc=http%3A%2F%2Fdrive%2Fwopi%2Ffiles%2Ff1'' \<longleftrightarrow> False"
  by code_simp+

lemma demo_ttl: "parse_int ''1800000000000'' = Some 1800000000000"
  by code_simp

lemma demo_form: "parse_form demoPost = Some [(''access_token'', [''tok+'']), (''access_token_ttl'', [''1800000000000''])]"
  by (simp add: parse_form_def demoPost_def demo_body maxFormSize_def)

lemma demo_request:
  "launchSrc demoPost = ''http://drive/wopi/files/f1''" "launchToken demoPost = ''tok+''"
  "launchTTL demoTime demoPost = Some (unixEpoch + 1800000000 * second)"
proof -
  show "launchSrc demoPost = ''http://drive/wopi/files/f1''"
    using demo_query by (simp add: launchSrc_def demoPost_def)
  show "launchToken demoPost = ''tok+''" by (simp add: launchToken_def demo_form query_get_def)
  show "launchTTL demoTime demoPost = Some (unixEpoch + 1800000000 * second)"
    by (simp add: launchTTL_def demo_form query_get_def parseAccessTokenTTL_def demo_ttl Let_def demoTime_def second_def)
qed

lemma demo_lower: "map lower_char ''Drive'' = ''drive''" "map lower_char ''http'' = ''http''"
  "map lower_char ''drive'' = ''drive''"
  by code_simp+

lemma demo_origins: "lh_allowedOrigins (demoLaunch m) = [''http://drive'']"
proof -
  have "normalizeOrigin demoEnv ''HTTP://Drive'' = Some ''http://drive''"
    using demo_lower by (simp add: normalizeOrigin_def demo_origin_parse demoURL_def demoEnv_def del: list.map)
  then show ?thesis by (simp add: demoLaunch_def newLaunch_def)
qed

lemma demo_base: "path_base ''/wopi/files/f1'' = ''f1''" "fileIDPattern ''f1'' \<longleftrightarrow> True"
  by code_simp+

lemma demo_checks: "launch_checks demoEnv (demoLaunch m) demoTime demoPost ''f1'' (unixEpoch + 1800000000 * second)"
proof -
  have "parseWOPISrc demoEnv ''http://drive/wopi/files/f1'' = Inr ''http://drive/wopi/files/f1''"
    by (simp add: parseWOPISrc_def demo_src_parse demoURL_def)
  moreover have "normalizeOrigin demoEnv ''http://drive/wopi/files/f1'' = Some ''http://drive''"
    using demo_lower by (simp add: normalizeOrigin_def demo_src_parse demoURL_def demoEnv_def del: list.map)
  moreover have "fileIDFromWOPISrc demoEnv ''http://drive/wopi/files/f1'' = Inr ''f1''"
    by (simp add: fileIDFromWOPISrc_def demo_src_parse demoURL_def demo_base Let_def)
  ultimately show ?thesis
    by (simp add: launch_checks_def demo_request originAllowed_def demo_origins)
qed

lemma demo_served:
  assumes "newSessions demoSecret = Inr m"
  shows "\<exists>rp. ServeHTTP demoEnv (demoLaunch m) demoTime demoTime demoTime
      (Some (replicate 12 (char_of (7 :: nat)))) demoPost 0 = (rp, 1) \<and> hr_status rp = 200"
proof -
  let ?info = "\<lparr>fi_BaseFileName = ''a'', fi_OwnerID = ''o'', fi_UserFriendlyName = ''Ada'',
        fi_Size = 1, fi_UserID = ''u1'', fi_Version = ''v'', fi_UserCanWrite = True, fi_ReadOnly = False,
        fi_SupportsUpdate = True, fi_SupportsGetLock = True, fi_SupportsLocks = True\<rparr>"
  let ?p = "launchMint ''f1'' (launchSrc demoPost) (launchToken demoPost) ?info
     (min (unixEpoch + 1800000000 * second) (demoTime + maxSessionTTL))"
  have n: "length (replicate 12 (char_of (7 :: nat) :: char)) = nonceSize" by (simp add: nonceSize_def)
  have ok: "json_text (mp_FileID ?p)" "json_text (mp_WOPISrc ?p)" "json_text (mp_UserID ?p)"
    "json_text (mp_UserName ?p)" "date_ok (mp_ExpiresAt ?p)"
    by (simp_all add: launchMint_def demo_request json_text_def utf8_fix_of_ascii date_ok_def second_def
        demoTime_def maxSessionTTL_def hour_def minute_def)
  obtain raw where "Mint demoJwt m (Some (replicate 12 (char_of (7 :: nat)))) ?p = Inr raw"
    using mint_verify [OF demoJwt_ok assms n ok] by blast
  moreover have "le_jwt demoEnv = demoJwt" "lh_sessions (demoLaunch m) = m" "lh_index (demoLaunch m) = Some demoPage"
    "lh_client (demoLaunch m) = (\<lambda>now src token n. (Inr ?info, n + 1))"
    by (simp_all add: demoEnv_def demoLaunch_def newLaunch_def)
  ultimately show ?thesis
    by (simp add: launch_accepted [OF demo_checks] renderPage_def demo_cut Let_def)
qed

theorem launched_session_witness:
  "\<exists>m rp cfg. newSessions demoSecret = Inr m \<and> hr_status rp = 200
    \<and> ServeHTTP demoEnv (demoLaunch m) demoTime demoTime demoTime
        (Some (replicate 12 (char_of (7 :: nat)))) demoPost 0 = (rp, 1)
    \<and> renderPage (demoLaunch m) cfg = Some (hr_body rp) \<and> ac_FileID cfg = ''f1''"
proof -
  obtain m where m: "newSessions demoSecret = Inr m" using newSessions_total by blast
  obtain rp where rp: "ServeHTTP demoEnv (demoLaunch m) demoTime demoTime demoTime
      (Some (replicate 12 (char_of (7 :: nat)))) demoPost 0 = (rp, 1)" "hr_status rp = 200"
    using demo_served [OF m] by blast
  have j: "jwt_ok (le_jwt demoEnv)" by (simp add: demoEnv_def demoJwt_ok)
  have s: "newSessions demoSecret = Inr (lh_sessions (demoLaunch m))"
    using m by (simp add: demoLaunch_def newLaunch_def)
  have n: "length (replicate 12 (char_of (7 :: nat) :: char)) = nonceSize" by (simp add: nonceSize_def)
  have t: "unixEpoch \<le> demoTime" "demoTime + maxSessionTTL < unixEpoch + 2 ^ 53 * second"
    by (simp_all add: demoTime_def maxSessionTTL_def hour_def minute_def second_def)
  from launched_session [OF rp j s n t(1) t(1) t(2)] obtain cfg u where
    "renderPage (demoLaunch m) cfg = Some (hr_body rp)" "ac_FileID cfg = path_base (u_Path u)"
    "url_parse ''http://drive/wopi/files/f1'' = Some u"
    unfolding demo_request by blast
  with m rp show ?thesis by (auto simp: demo_src_parse demoURL_def demo_base)
qed

section \<open>Whom a launch may call\<close>

text \<open>A transport that keeps the requests it is given; \<open>f\<close> is what it answers.\<close>

definition recording ::
  "(time \<Rightarrow> httpReq \<Rightarrow> string + httpResp) \<Rightarrow> time \<Rightarrow> httpReq \<Rightarrow> httpReq list \<Rightarrow> (string + httpResp) \<times> httpReq list" where
  "recording f now r log = (f now r, log @ [r])"

lemma send_records:
  "\<exists>res qs. send (newWopiClient (recording f) signer profile) now op method url token header body log = (res, log @ qs)
     \<and> (\<forall>q \<in> set qs. hq_url q = url)"
  by (auto simp: send_def newWopiClient_def recording_def Let_def split: option.split sum.split prod.split)

lemma checkFileInfo_records:
  assumes "withAccessToken src token = Some url"
  shows "\<exists>res qs. CheckFileInfo (newWopiClient (recording f) signer profile) now src token log = (res, log @ qs)
     \<and> (\<forall>q \<in> set qs. hq_url q = url)"
proof -
  obtain res qs where "send (newWopiClient (recording f) signer profile) now ''CheckFileInfo'' ''GET'' url token [] [] log
      = (res, log @ qs)" "\<forall>q \<in> set qs. hq_url q = url"
    using send_records by blast
  with assms show ?thesis by (cases res) (auto simp: CheckFileInfo_def)
qed

lemma token_url_origin:
  assumes "plain_url src u" "withAccessToken src token = Some url"
  shows "normalizeOrigin E url = normalizeOrigin E src"
proof -
  obtain out v where "withAccessToken src token = Some out" "plain_url out v"
    "u_Scheme v = u_Scheme u" "u_Host v = u_Host u"
    using token_url [OF assms(1), of token] by blast
  with assms show ?thesis by (simp add: normalizeOrigin_def plain_url_def)
qed

lemma originAllowed_new:
  "originAllowed E (newLaunch E client sessions index origins maxBytes hooks) src \<longleftrightarrow>
     (\<exists>o' \<in> set origins. normalizeOrigin E o' = normalizeOrigin E src \<and> normalizeOrigin E src \<noteq> None)"
  by (auto simp: originAllowed_def newLaunch_def split: option.splits) metis

text \<open>
  C16. A launch sends the access token nowhere but to an allowlisted origin. With the real
  client and any transport, a WOPISrc whose scheme and host are not those of a configured
  origin, letter case aside, is refused with 400 or 403 before any request is made; and
  whatever the WOPISrc (an absolute URL whose host is a name, without user information),
  every request that is made goes to the scheme and host of a configured origin.
\<close>

theorem launch_calls_allowed_origins:
  assumes "h = newLaunch E (CheckFileInfo (newWopiClient (recording f) signer profile)) sessions index origins maxBytes hooks"
    and "ServeHTTP E h t1 t2 t3 rand r [] = (rp, log)"
    and "url_parse (launchSrc r) = Some u" "u_User u = None" "CHR ''['' \<notin> set (u_Host u)"
  shows "(log = [] \<and> hr_status rp \<in> {400, 403}
        \<or> (\<exists>o' \<in> set origins. normalizeOrigin E o' = normalizeOrigin E (launchSrc r)))
    \<and> (\<forall>q \<in> set log. \<exists>o' \<in> set origins. normalizeOrigin E o' = normalizeOrigin E (hq_url q))"
proof (cases "\<exists>fileID ttl. launch_checks E h t1 r fileID ttl")
  case False
  then show ?thesis
    using launch_refused [of E h t1 r t2 t3 rand "[]"] assms(2) by fastforce
next
  case True
  then obtain fileID ttl where c: "launch_checks E h t1 r fileID ttl" by blast
  then obtain o' where o: "o' \<in> set origins" "normalizeOrigin E o' = normalizeOrigin E (launchSrc r)"
    unfolding launch_checks_def assms(1) originAllowed_new by blast
  have "u_Scheme u \<noteq> []" "u_Host u \<noteq> []"
    using c assms(3) by (auto simp: launch_checks_def parseWOPISrc_def split: if_splits)
  with assms(3-5) have p: "plain_url (launchSrc r) u" by (simp add: plain_url_def)
  then obtain url where url: "withAccessToken (launchSrc r) (launchToken r) = Some url"
    using token_url [of "launchSrc r" u "launchToken r"] by blast
  obtain res where res: "lh_client h t3 (launchSrc r) (launchToken r) [] = res" "\<forall>q \<in> set (snd res). hq_url q = url"
    using checkFileInfo_records [OF url, of f signer profile t3 "[]"] assms(1)
    by (auto simp: newLaunch_def)
  have "log = snd res"
    using assms(2) unfolding launch_accepted [OF c] res(1)
    by (auto split: prod.splits sum.splits option.splits)
  with res(2) o token_url_origin [OF p url, of E] show ?thesis by auto
qed

theorem launch_calls_allowed_origins_witness:
  "\<exists>rp. ServeHTTP demoEnv
      (newLaunch demoEnv (CheckFileInfo (newWopiClient (recording (\<lambda>_ _. Inl ''down'')) None None))
         \<lparr>sm_signingKey = [], sm_sealingKey = []\<rparr> (Some demoPage) [''http://other''] 1024 False)
      demoTime demoTime demoTime None demoPost [] = (rp, []) \<and> hr_status rp \<in> {400, 403}"
proof -
  let ?h = "newLaunch demoEnv (CheckFileInfo (newWopiClient (recording (\<lambda>_ _. Inl ''down'')) None None))
         \<lparr>sm_signingKey = [], sm_sealingKey = []\<rparr> (Some demoPage) [''http://other''] 1024 False"
  obtain rp log where s: "ServeHTTP demoEnv ?h demoTime demoTime demoTime None demoPost [] = (rp, log)" by fastforce
  have u: "url_parse (launchSrc demoPost) = Some (demoURL ''http'' ''drive'' ''/wopi/files/f1'')"
    by (simp add: demo_request demo_src_parse)
  have p: "u_User (demoURL ''http'' ''drive'' ''/wopi/files/f1'') = None"
    "CHR ''['' \<notin> set (u_Host (demoURL ''http'' ''drive'' ''/wopi/files/f1''))"
    by (simp_all add: demoURL_def empty_url_def)
  have "url_parse ''http://other'' = Some (demoURL ''http'' ''other'' [])" by code_simp
  then have "normalizeOrigin demoEnv ''http://other'' \<noteq> normalizeOrigin demoEnv (launchSrc demoPost)"
    using demo_lower
    by (simp add: demo_request demo_src_parse normalizeOrigin_def demoURL_def demoEnv_def lower_char_def)
  with launch_calls_allowed_origins [OF refl s u p] s show ?thesis by auto
qed

end
