(* ===== verification/Config.thy ===== *)
theory Config
  imports NetUrl Sha256
begin

text \<open>
  \<open>internal/config/config.go\<close>: the settings read from the environment at boot, and what a
  service that starts can rely on.
\<close>

section \<open>Settings\<close>

definition DefaultListenAddr :: string where "DefaultListenAddr = '':8080''"
definition defaultPublicURL :: string where "defaultPublicURL = ''http://localhost:8080''"
definition defaultProofKeyPath :: string where "defaultProofKeyPath = ''/var/lib/excalidraw-wopi/proof-key.pem''"
definition defaultMaxImageBytes :: int where "defaultMaxImageBytes = 10 * 1024 * 1024"
definition defaultMaxSceneBytes :: int where "defaultMaxSceneBytes = 50 * 1024 * 1024"
definition defaultSocketBufferBytes :: int where "defaultSocketBufferBytes = 60 * 1024 * 1024"
definition minSocketBufferBytes :: int where "minSocketBufferBytes = 4 * 1024"
definition sessionSecretRandomBytes :: nat where "sessionSecretRandomBytes = 32"
definition minSessionSecretBytes :: nat where "minSessionSecretBytes = 32"

lemmas config_limits = minSocketBufferBytes_def minSessionSecretBytes_def defaultMaxImageBytes_def
  defaultMaxSceneBytes_def defaultSocketBufferBytes_def

record config =
  cf_ListenAddr :: string
  cf_PublicURL :: string
  cf_SessionSecret :: string
  cf_ProofKeyPath :: string
  cf_MaxImageBytes :: int
  cf_MaxSceneBytes :: int
  cf_SocketBufferBytes :: int
  cf_AllowedWOPIOrigins :: "string list"
  cf_DNSPeers :: string
  cf_DNSSelf :: string

text \<open>The errors, with the variable they name (the prefix left out).\<close>

datatype config_error =
    InvalidInteger string
  | BothSecrets
  | SecretFileUnreadable
  | SecretFileEmpty
  | SecretFileTooShort
  | NoRandomness
  | Empty string
  | InvalidURL
  | NotAbsolute
  | NotPositive string
  | ImageAboveScene
  | BufferTooSmall
  | SecretTooShort
  | SelfMissing

text \<open>The process environment, the files, and what the random reader gives.\<close>

record world =
  wd_env :: "string \<Rightarrow> string option"
  wd_file :: "string \<Rightarrow> bytes option"
  wd_rand :: "bytes option"

section \<open>Reading\<close>

definition envPrefix :: string where "envPrefix = ''EXCALIDRAW_WOPI_''"

definition getEnv :: "world \<Rightarrow> string \<Rightarrow> string \<Rightarrow> string" where
  "getEnv w name fallback = (case wd_env w (envPrefix @ name) of Some v \<Rightarrow> v | None \<Rightarrow> fallback)"

definition getEnvInt64 :: "world \<Rightarrow> string \<Rightarrow> int \<Rightarrow> config_error + int" where
  "getEnvInt64 w name fallback =
     (case wd_env w (envPrefix @ name) of
        None \<Rightarrow> Inr fallback
      | Some v \<Rightarrow> (case parse_int v of None \<Rightarrow> Inl (InvalidInteger name) | Some n \<Rightarrow> Inr n))"

definition parseOriginList :: "string \<Rightarrow> string list" where
  "parseOriginList raw =
     (if raw = [] then [] else filter (\<lambda>p. p \<noteq> []) (map trim_space (split_on CHR '','' raw)))"

definition randomSecret :: "world \<Rightarrow> string option" where
  "randomSecret w = map_option hex_encode (wd_rand w)"

section \<open>Validation\<close>

definition validateRequiredFields :: "config \<Rightarrow> config_error + config" where
  "validateRequiredFields c =
     (if cf_ListenAddr c = [] then Inl (Empty ''LISTEN_ADDR'')
      else if cf_PublicURL c = [] then Inl (Empty ''PUBLIC_URL'')
      else case url_parse (cf_PublicURL c) of
        None \<Rightarrow> Inl InvalidURL
      | Some u \<Rightarrow>
          if u_Scheme u = [] \<or> u_Host u = [] then Inl NotAbsolute
          else let c' = c\<lparr>cf_PublicURL := trim_suffix (cf_PublicURL c) ''/''\<rparr> in
            if cf_ProofKeyPath c' = [] then Inl (Empty ''PROOF_KEY_PATH'') else Inr c')"

definition validateSizeLimits :: "config \<Rightarrow> config_error option" where
  "validateSizeLimits c =
     (if cf_MaxImageBytes c \<le> 0 then Some (NotPositive ''MAX_IMAGE_BYTES'')
      else if cf_MaxSceneBytes c \<le> 0 then Some (NotPositive ''MAX_SCENE_BYTES'')
      else if cf_MaxSceneBytes c < cf_MaxImageBytes c then Some ImageAboveScene
      else if cf_SocketBufferBytes c < minSocketBufferBytes then Some BufferTooSmall
      else if length (cf_SessionSecret c) < minSessionSecretBytes then Some SecretTooShort
      else None)"

definition validatePeers :: "config \<Rightarrow> config_error + config" where
  "validatePeers c0 =
     (let c = c0\<lparr>cf_DNSSelf := trim_suffix (cf_DNSSelf c0) ''/''\<rparr> in
      if cf_DNSPeers c = [] then Inr c
      else if cf_DNSSelf c = [] then Inl SelfMissing else Inr c)"

definition validateConfig :: "config \<Rightarrow> config_error + config" where
  "validateConfig c =
     (case validateRequiredFields c of
        Inl e \<Rightarrow> Inl e
      | Inr c' \<Rightarrow> (case validateSizeLimits c' of Some e \<Rightarrow> Inl e | None \<Rightarrow> validatePeers c'))"

text \<open>The session secret: from the variable, from the file, or a random one.\<close>

definition loadSecret :: "world \<Rightarrow> config_error + string" where
  "loadSecret w =
     (let secret = getEnv w ''SESSION_SECRET'' []; file = getEnv w ''SESSION_SECRET_FILE'' [] in
      if secret \<noteq> [] \<and> file \<noteq> [] then Inl BothSecrets
      else case (if secret = [] \<and> file \<noteq> [] then
                   (case wd_file w file of
                      None \<Rightarrow> Inl SecretFileUnreadable
                    | Some content \<Rightarrow>
                        let trimmed = trim_space content in
                        if trimmed = [] then Inl SecretFileEmpty
                        else if length trimmed < minSessionSecretBytes then Inl SecretFileTooShort
                        else Inr trimmed)
                 else Inr secret) of
        Inl e \<Rightarrow> Inl e
      | Inr s \<Rightarrow>
          if s = [] then (case randomSecret w of None \<Rightarrow> Inl NoRandomness | Some r \<Rightarrow> Inr r) else Inr s)"

definition loadConfig :: "world \<Rightarrow> config_error + config" where
  "loadConfig w =
     (case getEnvInt64 w ''MAX_IMAGE_BYTES'' defaultMaxImageBytes of
        Inl e \<Rightarrow> Inl e
      | Inr imageBytes \<Rightarrow>
        (case getEnvInt64 w ''MAX_SCENE_BYTES'' defaultMaxSceneBytes of
           Inl e \<Rightarrow> Inl e
         | Inr sceneBytes \<Rightarrow>
           (case getEnvInt64 w ''SOCKET_BUFFER_BYTES'' defaultSocketBufferBytes of
              Inl e \<Rightarrow> Inl e
            | Inr bufferBytes \<Rightarrow>
              (case loadSecret w of
                 Inl e \<Rightarrow> Inl e
               | Inr secret \<Rightarrow>
                   validateConfig
                     \<lparr>cf_ListenAddr = getEnv w ''LISTEN_ADDR'' DefaultListenAddr,
                      cf_PublicURL = getEnv w ''PUBLIC_URL'' defaultPublicURL,
                      cf_SessionSecret = secret,
                      cf_ProofKeyPath = getEnv w ''PROOF_KEY_PATH'' defaultProofKeyPath,
                      cf_MaxImageBytes = imageBytes, cf_MaxSceneBytes = sceneBytes, cf_SocketBufferBytes = bufferBytes,
                      cf_AllowedWOPIOrigins = parseOriginList (getEnv w ''WOPI_ALLOWED_ORIGINS'' []),
                      cf_DNSPeers = getEnv w ''DNS_PEERS'' [], cf_DNSSelf = getEnv w ''DNS_SELF'' []\<rparr>))))"

section \<open>What a loaded configuration satisfies\<close>

definition config_ok :: "config \<Rightarrow> bool" where
  "config_ok c \<longleftrightarrow>
     cf_ListenAddr c \<noteq> [] \<and> cf_ProofKeyPath c \<noteq> []
   \<and> (\<exists>raw u. url_parse raw = Some u \<and> u_Scheme u \<noteq> [] \<and> u_Host u \<noteq> [] \<and> cf_PublicURL c = trim_suffix raw ''/'')
   \<and> 0 < cf_MaxImageBytes c \<and> cf_MaxImageBytes c \<le> cf_MaxSceneBytes c \<and> cf_MaxSceneBytes c < 2 ^ 63
   \<and> minSocketBufferBytes \<le> cf_SocketBufferBytes c \<and> cf_SocketBufferBytes c < 2 ^ 63
   \<and> minSessionSecretBytes \<le> length (cf_SessionSecret c)
   \<and> (cf_DNSPeers c = [] \<or> cf_DNSSelf c \<noteq> [])
   \<and> [] \<notin> set (cf_AllowedWOPIOrigins c)"

lemma parse_int_range: "parse_int s = Some n \<Longrightarrow> n < 2 ^ 63"
  by (auto simp: parse_int_def Let_def split: if_splits prod.splits)

lemma getEnvInt64_range: "getEnvInt64 w name d = Inr n \<Longrightarrow> d < 2 ^ 63 \<Longrightarrow> n < 2 ^ 63"
  by (auto simp: getEnvInt64_def dest: parse_int_range split: option.splits)

lemma validate_ok:
  assumes "validateConfig c = Inr c'" "cf_MaxSceneBytes c < 2 ^ 63" "cf_SocketBufferBytes c < 2 ^ 63"
    "[] \<notin> set (cf_AllowedWOPIOrigins c)"
  shows "config_ok c'"
  using assms
  by (auto simp: validateConfig_def validateRequiredFields_def validateSizeLimits_def validatePeers_def
      config_ok_def Let_def split: option.splits if_splits) blast+

text \<open>
  C40. A service that starts has a sane configuration. Whatever the environment and the
  files hold, a configuration that loads has an address, a key path and an absolute public
  URL, positive limits with an image never above a scene and all of them in an \<open>int64\<close>, a
  transport buffer of at least four kilobytes, a secret of at least 32 bytes, the replica's
  own address whenever peers are configured, and no empty entry in the list of origins; and
  with both secret variables set nothing loads.
\<close>

theorem loaded_config_ok:
  assumes "loadConfig w = Inr c"
  shows "config_ok c
    \<and> (getEnv w ''SESSION_SECRET'' [] = [] \<or> getEnv w ''SESSION_SECRET_FILE'' [] = [])"
proof
  have "[] \<notin> set (parseOriginList raw)" for raw by (auto simp: parseOriginList_def)
  with assms show "config_ok c"
    by (auto simp: loadConfig_def config_limits split: sum.splits
        intro!: validate_ok dest!: getEnvInt64_range)
  show "getEnv w ''SESSION_SECRET'' [] = [] \<or> getEnv w ''SESSION_SECRET_FILE'' [] = []"
    using assms by (auto simp: loadConfig_def loadSecret_def Let_def split: sum.splits if_splits)
qed

definition demoWorld :: world where
  "demoWorld = \<lparr>wd_env = [''EXCALIDRAW_WOPI_MAX_SCENE_BYTES'' \<mapsto> ''9223372036854775807''],
     wd_file = (\<lambda>_. None), wd_rand = Some (replicate 32 (char_of (1 :: nat)))\<rparr>"

lemma demo_public: "url_parse defaultPublicURL \<noteq> None \<and> u_Scheme (the (url_parse defaultPublicURL)) \<noteq> []
    \<and> u_Host (the (url_parse defaultPublicURL)) \<noteq> []"
  by code_simp

lemma demo_load: "\<exists>c. loadConfig demoWorld = Inr c \<and> cf_MaxSceneBytes c = 2 ^ 63 - 1"
proof -
  have p: "parse_int ''9223372036854775807'' = Some (2 ^ 63 - 1)" by code_simp
  obtain u where u: "url_parse defaultPublicURL = Some u" "u_Scheme u \<noteq> []" "u_Host u \<noteq> []"
    using demo_public by auto
  have e: "getEnvInt64 demoWorld ''MAX_IMAGE_BYTES'' d = Inr d"
    "getEnvInt64 demoWorld ''MAX_SCENE_BYTES'' d = Inr (2 ^ 63 - 1)"
    "getEnvInt64 demoWorld ''SOCKET_BUFFER_BYTES'' d = Inr d" for d
    by (simp_all add: getEnvInt64_def demoWorld_def envPrefix_def p)
  have g: "getEnv demoWorld n f = f" if "n \<noteq> ''MAX_SCENE_BYTES''" for n f
    using that by (simp add: getEnv_def demoWorld_def envPrefix_def)
  have s: "loadSecret demoWorld = Inr (hex_encode (replicate 32 (char_of (1 :: nat))))"
    by (simp add: loadSecret_def g randomSecret_def) (simp add: demoWorld_def hex_encode_def)
  show ?thesis
    by (simp add: loadConfig_def e s g validateConfig_def validateRequiredFields_def u Let_def
        validateSizeLimits_def validatePeers_def config_limits DefaultListenAddr_def)
      (simp add: u defaultPublicURL_def defaultProofKeyPath_def)
qed

theorem loaded_config_ok_witness:
  "\<exists>c. loadConfig demoWorld = Inr c \<and> config_ok c \<and> cf_MaxSceneBytes c = 2 ^ 63 - 1"
  using demo_load loaded_config_ok by blast

end
