(* ===== verification/Proof.thy ===== *)
theory Proof
  imports Crypto Config GoText
begin

text \<open>
  \<open>internal/proof\<close>: the RSA keys that sign WOPI requests, their file, the signature of a
  request, and the public parts that the discovery document publishes.
\<close>

section \<open>Numbers as bytes\<close>

text \<open>\<open>big.Int\<close>'s \<open>Bytes\<close> and \<open>SetBytes\<close>, and the fixed-length form of PKCS 1.\<close>

fun be_nat :: "nat \<Rightarrow> bytes" where
  "be_nat n = (if n = 0 then [] else be_nat (n div 256) @ [char_of n])"

declare be_nat.simps [simp del]

definition nat_be :: "bytes \<Rightarrow> nat" where
  "nat_be bs = fold (\<lambda>c n. 256 * n + of_char c) bs 0"

definition i2osp :: "nat \<Rightarrow> nat \<Rightarrow> bytes" where
  "i2osp k n = replicate (k - length (be_nat n)) (char_of (0 :: nat)) @ be_nat n"

fun bit_len :: "nat \<Rightarrow> nat" where
  "bit_len n = (if n = 0 then 0 else Suc (bit_len (n div 2)))"

declare bit_len.simps [simp del]

lemma nat_be_snoc [simp]: "nat_be (bs @ [c]) = 256 * nat_be bs + of_char c"
  by (simp add: nat_be_def)

lemma nat_be_be_nat [simp]: "nat_be (be_nat n) = n"
proof (induction n rule: be_nat.induct)
  case (1 n)
  show ?case
  proof (cases "n = 0")
    case True
    then show ?thesis by (simp add: be_nat.simps nat_be_def)
  next
    case False
    with 1 show ?thesis by (subst be_nat.simps) simp
  qed
qed

lemma nat_be_zeros: "nat_be (replicate k (char_of (0 :: nat)) @ bs) = nat_be bs"
proof -
  have "fold (\<lambda>c n. 256 * n + of_char c) (replicate k (char_of (0 :: nat) :: char)) (0 :: nat) = 0"
    by (induction k) simp_all
  then show ?thesis by (simp add: nat_be_def)
qed

lemma nat_be_i2osp [simp]: "nat_be (i2osp k n) = n"
  by (simp add: i2osp_def nat_be_zeros)

section \<open>Keys\<close>

definition rsaKeyBits :: nat where "rsaKeyBits = 2048"
definition minRSAKeyBits :: nat where "minRSAKeyBits = 2048"
definition EnvPEMVar :: string where "EnvPEMVar = ''EXCALIDRAW_WOPI_PROOF_KEY_PEM''"

text \<open>The modulus, the public and the private exponent.\<close>

record rsaKey =
  rk_N :: nat
  rk_E :: nat
  rk_D :: nat

record keySet =
  ks_Current :: rsaKey
  ks_Old :: rsaKey

text \<open>
  \<open>encoding/pem\<close> and \<open>crypto/x509\<close>: the next PEM block of some bytes and the rest, the block
  of some DER, what a PKCS 8 document holds, \<open>Validate\<close> of a key and the two encodings.
\<close>

datatype pkcs8 = ParseError | OtherKey | RsaKey rsaKey

record keyCodec =
  kc_Decode :: "bytes \<Rightarrow> bytes option \<times> bytes"
  kc_EncodeToMemory :: "bytes \<Rightarrow> bytes"
  kc_ParsePKCS8 :: "bytes \<Rightarrow> pkcs8"
  kc_Validate :: "rsaKey \<Rightarrow> bool"
  kc_MarshalPKCS8 :: "rsaKey \<Rightarrow> bytes option"
  kc_MarshalPKIX :: "nat \<times> nat \<Rightarrow> bytes option"

text \<open>\<open>Inl ()\<close> is an error, \<open>Inr None\<close> no further block.\<close>

definition decodeNextKey :: "keyCodec \<Rightarrow> bytes \<Rightarrow> (unit + rsaKey option) \<times> bytes" where
  "decodeNextKey K data =
     (case kc_Decode K data of
        (None, rest) \<Rightarrow> (Inr None, rest)
      | (Some block, rest) \<Rightarrow>
          ((case kc_ParsePKCS8 K block of
              ParseError \<Rightarrow> Inl ()
            | OtherKey \<Rightarrow> Inl ()
            | RsaKey key \<Rightarrow>
                if bit_len (rk_N key) < minRSAKeyBits then Inl ()
                else if \<not> kc_Validate K key then Inl ()
                else Inr (Some key)), rest))"

definition parseKeySet :: "keyCodec \<Rightarrow> bytes \<Rightarrow> keySet option" where
  "parseKeySet K data =
     (case decodeNextKey K data of
        (Inl _, _) \<Rightarrow> None
      | (Inr None, _) \<Rightarrow> None
      | (Inr (Some current), rest) \<Rightarrow>
          (case fst (decodeNextKey K rest) of
             Inl _ \<Rightarrow> None
           | Inr old \<Rightarrow>
               Some \<lparr>ks_Current = current, ks_Old = (case old of None \<Rightarrow> current | Some k \<Rightarrow> k)\<rparr>))"

definition encodeKeySet :: "keyCodec \<Rightarrow> keySet \<Rightarrow> bytes option" where
  "encodeKeySet K ks =
     (case kc_MarshalPKCS8 K (ks_Current ks) of
        None \<Rightarrow> None
      | Some der1 \<Rightarrow>
          (case kc_MarshalPKCS8 K (ks_Old ks) of
             None \<Rightarrow> None
           | Some der2 \<Rightarrow> Some (kc_EncodeToMemory K der1 @ kc_EncodeToMemory K der2)))"

section \<open>Loading\<close>

text \<open>
  The key file as replicas that start at the same time see it: \<open>None\<close> while it does not
  exist. \<open>Link\<close> makes it exist with a whole content or fails because it does.
\<close>

datatype keyFile = Absent | Unreadable | Content bytes

datatype loadPhase =
    Starting
  | Generated keySet
  | Loaded keySet
  | Failed

text \<open>Up to the decision to generate: the variable, then the file. \<open>gen\<close> is the key generated.\<close>

definition loadRead :: "keyCodec \<Rightarrow> bytes option \<Rightarrow> rsaKey option \<Rightarrow> keyFile \<Rightarrow> loadPhase" where
  "loadRead K env gen kf =
     (case env of
        Some pem \<Rightarrow> (case parseKeySet K pem of Some ks \<Rightarrow> Loaded ks | None \<Rightarrow> Failed)
      | None \<Rightarrow>
          (case kf of
             Content data \<Rightarrow> (case parseKeySet K data of Some ks \<Rightarrow> Loaded ks | None \<Rightarrow> Failed)
           | Unreadable \<Rightarrow> Failed
           | Absent \<Rightarrow>
               (case gen of
                  None \<Rightarrow> Failed
                | Some key \<Rightarrow> Generated \<lparr>ks_Current = key, ks_Old = key\<rparr>)))"

text \<open>
  \<open>persist\<close>, with \<open>tmpOk\<close> for the directory and the temporary file: the link decides, and
  the loser adopts what it finds.
\<close>

definition persist :: "keyCodec \<Rightarrow> bool \<Rightarrow> keySet \<Rightarrow> keyFile \<Rightarrow> loadPhase \<times> keyFile" where
  "persist K tmpOk ks kf =
     (case encodeKeySet K ks of
        None \<Rightarrow> (Failed, kf)
      | Some pem \<Rightarrow>
          if \<not> tmpOk then (Failed, kf)
          else (case kf of
                  Absent \<Rightarrow> (Loaded ks, Content pem)
                | Unreadable \<Rightarrow> (Failed, kf)
                | Content data \<Rightarrow>
                    ((case parseKeySet K data of Some winner \<Rightarrow> Loaded winner | None \<Rightarrow> Failed), kf)))"

text \<open>\<open>Load\<close> of a replica that is alone.\<close>

definition loadKeys :: "keyCodec \<Rightarrow> bytes option \<Rightarrow> rsaKey option \<Rightarrow> bool \<Rightarrow> keyFile \<Rightarrow> loadPhase \<times> keyFile" where
  "loadKeys K env gen tmpOk kf =
     (case loadRead K env gen kf of
        Generated ks \<Rightarrow> persist K tmpOk ks kf
      | ph \<Rightarrow> (ph, kf))"

text \<open>
  What the encodings promise, and what a key has that \<open>GenerateKey\<close> made.
\<close>

definition codec_ok :: "keyCodec \<Rightarrow> bool" where
  "codec_ok K \<longleftrightarrow>
     kc_Decode K [] = (None, [])
     \<and> (\<forall>der rest. kc_Decode K (kc_EncodeToMemory K der @ rest) = (Some der, rest))
     \<and> (\<forall>key der. kc_MarshalPKCS8 K key = Some der \<longrightarrow> kc_ParsePKCS8 K der = RsaKey key)"

definition key_ok :: "keyCodec \<Rightarrow> rsaKey \<Rightarrow> bool" where
  "key_ok K key \<longleftrightarrow> minRSAKeyBits \<le> bit_len (rk_N key) \<and> kc_Validate K key"

text \<open>
  Replicas without the variable, step by step, on one file; a replica may be started again
  at any time.
\<close>

inductive key_run :: "keyCodec \<Rightarrow> keyFile \<Rightarrow> (nat \<Rightarrow> loadPhase) \<Rightarrow> bool" for K where
  kr_init: "key_run K Absent (\<lambda>_. Starting)"
| kr_read: "key_run K kf ph \<Longrightarrow> ph i = Starting \<Longrightarrow> pred_option (key_ok K) gen \<Longrightarrow>
     key_run K kf (ph(i := loadRead K None gen kf))"
| kr_persist: "key_run K kf ph \<Longrightarrow> ph i = Generated ks \<Longrightarrow> persist K tmpOk ks kf = (p, kf') \<Longrightarrow>
     key_run K kf' (ph(i := p))"
| kr_restart: "key_run K kf ph \<Longrightarrow> key_run K kf (ph(i := Starting))"

lemma decode_encoded:
  assumes "codec_ok K" "key_ok K key" "kc_MarshalPKCS8 K key = Some der"
  shows "decodeNextKey K (kc_EncodeToMemory K der @ rest) = (Inr (Some key), rest)"
proof -
  have "kc_Decode K (kc_EncodeToMemory K der @ rest) = (Some der, rest)" "kc_ParsePKCS8 K der = RsaKey key"
    using assms(1,3) by (auto simp: codec_ok_def)
  with assms(2) show ?thesis by (simp add: decodeNextKey_def key_ok_def)
qed

lemma encode_parse:
  assumes "codec_ok K" "key_ok K (ks_Current ks)" "key_ok K (ks_Old ks)" "encodeKeySet K ks = Some pem"
  shows "parseKeySet K pem = Some ks"
proof -
  obtain der1 der2 where der: "kc_MarshalPKCS8 K (ks_Current ks) = Some der1" "kc_MarshalPKCS8 K (ks_Old ks) = Some der2"
    "pem = kc_EncodeToMemory K der1 @ kc_EncodeToMemory K der2"
    using assms(4) by (auto simp: encodeKeySet_def split: option.splits)
  then show ?thesis
    using decode_encoded [OF assms(1,2) der(1)] decode_encoded [OF assms(1,3) der(2), of "[]"]
    by (simp add: parseKeySet_def)
qed

lemma key_run_inv:
  assumes "key_run K kf ph" "codec_ok K"
  shows "(\<forall>i ks. ph i = Loaded ks \<longrightarrow> (\<exists>data. kf = Content data \<and> parseKeySet K data = Some ks))
    \<and> (\<forall>i ks. ph i = Generated ks \<longrightarrow> key_ok K (ks_Current ks) \<and> key_ok K (ks_Old ks)) \<and> kf \<noteq> Unreadable"
  using assms(1)
proof induction
  case (kr_read kf ph i gen)
  then show ?case by (auto simp: loadRead_def split: keyFile.splits option.splits)
next
  case (kr_persist kf ph i ks tmpOk p kf')
  have "parseKeySet K pem = Some ks" if "encodeKeySet K ks = Some pem" for pem
    using encode_parse [OF assms(2) _ _ that] kr_persist.IH kr_persist.hyps(2) by blast
  with kr_persist.IH kr_persist.hyps(2,3) show ?case
    by (auto simp: persist_def split: option.splits keyFile.splits if_splits)
qed auto

text \<open>
  C38. Replicas that start together on one empty volume end up with one key: however the
  reads, the generations and the links of any number of replicas interleave, all that
  finish hold the key set of the file, so any two of them hold the same one.
\<close>

theorem first_start_converges:
  assumes "key_run K kf ph" "codec_ok K" "ph i = Loaded ks" "ph j = Loaded ks'"
  shows "ks = ks' \<and> (\<exists>data. kf = Content data \<and> parseKeySet K data = Some ks)"
proof -
  obtain data where "kf = Content data" "parseKeySet K data = Some ks"
    using key_run_inv [OF assms(1,2)] assms(3) by blast
  moreover obtain data' where "kf = Content data'" "parseKeySet K data' = Some ks'"
    using key_run_inv [OF assms(1,2)] assms(4) by blast
  ultimately show ?thesis by simp
qed

section \<open>Signing\<close>

definition dotnetEpochTicks :: int where "dotnetEpochTicks = 621355968000000000"

text \<open>\<open>UnixNano\<close> wraps around outside of the years 1678 to 2262; division rounds towards zero.\<close>

definition TimeToTicks :: "time \<Rightarrow> int" where
  "TimeToTicks t =
     (let nano = (t - unixEpoch + 2 ^ 63) mod 2 ^ 64 - 2 ^ 63
      in dotnetEpochTicks + (if nano < 0 then - ((- nano) div 100) else nano div 100))"

definition signedBase :: "(string \<Rightarrow> string) \<Rightarrow> string \<Rightarrow> string \<Rightarrow> int \<Rightarrow> bytes" where
  "signedBase toUpper accessToken url ticks =
     (let urlBytes = toUpper url in
      be_bytes4 (word_of_nat (length accessToken)) @ accessToken
      @ be_bytes4 (word_of_nat (length urlBytes)) @ urlBytes
      @ be_bytes4 8 @ be_bytes8 (word_of_int ticks))"

text \<open>\<open>rsa.SignPKCS1v15\<close> with SHA-256: the encoded message, and its exponentiation.\<close>

definition digestInfo :: bytes where
  "digestInfo = map char_of [48, 49, 48, 13, 6, 9, 96, 134, 72, 1, 101, 3, 4, 2, 1, 5, 0, 4, 32 :: nat]"

definition emsa :: "nat \<Rightarrow> bytes \<Rightarrow> bytes" where
  "emsa k data =
     map char_of [0, 1 :: nat] @ replicate (k - 54) (char_of (255 :: nat)) @ [char_of (0 :: nat)] @ digestInfo @ sum256 data"

definition key_bytes :: "nat \<Rightarrow> nat" where
  "key_bytes n = (bit_len n + 7) div 8"

fun mod_pow :: "nat \<Rightarrow> nat \<Rightarrow> nat \<Rightarrow> nat" where
  "mod_pow n b e =
     (if e = 0 then 1 mod n
      else let r = mod_pow n (b * b mod n) (e div 2) in if odd e then b * r mod n else r)"

declare mod_pow.simps [simp del]

lemma mod_pow [simp]: "mod_pow n b e = b ^ e mod n"
proof (induction n b e rule: mod_pow.induct)
  case (1 n b e)
  show ?case
  proof (cases "e = 0")
    case True
    then show ?thesis by (subst mod_pow.simps) simp
  next
    case False
    have ih: "mod_pow n (b * b mod n) (e div 2) = (b * b) ^ (e div 2) mod n"
      using 1 [OF False] by (simp add: power_mod)
    have e: "b ^ e = (if odd e then b else 1) * (b * b) ^ (e div 2)"
      by (cases "odd e") (auto elim!: oddE evenE simp: power_mult power2_eq_square)
    show ?thesis
      by (subst mod_pow.simps) (use False in \<open>simp add: ih e Let_def mod_mult_right_eq\<close>)
  qed
qed

text \<open>
  \<open>None\<close> is the panic: the library refuses a short key, and it verifies its own signature
  before it returns it.
\<close>

definition mustSign :: "rsaKey \<Rightarrow> bytes \<Rightarrow> bytes option" where
  "mustSign key data =
     (let n = rk_N key; k = key_bytes n; m = nat_be (emsa k data); s = mod_pow n m (rk_D key) in
      if bit_len n < 1024 \<or> n \<le> m \<or> mod_pow n s (rk_E key) \<noteq> m then None
      else Some (i2osp k s))"

definition SignRequest :: "(string \<Rightarrow> string) \<Rightarrow> keySet \<Rightarrow> string \<Rightarrow> string \<Rightarrow> time \<Rightarrow> (string \<times> string \<times> string) option" where
  "SignRequest toUpper ks accessToken url ts =
     (let ticks = TimeToTicks ts; base = signedBase toUpper accessToken url ticks in
      case (mustSign (ks_Current ks) base, mustSign (ks_Old ks) base) of
        (Some s1, Some s2) \<Rightarrow> Some (std_encode s1, std_encode s2, format_int ticks)
      | _ \<Rightarrow> None)"

section \<open>The published parts\<close>

record publicKeyParts =
  pp_Value :: string
  pp_Modulus :: string
  pp_Exponent :: string

definition publicKeyParts_of :: "keyCodec \<Rightarrow> rsaKey \<Rightarrow> publicKeyParts option" where
  "publicKeyParts_of K key =
     (case kc_MarshalPKIX K (rk_N key, rk_E key) of
        None \<Rightarrow> None
      | Some spki \<Rightarrow>
          Some \<lparr>pp_Value = std_encode spki, pp_Modulus = std_encode (be_nat (rk_N key)),
                pp_Exponent = std_encode (be_nat (rk_E key))\<rparr>)"

definition CurrentPublicParts :: "keyCodec \<Rightarrow> keySet \<Rightarrow> publicKeyParts option" where
  "CurrentPublicParts K ks = publicKeyParts_of K (ks_Current ks)"

definition OldPublicParts :: "keyCodec \<Rightarrow> keySet \<Rightarrow> publicKeyParts option" where
  "OldPublicParts K ks = publicKeyParts_of K (ks_Old ks)"

end
