(* ===== verification/ProofSafety.thy ===== *)
theory ProofSafety
  imports Proof
begin

text \<open>
  What a WOPI host can rely on: the bytes that are signed say which token, URL and time they
  are for, and the published key verifies what was signed.
\<close>

section \<open>The signed bytes\<close>

lemma byte_at_inj:
  assumes "byte_at k (w :: 'a::len word) = byte_at k v"
  shows "take_bit 8 (drop_bit (8 * k) w) = take_bit 8 (drop_bit (8 * k) v)"
proof -
  have "take_bit 8 i mod 256 = take_bit 8 i" for i :: int by (simp add: take_bit_eq_mod)
  then have "(of_char (byte_at k x) :: int) = uint (take_bit 8 (drop_bit (8 * k) x))" for x :: "'a word"
    by (simp add: byte_at_def unsigned_take_bit_eq)
  with assms show ?thesis by (metis word_uint_eqI)
qed

lemma bits_from_bytes:
  assumes "\<And>k. k < m \<Longrightarrow> byte_at k (w :: 'a::len word) = byte_at k v" "LENGTH('a) = 8 * m"
  shows "w = v"
proof (rule bit_word_eqI)
  fix n assume n: "n < LENGTH('a)"
  have "bit (take_bit 8 (drop_bit (8 * (n div 8)) x)) (n mod 8) = bit x n" for x :: "'a word"
    by (simp add: bit_take_bit_iff bit_drop_bit_eq)
  moreover have "n div 8 < m" using n assms(2) by simp
  ultimately show "bit w n = bit v n" using byte_at_inj [OF assms(1)] by metis
qed

lemma be_bytes4_inj: "be_bytes4 w = be_bytes4 v \<longleftrightarrow> w = v"
proof
  assume "be_bytes4 w = be_bytes4 v"
  then have "byte_at k w = byte_at k v" if "k < 4" for k
    using that by (auto simp: be_bytes4_def less_Suc_eq eval_nat_numeral)
  then show "w = v" by (rule bits_from_bytes) simp_all
qed simp

lemma be_bytes8_inj: "be_bytes8 w = be_bytes8 v \<longleftrightarrow> w = v"
proof
  assume "be_bytes8 w = be_bytes8 v"
  then have "byte_at k w = byte_at k v" if "k < 8" for k
    using that by (auto simp: be_bytes8_def less_Suc_eq eval_nat_numeral)
  then show "w = v" by (rule bits_from_bytes) simp_all
qed simp

lemma length_prefix:
  assumes "be_bytes4 (word_of_nat (length s)) @ s @ t = be_bytes4 (word_of_nat (length s')) @ s' @ t'"
    "length s < 2 ^ 32" "length s' < 2 ^ 32"
  shows "s = s' \<and> t = t'"
proof -
  have "be_bytes4 (word_of_nat (length s)) = be_bytes4 (word_of_nat (length s'))" "s @ t = s' @ t'"
    using assms(1) by (simp_all add: append_eq_append_conv)
  moreover from this(1) have "length s = length s'"
    using assms(2,3) by (simp add: be_bytes4_inj word_of_nat_eq_iff take_bit_nat_eq_self)
  ultimately show ?thesis by simp
qed

text \<open>
  C39. The signed bytes are unambiguous: two requests whose token and URL are shorter than
  four gigabytes have the same signed bytes only if they agree in the token, in the URL up
  to letter case and in the time stamp, so a proof cannot be moved to another request.
\<close>

theorem signed_base_injective:
  assumes "signedBase toUpper t u k = signedBase toUpper t' u' k'"
    and "length t < 2 ^ 32" "length t' < 2 ^ 32" "length (toUpper u) < 2 ^ 32" "length (toUpper u') < 2 ^ 32"
    and "- (2 ^ 63) \<le> k" "k < 2 ^ 63" "- (2 ^ 63) \<le> k'" "k' < 2 ^ 63"
  shows "t = t' \<and> toUpper u = toUpper u' \<and> k = k'"
proof -
  have a: "t = t' \<and> be_bytes4 (word_of_nat (length (toUpper u))) @ toUpper u @ be_bytes4 8 @ be_bytes8 (word_of_int k)
      = be_bytes4 (word_of_nat (length (toUpper u'))) @ toUpper u' @ be_bytes4 8 @ be_bytes8 (word_of_int k')"
    by (rule length_prefix) (use assms(1-3) in \<open>simp_all add: signedBase_def Let_def\<close>)
  then have b: "toUpper u = toUpper u' \<and> be_bytes4 8 @ be_bytes8 (word_of_int k) = be_bytes4 8 @ be_bytes8 (word_of_int k')"
    by (intro length_prefix) (use assms(4,5) in simp_all)
  then have "(word_of_int k :: 64 word) = word_of_int k'" by (simp add: be_bytes8_inj)
  then have "sint (word_of_int k :: 64 word) = sint (word_of_int k' :: 64 word)" by simp
  then have "k = k'" using assms(6-9) by (simp add: signed_of_int signed_take_bit_int_eq_self)
  with a b show ?thesis by blast
qed

theorem signed_base_injective_witness:
  "signedBase (\<lambda>s. if s = ''u'' then ''U'' else s) ''t'' ''u'' 5 = signedBase (\<lambda>s. if s = ''u'' then ''U'' else s) ''t'' ''U'' 5
    \<and> (''t'' = ''t'' \<and> (if ''u'' = ''u'' then ''U'' else ''u'') = ''U'' \<and> (5 :: int) = 5)"
proof -
  let ?up = "\<lambda>s. if s = ''u'' then ''U'' else s"
  have "signedBase ?up ''t'' ''u'' 5 = signedBase ?up ''t'' ''U'' 5" by (simp add: signedBase_def)
  from this signed_base_injective [OF this] show ?thesis by simp
qed

section \<open>The time stamp\<close>

lemma ticks_range: "- (2 ^ 63) \<le> TimeToTicks t \<and> TimeToTicks t < 2 ^ 63"
proof -
  have "- (2 ^ 63) \<le> (t - unixEpoch + 2 ^ 63) mod 2 ^ 64 - 2 ^ 63" "(t - unixEpoch + 2 ^ 63) mod 2 ^ 64 - 2 ^ 63 < 2 ^ 63"
    by simp_all
  then show ?thesis by (auto simp: TimeToTicks_def dotnetEpochTicks_def Let_def)
qed

lemma ticks_dotnet: "unixEpoch \<le> t \<Longrightarrow> t < unixEpoch + 2 ^ 63 \<Longrightarrow> TimeToTicks t = t div 100"
  by (simp add: TimeToTicks_def dotnetEpochTicks_def Let_def unixEpoch_def second_def)

section \<open>Verification\<close>

lemma nat_be_less: "nat_be bs < 256 ^ length bs"
proof (induction bs rule: rev_induct)
  case (snoc c bs)
  have "(of_char c :: nat) < 256" using of_char_mod_256 [of c] by (metis mod_less_divisor zero_less_numeral)
  then have "256 * nat_be bs + of_char c < 256 * Suc (nat_be bs)" by simp
  also have "\<dots> \<le> 256 * 256 ^ length bs" using snoc by (intro mult_le_mono2 Suc_leI)
  finally show ?case by simp
qed (simp add: nat_be_def)

lemma bit_len_le: "n \<noteq> 0 \<Longrightarrow> 2 ^ (bit_len n - 1) \<le> n"
proof (induction n rule: bit_len.induct)
  case (1 n)
  show ?case
  proof (cases "n div 2 = 0")
    case True
    with 1 show ?thesis by (subst bit_len.simps) (simp add: bit_len.simps)
  next
    case False
    then have "bit_len (n div 2) \<noteq> 0" by (subst bit_len.simps) simp
    then obtain m where m: "bit_len (n div 2) = Suc m" by (cases "bit_len (n div 2)") auto
    have "2 ^ m \<le> n div 2" using 1 False m by simp
    then show ?thesis using 1 m by (subst bit_len.simps) simp
  qed
qed

lemma emsa_less:
  assumes "1024 \<le> bit_len n"
  shows "nat_be (emsa (key_bytes n) data) < n"
proof -
  let ?k = "key_bytes n"
  have k: "62 \<le> ?k" "8 * (?k - 1) \<le> bit_len n - 1"
    using assms by (simp_all add: key_bytes_def)
  let ?rest = "[char_of (1 :: nat)] @ replicate (?k - 54) (char_of (255 :: nat)) @ [char_of (0 :: nat)] @ digestInfo @ sum256 data"
  have "emsa ?k data = replicate 1 (char_of (0 :: nat)) @ ?rest" by (simp add: emsa_def)
  then have "nat_be (emsa ?k data) = nat_be ?rest" by (metis nat_be_zeros)
  also have "\<dots> < 256 ^ length ?rest" by (rule nat_be_less)
  also have "length ?rest = ?k - 1" using k(1) by (simp add: digestInfo_def)
  also have "(256 :: nat) ^ (?k - 1) = 2 ^ (8 * (?k - 1))" by (simp add: power_mult)
  also have "\<dots> \<le> 2 ^ (bit_len n - 1)" using k(2) by simp
  also have "\<dots> \<le> n"
  proof (rule bit_len_le)
    have "bit_len 0 = 0" by (subst bit_len.simps) simp
    then show "n \<noteq> 0" using assms by (cases "n = 0") simp_all
  qed
  finally show ?thesis .
qed

text \<open>A key pair: the exponents undo each other, and it is as long as \<open>Load\<close> asks for.\<close>

definition rsa_ok :: "rsaKey \<Rightarrow> bool" where
  "rsa_ok key \<longleftrightarrow> minRSAKeyBits \<le> bit_len (rk_N key)
     \<and> (\<forall>m < rk_N key. (m ^ rk_D key mod rk_N key) ^ rk_E key mod rk_N key = m)"

text \<open>
  A WOPI host's check of a request, from the attributes of the discovery document, a proof
  header and the time stamp header: RSASSA-PKCS1-v1_5 with SHA-256 over the signed bytes.
\<close>

definition host_verifies :: "(string \<Rightarrow> string) \<Rightarrow> publicKeyParts \<Rightarrow> string \<Rightarrow> string \<Rightarrow> string \<Rightarrow> string \<Rightarrow> bool" where
  "host_verifies toUpper parts sig token url timestamp =
     (case (std_decode (pp_Modulus parts), std_decode (pp_Exponent parts), std_decode sig, parse_int timestamp) of
        (Some n, Some e, Some s, Some ticks) \<Rightarrow>
          nat_be s ^ nat_be e mod nat_be n
            = nat_be (emsa (key_bytes (nat_be n)) (signedBase toUpper token url ticks))
      | _ \<Rightarrow> False)"

lemma signed_verifies:
  assumes "publicKeyParts_of K key = Some parts"
    "mustSign key (signedBase toUpper token url ticks) = Some s" "parse_int timestamp = Some ticks"
  shows "host_verifies toUpper parts (std_encode s) token url timestamp"
  using assms
  by (auto simp: host_verifies_def publicKeyParts_of_def mustSign_def Let_def split: option.splits if_splits)

lemma published_key_verifies:
  assumes "rsa_ok (ks_Current ks)" "rsa_ok (ks_Old ks)"
    and "CurrentPublicParts K ks = Some current" "OldPublicParts K ks = Some old"
    and "unixEpoch \<le> ts" "ts < unixEpoch + 2 ^ 63"
  shows "\<exists>proof proofOld timestamp. SignRequest toUpper ks token url ts = Some (proof, proofOld, timestamp)
    \<and> host_verifies toUpper current proof token url timestamp
    \<and> host_verifies toUpper old proofOld token url timestamp
    \<and> parse_int timestamp = Some (ts div 100)"
proof -
  let ?ticks = "TimeToTicks ts"
  have p: "parse_int (format_int ?ticks) = Some ?ticks" 
    using ticks_range [of ts] by (intro parse_format_int) simp_all
  have len: "\<exists>s. mustSign key data = Some s" if "rsa_ok key" for key data
    using that emsa_less [of "rk_N key" data] by (simp add: mustSign_def rsa_ok_def minRSAKeyBits_def Let_def)
  obtain s1 s2 where s: "mustSign (ks_Current ks) (signedBase toUpper token url ?ticks) = Some s1"
    "mustSign (ks_Old ks) (signedBase toUpper token url ?ticks) = Some s2"
    using len assms(1,2) by blast
  have "host_verifies toUpper current (std_encode s1) token url (format_int ?ticks)"
    using signed_verifies [OF _ s(1) p] assms(3) by (simp add: CurrentPublicParts_def)
  moreover have "host_verifies toUpper old (std_encode s2) token url (format_int ?ticks)"
    using signed_verifies [OF _ s(2) p] assms(4) by (simp add: OldPublicParts_def)
  ultimately show ?thesis using s p ticks_dotnet [OF assms(5,6)] by (simp add: SignRequest_def Let_def)
qed

section \<open>An example\<close>

definition demoKey :: rsaKey where
  "demoKey = \<lparr>rk_N = 2 ^ 2047, rk_E = 1, rk_D = 1\<rparr>"

fun demoDecode :: "bytes \<Rightarrow> bytes option \<times> bytes" where
  "demoDecode [] = (None, [])"
| "demoDecode (c # rest) =
     (if c = CHR 0x00 then (Some [], rest)
      else case rest of
             [] \<Rightarrow> (None, [])
           | d # rest' \<Rightarrow> (case demoDecode rest' of (b, r) \<Rightarrow> (map_option ((#) d) b, r)))"

definition demoCodec :: keyCodec where
  "demoCodec =
     \<lparr>kc_Decode = demoDecode,
      kc_EncodeToMemory = (\<lambda>der. concat (map (\<lambda>c. [CHR 0x01, c]) der) @ [CHR 0x00]),
      kc_ParsePKCS8 = (\<lambda>der. if der = ''k'' then RsaKey demoKey else ParseError),
      kc_Validate = (\<lambda>_. True),
      kc_MarshalPKCS8 = (\<lambda>key. if key = demoKey then Some ''k'' else None),
      kc_MarshalPKIX = (\<lambda>_. Some ''spki'')\<rparr>"

lemma demoDecode_encoded:
  "demoDecode (concat (map (\<lambda>c. [CHR 0x01, c]) der) @ CHR 0x00 # rest) = (Some der, rest)"
  by (induction der) simp_all

lemma demoCodec_ok: "codec_ok demoCodec"
  by (auto simp: codec_ok_def demoCodec_def demoDecode_encoded split: if_splits)

lemma bit_len_power: "bit_len (2 ^ k) = Suc k"
  by (induction k) (simp_all add: bit_len.simps [of "2 * _"] bit_len.simps [of "Suc 0"] bit_len.simps [of 0])

lemma demoKey_ok: "rsa_ok demoKey"
  by (simp add: rsa_ok_def demoKey_def minRSAKeyBits_def bit_len_power del: power_numeral)

theorem first_start_converges_witness:
  "\<exists>data. parseKeySet demoCodec data = Some \<lparr>ks_Current = demoKey, ks_Old = demoKey\<rparr>"
proof -
  let ?K = demoCodec and ?ks = "\<lparr>ks_Current = demoKey, ks_Old = demoKey\<rparr>"
  have key: "key_ok ?K demoKey" using demoKey_ok by (simp add: rsa_ok_def key_ok_def demoCodec_def)
  obtain pem where pem: "encodeKeySet ?K ?ks = Some pem" by (simp add: encodeKeySet_def demoCodec_def)
  have parse: "parseKeySet ?K pem = Some ?ks" by (rule encode_parse) (use demoCodec_ok key pem in simp_all)
  have first: "persist ?K True ?ks Absent = (Loaded ?ks, Content pem)"
    and second: "persist ?K True ?ks (Content pem) = (Loaded ?ks, Content pem)"
    unfolding persist_def pem by (simp_all add: parse)
  have gen: "loadRead ?K None (Some demoKey) Absent = Generated ?ks" by (simp add: loadRead_def)
  have "key_run ?K Absent ((\<lambda>_. Starting)(0 := Generated ?ks))"
    using kr_read [OF kr_init, of ?K "Some demoKey" 0] key gen by simp
  then have "key_run ?K Absent ((\<lambda>_. Starting)(0 := Generated ?ks, 1 := Generated ?ks))"
    using kr_read [of ?K Absent _ 1 "Some demoKey"] key gen by fastforce
  then have "key_run ?K (Content pem) ((\<lambda>_. Starting)(0 := Generated ?ks, 1 := Generated ?ks, 0 := Loaded ?ks))"
    by (rule kr_persist [OF _ _ first]) simp
  then have "key_run ?K (Content pem) ((\<lambda>_. Starting)(0 := Generated ?ks, 1 := Generated ?ks, 0 := Loaded ?ks, 1 := Loaded ?ks))"
    by (rule kr_persist [OF _ _ second]) simp
  from first_start_converges [OF this demoCodec_ok, of 0 ?ks 1 ?ks] show ?thesis by auto
qed

end
