(* ===== verification/Discovery.thy ===== *)
theory Discovery
  imports ProofSafety JsonText GoHttp
begin

text \<open>
  \<open>internal/discovery\<close>: the WOPI discovery document. Of \<open>encoding/xml\<close> it has what the
  document uses: elements with attributes, two spaces of indentation and the escaping of
  attribute values.
\<close>

section \<open>Escaping\<close>

text \<open>
  \<open>xml.EscapeString\<close>: marks and white space become references, what is no character of XML
  (control characters, U+FFFE and U+FFFF, invalid bytes) becomes U+FFFD.
\<close>

definition xml_ascii :: "char \<Rightarrow> string" where
  "xml_ascii c =
     (if c = CHR 0x22 then ''&#34;''
      else if c = CHR 0x27 then ''&#39;''
      else if c = CHR ''&'' then ''&amp;''
      else if c = CHR ''<'' then ''&lt;''
      else if c = CHR ''>'' then ''&gt;''
      else if c = CHR 0x09 then ''&#x9;''
      else if c = CHR 0x0A then ''&#xA;''
      else if c = CHR 0x0D then ''&#xD;''
      else if code c < 32 then replacement
      else [c])"

definition xml_rune :: "string \<Rightarrow> string" where
  "xml_rune r = (if r \<in> {map byte [239, 191, 190], map byte [239, 191, 191]} then replacement else r)"

function xml_escape :: "string \<Rightarrow> string" where
  "xml_escape [] = []"
| "xml_escape (a # s) =
     (if code a < 128 then xml_ascii a @ xml_escape s
      else if rune_len (a # s) = 0 then replacement @ xml_escape s
      else xml_rune (take (rune_len (a # s)) (a # s)) @ xml_escape (drop (rune_len (a # s) - 1) s))"
  by pat_completeness auto
termination by (relation "measure length") auto

section \<open>The document\<close>

record xmlAction =
  xa_Name :: string
  xa_Ext :: string
  xa_URLSrc :: string

record xmlApp =
  xp_Name :: string
  xp_Action :: xmlAction

record netZone =
  nz_Name :: string
  nz_Apps :: "xmlApp list"

record proofKey =
  pk_Value :: string
  pk_Modulus :: string
  pk_Exponent :: string
  pk_OldValue :: string
  pk_OldModulus :: string
  pk_OldExponent :: string

record discoveryXML =
  dx_NetZone :: netZone
  dx_ProofKey :: "proofKey option"

text \<open>An element on a line of its own at some depth; \<open>MarshalIndent\<close> never shortens an empty one.\<close>

definition xml_header :: string where
  "xml_header = ''<?xml version='' @ [CHR 0x22] @ ''1.0'' @ [CHR 0x22] @ '' encoding='' @ [CHR 0x22] @ ''UTF-8''
     @ [CHR 0x22] @ ''?>'' @ [CHR 0x0A]"

definition xml_attr :: "string \<times> string \<Rightarrow> string" where
  "xml_attr kv = '' '' @ fst kv @ ''='' @ [CHR 0x22] @ xml_escape (snd kv) @ [CHR 0x22]"

definition xml_open :: "string \<Rightarrow> (string \<times> string) list \<Rightarrow> string" where
  "xml_open name attrs = ''<'' @ name @ concat (map xml_attr attrs) @ ''>''"

definition xml_close :: "string \<Rightarrow> string" where
  "xml_close name = ''</'' @ name @ ''>''"

definition xml_line :: "nat \<Rightarrow> string" where
  "xml_line depth = CHR 0x0A # replicate (2 * depth) CHR '' ''"

definition xml_action :: "xmlAction \<Rightarrow> string" where
  "xml_action a =
     xml_line 3 @ xml_open ''action'' [(''name'', xa_Name a), (''ext'', xa_Ext a), (''urlsrc'', xa_URLSrc a)]
     @ xml_close ''action''"

definition xml_app :: "xmlApp \<Rightarrow> string" where
  "xml_app a =
     xml_line 2 @ xml_open ''app'' [(''name'', xp_Name a)] @ xml_action (xp_Action a) @ xml_line 2 @ xml_close ''app''"

definition xml_netZone :: "netZone \<Rightarrow> string" where
  "xml_netZone z =
     xml_line 1 @ xml_open ''net-zone'' [(''name'', nz_Name z)] @ concat (map xml_app (nz_Apps z))
     @ (if nz_Apps z = [] then [] else xml_line 1) @ xml_close ''net-zone''"

definition xml_proofKey :: "proofKey \<Rightarrow> string" where
  "xml_proofKey k =
     xml_line 1 @ xml_open ''proof-key''
       [(''value'', pk_Value k), (''modulus'', pk_Modulus k), (''exponent'', pk_Exponent k),
        (''oldvalue'', pk_OldValue k), (''oldmodulus'', pk_OldModulus k), (''oldexponent'', pk_OldExponent k)]
     @ xml_close ''proof-key''"

definition marshal_discovery :: "discoveryXML \<Rightarrow> string" where
  "marshal_discovery d =
     xml_open ''wopi-discovery'' [] @ xml_netZone (dx_NetZone d)
     @ (case dx_ProofKey d of None \<Rightarrow> [] | Some k \<Rightarrow> xml_proofKey k)
     @ xml_line 0 @ xml_close ''wopi-discovery''"

section \<open>Rendering\<close>

definition netZoneName :: "string \<Rightarrow> string" where
  "netZoneName publicURL =
     (case url_parse publicURL of
        Some u \<Rightarrow> if u_Scheme u = ''https'' then ''external-https'' else ''external-http''
      | None \<Rightarrow> ''external-http'')"

definition Render :: "keyCodec \<Rightarrow> string \<Rightarrow> keySet \<Rightarrow> bytes option" where
  "Render K publicURL ks =
     (case CurrentPublicParts K ks of
        None \<Rightarrow> None
      | Some current \<Rightarrow>
          (case OldPublicParts K ks of
             None \<Rightarrow> None
           | Some old \<Rightarrow>
               Some (xml_header @ marshal_discovery
                 \<lparr>dx_NetZone = \<lparr>nz_Name = netZoneName publicURL,
                    nz_Apps = [\<lparr>xp_Name = ''excalidraw'',
                      xp_Action = \<lparr>xa_Name = ''edit'', xa_Ext = ''excalidraw'', xa_URLSrc = publicURL @ ''/launch''\<rparr>\<rparr>]\<rparr>,
                  dx_ProofKey = Some \<lparr>pk_Value = pp_Value current, pk_Modulus = pp_Modulus current,
                    pk_Exponent = pp_Exponent current, pk_OldValue = pp_Value old, pk_OldModulus = pp_Modulus old,
                    pk_OldExponent = pp_Exponent old\<rparr>\<rparr>)))"

definition discoveryHandler :: "keyCodec \<Rightarrow> string \<Rightarrow> keySet \<Rightarrow> httpReply" where
  "discoveryHandler K publicURL ks =
     (case Render K publicURL ks of
        None \<Rightarrow> http_error ''failed to render discovery xml'' 500
      | Some body \<Rightarrow> \<lparr>hr_status = 200, hr_header = [(''Content-Type'', ''text/xml'')], hr_body = body\<rparr>)"

section \<open>Reading it back\<close>

text \<open>A reader of such documents: tags with their attributes, and white space between them.\<close>

datatype xmlEvent =
    Open string "(string \<times> string) list"
  | Close string

definition entity :: "string \<Rightarrow> string option" where
  "entity name =
     map_of [(''#34'', [CHR 0x22]), (''#39'', [CHR 0x27]), (''amp'', ''&''), (''lt'', ''<''), (''gt'', ''>''),
       (''#x9'', [CHR 0x09]), (''#xA'', [CHR 0x0A]), (''#xD'', [CHR 0x0D])] name"

fun xml_unescape :: "nat \<Rightarrow> string \<Rightarrow> string option" where
  "xml_unescape 0 s = None"
| "xml_unescape (Suc n) [] = Some []"
| "xml_unescape (Suc n) (c # s) =
     (if c = CHR ''&'' then
        (case cut CHR '';'' s of
           (name, rest, True) \<Rightarrow>
             (case (entity name, xml_unescape n rest) of (Some x, Some t) \<Rightarrow> Some (x @ t) | _ \<Rightarrow> None)
         | _ \<Rightarrow> None)
      else map_option ((#) c) (xml_unescape n s))"

fun read_attrs :: "nat \<Rightarrow> string \<Rightarrow> ((string \<times> string) list \<times> string) option" where
  "read_attrs 0 s = None"
| "read_attrs (Suc n) [] = None"
| "read_attrs (Suc n) (c # s) =
     (if c = CHR ''>'' then Some ([], s)
      else if c = CHR '' '' then
        (case cut CHR ''='' s of
           (name, q # r, True) \<Rightarrow>
             if q \<noteq> CHR 0x22 then None
             else (case cut CHR 0x22 r of
               (v, r', True) \<Rightarrow>
                 (case (xml_unescape (Suc (length v)) v, read_attrs n r') of
                    (Some x, Some (as, t)) \<Rightarrow> Some ((name, x) # as, t)
                  | _ \<Rightarrow> None)
             | _ \<Rightarrow> None)
         | _ \<Rightarrow> None)
      else None)"

definition name_end :: "char \<Rightarrow> bool" where
  "name_end c \<longleftrightarrow> c = CHR '' '' \<or> c = CHR ''>''"

fun read_tags :: "nat \<Rightarrow> string \<Rightarrow> xmlEvent list option" where
  "read_tags 0 s = None"
| "read_tags (Suc n) s =
     (case dropWhile (\<lambda>c. c = CHR '' '' \<or> c = CHR 0x0A) s of
        [] \<Rightarrow> Some []
      | c # r \<Rightarrow>
          if c \<noteq> CHR ''<'' then None
          else if starts_with r ''/'' then
            (case cut CHR ''>'' (tl r) of (name, rest, _) \<Rightarrow> map_option ((#) (Close name)) (read_tags n rest))
          else
            (case read_attrs (length r) (dropWhile (\<lambda>c. \<not> name_end c) r) of
               None \<Rightarrow> None
             | Some (as, rest) \<Rightarrow>
                 map_option ((#) (Open (takeWhile (\<lambda>c. \<not> name_end c) r) as)) (read_tags n rest)))"

definition read_document :: "string \<Rightarrow> xmlEvent list option" where
  "read_document doc =
     (if starts_with doc xml_header then read_tags (length doc) (drop (length xml_header) doc) else None)"

end
