(* ===== verification/DiscoverySafety.thy ===== *)
theory DiscoverySafety
  imports Discovery
begin

text \<open>
  The discovery document reads back, whatever the public URL, and the keys in it verify what
  the service signs.
\<close>

section \<open>Attribute values read back\<close>

text \<open>The value a reader sees: the given one, with U+FFFD for what is no character of XML.\<close>

function xml_fix :: "string \<Rightarrow> string" where
  "xml_fix [] = []"
| "xml_fix (a # s) =
     (if code a < 128 then
        (if code a < 32 \<and> a \<notin> {CHR 0x09, CHR 0x0A, CHR 0x0D} then replacement else [a]) @ xml_fix s
      else if rune_len (a # s) = 0 then replacement @ xml_fix s
      else xml_rune (take (rune_len (a # s)) (a # s)) @ xml_fix (drop (rune_len (a # s) - 1) s))"
  by pat_completeness auto
termination by (relation "measure length") auto

lemma xml_fix_plain: "\<forall>c \<in> set s. 32 \<le> code c \<and> code c < 128 \<Longrightarrow> xml_fix s = s"
  by (induction s) auto

lemma replacement_high: "c \<in> set replacement \<Longrightarrow> 128 \<le> code c"
  by (auto simp: replacement_def)

lemma xml_rune_high:
  assumes "\<not> code a < 128" "rune_len (a # s) \<noteq> 0" "c \<in> set (xml_rune (take (rune_len (a # s)) (a # s)))"
  shows "128 \<le> code c"
  using assms rune_high [OF assms(1), of c s] replacement_high by (auto simp: xml_rune_def split: if_splits)

lemma unescape_prefix:
  "\<forall>c \<in> set p. c \<noteq> CHR ''&'' \<Longrightarrow> length p \<le> n \<Longrightarrow>
    xml_unescape (Suc n) (p @ t) = map_option ((@) p) (xml_unescape (Suc (n - length p)) t)"
proof (induction p arbitrary: n)
  case (Cons c p)
  then show ?case by (cases n) (simp_all add: option.map_comp comp_def)
next
  case Nil
  then show ?case by (cases "xml_unescape (Suc n) t") simp_all
qed

lemma high_not_amp: "128 \<le> code c \<Longrightarrow> c \<noteq> CHR ''&''"
  by auto

lemma unescape_high:
  assumes "\<And>c. c \<in> set p \<Longrightarrow> 128 \<le> code c" "length p \<le> n"
  shows "xml_unescape (Suc n) (p @ t) = map_option ((@) p) (xml_unescape (Suc (n - length p)) t)"
  by (rule unescape_prefix) (use assms high_not_amp in auto)

lemma unescape_ascii:
  assumes "code a < 128" "length (xml_ascii a) \<le> n"
  shows "\<exists>m. n - length (xml_ascii a) \<le> m \<and> xml_unescape (Suc n) (xml_ascii a @ t)
    = map_option ((@) (if code a < 32 \<and> a \<notin> {CHR 0x09, CHR 0x0A, CHR 0x0D} then replacement else [a])) (xml_unescape (Suc m) t)"
proof -
  consider (mark) "a \<in> {CHR 0x22, CHR 0x27, CHR ''&'', CHR ''<'', CHR ''>'', CHR 0x09, CHR 0x0A, CHR 0x0D}"
    | (bad) "xml_ascii a = replacement" "code a < 32 \<and> a \<notin> {CHR 0x09, CHR 0x0A, CHR 0x0D}"
    | (plain) "xml_ascii a = [a]" "\<not> (code a < 32 \<and> a \<notin> {CHR 0x09, CHR 0x0A, CHR 0x0D})" "a \<noteq> CHR ''&''"
  proof (cases "a \<in> {CHR 0x22, CHR 0x27, CHR ''&'', CHR ''<'', CHR ''>'', CHR 0x09, CHR 0x0A, CHR 0x0D}")
    case True
    then show thesis by (rule mark)
  next
    case False
    then show thesis by (cases "code a < 32") (auto simp: xml_ascii_def intro: bad plain)
  qed
  then show ?thesis
  proof cases
    case mark
    then obtain m where n: "n = Suc m" using assms(2) by (cases n) (auto simp: xml_ascii_def)
    show ?thesis
      by (intro exI [of _ m]) (use mark n in \<open>auto simp: xml_ascii_def entity_def split: option.split\<close>)
  next
    case bad
    then show ?thesis using unescape_high [of replacement n t] replacement_high assms(2) by auto
  next
    case plain
    then show ?thesis using unescape_prefix [of "[a]" n t] assms(2) by auto
  qed
qed

lemma xml_unescape_escape: "length (xml_escape s) \<le> n \<Longrightarrow> xml_unescape (Suc n) (xml_escape s) = Some (xml_fix s)"
proof (induction s arbitrary: n rule: xml_escape.induct)
  case (2 a s)
  let ?k = "rune_len (a # s)"
  consider (ascii) "code a < 128" | (bad) "\<not> code a < 128" "?k = 0" | (multi) "\<not> code a < 128" "?k \<noteq> 0"
    by blast
  then show ?case
  proof cases
    case ascii
    then obtain m where "n - length (xml_ascii a) \<le> m" "xml_unescape (Suc n) (xml_ascii a @ xml_escape s)
        = map_option ((@) (if code a < 32 \<and> a \<notin> {CHR 0x09, CHR 0x0A, CHR 0x0D} then replacement else [a]))
          (xml_unescape (Suc m) (xml_escape s))"
      using unescape_ascii [of a n "xml_escape s"] "2.prems" by auto
    with 2 ascii show ?thesis by simp
  next
    case bad
    with 2 show ?thesis using unescape_high [of replacement n "xml_escape s"] replacement_high by simp
  next
    case multi
    let ?r = "xml_rune (take ?k (a # s))"
    have "xml_unescape (Suc n) (?r @ xml_escape (drop (?k - 1) s))
        = map_option ((@) ?r) (xml_unescape (Suc (n - length ?r)) (xml_escape (drop (?k - 1) s)))"
      by (rule unescape_high) (use multi xml_rune_high "2.prems" in auto)
    with 2 multi show ?thesis by simp
  qed
qed simp

lemma xml_escape_no_quote: "CHR 0x22 \<notin> set (xml_escape s)"
proof (induction s rule: xml_escape.induct)
  case (2 a s)
  let ?k = "rune_len (a # s)"
  have r: "CHR 0x22 \<notin> set replacement" using replacement_high [of "CHR 0x22"] by auto
  then have "CHR 0x22 \<notin> set (xml_ascii a)" by (simp add: xml_ascii_def)
  moreover note r
  moreover have "CHR 0x22 \<notin> set (xml_rune (take ?k (a # s)))" if "\<not> code a < 128" "?k \<noteq> 0"
    using xml_rune_high [OF that] by fastforce
  ultimately show ?case using 2 by simp
qed simp

section \<open>Tags read back\<close>

definition xml_name :: "string \<Rightarrow> bool" where
  "xml_name s \<longleftrightarrow> s \<noteq> [] \<and> \<not> starts_with s ''/'' \<and> CHR ''='' \<notin> set s \<and> CHR ''>'' \<notin> set s \<and> CHR '' '' \<notin> set s"

lemma read_attrs_print:
  "\<forall>kv \<in> set as. xml_name (fst kv) \<Longrightarrow> length as < n \<Longrightarrow>
    read_attrs n (concat (map xml_attr as) @ CHR ''>'' # t) = Some (map (\<lambda>kv. (fst kv, xml_fix (snd kv))) as, t)"
proof (induction as arbitrary: n)
  case Nil
  then show ?case by (cases n) simp_all
next
  case (Cons kv as)
  obtain m where n: "n = Suc m" using Cons.prems by (cases n) simp_all
  define rest where "rest = concat (map xml_attr as) @ CHR ''>'' # t"
  have "cut CHR ''='' (fst kv @ CHR ''='' # CHR 0x22 # xml_escape (snd kv) @ CHR 0x22 # rest)
      = (fst kv, CHR 0x22 # xml_escape (snd kv) @ CHR 0x22 # rest, True)"
    by (rule cut_append) (use Cons.prems in \<open>simp add: xml_name_def\<close>)
  moreover have "cut CHR 0x22 (xml_escape (snd kv) @ CHR 0x22 # rest) = (xml_escape (snd kv), rest, True)"
    by (rule cut_append) (rule xml_escape_no_quote)
  moreover have "read_attrs m rest = Some (map (\<lambda>kv. (fst kv, xml_fix (snd kv))) as, t)"
    using Cons n by (simp add: rest_def)
  moreover have "concat (map xml_attr (kv # as)) @ CHR ''>'' # t
      = CHR '' '' # fst kv @ CHR ''='' # CHR 0x22 # xml_escape (snd kv) @ CHR 0x22 # rest"
    by (simp add: xml_attr_def rest_def)
  ultimately show ?case
    using n xml_unescape_escape [of "snd kv", OF order_refl] by simp
qed

lemma read_line [simp]: "read_tags (Suc n) (xml_line d @ t) = read_tags (Suc n) t"
proof -
  have "dropWhile (\<lambda>c. c = CHR '' '' \<or> c = CHR 0x0A) (replicate k CHR '' '' @ t)
      = dropWhile (\<lambda>c. c = CHR '' '' \<or> c = CHR 0x0A) t" for k
    by (induction k) simp_all
  then show ?thesis by (simp add: xml_line_def)
qed

lemma read_close:
  "CHR ''>'' \<notin> set name \<Longrightarrow>
    read_tags (Suc n) (xml_close name @ t) = map_option ((#) (Close name)) (read_tags n t)"
  using cut_append [of "CHR ''>''" name t] by (simp add: xml_close_def starts_with_def)

lemma read_open:
  assumes "xml_name name" "\<forall>kv \<in> set as. xml_name (fst kv)"
  shows "read_tags (Suc n) (xml_open name as @ t)
    = map_option ((#) (Open name (map (\<lambda>kv. (fst kv, xml_fix (snd kv))) as))) (read_tags n t)"
proof -
  let ?r = "name @ concat (map xml_attr as) @ CHR ''>'' # t"
  obtain d u where rest: "concat (map xml_attr as) @ CHR ''>'' # t = d # u" "name_end d"
    by (cases as) (auto simp: xml_attr_def name_end_def)
  have "\<forall>c \<in> set name. \<not> name_end c" using assms(1) by (auto simp: xml_name_def name_end_def)
  then have tw: "takeWhile (\<lambda>c. \<not> name_end c) ?r = name" "dropWhile (\<lambda>c. \<not> name_end c) ?r = d # u"
    using rest by (simp_all add: takeWhile_append2 dropWhile_append2)
  have "length as \<le> length (concat (map xml_attr as))" by (induction as) (simp_all add: xml_attr_def)
  then have "read_attrs (length ?r) (d # u) = Some (map (\<lambda>kv. (fst kv, xml_fix (snd kv))) as, t)"
    using read_attrs_print [OF assms(2)] by (simp flip: rest(1))
  moreover have "\<not> starts_with ?r ''/''" using assms(1) by (cases name) (simp_all add: xml_name_def starts_with_def)
  ultimately show ?thesis using tw by (simp add: xml_open_def)
qed

lemma xml_names:
  "xml_name ''name''" "xml_name ''ext''" "xml_name ''urlsrc''" "xml_name ''value''" "xml_name ''modulus''"
  "xml_name ''exponent''" "xml_name ''oldvalue''" "xml_name ''oldmodulus''" "xml_name ''oldexponent''"
  "xml_name ''wopi-discovery''" "xml_name ''net-zone''" "xml_name ''app''" "xml_name ''action''" "xml_name ''proof-key''"
  by (simp_all add: xml_name_def starts_with_def)

section \<open>The whole document\<close>

lemma std_encode_plain: "c \<in> set (std_encode bs) \<Longrightarrow> 32 \<le> code c \<and> code c < 128"
proof -
  have "\<forall>d \<in> set b64std_alphabet. 32 \<le> code d \<and> code d < 128" by (simp add: b64std_alphabet_def)
  moreover have "length b64std_alphabet = 64" by (simp add: b64std_alphabet_def)
  ultimately have "32 \<le> code (b64std_alphabet ! n) \<and> code (b64std_alphabet ! n) < 128" if "n < 64" for n
    using that by (metis nth_mem)
  then show "c \<in> set (std_encode bs) \<Longrightarrow> 32 \<le> code c \<and> code c < 128"
    using b64std.encode_chars [of c bs] by (auto simp: std_encode_def Let_def)
qed

lemma std_encode_fix [simp]: "xml_fix (std_encode bs) = std_encode bs"
  using std_encode_plain by (intro xml_fix_plain) blast

definition key_attrs :: "publicKeyParts \<Rightarrow> publicKeyParts \<Rightarrow> (string \<times> string) list" where
  "key_attrs current old =
     [(''value'', pp_Value current), (''modulus'', pp_Modulus current), (''exponent'', pp_Exponent current),
      (''oldvalue'', pp_Value old), (''oldmodulus'', pp_Modulus old), (''oldexponent'', pp_Exponent old)]"

lemma parts_fix:
  assumes "publicKeyParts_of K key = Some p"
  shows "xml_fix (pp_Value p) = pp_Value p" "xml_fix (pp_Modulus p) = pp_Modulus p" "xml_fix (pp_Exponent p) = pp_Exponent p"
  using assms by (auto simp: publicKeyParts_of_def split: option.splits)

lemma document_reads:
  assumes "CurrentPublicParts K ks = Some current" "OldPublicParts K ks = Some old" "Render K publicURL ks = Some doc"
  shows "read_document doc = Some
    [Open ''wopi-discovery'' [], Open ''net-zone'' [(''name'', netZoneName publicURL)], Open ''app'' [(''name'', ''excalidraw'')],
     Open ''action'' [(''name'', ''edit''), (''ext'', ''excalidraw''), (''urlsrc'', xml_fix (publicURL @ ''/launch''))],
     Close ''action'', Close ''app'', Close ''net-zone'', Open ''proof-key'' (key_attrs current old), Close ''proof-key'',
     Close ''wopi-discovery'']"
proof -
  have zone: "xml_fix (netZoneName publicURL) = netZoneName publicURL"
    by (rule xml_fix_plain) (auto simp: netZoneName_def split: option.splits)
  have lits: "xml_fix ''excalidraw'' = ''excalidraw''" "xml_fix ''edit'' = ''edit''"
    by (rule xml_fix_plain, simp)+
  obtain body where body: "doc = xml_header @ body" and doc: "body = xml_open ''wopi-discovery'' []
      @ xml_line 1 @ xml_open ''net-zone'' [(''name'', netZoneName publicURL)]
      @ xml_line 2 @ xml_open ''app'' [(''name'', ''excalidraw'')]
      @ xml_line 3 @ xml_open ''action'' [(''name'', ''edit''), (''ext'', ''excalidraw''), (''urlsrc'', publicURL @ ''/launch'')]
      @ xml_close ''action'' @ xml_line 2 @ xml_close ''app'' @ xml_line 1 @ xml_close ''net-zone''
      @ xml_line 1 @ xml_open ''proof-key'' (key_attrs current old) @ xml_close ''proof-key''
      @ xml_line 0 @ xml_close ''wopi-discovery'' @ []"
    using assms by (auto simp: Render_def marshal_discovery_def xml_netZone_def xml_app_def xml_action_def
      xml_proofKey_def key_attrs_def)
  have "11 \<le> length xml_header" by (simp add: xml_header_def)
  then obtain m where fuel: "length doc = Suc (Suc (Suc (Suc (Suc (Suc (Suc (Suc (Suc (Suc (Suc m))))))))))"
    using body by (auto dest!: le_Suc_ex simp: eval_nat_numeral)
  have keys: "xml_fix (pp_Value current) = pp_Value current" "xml_fix (pp_Modulus current) = pp_Modulus current"
    "xml_fix (pp_Exponent current) = pp_Exponent current" "xml_fix (pp_Value old) = pp_Value old"
    "xml_fix (pp_Modulus old) = pp_Modulus old" "xml_fix (pp_Exponent old) = pp_Exponent old"
    using parts_fix assms(1,2) by (auto simp: CurrentPublicParts_def OldPublicParts_def)
  have "read_document doc = read_tags (length doc) body"
    using body by (simp add: read_document_def starts_with_def)
  then show ?thesis
    unfolding fuel doc key_attrs_def by (simp add: read_open read_close read_close [of _ _ "[]", simplified append_Nil2] xml_names zone lits keys del: xml_fix.simps read_tags.simps(2) append_assoc) simp
qed

section \<open>A host that reads the document can check every request\<close>

definition attr_parts :: "string \<Rightarrow> (string \<times> string) list \<Rightarrow> publicKeyParts" where
  "attr_parts old attrs =
     (let field = (\<lambda>name. case map_of attrs (old @ name) of Some v \<Rightarrow> v | None \<Rightarrow> []) in
      \<lparr>pp_Value = field ''value'', pp_Modulus = field ''modulus'', pp_Exponent = field ''exponent''\<rparr>)"

lemma attr_parts_key:
  "attr_parts [] (key_attrs current old) = current" "attr_parts ''old'' (key_attrs current old) = old"
  by (simp_all add: attr_parts_def key_attrs_def Let_def)

lemma served_document:
  assumes "hr_status (discoveryHandler K publicURL ks) = 200"
  obtains current old where "CurrentPublicParts K ks = Some current" "OldPublicParts K ks = Some old"
    "Render K publicURL ks = Some (hr_body (discoveryHandler K publicURL ks))"
  using assms by (auto simp: discoveryHandler_def Render_def split: option.splits)

text \<open>
  A host that reads the discovery document can check every request. For keys as long
  as the service accepts, whatever the public URL, the document reads back: its action
  names the launch address, its proof-key element has all six attributes; signing never
  panics; the key of the current attributes verifies the proof header and the key of the
  old attributes the old one, over the token, the URL and the time stamp of the request,
  and the time stamp is the number of 100 nanosecond ticks since the year 1.
\<close>

theorem discovery_keys_verify:
  assumes "rsa_ok (ks_Current ks)" "rsa_ok (ks_Old ks)"
    and "hr_status (discoveryHandler K publicURL ks) = 200"
    and "unixEpoch \<le> ts" "ts < unixEpoch + 2 ^ 63"
  shows "\<exists>events attrs proof proofOld timestamp.
    read_document (hr_body (discoveryHandler K publicURL ks)) = Some events
    \<and> Open ''action'' [(''name'', ''edit''), (''ext'', ''excalidraw''), (''urlsrc'', xml_fix (publicURL @ ''/launch''))] \<in> set events
    \<and> Open ''proof-key'' attrs \<in> set events
    \<and> map fst attrs = [''value'', ''modulus'', ''exponent'', ''oldvalue'', ''oldmodulus'', ''oldexponent'']
    \<and> SignRequest toUpper ks token url ts = Some (proof, proofOld, timestamp)
    \<and> host_verifies toUpper (attr_parts [] attrs) proof token url timestamp
    \<and> host_verifies toUpper (attr_parts ''old'' attrs) proofOld token url timestamp
    \<and> parse_int timestamp = Some (ts div 100)"
proof -
  obtain current old where parts: "CurrentPublicParts K ks = Some current" "OldPublicParts K ks = Some old"
    and doc: "Render K publicURL ks = Some (hr_body (discoveryHandler K publicURL ks))"
    using served_document [OF assms(3)] .
  have keys: "map fst (key_attrs current old) = [''value'', ''modulus'', ''exponent'', ''oldvalue'', ''oldmodulus'', ''oldexponent'']"
    by (simp add: key_attrs_def)
  obtain sig sigOld timestamp where "SignRequest toUpper ks token url ts = Some (sig, sigOld, timestamp)"
    "host_verifies toUpper current sig token url timestamp" "host_verifies toUpper old sigOld token url timestamp"
    "parse_int timestamp = Some (ts div 100)"
    using published_key_verifies [OF assms(1,2) parts assms(4,5), of toUpper token url] by blast
  then show ?thesis
    by (intro exI [of _ "key_attrs current old"] exI conjI) (rule document_reads [OF parts doc] keys | simp add: attr_parts_key)+
qed

theorem discovery_keys_verify_witness:
  "\<exists>events proof proofOld timestamp.
    read_document (hr_body (discoveryHandler demoCodec ''http://h'' \<lparr>ks_Current = demoKey, ks_Old = demoKey\<rparr>)) = Some events
    \<and> SignRequest id \<lparr>ks_Current = demoKey, ks_Old = demoKey\<rparr> ''tok'' ''HTTP://H'' unixEpoch = Some (proof, proofOld, timestamp)
    \<and> parse_int timestamp = Some 621355968000000000"
proof -
  let ?ks = "\<lparr>ks_Current = demoKey, ks_Old = demoKey\<rparr>"
  have "hr_status (discoveryHandler demoCodec ''http://h'' ?ks) = 200"
    by (simp add: discoveryHandler_def Render_def CurrentPublicParts_def OldPublicParts_def publicKeyParts_of_def demoCodec_def)
  from discovery_keys_verify [OF _ _ this, of unixEpoch id "''tok''" "''HTTP://H''"] demoKey_ok
  show ?thesis by (auto simp: unixEpoch_def second_def)
qed

end
