(* ===== verification/Peers.thy ===== *)
theory Peers
  imports NetUrl Sha256
begin

text \<open>
  \<open>internal/peers\<close>: which replica owns a file, how the peer list is configured and kept
  up to date, and how a request reaches the owner.
\<close>

section \<open>Rendezvous hashing\<close>

definition rendezvousScore :: "string \<Rightarrow> string \<Rightarrow> u64" where
  "rendezvousScore fileID peer = be_word (take 8 (sum256 (fileID @ [CHR 0x00] @ peer)))"

text \<open>The loop with its \<open>best\<close> and \<open>bestScore\<close>; strings compare by bytes.\<close>

fun ownerFrom :: "string \<Rightarrow> string \<Rightarrow> u64 \<Rightarrow> string list \<Rightarrow> string" where
  "ownerFrom fileID best bestScore [] = best"
| "ownerFrom fileID best bestScore (p # ps) =
     (let score = rendezvousScore fileID p in
      if best = [] \<or> bestScore < score \<or> (score = bestScore \<and> best < p)
      then ownerFrom fileID p score ps
      else ownerFrom fileID best bestScore ps)"

definition rendezvousOwner :: "string \<Rightarrow> string list \<Rightarrow> string" where
  "rendezvousOwner fileID peersList = ownerFrom fileID [] 0 peersList"

section \<open>Configuration\<close>

definition normalizePeerURL :: "string \<Rightarrow> string option" where
  "normalizePeerURL raw =
     (case url_parse (trim_space raw) of
        None \<Rightarrow> None
      | Some u \<Rightarrow>
          if u_Scheme u \<noteq> ''http'' \<and> u_Scheme u \<noteq> ''https'' then None
          else if u_Host u = [] then None
          else if u_Path u \<noteq> [] \<and> u_Path u \<noteq> ''/'' then None
          else if u_RawQuery u \<noteq> [] \<or> u_Fragment u \<noteq> [] then None
          else Some (u_Scheme u @ ''://'' @ u_Host u))"

text \<open>\<open>net.SplitHostPort\<close>.\<close>

definition splitHostPort :: "string \<Rightarrow> (string \<times> string) option" where
  "splitHostPort hostport =
     (case cut_last CHR '':'' hostport of
        None \<Rightarrow> None
      | Some (before, port) \<Rightarrow>
          if starts_with hostport ''['' then
            (case cut CHR '']'' hostport of (inside, after, found) \<Rightarrow>
               if found \<and> before = inside @ '']'' \<and> CHR ''['' \<notin> set (drop 1 hostport)
                  \<and> CHR '']'' \<notin> set after
               then Some (drop 1 inside, port) else None)
          else if CHR '':'' \<in> set before \<or> CHR ''['' \<in> set hostport \<or> CHR '']'' \<in> set hostport then None
          else Some (before, port))"

definition joinHostPort :: "string \<Rightarrow> string \<Rightarrow> string" where
  "joinHostPort host port =
     (if CHR '':'' \<in> set host then ''['' @ host @ '']:'' @ port else host @ '':'' @ port)"

definition parseDNSSpec :: "string \<Rightarrow> (string \<times> string) option" where
  "parseDNSSpec rest =
     (case splitHostPort rest of
        None \<Rightarrow> None
      | Some (host, port) \<Rightarrow>
          if host = [] then None
          else (case parse_int port of
                  None \<Rightarrow> None
                | Some p \<Rightarrow> if p < 1 \<or> 65535 < p then None else Some (host, port)))"

section \<open>The cluster\<close>

text \<open>\<open>cu_loops\<close> counts the poll loops that are running; the code has the channels.\<close>

record cluster =
  cu_enabled :: bool
  cu_self :: string
  cu_dnsHost :: string
  cu_dnsPort :: string
  cu_started :: bool
  cu_closed :: bool
  cu_loops :: nat
  cu_snapshot :: "string list"

record peersConfig =
  pc_DNS :: string
  pc_Self :: string

definition newCluster :: "peersConfig \<Rightarrow> cluster option" where
  "newCluster cfg =
     (if pc_DNS cfg = [] then
        Some \<lparr>cu_enabled = False, cu_self = [], cu_dnsHost = [], cu_dnsPort = [], cu_started = False,
              cu_closed = False, cu_loops = 0, cu_snapshot = []\<rparr>
      else case parseDNSSpec (pc_DNS cfg) of
        None \<Rightarrow> None
      | Some (host, port) \<Rightarrow>
          (case normalizePeerURL (pc_Self cfg) of
             None \<Rightarrow> None
           | Some self \<Rightarrow>
               Some \<lparr>cu_enabled = True, cu_self = self, cu_dnsHost = host, cu_dnsPort = port,
                     cu_started = False, cu_closed = False, cu_loops = 0, cu_snapshot = []\<rparr>))"

definition Owner :: "cluster \<Rightarrow> string \<Rightarrow> string" where
  "Owner c fileID =
     (if \<not> cu_enabled c then []
      else if cu_snapshot c = [] then cu_self c
      else rendezvousOwner fileID (cu_snapshot c))"

definition IsSelf :: "cluster \<Rightarrow> string \<Rightarrow> bool" where
  "IsSelf c fileID = (if \<not> cu_enabled c then True else Owner c fileID = cu_self c)"

definition Start :: "cluster \<Rightarrow> cluster" where
  "Start c =
     (if \<not> cu_enabled c then c
      else if cu_started c \<or> cu_closed c then c
      else c\<lparr>cu_started := True, cu_loops := cu_loops c + 1\<rparr>)"

text \<open>\<open>Close\<close> cancels the loop and waits until it has ended.\<close>

definition Close :: "cluster \<Rightarrow> cluster" where
  "Close c =
     (if cu_closed c then c
      else c\<lparr>cu_closed := True, cu_loops := (if cu_started c then cu_loops c - 1 else cu_loops c)\<rparr>)"

text \<open>The addresses of the loop's last lookup, as text, or \<open>None\<close> for a failed one.\<close>

definition peerURLs :: "string \<Rightarrow> string list \<Rightarrow> string list" where
  "peerURLs port addrs =
     fold (\<lambda>a ps. let u = ''http://'' @ joinHostPort a port in if u \<in> set ps then ps else ps @ [u]) addrs []"

definition resolveOnce :: "string list option \<Rightarrow> cluster \<Rightarrow> cluster" where
  "resolveOnce lookup c =
     (case lookup of
        None \<Rightarrow> c
      | Some addrs \<Rightarrow> c\<lparr>cu_snapshot := sort (peerURLs (cu_dnsPort c) addrs)\<rparr>)"

datatype clusterEvent = EvStart | EvClose | EvResolve "string list option"

text \<open>A resolve happens only inside a running loop.\<close>

fun cluster_step :: "clusterEvent \<Rightarrow> cluster \<Rightarrow> cluster" where
  "cluster_step EvStart c = Start c"
| "cluster_step EvClose c = Close c"
| "cluster_step (EvResolve lookup) c = (if 0 < cu_loops c then resolveOnce lookup c else c)"

section \<open>The routing middleware\<close>

record peerReq =
  pr_hop :: string
  pr_room :: string
  pr_host :: string

text \<open>
  What the middleware does with a request: hand it on, send it to another replica, or
  answer 421 or 502.
\<close>

datatype route = Serve peerReq | Forward string peerReq | Misdirected | BadRoute

definition rewriteProxyRequest :: "peerReq \<Rightarrow> peerReq" where
  "rewriteProxyRequest r = r\<lparr>pr_hop := ''1''\<rparr>"

definition Middleware :: "cluster \<Rightarrow> peerReq \<Rightarrow> route" where
  "Middleware c r0 =
     (if \<not> cu_enabled c then Serve r0
      else let hopped = (pr_hop r0 = ''1''); r = r0\<lparr>pr_hop := []\<rparr> in
        if pr_room r = [] then Serve r
        else if IsSelf c (pr_room r) then Serve r
        else let target = Owner c (pr_room r) in
          if hopped then Misdirected
          else (case url_parse target of
                  None \<Rightarrow> BadRoute
                | Some _ \<Rightarrow> Forward target (rewriteProxyRequest r)))"

section \<open>The owner is a maximum\<close>

definition ranks_below :: "string \<Rightarrow> string \<Rightarrow> string \<Rightarrow> bool" where
  "ranks_below f p q \<longleftrightarrow> rendezvousScore f p < rendezvousScore f q
     \<or> (rendezvousScore f p = rendezvousScore f q \<and> p \<le> q)"

lemma ranks_below_refl [simp]: "ranks_below f p p"
  by (simp add: ranks_below_def)

lemma ranks_below_trans: "ranks_below f p q \<Longrightarrow> ranks_below f q r \<Longrightarrow> ranks_below f p r"
  by (auto simp: ranks_below_def)

lemma ranks_below_antisym: "ranks_below f p q \<Longrightarrow> ranks_below f q p \<Longrightarrow> p = q"
  by (auto simp: ranks_below_def)

lemma ranks_below_cases:
  "\<not> (rendezvousScore f q < rendezvousScore f p \<or> (rendezvousScore f p = rendezvousScore f q \<and> q < p)) \<Longrightarrow>
     ranks_below f p q"
  by (auto simp: ranks_below_def not_less_iff_gr_or_eq)

lemma ownerFrom_max:
  assumes "best \<noteq> []" "[] \<notin> set ps"
  shows "ownerFrom f best (rendezvousScore f best) ps \<in> insert best (set ps)
    \<and> (\<forall>p \<in> insert best (set ps). ranks_below f p (ownerFrom f best (rendezvousScore f best) ps))"
  using assms
proof (induction ps arbitrary: best)
  case Nil
  then show ?case by simp
next
  case (Cons p ps)
  let ?better = "rendezvousScore f best < rendezvousScore f p
      \<or> (rendezvousScore f p = rendezvousScore f best \<and> best < p)"
  show ?case
  proof (cases ?better)
    case True
    then have "ranks_below f best p" by (auto simp: ranks_below_def)
    with Cons.IH [of p] Cons.prems True show ?thesis
      by (auto simp: Let_def intro: ranks_below_trans)
  next
    case False
    then have "ranks_below f p best" by (rule ranks_below_cases)
    with Cons.IH [of best] Cons.prems False show ?thesis
      by (auto simp: Let_def intro: ranks_below_trans)
  qed
qed

lemma rendezvousOwner_max:
  assumes "ps \<noteq> []" "[] \<notin> set ps"
  shows "rendezvousOwner f ps \<in> set ps" "p \<in> set ps \<Longrightarrow> ranks_below f p (rendezvousOwner f ps)"
proof -
  obtain q qs where ps: "ps = q # qs" using assms(1) by (cases ps) auto
  have o: "rendezvousOwner f ps = ownerFrom f q (rendezvousScore f q) qs"
    by (simp add: rendezvousOwner_def ps Let_def)
  from ownerFrom_max [of q qs f] assms(2) show "rendezvousOwner f ps \<in> set ps"
    "p \<in> set ps \<Longrightarrow> ranks_below f p (rendezvousOwner f ps)"
    unfolding o by (auto simp: ps)
qed

lemma rendezvousOwner_unique:
  assumes "[] \<notin> set ps" "q \<in> set ps" "\<And>p. p \<in> set ps \<Longrightarrow> ranks_below f p q"
  shows "rendezvousOwner f ps = q"
proof -
  have "ps \<noteq> []" using assms(2) by auto
  from rendezvousOwner_max [OF this assms(1)] assms(2,3) show ?thesis by (blast intro: ranks_below_antisym)
qed

text \<open>
  C35. The owner of a file is a function of the set of peers: the order and the duplicates
  of the list do not matter, the owner is one of the peers, a peer that leaves takes only
  its own files away, and a peer that joins takes files only for itself.
\<close>

theorem owner_minimal_disruption:
  assumes "[] \<notin> set ps" "ps \<noteq> []" "set qs = set ps" "q \<noteq> []"
  shows "rendezvousOwner f qs = rendezvousOwner f ps
    \<and> rendezvousOwner f ps \<in> set ps
    \<and> (p \<noteq> rendezvousOwner f ps \<longrightarrow> rendezvousOwner f (removeAll p ps) = rendezvousOwner f ps)
    \<and> (rendezvousOwner f (q # ps) = q \<or> rendezvousOwner f (q # ps) = rendezvousOwner f ps)"
proof (intro conjI impI)
  note m = rendezvousOwner_max [OF assms(2,1), where f = f]
  show "rendezvousOwner f ps \<in> set ps" by (rule m(1))
  show "rendezvousOwner f qs = rendezvousOwner f ps"
    by (rule rendezvousOwner_unique) (use assms(1,3) m in auto)
  show "rendezvousOwner f (removeAll p ps) = rendezvousOwner f ps" if "p \<noteq> rendezvousOwner f ps"
    by (rule rendezvousOwner_unique) (use assms(1) m that in auto)
  have "q # ps \<noteq> []" "[] \<notin> set (q # ps)" using assms(1,4) by auto
  note n = rendezvousOwner_max [OF this, where f = f]
  show "rendezvousOwner f (q # ps) = q \<or> rendezvousOwner f (q # ps) = rendezvousOwner f ps"
    using n(1) n(2) [where p = "rendezvousOwner f ps"] m by (auto intro: ranks_below_antisym)
qed

theorem owner_minimal_disruption_witness:
  "rendezvousOwner ''f'' [''b'', ''a'', ''b''] = rendezvousOwner ''f'' [''a'', ''b'']"
  using owner_minimal_disruption [of "[''a'', ''b'']" "[''b'', ''a'', ''b'']" "''c''" "''f''"]
  by auto

section \<open>The poll loop\<close>

definition cluster_ok :: "cluster \<Rightarrow> bool" where
  "cluster_ok c \<longleftrightarrow> cu_loops c \<le> 1 \<and> (cu_closed c \<longrightarrow> cu_loops c = 0)
     \<and> (\<not> cu_started c \<longrightarrow> cu_loops c = 0) \<and> (cu_started c \<and> \<not> cu_closed c \<longrightarrow> cu_loops c = 1)
     \<and> sorted (cu_snapshot c) \<and> distinct (cu_snapshot c) \<and> [] \<notin> set (cu_snapshot c)"

lemma peerURLs_props: "distinct (peerURLs port addrs)"
  "set (peerURLs port addrs) = (\<lambda>a. ''http://'' @ joinHostPort a port) ` set addrs"
proof -
  let ?u = "\<lambda>a. ''http://'' @ joinHostPort a port"
  let ?f = "\<lambda>a ps. let u = ?u a in if u \<in> set ps then ps else ps @ [u]"
  have "distinct ps \<Longrightarrow> distinct (fold ?f as ps) \<and> set (fold ?f as ps) = set ps \<union> ?u ` set as" for as ps
    by (induction as arbitrary: ps) (auto simp: Let_def)
  from this [of "[]" addrs] show "distinct (peerURLs port addrs)"
    "set (peerURLs port addrs) = ?u ` set addrs" by (simp_all add: peerURLs_def)
qed

lemma cluster_step_ok:
  assumes "cluster_ok c"
  shows "cluster_ok (cluster_step e c)"
proof (cases e)
  case (EvResolve lookup)
  have "[] \<notin> set (peerURLs (cu_dnsPort c) addrs)" for addrs by (auto simp: peerURLs_props)
  with EvResolve assms show ?thesis
    by (auto simp: cluster_ok_def resolveOnce_def peerURLs_props split: option.split)
qed (use assms in \<open>auto simp: cluster_ok_def Start_def Close_def\<close>)

lemma cluster_run_ok: "cluster_ok c \<Longrightarrow> cluster_ok (fold cluster_step evs c)"
  by (induction evs arbitrary: c) (simp_all add: cluster_step_ok)

lemma newCluster_ok: "newCluster cfg = Some c \<Longrightarrow> cluster_ok c"
  by (auto simp: newCluster_def cluster_ok_def split: if_splits option.splits)

lemma closed_frozen:
  "cu_closed c \<Longrightarrow> cu_loops c = 0 \<Longrightarrow> fold cluster_step evs c = c"
proof (induction evs)
  case (Cons e evs)
  then show ?case by (cases e) (auto simp: Start_def Close_def)
qed simp

text \<open>
  \<open>Start\<close>, \<open>Close\<close> and the lookups may come in any order: there is never more than one
  poll loop, none after \<open>Close\<close>, and from then on nothing changes the cluster any more;
  the list of peers is always sorted and free of duplicates.
\<close>

theorem poll_loop_lifecycle:
  assumes "newCluster cfg = Some c"
  shows "cu_loops (fold cluster_step evs c) \<le> 1
    \<and> (cu_closed (fold cluster_step evs c) \<longrightarrow>
         cu_loops (fold cluster_step evs c) = 0
         \<and> fold cluster_step later (fold cluster_step evs c) = fold cluster_step evs c)
    \<and> sorted (cu_snapshot (fold cluster_step evs c)) \<and> distinct (cu_snapshot (fold cluster_step evs c))"
  using cluster_run_ok [OF newCluster_ok [OF assms], of evs] closed_frozen
  by (auto simp: cluster_ok_def)

definition demoPeers :: peersConfig where
  "demoPeers = \<lparr>pc_DNS = ''peers:80'', pc_Self = ''http://10.0.0.1:80''\<rparr>"

lemma demoPeers_new: "newCluster demoPeers = Some \<lparr>cu_enabled = True, cu_self = ''http://10.0.0.1:80'',
   cu_dnsHost = ''peers'', cu_dnsPort = ''80'', cu_started = False, cu_closed = False, cu_loops = 0,
   cu_snapshot = []\<rparr>"
  by code_simp

theorem poll_loop_lifecycle_witness:
  "cu_loops (fold cluster_step [EvStart, EvResolve (Some [''10.0.0.2'', ''10.0.0.1'', ''10.0.0.2'']), EvStart]
     (the (newCluster demoPeers))) \<le> 1"
  unfolding demoPeers_new option.sel
  by (rule conjunct1 [OF poll_loop_lifecycle [OF demoPeers_new]])

section \<open>A request's way\<close>

text \<open>
  The replicas by their URL. A request is handed from one to the next until somebody
  answers it; \<open>Bouncing\<close> is a request that is still on its way when the fuel ends.
\<close>

datatype arrival = Arrived string route | Unreachable string | Bouncing

fun journey :: "(string \<rightharpoonup> cluster) \<Rightarrow> nat \<Rightarrow> string \<Rightarrow> peerReq \<Rightarrow> arrival" where
  "journey net 0 at r = Bouncing"
| "journey net (Suc n) at r =
     (case net at of
        None \<Rightarrow> Unreachable at
      | Some c \<Rightarrow>
          (case Middleware c r of
             Forward target r' \<Rightarrow> journey net n target r'
           | answer \<Rightarrow> Arrived at answer))"

lemma Middleware_forward:
  "Middleware c r = Forward target r' \<Longrightarrow>
     pr_hop r' = ''1'' \<and> pr_hop r \<noteq> ''1'' \<and> pr_room r' = pr_room r \<and> pr_room r \<noteq> []
     \<and> target = Owner c (pr_room r) \<and> \<not> IsSelf c (pr_room r)"
  by (auto simp: Middleware_def Let_def rewriteProxyRequest_def split: if_splits option.splits)

text \<open>
  C37. A request never bounces: whatever the replicas believe about the peers, it is
  forwarded at most once. And when they agree on a list with the owner of its room in it,
  the owner serves it, without the hop header, whoever got it first.
\<close>

theorem routing_one_hop:
  "journey net (Suc (Suc n)) start r \<noteq> Bouncing
   \<and> (ps \<noteq> [] \<and> [] \<notin> set ps \<and> pr_hop r \<noteq> ''1'' \<and> pr_room r \<noteq> []
      \<and> (\<forall>at c. net at = Some c \<longrightarrow> cu_enabled c \<and> cu_self c = at \<and> cu_snapshot c = ps)
      \<and> net start \<noteq> None \<and> net (rendezvousOwner (pr_room r) ps) \<noteq> None
      \<and> url_parse (rendezvousOwner (pr_room r) ps) \<noteq> None \<longrightarrow>
      journey net (Suc (Suc n)) start r =
        Arrived (rendezvousOwner (pr_room r) ps) (Serve (r\<lparr>pr_hop := []\<rparr>)))"
proof (intro conjI impI)
  show "journey net (Suc (Suc n)) start r \<noteq> Bouncing"
  proof -
    have "journey net (Suc n) at r' \<noteq> Bouncing" if "pr_hop r' = ''1''" for at r'
      using that Middleware_forward by (auto split: option.splits route.splits)
    then show ?thesis
      using Middleware_forward by (auto simp del: journey.simps(2) simp: journey.simps(2) [of _ "Suc n"]
          split: option.splits route.splits)
  qed
  let ?o = "rendezvousOwner (pr_room r) ps"
  assume all: "ps \<noteq> [] \<and> [] \<notin> set ps \<and> pr_hop r \<noteq> ''1'' \<and> pr_room r \<noteq> []
      \<and> (\<forall>at c. net at = Some c \<longrightarrow> cu_enabled c \<and> cu_self c = at \<and> cu_snapshot c = ps)
      \<and> net start \<noteq> None \<and> net ?o \<noteq> None \<and> url_parse ?o \<noteq> None"
  have a: "ps \<noteq> []" "[] \<notin> set ps" "pr_hop r \<noteq> ''1''" "pr_room r \<noteq> []"
    "\<And>at c. net at = Some c \<Longrightarrow> cu_enabled c \<and> cu_self c = at \<and> cu_snapshot c = ps"
    "net start \<noteq> None" "net ?o \<noteq> None" "url_parse ?o \<noteq> None"
    using all by blast+
  obtain c d where c: "net start = Some c" and d: "net ?o = Some d" using a(6,7) by blast
  have o: "Owner c (pr_room r) = ?o" "IsSelf c (pr_room r) \<longleftrightarrow> start = ?o" "IsSelf d (pr_room r)"
    using a(1) a(5) [OF c] a(5) [OF d] by (auto simp: Owner_def IsSelf_def)
  have serve: "Middleware d r' = Serve (r'\<lparr>pr_hop := []\<rparr>)" if "pr_room r' = pr_room r" for r'
    using a(5) [OF d] o(3) that by (simp add: Middleware_def Let_def)
  show "journey net (Suc (Suc n)) start r = Arrived ?o (Serve (r\<lparr>pr_hop := []\<rparr>))"
  proof (cases "start = ?o")
    case True
    with serve [of r] d show ?thesis by simp
  next
    case False
    with a(3,4,8) a(5) [OF c] o(1,2) have "Middleware c r = Forward ?o (r\<lparr>pr_hop := ''1''\<rparr>)"
      by (auto simp: Middleware_def Let_def rewriteProxyRequest_def)
    with c d serve [of "r\<lparr>pr_hop := ''1''\<rparr>"] show ?thesis by simp
  qed
qed


definition replica :: "string \<Rightarrow> cluster" where
  "replica url = \<lparr>cu_enabled = True, cu_self = url, cu_dnsHost = ''peers'', cu_dnsPort = ''80'',
     cu_started = True, cu_closed = False, cu_loops = 1,
     cu_snapshot = [''http://10.0.0.1:80'', ''http://10.0.0.2:80'']\<rparr>"

definition twoReplicas :: "string \<rightharpoonup> cluster" where
  "twoReplicas = [''http://10.0.0.1:80'' \<mapsto> replica ''http://10.0.0.1:80'',
                  ''http://10.0.0.2:80'' \<mapsto> replica ''http://10.0.0.2:80'']"

lemma replica_urls: "url_parse ''http://10.0.0.1:80'' \<noteq> None" "url_parse ''http://10.0.0.2:80'' \<noteq> None"
  by code_simp+

theorem routing_one_hop_witness:
  "journey twoReplicas 2 ''http://10.0.0.1:80'' \<lparr>pr_hop = [], pr_room = ''f'', pr_host = ''h''\<rparr> =
     Arrived (rendezvousOwner ''f'' [''http://10.0.0.1:80'', ''http://10.0.0.2:80''])
       (Serve \<lparr>pr_hop = [], pr_room = ''f'', pr_host = ''h''\<rparr>)"
proof -
  let ?ps = "[''http://10.0.0.1:80'', ''http://10.0.0.2:80'']"
  have "rendezvousOwner ''f'' ?ps \<in> set ?ps" by (rule rendezvousOwner_max) simp_all
  then have "twoReplicas (rendezvousOwner ''f'' ?ps) \<noteq> None" "url_parse (rendezvousOwner ''f'' ?ps) \<noteq> None"
    using replica_urls by (auto simp: twoReplicas_def)
  then show ?thesis
    using routing_one_hop [of twoReplicas 0 "''http://10.0.0.1:80''"
        "\<lparr>pr_hop = [], pr_room = ''f'', pr_host = ''h''\<rparr>" ?ps]
    by (simp add: twoReplicas_def replica_def numeral_2_eq_2 split: if_splits)
qed

text \<open>
  The port of a DNS spec may carry a sign: \<open>Atoi\<close> reads it, the check of its range
  passes, and every peer's URL is then one that \<open>url.Parse\<close> refuses, so each request that
  belongs to another replica is answered with 502.
\<close>

theorem signed_port_breaks_routing:
  "parseDNSSpec ''peers:+80'' = Some (''peers'', ''+80'')
   \<and> peerURLs ''+80'' [''10.0.0.2''] = [''http://10.0.0.2:+80'']
   \<and> (cu_enabled c \<and> cu_snapshot c = [''http://10.0.0.2:+80''] \<and> cu_self c \<noteq> ''http://10.0.0.2:+80''
        \<and> pr_room r \<noteq> [] \<and> pr_hop r \<noteq> ''1'' \<longrightarrow> Middleware c r = BadRoute)"
proof (intro conjI impI)
  show "parseDNSSpec ''peers:+80'' = Some (''peers'', ''+80'')" by code_simp
  show "peerURLs ''+80'' [''10.0.0.2''] = [''http://10.0.0.2:+80'']" by code_simp
  assume a: "cu_enabled c \<and> cu_snapshot c = [''http://10.0.0.2:+80''] \<and> cu_self c \<noteq> ''http://10.0.0.2:+80''
        \<and> pr_room r \<noteq> [] \<and> pr_hop r \<noteq> ''1''"
  have "rendezvousOwner (pr_room r) [''http://10.0.0.2:+80''] = ''http://10.0.0.2:+80''"
    by (rule rendezvousOwner_unique) auto
  moreover have "url_parse ''http://10.0.0.2:+80'' = None" by code_simp
  ultimately show "Middleware c r = BadRoute"
    using a by (auto simp: Middleware_def Owner_def IsSelf_def Let_def)
qed

theorem signed_port_breaks_routing_witness:
  "Middleware ((replica ''http://10.0.0.1:+80'')\<lparr>cu_snapshot := [''http://10.0.0.2:+80'']\<rparr>)
     \<lparr>pr_hop = [], pr_room = ''f'', pr_host = ''h''\<rparr> = BadRoute"
  using signed_port_breaks_routing [of "(replica ''http://10.0.0.1:+80'')\<lparr>cu_snapshot := [''http://10.0.0.2:+80'']\<rparr>"
      "\<lparr>pr_hop = [], pr_room = ''f'', pr_host = ''h''\<rparr>"]
  by (simp add: replica_def)

end
