(* ===== verification/App.thy ===== *)
theory App
  imports LaunchSafety BoardSafety DiscoverySafety WopiClientHost Peers RelayServer HttpServer
begin

text \<open>
  \<open>internal/app\<close> and \<open>cmd/excalidraw-wopi\<close>: how the components are wired into one server,
  the development host of test mode, the health check of the command and the life of the
  process.
\<close>

section \<open>Addresses\<close>

text \<open>\<open>URL.Hostname\<close>.\<close>

definition url_hostname :: "url \<Rightarrow> string" where
  "url_hostname u =
     (let h = (case cut_last CHR '':'' (u_Host u) of
            Some (a, b) \<Rightarrow> if validOptionalPort (CHR '':'' # b) then a else u_Host u
          | None \<Rightarrow> u_Host u)
      in if starts_with h ''['' \<and> ends_with h '']'' then butlast (tl h) else h)"

text \<open>\<open>strings.EqualFold\<close> with a text of ASCII characters.\<close>

definition equal_fold :: "string \<Rightarrow> string \<Rightarrow> bool" where
  "equal_fold s t \<longleftrightarrow> fold_name s = fold_name t"

text \<open>\<open>net.ParseIP\<close>: four decimal fields, or groups of sixteen bits with at most one gap.\<close>

definition ipv4_field :: "string \<Rightarrow> nat option" where
  "ipv4_field f =
     (if f = [] \<or> \<not> list_all GoText.is_digit f \<or> (1 < length f \<and> hd f = CHR ''0'') \<or> 255 < digits_val f then None
      else Some (nat (digits_val f)))"

definition parse_ipv4 :: "string \<Rightarrow> nat list option" where
  "parse_ipv4 s =
     (let fs = split_on CHR ''.'' s; vs = map ipv4_field fs in
      if length fs = 4 \<and> None \<notin> set vs then Some (map the vs) else None)"

definition hex_digits :: "string \<Rightarrow> string" where
  "hex_digits s = takeWhile (\<lambda>c. hex_val c \<noteq> None) s"

definition hex_value :: "string \<Rightarrow> nat" where
  "hex_value s = fold (\<lambda>c n. 16 * n + (case hex_val c of Some d \<Rightarrow> d | None \<Rightarrow> 0)) s 0"

text \<open>
  The loop over the groups, with the bytes so far, where the gap is, and fuel for the eight
  groups: the bytes, the gap and the rest of the text.
\<close>

fun ipv6_groups :: "nat \<Rightarrow> nat list \<Rightarrow> nat option \<Rightarrow> string \<Rightarrow> (nat list \<times> nat option \<times> string) option" where
  "ipv6_groups 0 bs gap s = Some (bs, gap, s)"
| "ipv6_groups (Suc n) bs gap s =
     (if 16 \<le> length bs then Some (bs, gap, s)
      else let ds = hex_digits s; r = drop (length ds) s in
        if ds = [] \<or> 4 < length ds then None
        else if starts_with r ''.'' then
          (if (gap = None \<and> length bs \<noteq> 12) \<or> 16 < length bs + 4 then None
           else case parse_ipv4 s of None \<Rightarrow> None | Some v \<Rightarrow> Some (bs @ v, gap, []))
        else let bs' = bs @ [hex_value ds div 256, hex_value ds mod 256] in
          (case r of
             [] \<Rightarrow> Some (bs', gap, [])
           | c # r1 \<Rightarrow>
               if c \<noteq> CHR '':'' \<or> r1 = [] then None
               else if hd r1 = CHR '':'' then
                 (if gap \<noteq> None then None
                  else if tl r1 = [] then Some (bs', Some (length bs'), [])
                  else ipv6_groups n bs' (Some (length bs')) (tl r1))
               else ipv6_groups n bs' gap r1))"

definition parse_ipv6 :: "string \<Rightarrow> nat list option" where
  "parse_ipv6 s =
     (if s = ''::'' then Some (replicate 16 0)
      else case (if starts_with s ''::'' then ipv6_groups 9 [] (Some 0) (drop 2 s) else ipv6_groups 9 [] None s) of
        None \<Rightarrow> None
      | Some (bs, gap, rest) \<Rightarrow>
          if rest \<noteq> [] then None
          else (case gap of
                  None \<Rightarrow> if length bs = 16 then Some bs else None
                | Some g \<Rightarrow>
                    if 16 \<le> length bs then None
                    else Some (take g bs @ replicate (16 - length bs) 0 @ drop g bs)))"

text \<open>An address of four bytes is kept in its sixteen byte form; one with a zone is refused.\<close>

definition v4_prefix :: "nat list" where
  "v4_prefix = replicate 10 0 @ [255, 255]"

definition parse_ip :: "string \<Rightarrow> nat list option" where
  "parse_ip s =
     (case filter (\<lambda>c. c = CHR ''.'' \<or> c = CHR '':'' \<or> c = CHR ''%'') s of
        [] \<Rightarrow> None
      | c # _ \<Rightarrow>
          if c = CHR ''.'' then map_option ((@) v4_prefix) (parse_ipv4 s)
          else if c = CHR '':'' \<and> CHR ''%'' \<notin> set s then parse_ipv6 s
          else None)"

definition is_loopback :: "nat list \<Rightarrow> bool" where
  "is_loopback ip \<longleftrightarrow>
     (if take 12 ip = v4_prefix then ip ! 12 = 127 else ip = replicate 15 0 @ [1])"

section \<open>Test mode\<close>

definition envFakeHost :: string where "envFakeHost = ''EXCALIDRAW_WOPI_FAKE_HOST''"
definition envTestHooks :: string where "envTestHooks = ''EXCALIDRAW_WOPI_TEST_HOOKS''"
definition fakeHostBasePath :: string where "fakeHostBasePath = ''/fakewopi/files''"
definition fakeHostFileID :: string where "fakeHostFileID = ''f-local''"
definition fakeHostTokenTTL :: duration where "fakeHostTokenTTL = 10 * hour"

text \<open>\<open>os.Getenv\<close>: an unset variable reads as empty.\<close>

definition getenv :: "world \<Rightarrow> string \<Rightarrow> string" where
  "getenv w name = (case wd_env w name of Some v \<Rightarrow> v | None \<Rightarrow> [])"

definition isLoopbackHost :: "string \<Rightarrow> bool" where
  "isLoopbackHost rawURL =
     (case url_parse rawURL of
        None \<Rightarrow> False
      | Some u \<Rightarrow>
          let host = url_hostname u in
          if equal_fold host ''localhost'' then True
          else (case parse_ip host of None \<Rightarrow> False | Some ip \<Rightarrow> is_loopback ip))"

definition fakeHostAllowed :: "world \<Rightarrow> string \<Rightarrow> bool" where
  "fakeHostAllowed w publicURL =
     (if getenv w envFakeHost \<noteq> ''1'' then False
      else if \<not> isLoopbackHost publicURL then False
      else True)"

definition testHooksAllowed :: "world \<Rightarrow> bool" where
  "testHooksAllowed w \<longleftrightarrow> getenv w envTestHooks = ''1''"

definition newFakeHost :: wopiHost where
  "newFakeHost =
     AddFile fakeHostFileID (fakeHostFileID @ ''.excalidraw'') ''alice'' []
       (AddUser \<lparr>hu_ID = ''bob'', hu_Name = ''Bob'', hu_CanWrite = False\<rparr>
         (AddUser \<lparr>hu_ID = ''alice'', hu_Name = ''Alice'', hu_CanWrite = True\<rparr> (newHost LockTTL)))"

text \<open>
  \<open>html/template\<close> in a quoted attribute: every value is escaped for HTML, and that of
  \<open>action\<close> is a URL, filtered by its scheme and normalized before.
\<close>

definition html_attr_char :: "char \<Rightarrow> string" where
  "html_attr_char c =
     (if c = CHR 0x00 then replacement
      else if c = CHR 0x22 then ''&#34;''
      else if c = CHR ''&'' then ''&amp;''
      else if c = CHR 0x27 then ''&#39;''
      else if c = CHR ''+'' then ''&#43;''
      else if c = CHR ''<'' then ''&lt;''
      else if c = CHR ''>'' then ''&gt;''
      else [c])"

definition html_attr :: "string \<Rightarrow> string" where
  "html_attr s = concat (map html_attr_char s)"

definition safe_url :: "string \<Rightarrow> bool" where
  "safe_url s =
     (case cut CHR '':'' s of
        (protocol, _, found) \<Rightarrow>
          if found \<and> CHR ''/'' \<notin> set protocol
          then list_ex (equal_fold protocol) [''http'', ''https'', ''mailto''] else True)"

fun url_normalize :: "string \<Rightarrow> string" where
  "url_normalize [] = []"
| "url_normalize (c # s) =
     (if is_alnum c \<or> c \<in> set ''-._~!#$&*+,/:;=?@[]''
         \<or> (c = CHR ''%'' \<and> 2 \<le> length s \<and> hex_val (s ! 0) \<noteq> None \<and> hex_val (s ! 1) \<noteq> None)
      then c # url_normalize s
      else ''%'' @ hex_encode [c] @ url_normalize s)"

definition html_url :: "string \<Rightarrow> string" where
  "html_url s = html_attr (url_normalize (if safe_url s then s else ''#ZgotmplZ''))"

record fakeLaunchPage =
  fp_Action :: string
  fp_AccessToken :: string
  fp_TTLMillis :: int

definition quoted :: "string \<Rightarrow> string" where
  "quoted s = [CHR 0x22] @ s @ [CHR 0x22]"

definition fakeLaunchTemplate :: "fakeLaunchPage \<Rightarrow> bytes" where
  "fakeLaunchTemplate p =
     ''<!DOCTYPE html>'' @ [CHR 0x0A]
     @ ''<html><head><title>fake WOPI launch</title></head>'' @ [CHR 0x0A] @ ''<body>'' @ [CHR 0x0A]
     @ ''<form id='' @ quoted ''f'' @ '' method='' @ quoted ''POST'' @ '' action='' @ quoted (html_url (fp_Action p)) @ ''>'' @ [CHR 0x0A]
     @ ''<input type='' @ quoted ''hidden'' @ '' name='' @ quoted ''access_token''
     @ '' value='' @ quoted (html_attr (fp_AccessToken p)) @ ''>'' @ [CHR 0x0A]
     @ ''<input type='' @ quoted ''hidden'' @ '' name='' @ quoted ''access_token_ttl''
     @ '' value='' @ quoted (html_attr (format_int (fp_TTLMillis p))) @ ''>'' @ [CHR 0x0A]
     @ ''</form>'' @ [CHR 0x0A]
     @ ''<script>document.getElementById('' @ [CHR 0x27] @ ''f'' @ [CHR 0x27] @ '').submit()</script>'' @ [CHR 0x0A]
     @ ''</body></html>'' @ [CHR 0x0A]"

text \<open>\<open>token\<close> is the one that \<open>MintToken\<close> draws.\<close>

definition handleFakeLaunch :: "string \<Rightarrow> time \<Rightarrow> string \<Rightarrow> string \<Rightarrow> wopiHost \<Rightarrow> httpReply \<times> wopiHost" where
  "handleFakeLaunch publicURL now token rawQuery host =
     (let userID = query_get (parse_query rawQuery) ''user'' in
      if userID \<noteq> ''alice'' \<and> userID \<noteq> ''bob''
      then (http_error ''wopitest: ?user= must be alice or bob'' 400, host)
      else
        let ttlMillis = (now + fakeHostTokenTTL - unixEpoch) div 1000000;
            wopiSrc = publicURL @ fakeHostBasePath @ ''/'' @ fakeHostFileID;
            action = ''/launch?'' @ query_encode [(''WOPISrc'', [wopiSrc])]
        in (\<lparr>hr_status = 200,
             hr_header = [(''Content-Type'', ''text/html; charset=utf-8''), (''Cache-Control'', ''no-store'')],
             hr_body = fakeLaunchTemplate \<lparr>fp_Action = action, fp_AccessToken = token, fp_TTLMillis = ttlMillis\<rparr>\<rparr>,
            MintToken token userID fakeHostFileID host))"

definition stats_json :: "fileStats \<Rightarrow> json" where
  "stats_json st =
     JObj [(''size'', JNum (format_int (st_Size st))), (''version'', JStr (st_Version st)),
           (''putCount'', JNum (format_int (st_PutCount st)))]"

definition handleFakeState :: "wopiHost \<Rightarrow> httpReply" where
  "handleFakeState host =
     (case Stats fakeHostFileID host of
        None \<Rightarrow> notFound
      | Some st \<Rightarrow>
          \<lparr>hr_status = 200, hr_header = [(''Content-Type'', ''application/json'')],
           hr_body = print_json (stats_json st) @ [CHR 0x0A]\<rparr>)"

definition mountFakeHost :: "(pattern \<times> endpoint) list" where
  "mountFakeHost =
     [(([], fakeHostBasePath @ ''/'', True), FakeHost), ((''GET'', ''/fakewopi/launch'', False), FakeLaunch),
      ((''GET'', ''/fakewopi/_state'', False), FakeState)]"

end
