(* ===== verification/Server.thy ===== *)
theory Server
  imports App RelaySafety
begin

text \<open>
  \<open>internal/app/app.go\<close> and \<open>cmd/excalidraw-wopi/main.go\<close>: the server that \<open>NewServer\<close> wires
  from the components, and the life of the process around it.
\<close>

section \<open>Adapters\<close>

text \<open>
  \<open>timestampedSigner\<close>: signing with the time of the call. The signer panics for no key that
  the key set can hold (\<open>sign_total\<close> below); the empty strings stand for that case.
\<close>

definition timestampedSigner ::
  "(string \<Rightarrow> string) \<Rightarrow> keySet \<Rightarrow> time \<Rightarrow> string \<Rightarrow> string \<Rightarrow> string \<times> string \<times> string" where
  "timestampedSigner toUpper ks now token url =
     (case SignRequest toUpper ks token url now of Some x \<Rightarrow> x | None \<Rightarrow> ([], [], []))"

text \<open>\<open>sessionVerifier\<close>: the relay never holds the access token.\<close>

definition sessionVerifier :: "jwtLib \<Rightarrow> sessionManager \<Rightarrow> time \<Rightarrow> string \<Rightarrow> session option" where
  "sessionVerifier J sessions now raw =
     (case Verify J sessions now raw of
        Inl _ \<Rightarrow> None
      | Inr c \<Rightarrow> Some \<lparr>ss_FileID = cl_FileID c, ss_UserID = cl_UserID c, ss_UserName = cl_UserName c,
                        ss_CanWrite = cl_CanWrite c\<rparr>)"

section \<open>The server\<close>

text \<open>What the wiring is given from outside: libraries, the transport, the embedded frontend.\<close>

record 'h serverEnv =
  se_launch :: launchEnv
  se_toUpper :: "string \<Rightarrow> string"
  se_http :: "time \<Rightarrow> httpReq \<Rightarrow> 'h \<Rightarrow> (string + httpResp) \<times> 'h"
  se_index :: "bytes option"
  se_renum :: "string \<Rightarrow> string option"
  se_world :: world

record 'h server =
  sv_cfg :: config
  sv_sessions :: sessionManager
  sv_keys :: keySet
  sv_cluster :: cluster
  sv_launch :: "'h launchHandler"
  sv_rooms :: "'h sys"
  sv_relay :: relay
  sv_fakeHost :: "wopiHost option"
  sv_routes :: "(pattern \<times> endpoint) list"

datatype server_error = ErrSessions session_error | ErrCluster

text \<open>The one client of launch, board API and rooms; each call signs with its own time.\<close>

definition serverClient :: "'h serverEnv \<Rightarrow> keySet \<Rightarrow> time \<Rightarrow> 'h wopiClient" where
  "serverClient E ks now =
     newWopiClient (se_http E) (Some (timestampedSigner (se_toUpper E) ks now)) (Some driveProfile)"

definition roomClient :: "'h serverEnv \<Rightarrow> keySet \<Rightarrow> 'h client" where
  "roomClient E ks =
     \<lparr>cli_CheckFileInfo = (\<lambda>t. CheckFileInfo (serverClient E ks t) t),
      cli_PutFile = (\<lambda>t. PutFile (serverClient E ks t) t),
      cli_Lock = (\<lambda>t. WopiClient.Lock (serverClient E ks t) t),
      cli_RefreshLock = (\<lambda>t. RefreshLock (serverClient E ks t) t),
      cli_Unlock = (\<lambda>t. WopiClient.Unlock (serverClient E ks t) t),
      cli_UnlockAndRelock = (\<lambda>t. UnlockAndRelock (serverClient E ks t) t)\<rparr>"

definition appRoutes :: "(pattern \<times> endpoint) list" where
  "appRoutes =
     [((''GET'', ''/hosting/discovery'', False), DiscoveryDoc), ((''POST'', ''/launch'', False), LaunchPage),
      ((''GET'', ''/api/board'', False), BoardAPI), ((''PUT'', ''/api/board'', False), BoardAPI),
      ((''GET'', ''/api/board/conflict'', False), BoardAPI),
      ((''POST'', ''/api/board/conflict/resolve'', False), BoardAPI), (([], ''/socket.io/'', True), SocketIO)]"

definition NewServer :: "'h serverEnv \<Rightarrow> time \<Rightarrow> 'h \<Rightarrow> config \<Rightarrow> keySet \<Rightarrow> server_error + 'h server" where
  "NewServer E now host cfg ks =
     (case newSessions (cf_SessionSecret cfg) of
        Inl e \<Rightarrow> Inl (ErrSessions e)
      | Inr sessions \<Rightarrow>
          (case newCluster \<lparr>pc_DNS = cf_DNSPeers cfg, pc_Self = cf_DNSSelf cfg\<rparr> of
             None \<Rightarrow> Inl ErrCluster
           | Some cluster \<Rightarrow>
               let fake = fakeHostAllowed (se_world E) (cf_PublicURL cfg);
                   allowedOrigins = cf_AllowedWOPIOrigins cfg @ (if fake then [cf_PublicURL cfg] else []);
                   testHooks = (fake \<or> testHooksAllowed (se_world E));
                   launch = newLaunch (se_launch E) (\<lambda>t. CheckFileInfo (serverClient E ks t) t) sessions (se_index E)
                     allowedOrigins (cf_MaxImageBytes cfg) testHooks
               in Inr \<lparr>sv_cfg = cfg, sv_sessions = sessions, sv_keys = ks, sv_cluster = Start cluster,
                       sv_launch = launch, sv_rooms = newManager (cf_MaxSceneBytes cfg) False True True now host,
                       sv_relay = newRelay, sv_fakeHost = (if fake then Some newFakeHost else None),
                       sv_routes = coreRoutes @ appRoutes @ (if fake then mountFakeHost else [])\<rparr>))"

text \<open>
  The board handler and the relay hold the cluster by pointer: what they see is its present
  state.
\<close>

definition serverBoard :: "'h serverEnv \<Rightarrow> 'h server \<Rightarrow> 'h boardHandler" where
  "serverBoard E s =
     newBoard (le_jwt (se_launch E)) (sv_sessions s) (\<lambda>t. GetFile (serverClient E (sv_keys s) t) t)
       (cf_MaxSceneBytes (sv_cfg s)) True True (Some (IsSelf (sv_cluster s)))"

definition serverRelay :: "'h serverEnv \<Rightarrow> 'h server \<Rightarrow> relayConf" where
  "serverRelay E s =
     \<lparr>rc_verify = sessionVerifier (le_jwt (se_launch E)) (sv_sessions s),
      rc_maxSceneBytes = cf_MaxSceneBytes (sv_cfg s), rc_hasEvents = True,
      rc_isOwner = Some (IsSelf (sv_cluster s)), rc_renum = se_renum E\<rparr>"

text \<open>The hooks of the room manager push to the sockets of the room.\<close>

definition conflictStatePayload :: "bool \<Rightarrow> bool \<Rightarrow> json" where
  "conflictStatePayload inConflict saveStalled =
     JObj [(''inConflict'', JBool inConflict), (''saveStalled'', JBool saveStalled)]"

fun pushHook :: "hook_call \<Rightarrow> relay \<Rightarrow> relay" where
  "pushHook (OnConflictChange r fileID inConflict saveStalled) s =
     (if fileID = [] then s
      else BroadcastToRoom fileID ''conflict-state'' (conflictStatePayload inConflict saveStalled) s)"
| "pushHook (OnReloadRequired fileID) s =
     (if fileID = [] then s else BroadcastToRoom fileID ''reload-required'' (JObj []) s)"
| "pushHook (OnTokenExpiring r src user) s = s"

section \<open>The health check of the command\<close>

text \<open>The URL that is asked; \<open>None\<close> for a bad listen address.\<close>

definition healthcheckURL :: "world \<Rightarrow> string option" where
  "healthcheckURL w =
     (let env = getenv w ''EXCALIDRAW_WOPI_LISTEN_ADDR''; addr = (if env = [] then DefaultListenAddr else env) in
      case splitHostPort addr of
        None \<Rightarrow> None
      | Some (host, port) \<Rightarrow>
          let host' = (if host \<in> {[], ''0.0.0.0'', ''::''} then ''localhost'' else host)
          in Some (''http://'' @ joinHostPort host' port @ ''/healthz''))"

text \<open>\<open>get\<close> answers with a status or fails.\<close>

definition runHealthcheck :: "world \<Rightarrow> (string \<Rightarrow> int option) \<Rightarrow> bool" where
  "runHealthcheck w get =
     (case healthcheckURL w of
        None \<Rightarrow> False
      | Some url \<Rightarrow> get url = Some 200)"

section \<open>The process\<close>

definition shutdownTimeout :: duration where "shutdownTimeout = 10 * second"
definition roomShutdownFlushTimeout :: duration where "roomShutdownFlushTimeout = 8 * second"

text \<open>The callbacks of \<open>RegisterOnShutdown\<close>, which \<open>Shutdown\<close> starts on goroutines of their own.\<close>

datatype shutdownHook = RelayClose | ClusterClose | RoomsShutdown

datatype phase = Serving | Draining time | Exited

text \<open>
  The process: the server, the callbacks that have not run, and the number of connections
  that \<open>Shutdown\<close> waits for. A hijacked connection, such as a websocket, is not one of them.
  \<open>ps_loop\<close>: the background loop of the rooms, which their \<open>Shutdown\<close> stops first.
\<close>

record 'h process =
  ps_server :: "'h server"
  ps_phase :: phase
  ps_hooks :: "shutdownHook list"
  ps_conns :: nat
  ps_loop :: bool

definition run_hook :: "'h serverEnv \<Rightarrow> shutdownHook \<Rightarrow> 'h server \<Rightarrow> 'h server" where
  "run_hook E h s =
     (case h of
        RelayClose \<Rightarrow> s
      | ClusterClose \<Rightarrow> s\<lparr>sv_cluster := Close (sv_cluster s)\<rparr>
      | RoomsShutdown \<Rightarrow>
          s\<lparr>sv_rooms := exec (flushAll (roomClient E (sv_keys s)) (m_clock (sv_rooms s) + roomShutdownFlushTimeout)) (sv_rooms s)\<rparr>)"

definition with_rooms :: "'h sys \<Rightarrow> 'h process \<Rightarrow> 'h process" where
  "with_rooms t p = p\<lparr>ps_server := (ps_server p)\<lparr>sv_rooms := t\<rparr>\<rparr>"

inductive service_step :: "'h serverEnv \<Rightarrow> 'h process \<Rightarrow> 'h process \<Rightarrow> bool" for E where
  st_accept: "ps_phase p = Serving \<Longrightarrow> service_step E p (p\<lparr>ps_conns := Suc (ps_conns p)\<rparr>)"
| st_done: "ps_phase p \<noteq> Exited \<Longrightarrow> service_step E p (p\<lparr>ps_conns := ps_conns p - 1\<rparr>)"
| st_board: "ps_phase p \<noteq> Exited \<Longrightarrow> 0 < ps_conns p \<Longrightarrow>
    RegisterRoutes (serverBoard E (ps_server p)) method path = Some h \<Longrightarrow>
    run_state (h r) (sv_rooms (ps_server p)) = (rp, t) \<Longrightarrow> service_step E p (with_rooms t p)"
| st_pass: "ps_phase p \<noteq> Exited \<Longrightarrow> ps_loop p \<Longrightarrow>
    service_step E p (with_rooms
      (exec (evaluateAll (roomClient E (sv_keys (ps_server p)))) (sv_rooms (ps_server p))) p)"
| st_event: "ps_phase p \<noteq> Exited \<Longrightarrow>
    service_step E p (with_rooms (env_step e (sv_rooms (ps_server p))) p)"
| st_signal: "ps_phase p = Serving \<Longrightarrow>
    service_step E p (p\<lparr>ps_phase := Draining (m_clock (sv_rooms (ps_server p)) + shutdownTimeout),
      ps_hooks := [RelayClose, ClusterClose, RoomsShutdown]\<rparr>)"
| st_hook: "ps_phase p \<noteq> Exited \<Longrightarrow> h \<in> set (ps_hooks p) \<Longrightarrow>
    service_step E p (p\<lparr>ps_server := run_hook E h (ps_server p), ps_hooks := remove1 h (ps_hooks p),
      ps_loop := (ps_loop p \<and> h \<noteq> RoomsShutdown)\<rparr>)"
| st_return: "ps_phase p = Draining deadline \<Longrightarrow> ps_conns p = 0 \<or> deadline \<le> m_clock (sv_rooms (ps_server p)) \<Longrightarrow>
    service_step E p (p\<lparr>ps_phase := Exited\<rparr>)"
| st_listener: "ps_phase p = Serving \<Longrightarrow> service_step E p (p\<lparr>ps_phase := Exited\<rparr>)"

inductive_cases service_stepE: "service_step E p q"

end
