(* ===== verification/ServerSafety.thy ===== *)
theory ServerSafety
  imports Server
begin

text \<open>
  What holds of the wired server: its requests carry proofs that its own discovery document
  verifies, a launched user gets into the room of the file, and what a shutdown may lose.
\<close>

section \<open>Every request is signed\<close>

definition signed_request ::
  "(string \<Rightarrow> string) \<Rightarrow> (string \<times> string) list \<Rightarrow> string \<Rightarrow> time \<Rightarrow> httpReq \<Rightarrow> bool" where
  "signed_request toUpper attrs token ts q \<longleftrightarrow>
     (let timestamp = header_get (hq_header q) ''X-WOPI-TimeStamp'' in
      host_verifies toUpper (attr_parts [] attrs) (header_get (hq_header q) ''X-WOPI-Proof'') token (hq_url q) timestamp
      \<and> host_verifies toUpper (attr_parts ''old'' attrs) (header_get (hq_header q) ''X-WOPI-ProofOld'') token (hq_url q) timestamp
      \<and> parse_int timestamp = Some (ts div 100))"

text \<open>The requests that a call adds to the log of the transport.\<close>

definition sends :: "(httpReq \<Rightarrow> bool) \<Rightarrow> (httpReq list \<Rightarrow> 'a \<times> httpReq list) \<Rightarrow> bool" where
  "sends P call \<longleftrightarrow> (\<forall>log. \<exists>qs. snd (call log) = log @ qs \<and> list_all P qs)"

lemma sends_none: "(\<And>log. snd (call log) = log) \<Longrightarrow> sends P call"
  by (auto simp: sends_def intro: exI [of _ "[]"])

lemma sends_same: "sends P c1 \<Longrightarrow> (\<And>log. snd (c2 log) = snd (c1 log)) \<Longrightarrow> sends P c2"
  by (simp add: sends_def)

lemma send_signs:
  assumes "\<And>url. case sign token url of (sig, sigOld, timestamp) \<Rightarrow>
      sigOld \<noteq> [] \<and> (\<forall>q. hq_url q = url \<longrightarrow> header_get (hq_header q) ''X-WOPI-Proof'' = sig \<longrightarrow>
        header_get (hq_header q) ''X-WOPI-ProofOld'' = sigOld \<longrightarrow>
        header_get (hq_header q) ''X-WOPI-TimeStamp'' = timestamp \<longrightarrow> P q)"
  shows "sends P (send (newWopiClient (recording f) (Some sign) profile) now op method url token header body)"
proof -
  obtain sig sigOld timestamp where s: "sign token url = (sig, sigOld, timestamp)" by (cases "sign token url")
  let ?q = "\<lparr>hq_method = method, hq_url = url,
    hq_header = header_set ''X-WOPI-TimeStamp'' timestamp (header_set ''X-WOPI-ProofOld'' sigOld
      (header_set ''X-WOPI-Proof'' sig header)), hq_body = body\<rparr>"
  have "sigOld \<noteq> []" "P ?q" using assms [of url] s by (auto simp: header_get_set)
  then show ?thesis
    by (cases "url_parse url")
      (auto simp: sends_def send_def newWopiClient_def recording_def s Let_def split: sum.split)
qed

lemma client_signs:
  assumes "\<And>op method url header body.
      sends P (send c now op method url token header body)"
  shows "sends P (CheckFileInfo c now src token)" "sends P (GetFile c now src token maxSize)"
    "sends P (PutFile c now src token lock body)" "sends P (WopiClient.Lock c now src token lock)"
    "sends P (GetLock c now src token)" "sends P (RefreshLock c now src token lock)"
    "sends P (WopiClient.Unlock c now src token lock)" "sends P (UnlockAndRelock c now src token lock oldLock)"
proof -
  have lockOp: "sends P (lockOp c now op override src token header)" for op override header
  proof (cases "withAccessToken src token")
    case (Some url)
    show ?thesis
      by (rule sends_same [OF assms [of op "''POST''" url "header_set ''X-WOPI-Override'' override header" "[]"]])
        (simp add: lockOp_def Some split: prod.split sum.split)
  qed (simp add: sends_none lockOp_def)
  then show "sends P (WopiClient.Lock c now src token lock)" "sends P (RefreshLock c now src token lock)"
    "sends P (WopiClient.Unlock c now src token lock)" "sends P (UnlockAndRelock c now src token lock oldLock)"
    by (simp_all add: WopiClient.Lock_def RefreshLock_def WopiClient.Unlock_def UnlockAndRelock_def)
  show "sends P (CheckFileInfo c now src token)"
  proof (cases "withAccessToken src token")
    case (Some url)
    show ?thesis
      by (rule sends_same [OF assms [of "''CheckFileInfo''" "''GET''" url "[]" "[]"]])
        (simp add: CheckFileInfo_def Some split: prod.split sum.split)
  qed (simp add: sends_none CheckFileInfo_def)
  show "sends P (GetLock c now src token)"
  proof (cases "withAccessToken src token")
    case (Some url)
    show ?thesis
      by (rule sends_same [OF assms [of "''GetLock''" "''POST''" url "header_set ''X-WOPI-Override'' ''GET_LOCK'' []" "[]"]])
        (simp add: GetLock_def Some split: prod.split sum.split)
  qed (simp add: sends_none GetLock_def)
  show "sends P (GetFile c now src token maxSize)"
  proof (cases "contentsURL src = None \<or> withAccessToken (the (contentsURL src)) token = None")
    case True
    then show ?thesis by (intro sends_none) (auto simp: GetFile_def split: option.split)
  next
    case False
    then obtain contents url where u: "contentsURL src = Some contents" "withAccessToken contents token = Some url" by auto
    show ?thesis
      by (rule sends_same [OF assms [of "''GetFile''" "''GET''" url
          "case maxSize of None \<Rightarrow> [] | Some n \<Rightarrow> header_set ''X-WOPI-MaxExpectedSize'' (format_int n) []" "[]"]])
        (simp add: GetFile_def u Let_def split: prod.split sum.split)
  qed
  show "sends P (PutFile c now src token lock body)"
  proof (cases "contentsURL src = None \<or> withAccessToken (the (contentsURL src)) token = None")
    case True
    then show ?thesis by (intro sends_none) (auto simp: PutFile_def split: option.split)
  next
    case False
    then obtain contents url where u: "contentsURL src = Some contents" "withAccessToken contents token = Some url" by auto
    show ?thesis
      by (rule sends_same [OF assms [of "''PutFile''" "''POST''" url
          "(if lock \<noteq> [] then header_set ''X-WOPI-Lock'' lock else id)
             (header_set ''Content-Type'' ''application/octet-stream'' (header_set ''X-WOPI-Override'' ''PUT'' []))" body]])
        (simp add: PutFile_def u Let_def split: prod.split sum.split)
  qed
qed

lemma i2osp_ne: "0 < k \<Longrightarrow> i2osp k n \<noteq> []"
  by (cases "be_nat n") (simp_all add: i2osp_def)

lemma std_encode_ne:
  assumes "bs \<noteq> []"
  shows "std_encode bs \<noteq> []"
proof
  assume e: "std_encode bs = []"
  have "std_encode [] = []" by (simp add: std_encode_def Let_def)
  with e have "Some bs = Some []" by (metis std_round_trip)
  with assms show False by simp
qed

lemma sign_not_empty:
  assumes "SignRequest toUpper ks token url ts = Some (sig, sigOld, timestamp)"
  shows "sigOld \<noteq> []"
proof -
  obtain s2 where s2: "mustSign (ks_Old ks) (signedBase toUpper token url (TimeToTicks ts)) = Some s2" "sigOld = std_encode s2"
    using assms by (auto simp: SignRequest_def Let_def split: option.splits)
  then have "0 < key_bytes (rk_N (ks_Old ks))" by (auto simp: mustSign_def Let_def key_bytes_def split: if_splits)
  with s2 show ?thesis by (auto simp: mustSign_def Let_def i2osp_ne std_encode_ne split: if_splits)
qed

text \<open>
  C5. Every WOPI request is signed, and the discovery document verifies it. For any keys as
  long as the service accepts, each of the eight operations of the server's client puts
  proof headers on the requests it sends; a host that reads the proof-key element of the
  document the server publishes verifies both of them, over the token of the operation and
  the very URL that is requested, and reads the time of the call from the time stamp.
\<close>

theorem requests_are_signed:
  assumes "rsa_ok (ks_Current ks)" "rsa_ok (ks_Old ks)"
    and "hr_status (discoveryHandler K publicURL ks) = 200"
    and "unixEpoch \<le> ts" "ts < unixEpoch + 2 ^ 63"
    and "se_http E = recording f" "c = serverClient E ks ts"
  shows "\<exists>events attrs. read_document (hr_body (discoveryHandler K publicURL ks)) = Some events
    \<and> Open ''proof-key'' attrs \<in> set events
    \<and> sends (signed_request (se_toUpper E) attrs token ts) (CheckFileInfo c ts src token)
    \<and> sends (signed_request (se_toUpper E) attrs token ts) (GetFile c ts src token maxSize)
    \<and> sends (signed_request (se_toUpper E) attrs token ts) (PutFile c ts src token lock body)
    \<and> sends (signed_request (se_toUpper E) attrs token ts) (WopiClient.Lock c ts src token lock)
    \<and> sends (signed_request (se_toUpper E) attrs token ts) (GetLock c ts src token)
    \<and> sends (signed_request (se_toUpper E) attrs token ts) (RefreshLock c ts src token lock)
    \<and> sends (signed_request (se_toUpper E) attrs token ts) (WopiClient.Unlock c ts src token lock)
    \<and> sends (signed_request (se_toUpper E) attrs token ts) (UnlockAndRelock c ts src token lock oldLock)"
proof -
  obtain current old where parts: "CurrentPublicParts K ks = Some current" "OldPublicParts K ks = Some old"
    and doc: "Render K publicURL ks = Some (hr_body (discoveryHandler K publicURL ks))"
    using served_document [OF assms(3)] .
  let ?attrs = "key_attrs current old" and ?sign = "timestampedSigner (se_toUpper E) ks ts"
  have "case ?sign token url of (sig, sigOld, timestamp) \<Rightarrow>
      sigOld \<noteq> [] \<and> (\<forall>q. hq_url q = url \<longrightarrow> header_get (hq_header q) ''X-WOPI-Proof'' = sig \<longrightarrow>
        header_get (hq_header q) ''X-WOPI-ProofOld'' = sigOld \<longrightarrow>
        header_get (hq_header q) ''X-WOPI-TimeStamp'' = timestamp \<longrightarrow> signed_request (se_toUpper E) ?attrs token ts q)" for url
  proof -
    obtain sig sigOld timestamp where s: "SignRequest (se_toUpper E) ks token url ts = Some (sig, sigOld, timestamp)"
      "host_verifies (se_toUpper E) current sig token url timestamp" "host_verifies (se_toUpper E) old sigOld token url timestamp"
      "parse_int timestamp = Some (ts div 100)"
      using published_key_verifies [OF assms(1,2) parts assms(4,5)] by blast
    then show ?thesis
      using sign_not_empty [OF s(1)]
      by (auto simp: timestampedSigner_def signed_request_def attr_parts_key Let_def)
  qed
  then have "sends (signed_request (se_toUpper E) ?attrs token ts) (send c ts op meth url token header body')"
    for op meth url header body'
    unfolding assms(7) serverClient_def assms(6) by (rule send_signs)
  note ops = client_signs [OF this]
  show ?thesis
    by (intro exI [of _ ?attrs] exI conjI, rule document_reads [OF parts doc]) (simp_all add: ops)
qed

section \<open>A launched user gets into the room\<close>

lemma admitted_join:
  assumes "ry_data s sid = Some state" "ry_connected s sid" "ss_FileID (sk_session state) = roomID"
    "roomIDPattern roomID" "sid \<notin> mb_SocketID ` set (membersOf (ry_rooms s) roomID)"
  shows "membersOf (ry_rooms (onJoinRoom cf sid [ArgString roomID] s)) roomID
    = membersOf (ry_rooms s) roomID @ [memberOf sid state]"
proof -
  have "mb_SocketID (memberOf sid state) \<notin> mb_SocketID ` set (membersOf (ry_rooms s) roomID)"
    using assms(5) by (simp add: memberOf_def)
  note j = join_new(1,3) [OF this]
  have "roomGuard sid [ArgString roomID] 1 True s = (Some (roomID, state), s)"
    using assms(1,3,4) by (simp add: roomGuard_def roomIDArg_def)
  then show ?thesis
    using assms(2) j by (cases "join roomID (memberOf sid state) (ry_rooms s)") (simp add: onJoinRoom_def Let_def)
qed

lemma verified_joins:
  assumes "Verify (le_jwt (se_launch E)) (sv_sessions sv) now raw = Inr c" "IsSelf (sv_cluster sv) (cl_FileID c)"
    "roomIDPattern (cl_FileID c)" "sid \<notin> mb_SocketID ` set (membersOf (ry_rooms s) (cl_FileID c))"
  shows "\<exists>s1. authenticate (serverRelay E sv) now sid (Some (ArgString raw)) s = (None, s1)
      \<and> \<lparr>mb_SocketID = sid, mb_UserID = cl_UserID c, mb_UserName = cl_UserName c, mb_CanWrite = cl_CanWrite c\<rparr>
        \<in> set (membersOf (ry_rooms (onJoinRoom (serverRelay E sv) sid [ArgString (cl_FileID c)]
              (onConnection sid (set_connected sid True s1)))) (cl_FileID c))"
proof -
  let ?conf = "serverRelay E sv"
  let ?state = "\<lparr>sk_session = \<lparr>ss_FileID = cl_FileID c, ss_UserID = cl_UserID c, ss_UserName = cl_UserName c,
      ss_CanWrite = cl_CanWrite c\<rparr>, sk_roomID = []\<rparr>"
  let ?s1 = "s\<lparr>ry_data := (ry_data s)(sid \<mapsto> ?state)\<rparr>"
  have "authenticate ?conf now sid (Some (ArgString raw)) s = (None, ?s1)"
    using assms(1,2) by (simp add: authenticate_def serverRelay_def sessionVerifier_def)
  moreover have "membersOf (ry_rooms (onJoinRoom ?conf sid [ArgString (cl_FileID c)] (onConnection sid (set_connected sid True ?s1))))
      (cl_FileID c) = membersOf (ry_rooms s) (cl_FileID c) @ [memberOf sid ?state]"
    using assms(3,4) by (subst admitted_join) (auto simp: onConnection_def set_connected_def)
  ultimately show ?thesis by (auto simp: memberOf_def)
qed

lemma verified_board:
  assumes "Verify (le_jwt (se_launch E)) (sv_sessions sv) now raw = Inr c" "IsSelf (sv_cluster sv) (cl_FileID c)"
  shows "boardSession (serverBoard E sv) now \<lparr>br_authorization = bearer @ raw, br_body = [], br_bodyErr = False\<rparr> = Inr c"
  using assms by (simp add: boardSession_def serverBoard_def newBoard_def trim_prefix_def)

text \<open>
  C4. Who launches a file may edit it, and the two channels agree. When the wired server
  answers a launch with 200, then, until the session expires and as long as this replica
  owns the file: the session token in the page is accepted by the relay's handshake, which
  keeps the file, the user and the write permission that the host reported, but not the
  access token; a join of the file's room makes the socket a member with that permission;
  and the board API accepts the same token for the same file, user and permission.
\<close>

theorem launched_user_joins:
  assumes "NewServer E now0 host cfg ks = Inr sv" "jwt_ok (le_jwt (se_launch E))"
    and "Launch.ServeHTTP (se_launch E) (sv_launch sv) t1 t2 t3 (Some nonce) r w = (rp, w')" "hr_status rp = 200"
    and "length nonce = nonceSize" "unixEpoch \<le> t1" "unixEpoch \<le> t2" "t2 + maxSessionTTL < unixEpoch + 2 ^ 53 * second"
    and "json_text (launchSrc r)"
    and "\<And>info w2. lh_client (sv_launch sv) t3 (launchSrc r) (launchToken r) w = (Inr info, w2) \<Longrightarrow>
      json_text (fi_UserID info) \<and> json_text (fi_UserFriendlyName info)"
  shows "\<exists>fileID info raw cfg' e. renderPage (sv_launch sv) cfg' = Some (hr_body rp) \<and> ac_SessionToken cfg' = raw
    \<and> lh_client (sv_launch sv) t3 (launchSrc r) (launchToken r) w = (Inr info, w')
    \<and> (\<exists>ttl. launchTTL t1 r = Some ttl \<and> min ttl (t2 + maxSessionTTL) < e + second)
    \<and> (\<forall>now cl s sid. now < e \<and> IsSelf cl fileID \<and> sid \<notin> mb_SocketID ` set (membersOf (ry_rooms s) fileID) \<longrightarrow>
        (let sv' = sv\<lparr>sv_cluster := cl\<rparr>; conf = serverRelay E sv';
             m = \<lparr>mb_SocketID = sid, mb_UserID = fi_UserID info, mb_UserName = fi_UserFriendlyName info,
                  mb_CanWrite = fi_UserCanWrite info\<rparr>
         in (\<exists>s1. authenticate conf now sid (Some (ArgString raw)) s = (None, s1)
              \<and> m \<in> set (membersOf (ry_rooms (onJoinRoom conf sid [ArgString fileID] (onConnection sid (set_connected sid True s1)))) fileID))
          \<and> boardSession (serverBoard E sv') now \<lparr>br_authorization = bearer @ raw, br_body = [], br_bodyErr = False\<rparr>
              = Inr \<lparr>cl_FileID = fileID, cl_WOPISrc = launchSrc r, cl_UserID = fi_UserID info,
                     cl_UserName = fi_UserFriendlyName info, cl_CanWrite = fi_UserCanWrite info,
                     cl_AccessToken = launchToken r, cl_ExpiresAt = e\<rparr>))"
proof -
  have sess: "newSessions (cf_SessionSecret cfg) = Inr (lh_sessions (sv_launch sv))" "sv_sessions sv = lh_sessions (sv_launch sv)"
    using assms(1) by (auto simp: NewServer_def Let_def newLaunch_def split: sum.splits option.splits)
  from launch_outcome [OF assms(3,4,2) sess(1) assms(5-8)]
  obtain fileID info raw cfg' e where l: "roomIDPattern fileID"
    "lh_client (sv_launch sv) t3 (launchSrc r) (launchToken r) w = (Inr info, w')"
    "renderPage (sv_launch sv) cfg' = Some (hr_body rp)" "ac_SessionToken cfg' = raw"
    "\<exists>ttl. launchTTL t1 r = Some ttl \<and> min ttl (t2 + maxSessionTTL) < e + second"
    "json_text (launchSrc r) \<and> json_text (fi_UserID info) \<and> json_text (fi_UserFriendlyName info) \<longrightarrow>
        (\<forall>now. Verify (le_jwt (se_launch E)) (lh_sessions (sv_launch sv)) now raw =
          (if now < e
           then Inr \<lparr>cl_FileID = fileID, cl_WOPISrc = launchSrc r, cl_UserID = fi_UserID info,
                     cl_UserName = fi_UserFriendlyName info, cl_CanWrite = fi_UserCanWrite info,
                     cl_AccessToken = launchToken r, cl_ExpiresAt = e\<rparr>
           else Inl ErrVerify))"
    by blast
  let ?c = "\<lparr>cl_FileID = fileID, cl_WOPISrc = launchSrc r, cl_UserID = fi_UserID info,
                     cl_UserName = fi_UserFriendlyName info, cl_CanWrite = fi_UserCanWrite info,
                     cl_AccessToken = launchToken r, cl_ExpiresAt = e\<rparr>"
  have v: "Verify (le_jwt (se_launch E)) (sv_sessions sv) now raw = Inr ?c" if "now < e" for now
    using l(6) assms(9,10) l(2) sess(2) that by simp
  have ok: "(\<exists>s1. authenticate (serverRelay E (sv\<lparr>sv_cluster := cl\<rparr>)) now sid (Some (ArgString raw)) s = (None, s1)
        \<and> \<lparr>mb_SocketID = sid, mb_UserID = fi_UserID info, mb_UserName = fi_UserFriendlyName info, mb_CanWrite = fi_UserCanWrite info\<rparr>
          \<in> set (membersOf (ry_rooms (onJoinRoom (serverRelay E (sv\<lparr>sv_cluster := cl\<rparr>)) sid [ArgString fileID]
              (onConnection sid (set_connected sid True s1)))) fileID))
      \<and> boardSession (serverBoard E (sv\<lparr>sv_cluster := cl\<rparr>)) now
          \<lparr>br_authorization = bearer @ raw, br_body = [], br_bodyErr = False\<rparr> = Inr ?c"
    if "now < e" "IsSelf cl fileID" "sid \<notin> mb_SocketID ` set (membersOf (ry_rooms s) fileID)" for now cl sid s
    using verified_joins [of E "sv\<lparr>sv_cluster := cl\<rparr>" now raw ?c sid s] verified_board [of E "sv\<lparr>sv_cluster := cl\<rparr>" now raw ?c]
      v [OF that(1)] that(2,3) l(1) by simp
  show ?thesis
    by (intro exI [of _ fileID] exI [of _ info] exI [of _ raw] exI [of _ cfg'] exI [of _ e])
      (use l(2-5) ok in \<open>auto simp: Let_def\<close>)
qed

definition demoInfo :: fileInfo where
  "demoInfo = \<lparr>fi_BaseFileName = ''a'', fi_OwnerID = ''o'', fi_UserFriendlyName = ''Ada'',
     fi_Size = 1, fi_UserID = ''u1'', fi_Version = ''v'', fi_UserCanWrite = True, fi_ReadOnly = False,
     fi_SupportsUpdate = True, fi_SupportsGetLock = True, fi_SupportsLocks = True\<rparr>"

definition demoServerEnv :: "nat serverEnv" where
  "demoServerEnv =
     \<lparr>se_launch = demoEnv, se_toUpper = id,
      se_http = (\<lambda>_ _ n. (Inr \<lparr>hs_status = 200, hs_header = (\<lambda>_. []),
        hs_body = print_json (fileInfo_json demoInfo) @ [CHR 0x0A], hs_bodyErr = False\<rparr>, n + 1)),
      se_index = Some demoPage, se_renum = (\<lambda>_. None), se_world = demoWorld\<rparr>"

definition demoServerConfig :: config where
  "demoServerConfig =
     \<lparr>cf_ListenAddr = DefaultListenAddr, cf_PublicURL = defaultPublicURL, cf_SessionSecret = demoSecret,
      cf_ProofKeyPath = defaultProofKeyPath, cf_MaxImageBytes = 1024, cf_MaxSceneBytes = 1000,
      cf_SocketBufferBytes = defaultSocketBufferBytes, cf_AllowedWOPIOrigins = [''HTTP://Drive''],
      cf_DNSPeers = [], cf_DNSSelf = []\<rparr>"

definition demoKeySet :: keySet where
  "demoKeySet = \<lparr>ks_Current = demoKey, ks_Old = demoKey\<rparr>"

lemma demo_server:
  assumes "newSessions demoSecret = Inr m"
  shows "\<exists>sv. NewServer demoServerEnv demoTime 0 demoServerConfig demoKeySet = Inr sv \<and> lh_sessions (sv_launch sv) = m
    \<and> lh_allowedOrigins (sv_launch sv) = [''http://drive''] \<and> lh_index (sv_launch sv) = Some demoPage
    \<and> lh_client (sv_launch sv) = (\<lambda>t. CheckFileInfo (serverClient demoServerEnv demoKeySet t) t)
    \<and> \<not> cu_enabled (sv_cluster sv)"
  using assms demo_origins [of m]
  by (simp add: NewServer_def demoServerConfig_def demoServerEnv_def newCluster_def fakeHostAllowed_def testHooksAllowed_def
      getenv_def demoWorld_def envFakeHost_def envTestHooks_def newLaunch_def demoLaunch_def Start_def)

lemma demo_launch_url:
  "withAccessToken ''http://drive/wopi/files/f1'' ''tok+'' = Some ''http://drive/wopi/files/f1?access_token=tok%2B''"
  "url_parse ''http://drive/wopi/files/f1?access_token=tok%2B'' \<noteq> None"
  by code_simp+

lemma demo_check:
  "CheckFileInfo (serverClient demoServerEnv demoKeySet t) t ''http://drive/wopi/files/f1'' ''tok+'' n = (Inr demoInfo, n + 1)"
proof -
  obtain u where u: "url_parse ''http://drive/wopi/files/f1?access_token=tok%2B'' = Some u"
    using demo_launch_url(2) by auto
  have "info_ok demoInfo" by (simp add: info_ok_def demoInfo_def json_text_def utf8_fix_of_ascii)
  from unmarshal_print [OF this] show ?thesis
    by (simp add: CheckFileInfo_def demo_launch_url(1) send_def u serverClient_def newWopiClient_def demoServerEnv_def
        StatusOK_def Let_def split: prod.split)
qed

lemma demo_server_checks:
  assumes "lh_allowedOrigins h = [''http://drive'']"
  shows "launch_checks demoEnv h demoTime demoPost ''f1'' (unixEpoch + 1800000000 * second)"
  using demo_checks [of demoKeys] assms
  by (simp add: launch_checks_def originAllowed_def demo_origins split: option.splits)

lemma demo_server_reply:
  assumes "NewServer demoServerEnv demoTime 0 demoServerConfig demoKeySet = Inr sv"
  shows "\<exists>rp. Launch.ServeHTTP demoEnv (sv_launch sv) demoTime demoTime demoTime
      (Some (replicate 12 (char_of (7 :: nat)))) demoPost 0 = (rp, 1) \<and> hr_status rp = 200"
proof -
  obtain m where m: "newSessions demoSecret = Inr m" using newSessions_total by blast
  have sv: "lh_sessions (sv_launch sv) = m" "lh_allowedOrigins (sv_launch sv) = [''http://drive'']"
    "lh_index (sv_launch sv) = Some demoPage"
    "lh_client (sv_launch sv) = (\<lambda>t. CheckFileInfo (serverClient demoServerEnv demoKeySet t) t)"
    using demo_server [OF m] assms by auto
  let ?p = "launchMint ''f1'' (launchSrc demoPost) (launchToken demoPost) demoInfo
     (min (unixEpoch + 1800000000 * second) (demoTime + maxSessionTTL))"
  have n: "length (replicate 12 (char_of (7 :: nat) :: char)) = nonceSize" by (simp add: nonceSize_def)
  have ok: "json_text (mp_FileID ?p)" "json_text (mp_WOPISrc ?p)" "json_text (mp_UserID ?p)"
    "json_text (mp_UserName ?p)" "date_ok (mp_ExpiresAt ?p)"
    by (simp_all add: launchMint_def demo_request json_text_def utf8_fix_of_ascii date_ok_def second_def
        demoTime_def maxSessionTTL_def hour_def minute_def demoInfo_def)
  obtain raw where raw: "Mint demoJwt m (Some (replicate 12 (char_of (7 :: nat)))) ?p = Inr raw"
    using mint_verify [OF demoJwt_ok m n ok] by blast
  have "le_jwt demoEnv = demoJwt" by (simp add: demoEnv_def)
  with raw sv show ?thesis
    by (simp add: launch_accepted [OF demo_server_checks [OF sv(2)]] demo_request demo_check renderPage_def demo_cut Let_def)
qed

theorem launched_user_joins_witness:
  "\<exists>sv rp raw s1. NewServer demoServerEnv demoTime 0 demoServerConfig demoKeySet = Inr sv
    \<and> Launch.ServeHTTP demoEnv (sv_launch sv) demoTime demoTime demoTime
        (Some (replicate 12 (char_of (7 :: nat)))) demoPost 0 = (rp, 1)
    \<and> authenticate (serverRelay demoServerEnv sv) demoTime ''s1'' (Some (ArgString raw)) newRelay = (None, s1)"
proof -
  obtain m where m: "newSessions demoSecret = Inr m" using newSessions_total by blast
  obtain sv where sv: "NewServer demoServerEnv demoTime 0 demoServerConfig demoKeySet = Inr sv" "\<not> cu_enabled (sv_cluster sv)"
    "lh_client (sv_launch sv) = (\<lambda>t. CheckFileInfo (serverClient demoServerEnv demoKeySet t) t)"
    using demo_server [OF m] by auto
  obtain rp where rp: "Launch.ServeHTTP demoEnv (sv_launch sv) demoTime demoTime demoTime
      (Some (replicate 12 (char_of (7 :: nat)))) demoPost 0 = (rp, 1)" "hr_status rp = 200"
    using demo_server_reply [OF sv(1)] by blast
  have E: "se_launch demoServerEnv = demoEnv" by (simp add: demoServerEnv_def)
  have n: "length (replicate 12 (char_of (7 :: nat) :: char)) = nonceSize" by (simp add: nonceSize_def)
  have t: "unixEpoch \<le> demoTime" "demoTime + maxSessionTTL < unixEpoch + 2 ^ 53 * second"
    by (simp_all add: demoTime_def maxSessionTTL_def hour_def minute_def second_def)
  have j: "jwt_ok (le_jwt demoEnv)" "json_text (launchSrc demoPost)"
    by (simp_all add: demoEnv_def demoJwt_ok demo_request json_text_def utf8_fix_of_ascii)
  have i: "json_text (fi_UserID info) \<and> json_text (fi_UserFriendlyName info)"
    if "lh_client (sv_launch sv) demoTime (launchSrc demoPost) (launchToken demoPost) 0 = (Inr info, w2)" for info w2
    using that by (auto simp: sv(3) demo_request demo_check demoInfo_def json_text_def utf8_fix_of_ascii)
  obtain fileID info raw e where x: "min (unixEpoch + 1800000000 * second) (demoTime + maxSessionTTL) < e + second"
    and all: "\<And>now cl s sid. now < e \<and> IsSelf cl fileID \<and> sid \<notin> mb_SocketID ` set (membersOf (ry_rooms s) fileID) \<Longrightarrow>
        \<exists>s1. authenticate (serverRelay demoServerEnv (sv\<lparr>sv_cluster := cl\<rparr>)) now sid (Some (ArgString raw)) s = (None, s1)"
    using launched_user_joins [OF sv(1), unfolded E, OF j(1) rp n t(1) t(1) t(2) j(2) i] demo_request(3)
    unfolding Let_def by fastforce
  have "demoTime < e" using x by (auto simp: demoTime_def maxSessionTTL_def hour_def minute_def second_def min_def split: if_splits)
  moreover have "IsSelf (sv_cluster sv) fileID" using sv(2) by (simp add: IsSelf_def)
  moreover have "''s1'' \<notin> mb_SocketID ` set (membersOf (ry_rooms newRelay) fileID)"
    by (simp add: newRelay_def newRegistry_def membersOf_def)
  ultimately have "\<exists>s1. authenticate (serverRelay demoServerEnv (sv\<lparr>sv_cluster := sv_cluster sv\<rparr>)) demoTime ''s1''
      (Some (ArgString raw)) newRelay = (None, s1)"
    using all by blast
  with sv(1) rp(1) show ?thesis by auto
qed

definition demoDownEnv :: "httpReq list serverEnv" where
  "demoDownEnv =
     \<lparr>se_launch = demoEnv, se_toUpper = id, se_http = recording (\<lambda>_ _. Inl ''down''),
      se_index = Some demoPage, se_renum = (\<lambda>_. None), se_world = demoWorld\<rparr>"

theorem requests_are_signed_witness:
  "\<exists>attrs q. snd (CheckFileInfo (serverClient demoDownEnv demoKeySet demoTime)
      demoTime ''http://drive/wopi/files/f1'' ''tok+'' []) = [q]
    \<and> signed_request id attrs ''tok+'' demoTime q"
proof -
  let ?call = "CheckFileInfo (serverClient demoDownEnv demoKeySet demoTime) demoTime ''http://drive/wopi/files/f1'' ''tok+''"
  have ok: "rsa_ok (ks_Current demoKeySet)" "rsa_ok (ks_Old demoKeySet)" by (simp_all add: demoKeySet_def demoKey_ok)
  have doc: "hr_status (discoveryHandler demoCodec ''http://h'' demoKeySet) = 200"
    by (simp add: discoveryHandler_def Render_def CurrentPublicParts_def OldPublicParts_def publicKeyParts_of_def demoCodec_def)
  have t: "unixEpoch \<le> demoTime" "demoTime < unixEpoch + 2 ^ 63" by (simp_all add: demoTime_def second_def)
  have E: "se_http demoDownEnv = recording (\<lambda>_ _. Inl ''down'')" "se_toUpper demoDownEnv = id" by (simp_all add: demoDownEnv_def)
  obtain attrs where a: "sends (signed_request id attrs ''tok+'' demoTime) ?call"
    using requests_are_signed [OF ok doc t E(1) refl, of "''tok+''" "''http://drive/wopi/files/f1''" None "[]" "[]" "[]", unfolded E(2)]
    by blast
  obtain u where u: "url_parse ''http://drive/wopi/files/f1?access_token=tok%2B'' = Some u"
    using demo_launch_url(2) by auto
  have "\<exists>q. snd (?call []) = [q]"
    by (simp add: CheckFileInfo_def demo_launch_url(1) send_def u serverClient_def newWopiClient_def E(1) recording_def
        Let_def split: prod.split)
  then obtain q where q: "snd (?call []) = [q]" by blast
  moreover have "signed_request id attrs ''tok+'' demoTime q"
    using a q unfolding sends_def by (metis append_Nil list.pred_inject(2))
  ultimately show ?thesis by blast
qed

section \<open>What a shutdown may lose\<close>

lemma steps_with_rooms [simp]:
  "ps_phase (with_rooms t p) = ps_phase p" "ps_conns (with_rooms t p) = ps_conns p"
  "sv_rooms (ps_server (with_rooms t p)) = t"
  by (simp_all add: with_rooms_def)

lemma exited_ends: "ps_phase p = Exited \<Longrightarrow> \<not> service_step E p q"
  by (auto elim: service_stepE)

text \<open>
  C10. A clean shutdown may lose an accepted scene. From any state of a serving process in
  which nothing else is under way (the connection of the request is the only one, and no
  other goroutine is between two critical sections), let a valid PUT of a writer's session,
  not empty and within the limit, be answered with 204; then the following run is possible, with no
  failure anywhere: the request's connection ends, SIGTERM arrives, and \<open>Shutdown\<close> returns,
  as no connection is left that it waits for, before the callback that flushes the rooms
  has run; \<open>main\<close> returns. In the end the process has exited, so nothing runs any more, the
  room still holds the scene and is dirty, and not one call to the WOPI host was made since
  the scene was accepted.
\<close>

theorem shutdown_can_lose_scene:
  assumes "ps_phase p = Serving" "s = sv_rooms (ps_server p)" "b = serverBoard E (ps_server p)" "ps_conns p = 1"
    and "m_sched s = []" "boardSession b (m_clock s) r = Inr c" "cl_CanWrite c" "cl_FileID c \<noteq> []"
    and "br_bodyErr r = False" "br_body r \<noteq> []" "int (length (br_body r)) \<le> bh_maxSceneBytes b"
    and "bh_maxSceneBytes b < 2 ^ 63 - 1" "m_maxSceneBytes s = bh_maxSceneBytes b"
  shows "\<exists>t q k. run_state (handlePutBoard b r) s = (noContent, t) \<and> service_step E p (with_rooms t p)
    \<and> (service_step E)\<^sup>*\<^sup>* (with_rooms t p) q \<and> ps_phase q = Exited \<and> (\<forall>q'. \<not> service_step E q q')
    \<and> RoomsShutdown \<in> set (ps_hooks q) \<and> sv_rooms (ps_server q) = t
    \<and> map_of (m_rooms t) (cl_WOPISrc c) = Some k \<and> rs_scene (m_heap t k) = Some (br_body r) \<and> rs_dirty (m_heap t k)
    \<and> m_calls (sv_rooms (ps_server q)) = m_calls s"
proof -
  have obs: "bh_observer b" using assms(3) by (simp add: serverBoard_def newBoard_def)
  obtain k t where t: "run_state (handlePutBoard b r) s = (noContent, t)" "map_of (m_rooms t) (cl_WOPISrc c) = Some k"
    "rs_scene (m_heap t k) = clone_bytes (br_body r)" "env_atoms (\<lambda>_. True) s t" "rs_dirty (m_heap t k)"
    using put_state [OF assms(5,6) obs assms(7-9,11-13)] by metis
  let ?p = "with_rooms t p" and ?put = "''PUT''" and ?path = "''/api/board''"
  have "RegisterRoutes (serverBoard E (ps_server p)) ?put ?path = Some (handlePutBoard b)"
    using assms(3) by (simp add: RegisterRoutes_def is_read_def)
  then have put: "service_step E p ?p"
    using st_board [of p E ?put ?path "handlePutBoard b" r noContent t] assms(1,2,4) t(1) by simp
  let ?p1 = "?p\<lparr>ps_conns := ps_conns ?p - 1\<rparr>"
  let ?p2 = "?p1\<lparr>ps_phase := Draining (m_clock (sv_rooms (ps_server ?p1)) + shutdownTimeout),
      ps_hooks := [RelayClose, ClusterClose, RoomsShutdown]\<rparr>"
  let ?q = "?p2\<lparr>ps_phase := Exited\<rparr>"
  have "service_step E ?p ?p1" using assms(1) by (intro st_done) simp
  moreover have "service_step E ?p1 ?p2" using assms(1) by (intro st_signal) simp
  moreover have "service_step E ?p2 ?q" using assms(4) by (intro st_return [OF _ disjI1]) simp_all
  ultimately have run: "(service_step E)\<^sup>*\<^sup>* ?p ?q" by (meson converse_rtranclp_into_rtranclp rtranclp.rtrancl_refl)
  have calls: "m_calls t = m_calls s" using env_atoms_frame(1) [OF t(4)] .
  show ?thesis
    by (intro exI [of _ t] exI [of _ ?q] exI [of _ k] conjI put run t(1,2,5) allI exited_ends)
      (use t(3) assms(10) calls in \<open>simp_all\<close>)
qed

theorem shutdown_can_lose_scene_witness:
  "\<exists>sv raw t q. NewServer demoServerEnv demoTime 0 demoServerConfig demoKeySet = Inr sv
    \<and> run_state (handlePutBoard (serverBoard demoServerEnv sv)
          \<lparr>br_authorization = bearer @ raw, br_body = ''{}'', br_bodyErr = False\<rparr>) (sv_rooms sv) = (noContent, t)
    \<and> (service_step demoServerEnv)\<^sup>*\<^sup>*
        (with_rooms t \<lparr>ps_server = sv, ps_phase = Serving, ps_hooks = [], ps_conns = 1, ps_loop = True\<rparr>) q
    \<and> ps_phase q = Exited \<and> sv_rooms (ps_server q) = t \<and> m_calls t = []
    \<and> (\<exists>k. map_of (m_rooms t) ''http://a/f1'' = Some k \<and> rs_scene (m_heap t k) = Some ''{}'' \<and> rs_dirty (m_heap t k))"
proof -
  obtain m where m: "newSessions demoSecret = Inr m" using newSessions_total by blast
  obtain sv where sv: "NewServer demoServerEnv demoTime 0 demoServerConfig demoKeySet = Inr sv" "\<not> cu_enabled (sv_cluster sv)"
    "lh_sessions (sv_launch sv) = m"
    using demo_server [OF m] by auto
  have f: "sv_sessions sv = m" "sv_cfg sv = demoServerConfig" "sv_rooms sv = newManager 1000 False True True demoTime 0"
    using sv(1,3) by (auto simp: NewServer_def Let_def newLaunch_def demoServerConfig_def split: sum.splits option.splits)
  let ?b = "serverBoard demoServerEnv sv"
  have b: "bh_jwt ?b = demoJwt" "bh_sessions ?b = m" "bh_isOwner ?b = Some (IsSelf (sv_cluster sv))" "bh_maxSceneBytes ?b = 1000"
    by (simp_all add: serverBoard_def newBoard_def demoServerEnv_def demoEnv_def f demoServerConfig_def)
  have n: "length (replicate 12 (char_of (7 :: nat) :: char)) = nonceSize" by (simp add: nonceSize_def)
  let ?p = "demoBoardMint ''http://a/f1''"
  have ok: "json_text (mp_FileID ?p)" "json_text (mp_WOPISrc ?p)" "json_text (mp_UserID ?p)"
    "json_text (mp_UserName ?p)" "date_ok (mp_ExpiresAt ?p)"
    using demoMint_ok by (simp_all add: demoBoardMint_def json_text_def utf8_fix_of_ascii)
  obtain raw where raw: "Mint demoJwt m (Some (replicate 12 (char_of (7 :: nat)))) ?p = Inr raw"
    using mint_verify [OF demoJwt_ok m n ok] by blast
  let ?r = "\<lparr>br_authorization = bearer @ raw, br_body = ''{}'', br_bodyErr = False\<rparr>"
  have e: "demoTime < jwt_NewNumericDate demoJwt (mp_ExpiresAt ?p)"
    by (simp add: demoJwt_def demoBoardMint_def demoMint_def second_def demoTime_def)
  have "\<exists>c. boardSession ?b demoTime ?r = Inr c \<and> cl_CanWrite c \<and> cl_FileID c \<noteq> [] \<and> cl_WOPISrc c = ''http://a/f1''"
    using minted_session [of ?b "cf_SessionSecret demoServerConfig" "replicate 12 (char_of (7 :: nat))" ?p raw ?r demoTime]
      demoJwt_ok m n ok raw e sv(2)
    by (simp add: b demoServerConfig_def IsSelf_def demoBoardMint_def demoMint_def)
  then obtain c where c: "boardSession ?b demoTime ?r = Inr c" "cl_CanWrite c" "cl_FileID c \<noteq> []"
    "cl_WOPISrc c = ''http://a/f1''" by blast
  let ?proc = "\<lparr>ps_server = sv, ps_phase = Serving, ps_hooks = [], ps_conns = 1, ps_loop = True\<rparr> :: nat process"
  have s: "m_sched (sv_rooms sv) = []" "m_clock (sv_rooms sv) = demoTime" "m_maxSceneBytes (sv_rooms sv) = 1000" "m_calls (sv_rooms sv) = []"
    by (simp_all add: f newManager_def)
  have "\<exists>t q k. run_state (handlePutBoard ?b ?r) (sv_rooms sv) = (noContent, t) \<and> service_step demoServerEnv ?proc (with_rooms t ?proc)
    \<and> (service_step demoServerEnv)\<^sup>*\<^sup>* (with_rooms t ?proc) q \<and> ps_phase q = Exited \<and> (\<forall>q'. \<not> service_step demoServerEnv q q')
    \<and> RoomsShutdown \<in> set (ps_hooks q) \<and> sv_rooms (ps_server q) = t
    \<and> map_of (m_rooms t) (cl_WOPISrc c) = Some k \<and> rs_scene (m_heap t k) = Some (br_body ?r) \<and> rs_dirty (m_heap t k)
    \<and> m_calls (sv_rooms (ps_server q)) = m_calls (sv_rooms sv)"
    by (rule shutdown_can_lose_scene) (use c(1-3) s b in simp_all)
  then obtain t q k where "run_state (handlePutBoard ?b ?r) (sv_rooms sv) = (noContent, t)"
    "(service_step demoServerEnv)\<^sup>*\<^sup>* (with_rooms t ?proc) q" "ps_phase q = Exited" "sv_rooms (ps_server q) = t"
    "map_of (m_rooms t) ''http://a/f1'' = Some k" "rs_scene (m_heap t k) = Some ''{}''" "rs_dirty (m_heap t k)" "m_calls t = []"
    unfolding c(4) s(4) by auto
  with sv(1) show ?thesis by blast
qed

end
