(* ===== verification/Startup.thy ===== *)
theory Startup
  imports ServerSafety
begin

text \<open>
  From the environment to the routes: the start of the command
  (\<open>cmd/excalidraw-wopi/main.go\<close>), what the wired server can be asked for, and two servers
  that share the files between them.
\<close>

section \<open>The start of the process\<close>

text \<open>What the key loading meets: its variable, a generated key, the temporary file, the key file.\<close>

record keyInputs =
  ki_codec :: keyCodec
  ki_env :: "bytes option"
  ki_gen :: "rsaKey option"
  ki_tmpOk :: bool
  ki_file :: "string \<Rightarrow> keyFile"

datatype start_error = ErrConfig config_error | ErrProofKeys | ErrNewServer server_error

text \<open>\<open>run\<close> up to the listener: the configuration, the keys it names, the server.\<close>

definition start_run :: "'h serverEnv \<Rightarrow> keyInputs \<Rightarrow> time \<Rightarrow> 'h \<Rightarrow> start_error + 'h process" where
  "start_run E K now host =
     (case loadConfig (se_world E) of
        Inl e \<Rightarrow> Inl (ErrConfig e)
      | Inr cfg \<Rightarrow>
          (case fst (loadKeys (ki_codec K) (ki_env K) (ki_gen K) (ki_tmpOk K) (ki_file K (cf_ProofKeyPath cfg))) of
             Loaded ks \<Rightarrow>
               (case NewServer E now host cfg ks of
                  Inl e \<Rightarrow> Inl (ErrNewServer e)
                | Inr srv \<Rightarrow>
                    Inr \<lparr>ps_server = srv, ps_phase = Serving, ps_hooks = [], ps_conns = 0, ps_loop = True\<rparr>)
           | _ \<Rightarrow> Inl ErrProofKeys))"

text \<open>
  The exit code of \<open>main\<close>: of the health check, or of \<open>run\<close>, with \<open>served\<close> whether the
  listener and the shutdown ended without an error.
\<close>

definition main_exit ::
  "bool \<Rightarrow> 'h serverEnv \<Rightarrow> (string \<Rightarrow> int option) \<Rightarrow> keyInputs \<Rightarrow> time \<Rightarrow> 'h \<Rightarrow> bool \<Rightarrow> nat" where
  "main_exit healthcheck E get K now host served =
     (if healthcheck then (if runHealthcheck (se_world E) get then 0 else 1)
      else (case start_run E K now host of Inl _ \<Rightarrow> 1 | Inr _ \<Rightarrow> if served then 0 else 1))"

section \<open>The routes\<close>

text \<open>What a request with a clean path is given to, by a service without the fake host.\<close>

definition endpoint_of :: "string \<Rightarrow> string \<Rightarrow> endpoint" where
  "endpoint_of m path =
     (if path = ''/healthz'' \<and> is_read m then Healthz
      else if path = ''/hosting/discovery'' \<and> is_read m then DiscoveryDoc
      else if path = ''/launch'' \<and> m = ''POST'' then LaunchPage
      else if path = ''/api/board'' \<and> (is_read m \<or> m = ''PUT'') then BoardAPI
      else if path = ''/api/board/conflict'' \<and> is_read m then BoardAPI
      else if path = ''/api/board/conflict/resolve'' \<and> m = ''POST'' then BoardAPI
      else if starts_with path ''/socket.io/'' then SocketIO
      else Spa)"

lemma best_route_mem:
  assumes "best_route m path routes = Some r"
  shows "r \<in> set routes"
proof -
  have "fold (\<lambda>r best. case best of None \<Rightarrow> Some r
          | Some b \<Rightarrow> if more_specific (fst r) (fst b) then Some r else best) rs b = Some r \<Longrightarrow>
      r \<in> set rs \<or> b = Some r" for rs b
    by (induction rs arbitrary: b) (fastforce split: option.splits if_splits)+
  from this [of "filter (\<lambda>r. pattern_matches m path (fst r)) routes" None] assms show ?thesis
    by (auto simp: best_route_def)
qed

lemma mux_clean_slash: "\<exists>rest. mux_clean path = CHR ''/'' # rest"
proof -
  have c: "\<exists>rest. path_clean (CHR ''/'' # p) = CHR ''/'' # rest" for p by (simp add: path_clean_def Let_def)
  show ?thesis
  proof (cases "starts_with path ''/''")
    case True
    then obtain p where "path = CHR ''/'' # p" by (cases path) auto
    with c [of p] show ?thesis by (auto simp: mux_clean_def Let_def)
  next
    case False
    with c [of path] show ?thesis by (auto simp: mux_clean_def Let_def)
  qed
qed

lemmas route_defs = best_route_def pattern_matches_def method_matches_def coreRoutes_def appRoutes_def
  more_specific_def endpoint_of_def is_read_def

lemma lit_route:
  assumes "path \<in> {''/healthz'', ''/hosting/discovery'', ''/launch'', ''/api/board'', ''/api/board/conflict'',
      ''/api/board/conflict/resolve''}"
  shows "map_option snd (best_route m path (coreRoutes @ appRoutes)) = Some (endpoint_of m path)"
proof -
  consider "m = ''GET''" | "m = ''HEAD''" | "m = ''PUT''" | "m = ''POST''"
    | "''GET'' \<noteq> m" "''HEAD'' \<noteq> m" "''PUT'' \<noteq> m" "''POST'' \<noteq> m"
        "m \<noteq> ''GET''" "m \<noteq> ''HEAD''" "m \<noteq> ''PUT''" "m \<noteq> ''POST''" by metis
  then show ?thesis using assms
    by cases (elim insertE emptyE; simp add: route_defs)+
qed

lemma other_route:
  assumes "path \<notin> {''/healthz'', ''/hosting/discovery'', ''/launch'', ''/api/board'', ''/api/board/conflict'',
      ''/api/board/conflict/resolve''}" "starts_with path ''/''"
  shows "map_option snd (best_route m path (coreRoutes @ appRoutes)) = Some (endpoint_of m path)"
  using assms by (simp add: route_defs) blast

lemma best_app_route:
  assumes "path = CHR ''/'' # rest"
  shows "map_option snd (best_route m path (coreRoutes @ appRoutes)) = Some (endpoint_of m path)"
proof (cases "path \<in> {''/healthz'', ''/hosting/discovery'', ''/launch'', ''/api/board'', ''/api/board/conflict'',
      ''/api/board/conflict/resolve''}")
  case True
  then show ?thesis by (rule lit_route)
next
  case False
  then show ?thesis by (rule other_route) (simp add: assms)
qed

lemma exact_slash:
  assumes "best_route m (path @ ''/'') (coreRoutes @ appRoutes) = Some ((pm, path @ ''/'', prefix), e)"
    "path \<noteq> []"
  shows "path = ''/socket.io''"
  using best_route_mem [OF assms(1)] assms(2) by (auto simp: coreRoutes_def appRoutes_def)

lemma socket_slash: "best_route m ''/socket.io/'' (coreRoutes @ appRoutes) = Some (([], ''/socket.io/'', True), SocketIO)"
  "best_route m ''/socket.io'' (coreRoutes @ appRoutes) = Some (([], ''/'', True), Spa)"
  by (simp_all add: route_defs)

lemma socket_clean: "mux_clean ''/socket.io/'' = ''/socket.io/''"
  by code_simp

lemma dispatch_app:
  "case dispatch_to (coreRoutes @ appRoutes) m path of
     None \<Rightarrow> False
   | Some (Dispatch e) \<Rightarrow> mux_clean path = path \<and> path \<noteq> ''/socket.io'' \<and> e = endpoint_of m path
   | Some (MovedTo q) \<Rightarrow> q \<noteq> path \<and> (q = mux_clean path \<or> q = ''/socket.io/'')"
proof -
  let ?R = "coreRoutes @ appRoutes" and ?c = "mux_clean path"
  let ?exact = "\<lambda>p. case best_route m p ?R of Some ((_, q, prefix), _) \<Rightarrow> q = p | None \<Rightarrow> False"
  obtain rest where rest: "?c = CHR ''/'' # rest" using mux_clean_slash by blast
  show ?thesis
  proof (cases "\<not> ?exact ?c \<and> \<not> ends_with ?c ''/'' \<and> ?exact (?c @ ''/'')")
    case True
    then obtain pm prefix e where "best_route m (?c @ ''/'') ?R = Some ((pm, ?c @ ''/'', prefix), e)"
      by (auto split: option.splits)
    from exact_slash [OF this] rest have c: "?c = ''/socket.io''" by simp
    have "dispatch_to ?R m path = Some (MovedTo (?c @ ''/''))"
      unfolding dispatch_to_def Let_def using True by (rule if_P)
    then have "dispatch_to ?R m path = Some (MovedTo ''/socket.io/'')" by (simp add: c)
    moreover have "path \<noteq> ''/socket.io/''" using c socket_clean by auto
    ultimately show ?thesis by simp
  next
    case False
    then have d: "dispatch_to ?R m path
        = (if ?c \<noteq> path then Some (MovedTo ?c) else map_option (Dispatch \<circ> snd) (best_route m ?c ?R))"
      unfolding dispatch_to_def Let_def by (simp only: if_False)
    have n: "?c \<noteq> ''/socket.io''"
    proof
      assume "?c = ''/socket.io''"
      with False socket_slash [of m] show False by (simp add: ends_with_def)
    qed
    obtain r where "best_route m ?c ?R = Some r" "snd r = endpoint_of m ?c"
      using best_app_route [OF rest, of m] by auto
    with d n show ?thesis by auto
  qed
qed

text \<open>
  C17. Production has no test mode. A service that started, without the variable of the fake
  host or with a public URL whose host is not the machine itself, has no fake host, and
  whatever is asked of it, with any method and path, is answered by the one endpoint the
  table \<open>endpoint_of\<close> names or by a redirect to another path; no request reaches the fake
  host, its launch page or its state. Only the origins the configuration lists may be
  launched from, the service's own is not added, and the pages expose the test hooks only
  if their own variable says so.
\<close>

theorem production_has_no_test_mode:
  assumes "start_run E K now host = Inr p" "srv = ps_server p"
    and "getenv (se_world E) envFakeHost \<noteq> ''1'' \<or> \<not> isLoopbackHost (cf_PublicURL (sv_cfg srv))"
  shows "sv_fakeHost srv = None
    \<and> (case dispatch_to (sv_routes srv) m path of
         None \<Rightarrow> False
       | Some (Dispatch e) \<Rightarrow> e = endpoint_of m path \<and> e \<notin> {FakeHost, FakeLaunch, FakeState}
       | Some (MovedTo q) \<Rightarrow> q \<noteq> path)
    \<and> (originAllowed (se_launch E) (sv_launch srv) src \<longleftrightarrow>
         (\<exists>o' \<in> set (cf_AllowedWOPIOrigins (sv_cfg srv)). \<exists>n.
            normalizeOrigin (se_launch E) o' = Some n \<and> normalizeOrigin (se_launch E) src = Some n))
    \<and> lh_testHooks (sv_launch srv) = testHooksAllowed (se_world E)"
proof -
  obtain cfg ks where cfg: "loadConfig (se_world E) = Inr cfg" and new: "NewServer E now host cfg ks = Inr srv"
    using assms(1,2) by (auto simp: start_run_def split: sum.splits loadPhase.splits)
  from new have c: "sv_cfg srv = cfg" by (auto simp: NewServer_def Let_def split: sum.splits option.splits)
  with assms(3) have fake: "\<not> fakeHostAllowed (se_world E) (cf_PublicURL cfg)"
    by (auto simp: fakeHostAllowed_def)
  from new fake have f: "sv_fakeHost srv = None" "sv_routes srv = coreRoutes @ appRoutes"
    "lh_testHooks (sv_launch srv) = testHooksAllowed (se_world E)"
    "lh_allowedOrigins (sv_launch srv) = concat (map (\<lambda>o'. case normalizeOrigin (se_launch E) o' of
        None \<Rightarrow> [] | Some n \<Rightarrow> [n]) (cf_AllowedWOPIOrigins cfg))"
    by (auto simp: NewServer_def newLaunch_def Let_def split: sum.splits option.splits)
  have "endpoint_of m path \<notin> {FakeHost, FakeLaunch, FakeState}" by (simp add: endpoint_of_def)
  with dispatch_app [of path m] have d: "case dispatch_to (sv_routes srv) m path of
         None \<Rightarrow> False
       | Some (Dispatch e) \<Rightarrow> e = endpoint_of m path \<and> e \<notin> {FakeHost, FakeLaunch, FakeState}
       | Some (MovedTo q) \<Rightarrow> q \<noteq> path"
    unfolding f(2) by (simp split: option.splits dispatch.splits)
  have o: "originAllowed (se_launch E) (sv_launch srv) src \<longleftrightarrow>
         (\<exists>o' \<in> set (cf_AllowedWOPIOrigins cfg). \<exists>n.
            normalizeOrigin (se_launch E) o' = Some n \<and> normalizeOrigin (se_launch E) src = Some n)"
    by (auto simp: originAllowed_def f(4) split: option.splits) metis
  show ?thesis using f(1,3) d o unfolding c by blast
qed

text \<open>A service with the variable set and a public name.\<close>

definition prodWorld :: world where
  "prodWorld = demoWorld\<lparr>wd_env := [''EXCALIDRAW_WOPI_FAKE_HOST'' \<mapsto> ''1'',
     ''EXCALIDRAW_WOPI_PUBLIC_URL'' \<mapsto> ''https://draw.example.org'']\<rparr>"

lemma prod_public:
  "url_parse ''https://draw.example.org'' \<noteq> None \<and> u_Scheme (the (url_parse ''https://draw.example.org'')) \<noteq> []
    \<and> u_Host (the (url_parse ''https://draw.example.org'')) \<noteq> []"
  "\<not> isLoopbackHost ''https://draw.example.org''"
  by code_simp+

lemma prod_load: "\<exists>c. loadConfig prodWorld = Inr c \<and> cf_PublicURL c = ''https://draw.example.org'' \<and> cf_DNSPeers c = []
    \<and> cf_AllowedWOPIOrigins c = []"
proof -
  obtain u where u: "url_parse ''https://draw.example.org'' = Some u" "u_Scheme u \<noteq> []" "u_Host u \<noteq> []"
    using prod_public(1) by auto
  have g: "getEnv prodWorld n f = (if n = ''PUBLIC_URL'' then ''https://draw.example.org'' else f)" if "n \<noteq> ''FAKE_HOST''" for n f
    using that by (simp add: getEnv_def prodWorld_def envPrefix_def)
  have e: "getEnvInt64 prodWorld n d = Inr d" if "n \<noteq> ''PUBLIC_URL''" "n \<noteq> ''FAKE_HOST''" for n d
    using that by (simp add: getEnvInt64_def prodWorld_def envPrefix_def)
  have s: "loadSecret prodWorld = Inr (hex_encode (replicate 32 (char_of (1 :: nat))))"
    by (simp add: loadSecret_def g randomSecret_def) (simp add: prodWorld_def demoWorld_def hex_encode_def)
  have t: "trim_suffix ''https://draw.example.org'' ''/'' = ''https://draw.example.org''"
    by (simp add: trim_suffix_def ends_with_def)
  show ?thesis
    by (simp add: loadConfig_def e s g validateConfig_def validateRequiredFields_def u Let_def
        validateSizeLimits_def validatePeers_def config_limits DefaultListenAddr_def t)
      (simp add: defaultProofKeyPath_def t parseOriginList_def)
qed

theorem production_has_no_test_mode_witness:
  "\<exists>K p. start_run (demoServerEnv\<lparr>se_world := prodWorld\<rparr>) K demoTime 0 = Inr p
    \<and> sv_fakeHost (ps_server p) = None \<and> \<not> originAllowed demoEnv (sv_launch (ps_server p)) ''https://draw.example.org''"
proof -
  let ?E = "demoServerEnv\<lparr>se_world := prodWorld\<rparr>"
  obtain c where c: "loadConfig prodWorld = Inr c" "cf_PublicURL c = ''https://draw.example.org''" "cf_DNSPeers c = []"
    "cf_AllowedWOPIOrigins c = []"
    using prod_load by blast
  let ?K = "\<lparr>ki_codec = demoCodec, ki_env = None, ki_gen = Some demoKey, ki_tmpOk = True, ki_file = (\<lambda>_. Absent)\<rparr>"
  obtain pem where "encodeKeySet demoCodec demoKeySet = Some pem"
    by (simp add: encodeKeySet_def demoCodec_def demoKeySet_def)
  then have k: "loadKeys demoCodec None (Some demoKey) True Absent = (Loaded demoKeySet, Content pem)"
    by (simp add: loadKeys_def loadRead_def persist_def demoKeySet_def)
  obtain ss where ss: "newSessions (cf_SessionSecret c) = Inr ss" using newSessions_total by blast
  have n: "\<exists>sv. NewServer ?E demoTime 0 c demoKeySet = Inr sv \<and> sv_cfg sv = c"
    by (simp add: NewServer_def ss newCluster_def c(3) Let_def)
  then obtain sv where sv: "NewServer ?E demoTime 0 c demoKeySet = Inr sv" "sv_cfg sv = c" by blast
  let ?p = "\<lparr>ps_server = sv, ps_phase = Serving, ps_hooks = [], ps_conns = 0, ps_loop = True\<rparr>"
  have run: "start_run ?E ?K demoTime 0 = Inr ?p"
    by (simp add: start_run_def c(1) k sv(1))
  have l: "getenv (se_world ?E) envFakeHost \<noteq> ''1'' \<or> \<not> isLoopbackHost (cf_PublicURL (sv_cfg (ps_server ?p)))"
    using prod_public(2) by (simp add: sv(2) c(2))
  from production_has_no_test_mode [OF run refl l, of _ _ "''https://draw.example.org''"]
  have "sv_fakeHost sv = None" "\<not> originAllowed demoEnv (sv_launch sv) ''https://draw.example.org''"
    by (simp_all add: sv(2) c(4) demoServerEnv_def)
  with run show ?thesis by fastforce
qed

section \<open>Two replicas\<close>

lemma board_owner:
  assumes "boardSession (serverBoard E s) now r = Inr c"
  shows "IsSelf (sv_cluster s) (cl_FileID c)"
  using assms by (auto simp: boardSession_def serverBoard_def newBoard_def split: if_splits sum.splits)

lemma relay_owner:
  assumes "relay_reachable (serverRelay E s) w" "membersOf (ry_rooms (rw_relay w)) f \<noteq> []"
  shows "IsSelf (sv_cluster s) f"
proof -
  obtain m where m: "m \<in> set (membersOf (ry_rooms (rw_relay w)) f)" using assms(2) by (meson list.set_sel(1))
  note inv = members_invariant [OF assms(1), unfolded members_ok_def]
  obtain st where st: "ry_data (rw_relay w) (mb_SocketID m) = Some st" "sk_roomID st = f" "f \<noteq> []"
    using mem_inv_member [OF inv m] by blast
  with mem_inv_socket(1,2) [OF inv st(1)] show ?thesis
    by (simp add: admitted_def serverRelay_def)
qed

text \<open>
  C9. A file has one replica. Take two replicas with peers configured, under different addresses, that have, since they
  started serving, believed in the same list of peers, one that is not empty (before its first
  DNS answer a replica takes every file for its own). No file is worked on at both: a session
  the board API of the one accepts names a file for which the other's board API refuses every
  session and whose room at the other's relay is empty, and no room has sockets at both relays,
  whatever traffic the relays have seen and whenever their sockets came. So the rooms of the
  two room managers, the saves and the locks, are of different files.
\<close>

theorem one_replica_per_file:
  assumes "cu_enabled (sv_cluster s1)" "cu_enabled (sv_cluster s2)"
    and "cu_snapshot (sv_cluster s1) = cu_snapshot (sv_cluster s2)" "cu_snapshot (sv_cluster s1) \<noteq> []"
    and "cu_self (sv_cluster s1) \<noteq> cu_self (sv_cluster s2)"
    and "relay_reachable (serverRelay E s1) w1" "relay_reachable (serverRelay E s2) w2"
  shows "(\<forall>now1 now2 r1 r2 c1 c2. boardSession (serverBoard E s1) now1 r1 = Inr c1 \<longrightarrow>
      boardSession (serverBoard E s2) now2 r2 = Inr c2 \<longrightarrow> cl_FileID c1 \<noteq> cl_FileID c2)
    \<and> (\<forall>now r c. boardSession (serverBoard E s1) now r = Inr c \<longrightarrow>
        membersOf (ry_rooms (rw_relay w2)) (cl_FileID c) = [])
    \<and> (\<forall>f. membersOf (ry_rooms (rw_relay w1)) f = [] \<or> membersOf (ry_rooms (rw_relay w2)) f = [])"
proof -
  have "\<not> (IsSelf (sv_cluster s1) f \<and> IsSelf (sv_cluster s2) f)" for f
    using assms(1-5) by (simp add: IsSelf_def Owner_def)
  then show ?thesis using board_owner relay_owner [OF assms(6)] relay_owner [OF assms(7)] by metis
qed

text \<open>Two replicas of a demo service, one of which has the file \<open>f1\<close>.\<close>

definition replica :: "string \<Rightarrow> nat server \<Rightarrow> nat server" where
  "replica self s = s\<lparr>sv_cluster := \<lparr>cu_enabled = True, cu_self = self, cu_dnsHost = ''p'', cu_dnsPort = ''80'',
     cu_started = True, cu_closed = False, cu_loops = 1, cu_snapshot = [''http://a:80'', ''http://b:80'']\<rparr>\<rparr>"

theorem one_replica_per_file_witness:
  "\<exists>sv. NewServer demoServerEnv demoTime 0 demoServerConfig demoKeySet = Inr sv
    \<and> \<not> (\<exists>now1 now2 r1 r2 c1 c2. cl_FileID c1 = cl_FileID c2
        \<and> boardSession (serverBoard demoServerEnv (replica ''http://a:80'' sv)) now1 r1 = Inr c1
        \<and> boardSession (serverBoard demoServerEnv (replica ''http://b:80'' sv)) now2 r2 = Inr c2)"
proof -
  obtain m where m: "newSessions demoSecret = Inr m" using newSessions_total by blast
  obtain sv where sv: "NewServer demoServerEnv demoTime 0 demoServerConfig demoKeySet = Inr sv"
    using demo_server [OF m] by blast
  have "\<forall>now1 now2 r1 r2 c1 c2.
      boardSession (serverBoard demoServerEnv (replica ''http://a:80'' sv)) now1 r1 = Inr c1 \<longrightarrow>
      boardSession (serverBoard demoServerEnv (replica ''http://b:80'' sv)) now2 r2 = Inr c2 \<longrightarrow>
      cl_FileID c1 \<noteq> cl_FileID c2"
    using one_replica_per_file [OF _ _ _ _ _ rw_init rw_init, of "replica ''http://a:80'' sv" "replica ''http://b:80'' sv"]
    by (simp add: replica_def)
  with sv show ?thesis by blast
qed

end
