(* ===== verification/HashProxy.thy ===== *)
theory HashProxy
  imports Peers GoHttp JsonText
begin

text \<open>
  \<open>e2e/ha/hashproxy/main.go\<close>: the proxy of the high availability tests, which spreads rooms
  over a fixed list of backends by the same hash as the replicas.
\<close>

section \<open>Picking a backend\<close>

definition ejectAfterFailures :: nat where "ejectAfterFailures = 2"

text \<open>\<open>ro_failures\<close> is local to the health loop, which is the only writer of both maps.\<close>

record router =
  ro_backends :: "string list"
  ro_healthy :: "string \<Rightarrow> bool"
  ro_failures :: "string \<Rightarrow> nat"

definition newRouter :: "string list \<Rightarrow> router" where
  "newRouter backends =
     \<lparr>ro_backends = backends, ro_healthy = (\<lambda>b. b \<in> set backends), ro_failures = (\<lambda>_. 0)\<rparr>"

definition proxyScore :: "string \<Rightarrow> string \<Rightarrow> u64" where
  "proxyScore room backend = be_word (take 8 (sum256 (room @ [CHR 0x00] @ backend)))"

fun proxyOwnerFrom :: "string \<Rightarrow> string \<Rightarrow> u64 \<Rightarrow> string list \<Rightarrow> string" where
  "proxyOwnerFrom room best bestScore [] = best"
| "proxyOwnerFrom room best bestScore (c # cs) =
     (let score = proxyScore room c in
      if best = [] \<or> bestScore < score \<or> (score = bestScore \<and> best < c)
      then proxyOwnerFrom room c score cs
      else proxyOwnerFrom room best bestScore cs)"

definition proxyOwner :: "string \<Rightarrow> string list \<Rightarrow> string" where
  "proxyOwner room candidates = proxyOwnerFrom room [] 0 candidates"

definition pick :: "router \<Rightarrow> string \<Rightarrow> string" where
  "pick rtr room =
     (case filter (ro_healthy rtr) (ro_backends rtr) of
        [] \<Rightarrow> []
      | c # cs \<Rightarrow> if room = [] then c else proxyOwner room (c # cs))"

section \<open>Requests\<close>

datatype proxied = Reply httpReply | ProxyTo string

definition handleOwner :: "router \<Rightarrow> string \<Rightarrow> httpReply" where
  "handleOwner rtr query =
     (let room = query_get (parse_query query) ''room'' in
      if room = [] then http_error ''hashproxy: /__owner needs a room parameter'' 400
      else let backend = pick rtr room in
        if backend = [] then http_error ''hashproxy: no healthy backend'' 503
        else \<lparr>hr_status = 200, hr_header = [(''Content-Type'', ''application/json'')], 
                hr_body = print_json (JObj [(''owner'', JStr backend)]) @ [CHR 0x0A]\<rparr>)"

definition proxyServe :: "router \<Rightarrow> string \<Rightarrow> string \<Rightarrow> proxied" where
  "proxyServe rtr path query =
     (if path = ''/__owner'' then Reply (handleOwner rtr query)
      else let backend = pick rtr (query_get (parse_query query) ''room'') in
        if backend = [] then Reply (http_error ''hashproxy: no healthy backend'' 503)
        else (case url_parse backend of
                None \<Rightarrow> Reply (http_error ''hashproxy: unparsable backend URL'' 500)
              | Some _ \<Rightarrow> ProxyTo backend))"

section \<open>Health\<close>

text \<open>One round of the health loop, with the probes' results.\<close>

fun check_backends :: "(string \<times> bool) list \<Rightarrow> router \<Rightarrow> router" where
  "check_backends [] rtr = rtr"
| "check_backends ((b, ok) # rs) rtr =
     check_backends rs
       (if ok then rtr\<lparr>ro_failures := (ro_failures rtr)(b := 0), ro_healthy := (ro_healthy rtr)(b := True)\<rparr>
        else let n = Suc (ro_failures rtr b) in
          rtr\<lparr>ro_failures := (ro_failures rtr)(b := n),
              ro_healthy := (if ejectAfterFailures \<le> n then (ro_healthy rtr)(b := False) else ro_healthy rtr)\<rparr>)"

definition check_round :: "(string \<Rightarrow> bool) \<Rightarrow> router \<Rightarrow> router" where
  "check_round probe rtr = check_backends (map (\<lambda>b. (b, probe b)) (ro_backends rtr)) rtr"

definition splitCSV :: "string \<Rightarrow> string list" where
  "splitCSV raw = (if raw = [] then [] else filter (\<lambda>p. p \<noteq> []) (map trim_space (split_on CHR '','' raw)))"

section \<open>The proxy and the replicas agree\<close>

lemma proxyOwner_same: "proxyOwner room cs = rendezvousOwner room cs"
proof -
  have "proxyOwnerFrom room best n cs = ownerFrom room best n cs" for best n
    by (induction cs arbitrary: best n) (simp_all add: proxyScore_def rendezvousScore_def Let_def)
  then show ?thesis by (simp add: proxyOwner_def rendezvousOwner_def)
qed

lemma owner_set:
  assumes "set ps = set qs" "ps \<noteq> []" "[] \<notin> set ps"
  shows "rendezvousOwner f ps = rendezvousOwner f qs"
proof -
  have qs: "qs \<noteq> []" "[] \<notin> set qs" using assms by auto
  show ?thesis using rendezvousOwner_max [OF qs] assms(1,3) by (intro rendezvousOwner_unique) auto
qed

lemma check_other: "b \<notin> fst ` set rs \<Longrightarrow>
    ro_failures (check_backends rs rtr) b = ro_failures rtr b \<and> ro_healthy (check_backends rs rtr) b = ro_healthy rtr b"
  by (induction rs rtr rule: check_backends.induct) (auto simp: Let_def)

lemma check_backends_fixed [simp]: "ro_backends (check_backends rs rtr) = ro_backends rtr"
  by (induction rs rtr rule: check_backends.induct) (simp_all add: Let_def)

lemma check_one:
  assumes "distinct (map fst rs)" "(b, ok) \<in> set rs"
  shows "ro_failures (check_backends rs rtr) b = (if ok then 0 else Suc (ro_failures rtr b))
    \<and> ro_healthy (check_backends rs rtr) b = (ok \<or> (ro_healthy rtr b \<and> Suc (ro_failures rtr b) < ejectAfterFailures))"
  using assms
proof (induction rs rtr rule: check_backends.induct)
  case (2 b' ok' rs rtr)
  show ?case
  proof (cases "b' = b")
    case True
    with 2(2,3) have "ok' = ok" "b \<notin> fst ` set rs" by (auto simp: rev_image_eqI)
    with True check_other [of b rs] show ?thesis by (auto simp: Let_def)
  next
    case False
    with 2 show ?thesis by (auto simp: Let_def)
  qed
qed simp

text \<open>The failures in a row up to now; a backend is out from the second on.\<close>

lemma rounds_state:
  assumes "distinct bs" "b \<in> set bs"
  shows "ro_backends (fold check_round ps (newRouter bs)) = bs
    \<and> ro_failures (fold check_round ps (newRouter bs)) b = length (takeWhile (\<lambda>p. \<not> p b) (rev ps))
    \<and> (ro_healthy (fold check_round ps (newRouter bs)) b \<longleftrightarrow> length (takeWhile (\<lambda>p. \<not> p b) (rev ps)) < ejectAfterFailures)"
proof (induction ps rule: rev_induct)
  case Nil
  show ?case using assms(2) by (simp add: newRouter_def ejectAfterFailures_def)
next
  case (snoc p ps)
  let ?r = "fold check_round ps (newRouter bs)" and ?rs = "map (\<lambda>b. (b, p b)) bs"
  have d: "distinct (map fst ?rs)" "(b, p b) \<in> set ?rs" using assms by (simp_all add: comp_def)
  have round: "fold check_round (ps @ [p]) (newRouter bs) = check_backends ?rs ?r"
  proof -
    have "ro_backends ?r = bs" using snoc by blast
    then show ?thesis by (simp add: check_round_def [of p])
  qed
  show ?case
    using snoc check_one [OF d, of ?r] unfolding round by (auto simp: ejectAfterFailures_def)
qed

text \<open>
  C36. The test proxy sends a room where the replicas say it belongs. After any rounds of
  probes in which no backend failed the last two, the backends being the peers that a
  replica has resolved, in any order, the proxy picks for every room the owner that the
  replica computes: the replica serves the request itself exactly if it was sent there.
\<close>

theorem proxy_agrees:
  assumes "rtr = fold check_round probes (newRouter bs)" "distinct bs"
    and "\<forall>b \<in> set bs. length (takeWhile (\<lambda>p. \<not> p b) (rev probes)) < 2"
    and "set bs = set (cu_snapshot c)" "cu_enabled c" "bs \<noteq> []" "[] \<notin> set bs" "room \<noteq> []"
  shows "pick rtr room = Owner c room \<and> (IsSelf c room \<longleftrightarrow> cu_self c = pick rtr room)"
proof -
  have b: "ro_backends rtr = bs" using rounds_state [OF assms(2)] assms(1,6) by (cases bs) auto
  have "\<forall>b \<in> set bs. ro_healthy rtr b"
    using rounds_state [OF assms(2)] assms(1,3) by (auto simp: ejectAfterFailures_def)
  then have f: "filter (ro_healthy rtr) (ro_backends rtr) = bs" by (simp add: filter_id_conv b)
  have "pick rtr room = rendezvousOwner room bs"
    using assms(6,8) f by (cases bs) (simp_all add: pick_def proxyOwner_same)
  also have "\<dots> = rendezvousOwner room (cu_snapshot c)"
    by (rule owner_set) (use assms(4,6,7) in auto)
  finally show ?thesis using assms(4-6) by (auto simp: Owner_def IsSelf_def)
qed

theorem proxy_agrees_witness:
  "pick (fold check_round [(\<lambda>b. b = ''http://b''), (\<lambda>_. True)] (newRouter [''http://b'', ''http://a''])) ''f1''
    = Owner \<lparr>cu_enabled = True, cu_self = ''http://a'', cu_dnsHost = [], cu_dnsPort = [], cu_started = True,
        cu_closed = False, cu_loops = 1, cu_snapshot = [''http://a'', ''http://b'']\<rparr> ''f1''"
proof -
  let ?c = "\<lparr>cu_enabled = True, cu_self = ''http://a'', cu_dnsHost = [], cu_dnsPort = [], cu_started = True,
        cu_closed = False, cu_loops = 1, cu_snapshot = [''http://a'', ''http://b'']\<rparr> :: cluster"
  show ?thesis
    by (rule proxy_agrees [OF refl, of _ _ ?c, THEN conjunct1]) auto
qed

end
