(* ===== verification/HarnessHost.thy ===== *)
theory HarnessHost
  imports HashProxy WopiHost Crypto RelayServer
begin

text \<open>
  \<open>e2e/ha/wopihost/main.go\<close>: the in-memory WOPI host as a process of its own, with the two
  endpoints through which the tests seed files and watch them; and the sessions of the relay in
  \<open>e2e/interop/server/main.go\<close>.
\<close>

section \<open>Answers\<close>

record seedResponse =
  sd_FileID :: string
  sd_WOPISrc :: string
  sd_Tokens :: "(string \<times> string) list"

record stateResponse =
  sr_Size :: int
  sr_Version :: string
  sr_PutCount :: int
  sr_Lock :: string
  sr_Content :: string

text \<open>A Go map is written in the order of its keys.\<close>

definition seed_json :: "seedResponse \<Rightarrow> json" where
  "seed_json s =
     JObj [(''fileId'', JStr (sd_FileID s)), (''wopiSrc'', JStr (sd_WOPISrc s)),
           (''tokens'', JObj (map (\<lambda>(k, v). (k, JStr v)) (sort_key fst (sd_Tokens s))))]"

definition state_json :: "stateResponse \<Rightarrow> json" where
  "state_json s =
     JObj [(''size'', JNum (format_int (sr_Size s))), (''version'', JStr (sr_Version s)),
           (''putCount'', JNum (format_int (sr_PutCount s))), (''lock'', JStr (sr_Lock s)),
           (''content'', JStr (sr_Content s))]"

definition harnessJSON :: "json \<Rightarrow> httpReply" where
  "harnessJSON v =
     \<lparr>hr_status = 200, hr_header = [(''Content-Type'', ''application/json'')], hr_body = print_json v @ [CHR 0x0A]\<rparr>"

definition firstOr :: "string list \<Rightarrow> string list \<Rightarrow> string" where
  "firstOr a b = (case a of x # _ \<Rightarrow> x | [] \<Rightarrow> (case b of x # _ \<Rightarrow> x | [] \<Rightarrow> []))"

definition randomID :: "bytes option \<Rightarrow> string option" where
  "randomID rand = map_option (\<lambda>buf. ''ha-'' @ hex_encode buf) rand"

section \<open>Seeding\<close>

text \<open>
  One user after the other, each with the token that \<open>MintToken\<close> draws for it (\<open>draw i\<close> for
  the i-th).
\<close>

fun seed_users ::
  "string \<Rightarrow> bool \<Rightarrow> (nat \<Rightarrow> string) \<Rightarrow> nat \<Rightarrow> string list \<Rightarrow> wopiHost \<times> (string \<times> string) list
   \<Rightarrow> wopiHost \<times> (string \<times> string) list" where
  "seed_users fileID canWrite draw i [] st = st"
| "seed_users fileID canWrite draw i (u # us) (h, tokens) =
     seed_users fileID canWrite draw (Suc i) us
       (MintToken (draw i) u fileID (AddUser \<lparr>hu_ID = u, hu_Name = u, hu_CanWrite = canWrite\<rparr> h),
        AList.update u (draw i) tokens)"

definition harnessBase :: string where "harnessBase = ''/wopi/files''"

definition handleSeed ::
  "string \<Rightarrow> bytes option \<Rightarrow> string \<Rightarrow> (nat \<Rightarrow> string) \<Rightarrow> string \<Rightarrow> wopiHost \<Rightarrow> httpReply \<times> wopiHost" where
  "handleSeed addr rand randErr draw rawQuery host =
     (let q = parse_query rawQuery;
          file = query_get q ''file'' in
      case (if file = [] then randomID rand else Some file) of
        None \<Rightarrow> (http_error (''wopihost: generate file id: '' @ randErr) 500, host)
      | Some fileID \<Rightarrow>
          let writers = splitCSV (query_get q ''writers''); readers = splitCSV (query_get q ''readers'') in
          if writers = [] \<and> readers = []
          then (http_error ''wopihost: /seed needs at least one of writers= or readers='' 400, host)
          else
            let h1 = AddFile fileID (fileID @ ''.excalidraw'') (firstOr writers readers) [] host;
                (h2, tokens) = seed_users fileID False draw (length writers) readers
                  (seed_users fileID True draw 0 writers (h1, []))
            in (harnessJSON (seed_json \<lparr>sd_FileID = fileID, sd_WOPISrc = ''http://'' @ addr @ harnessBase @ ''/'' @ fileID,
                  sd_Tokens = tokens\<rparr>), h2))"

definition handleState :: "time \<Rightarrow> string \<Rightarrow> wopiHost \<Rightarrow> httpReply \<times> wopiHost" where
  "handleState now rawQuery host =
     (let fileID = query_get (parse_query rawQuery) ''file'' in
      case Stats fileID host of
        None \<Rightarrow> (http_error ''404 page not found'' 404, host)
      | Some stats \<Rightarrow>
          (case HostLockValue now fileID host of
             (lock, host') \<Rightarrow>
               (harnessJSON (state_json
                  \<lparr>sr_Size = st_Size stats, sr_Version = st_Version stats, sr_PutCount = st_PutCount stats,
                   sr_Lock = (case lock of None \<Rightarrow> [] | Some l \<Rightarrow> l),
                   sr_Content = (case Content fileID host' of None \<Rightarrow> [] | Some c \<Rightarrow> std_encode c)\<rparr>), host')))"

section \<open>The relay of the interoperability tests\<close>

definition interopRoomID :: string where "interopRoomID = ''interop-room''"
definition otherRoomID :: string where "otherRoomID = ''other-room''"

definition interopSessions :: "(string \<times> session) list" where
  "interopSessions =
     [(''writer-a'', \<lparr>ss_FileID = interopRoomID, ss_UserID = ''writer-a'', ss_UserName = ''Writer A'', ss_CanWrite = True\<rparr>),
      (''writer-b'', \<lparr>ss_FileID = interopRoomID, ss_UserID = ''writer-b'', ss_UserName = ''Writer B'', ss_CanWrite = True\<rparr>),
      (''reader'', \<lparr>ss_FileID = interopRoomID, ss_UserID = ''reader-1'', ss_UserName = ''Reader'', ss_CanWrite = False\<rparr>),
      (''other-room-writer'',
        \<lparr>ss_FileID = otherRoomID, ss_UserID = ''other-writer'', ss_UserName = ''Other Writer'', ss_CanWrite = True\<rparr>)]"

definition interopVerify :: "string \<Rightarrow> session option" where
  "interopVerify raw = map_of interopSessions raw"

section \<open>The seeded tokens are good\<close>

text \<open>
  As the tokens drawn are distinct, every user that was seeded has one token, which the host
  knows for that user and the file, and is known to the host.
\<close>

lemma seed_users_tokens:
  "seed_users f w draw i us (h, ts) = (h', ts') \<Longrightarrow> inj draw \<Longrightarrow>
    \<forall>u t. map_of ts u = Some t \<longrightarrow> (\<exists>j < i. t = draw j) \<and> wh_tokens h t = Some \<lparr>tk_userID = u, tk_fileID = f\<rparr> \<and> wh_users h u \<noteq> None \<Longrightarrow>
    (\<forall>u t. map_of ts' u = Some t \<longrightarrow> (\<exists>j < i + length us. t = draw j)
        \<and> wh_tokens h' t = Some \<lparr>tk_userID = u, tk_fileID = f\<rparr> \<and> wh_users h' u \<noteq> None)
    \<and> fst ` set ts' = fst ` set ts \<union> set us"
proof (induction us arbitrary: i h ts)
  case (Cons u us)
  let ?h = "MintToken (draw i) u f (AddUser \<lparr>hu_ID = u, hu_Name = u, hu_CanWrite = w\<rparr> h)" and ?ts = "AList.update u (draw i) ts"
  have new: "map_of ts v \<noteq> Some (draw i)" for v
    using Cons.prems(2,3) by (metis inj_eq less_irrefl)
  have "\<forall>v t. map_of ?ts v = Some t \<longrightarrow> (\<exists>j < Suc i. t = draw j)
      \<and> wh_tokens ?h t = Some \<lparr>tk_userID = v, tk_fileID = f\<rparr> \<and> wh_users ?h v \<noteq> None"
    using Cons.prems(2,3) new by (auto simp: MintToken_def AddUser_def inj_eq less_Suc_eq)
  from Cons.IH [OF _ Cons.prems(2) this] Cons.prems(1) show ?case by auto
qed auto

end
