(* ===== verification/TestPrograms.thy ===== *)
theory TestPrograms
  imports HarnessHost App
begin

text \<open>
  The start of the test programs: what \<open>run\<close> of \<open>e2e/ha/hashproxy/main.go\<close>,
  \<open>e2e/ha/wopihost/main.go\<close> and \<open>e2e/interop/server/main.go\<close> make of their environment, the
  probes and the failure answer of the proxy, and that of the peers' proxy
  (\<open>internal/peers/middleware.go\<close>).
\<close>

section \<open>The environment\<close>

definition envOr :: "world \<Rightarrow> string \<Rightarrow> string \<Rightarrow> string" where
  "envOr w name fallback =
     (case wd_env w name of Some v \<Rightarrow> if v \<noteq> [] then v else fallback | None \<Rightarrow> fallback)"

text \<open>\<open>None\<close>: the program ends with \<open>log.Fatal\<close>.\<close>

definition envInt64Or :: "world \<Rightarrow> string \<Rightarrow> int \<Rightarrow> int option" where
  "envInt64Or w name fallback =
     (case wd_env w name of
        None \<Rightarrow> Some fallback
      | Some v \<Rightarrow> if v = [] then Some fallback else parse_int v)"

section \<open>The hash proxy\<close>

definition proxyDefaultAddr :: string where "proxyDefaultAddr = ''127.0.0.1:18868''"

text \<open>The address and the router, or the error of a list without a backend.\<close>

definition proxy_start :: "world \<Rightarrow> (string \<times> router) option" where
  "proxy_start w =
     (let backends = splitCSV (getenv w ''HA_PROXY_BACKENDS'') in
      if backends = [] then None
      else Some (envOr w ''HA_PROXY_ADDR'' proxyDefaultAddr, newRouter backends))"

definition probeHealthy :: "(string \<Rightarrow> int option) \<Rightarrow> string \<Rightarrow> bool" where
  "probeHealthy get backend = (get (backend @ ''/healthz'') = Some 200)"

text \<open>One round before the first tick and one at each, until the context ends; a round per answer of the net.\<close>

definition healthLoop :: "(string \<Rightarrow> int option) list \<Rightarrow> router \<Rightarrow> router" where
  "healthLoop nets rtr = fold (\<lambda>get. check_round (probeHealthy get)) nets rtr"

definition proxyFailed :: httpReply where
  "proxyFailed = http_error ''hashproxy: backend request failed'' 502"

text \<open>A request as the outside sees it: \<open>ask\<close> is the backend, which answers or is not reached.\<close>

definition proxy_answer :: "router \<Rightarrow> (string \<Rightarrow> httpReply option) \<Rightarrow> string \<Rightarrow> string \<Rightarrow> httpReply" where
  "proxy_answer rtr ask path query =
     (case proxyServe rtr path query of
        Reply rp \<Rightarrow> rp
      | ProxyTo backend \<Rightarrow> (case ask backend of Some rp \<Rightarrow> rp | None \<Rightarrow> proxyFailed))"

section \<open>The peers' proxy\<close>

definition proxyErrorHandler :: httpReply where
  "proxyErrorHandler = http_error ''peer proxy request failed'' 502"

text \<open>
  The answer of a replica to a request: \<open>serve\<close> is its own handler, \<open>ask\<close> the other
  replicas. The texts for a disagreement and a bad owner are the middleware's.
\<close>

definition routed_answer ::
  "cluster \<Rightarrow> (peerReq \<Rightarrow> httpReply) \<Rightarrow> (string \<Rightarrow> peerReq \<Rightarrow> httpReply option) \<Rightarrow> peerReq \<Rightarrow> httpReply" where
  "routed_answer c serve ask r =
     (case Middleware c r of
        Serve r' \<Rightarrow> serve r'
      | Forward target r' \<Rightarrow> (case ask target r' of Some rp \<Rightarrow> rp | None \<Rightarrow> proxyErrorHandler)
      | Misdirected \<Rightarrow> http_error ''misdirected request: peer ownership disagreement'' 421
      | BadRoute \<Rightarrow> http_error ''internal routing error'' 502)"

section \<open>The WOPI host and the interop relay\<close>

definition wopihostDefaultAddr :: string where "wopihostDefaultAddr = ''127.0.0.1:18866''"
definition interopDefaultAddr :: string where "interopDefaultAddr = ''127.0.0.1:18765''"
definition interopMaxSceneBytes :: int where "interopMaxSceneBytes = 1 * 1024 * 1024"
definition interopSocketBufferSize :: int where "interopSocketBufferSize = 8 * 1024 * 1024"

definition wopihost_start :: "world \<Rightarrow> string \<times> wopiHost" where
  "wopihost_start w = (envOr w ''HA_WOPIHOST_ADDR'' wopihostDefaultAddr, newHost LockTTL)"

text \<open>The address, the size of the socket buffer, and what the relay is given.\<close>

definition interop_start :: "world \<Rightarrow> (string \<Rightarrow> string option) \<Rightarrow> (string \<times> int \<times> relayConf) option" where
  "interop_start w renum =
     (case (envInt64Or w ''INTEROP_MAX_SCENE_BYTES'' interopMaxSceneBytes,
            envInt64Or w ''INTEROP_SOCKET_BUFFER_BYTES'' interopSocketBufferSize) of
        (Some maxSceneBytes, Some socketBufferBytes) \<Rightarrow>
          Some (envOr w ''INTEROP_ADDR'' interopDefaultAddr, socketBufferBytes,
            \<lparr>rc_verify = (\<lambda>_. interopVerify), rc_maxSceneBytes = maxSceneBytes, rc_hasEvents = False,
             rc_isOwner = None, rc_renum = renum\<rparr>)
      | _ \<Rightarrow> None)"

section \<open>What the programs rely on\<close>

text \<open>
  Every request the proxy hands on goes to one of the backends it was started with, and one that
  it cannot is answered with a server error.
\<close>

lemma health_backends [simp]: "ro_backends (healthLoop nets rtr) = ro_backends rtr"
  unfolding healthLoop_def
  by (induction nets arbitrary: rtr) (simp_all add: check_round_def)

lemma owner_from_mem: "proxyOwnerFrom room best n cs \<in> insert best (set cs)"
  by (induction cs arbitrary: best n) (auto simp: Let_def)

lemma pick_mem:
  assumes "pick rtr room \<noteq> []"
  shows "pick rtr room \<in> set (ro_backends rtr) \<and> ro_healthy rtr (pick rtr room)"
proof -
  let ?cs = "filter (ro_healthy rtr) (ro_backends rtr)"
  have "pick rtr room \<in> insert [] (set ?cs)"
    using owner_from_mem [of room "[]" 0 ?cs]
    by (cases ?cs) (auto simp: pick_def proxyOwner_def split: if_splits simp del: filter.simps)
  with assms show ?thesis by auto
qed

theorem proxy_stays_inside:
  assumes "proxy_start w = Some (addr, rtr)" "proxyServe (healthLoop nets rtr) path query = ProxyTo b"
  shows "b \<in> set (splitCSV (getenv w ''HA_PROXY_BACKENDS'')) \<and> ro_healthy (healthLoop nets rtr) b"
proof -
  have r: "ro_backends rtr = splitCSV (getenv w ''HA_PROXY_BACKENDS'')"
    using assms(1) by (auto simp: proxy_start_def newRouter_def Let_def split: if_splits)
  have "b = pick (healthLoop nets rtr) (query_get (parse_query query) ''room'')" "b \<noteq> []"
    using assms(2) by (auto simp: proxyServe_def Let_def split: if_splits option.splits)
  with pick_mem r show ?thesis by fastforce
qed

end
