(* ===== verification/Spec2Isabelle.thy ===== *)
theory Spec2Isabelle
  imports RoomClose RelayManager RelayTraffic RoomWorkers EmitLocks WopiClientHost EditPath Startup TestPrograms
begin

text \<open>
  A verification library for excalidraw-wopi, a service that lets the users of a WOPI host
  (Drive) edit excalidraw boards together. The Go program under \<open>src/internal\<close> and
  \<open>src/cmd\<close> is translated into executable definitions, one group of definitions per source
  file, and the theorems state what the parts promise, alone and wired together.

  \<^bold>\<open>The program.\<close> A host posts a launch form to \<open>/launch\<close>; the service asks the host who
  the user is, mints a session token and serves the frontend with it. The frontend talks to
  the board API (\<open>/api/board\<close>), which keeps the last scene of each board in a room, and to the
  relay (\<open>/socket.io/\<close>), which spreads edits and cursors and elects for each room the one
  client that posts scenes (the syncer). The room manager saves dirty scenes to the host
  under a WOPI lock from a background loop. With several replicas, each file belongs to the
  replica that a rendezvous hash picks, and the others forward to it.

  \<^bold>\<open>Where what is modelled.\<close>
  \<^item> \<open>Prelude\<close>: byte strings, Go's time and durations, association lists for Go maps, a small
    weakest-precondition calculus over \<open>State_Monad\<close>.
  \<^item> The standard library, as far as the program uses it: \<open>Sha256\<close>, \<open>Md5\<close>, \<open>Crypto\<close> (HMAC, HKDF,
    AES-GCM, base64), \<open>Json\<close> and \<open>JsonText\<close> (\<open>encoding/json\<close>), \<open>GoText\<close> (\<open>strings\<close>, \<open>strconv\<close>),
    \<open>NetUrl\<close> (\<open>net/url\<close>), \<open>GoHttp\<close> and \<open>HttpServer\<close> (\<open>net/http\<close>, \<open>path\<close>).
  \<^item> \<open>internal/room\<close>: \<open>RoomState\<close> (\<open>roomstate.go\<close>, \<open>lockvalue.go\<close>), \<open>RoomManager\<close> (\<open>manager.go\<close>: the
    critical sections of the API), \<open>RoomSave\<close> (\<open>save.go\<close> and the passes of \<open>manager.go\<close>),
    \<open>RoomWorkers\<close> (its goroutines: the loop, the worker pools, \<open>Shutdown\<close>). Rooms are
    shared by pointer, so they live in a heap. The manager is a record \<open>sys\<close>; an API call is one
    step, as it holds the mutex; the background code is a program of the state monad that
    gives the mutex up where the Go code does, and there the schedule \<open>m_sched\<close>, an arbitrary
    list of other critical sections, runs. The host is any value of any type, the client any
    value of the Go interface.
  \<^item> \<open>internal/relay\<close>: \<open>RelayRooms\<close> (\<open>rooms.go\<close>, \<open>syncer.go\<close>), \<open>Broadcast\<close> (\<open>broadcast.go\<close>),
    \<open>RelayServer\<close> (\<open>relay.go\<close>), \<open>EmitLocks\<close> (\<open>emitlocks.go\<close>). Emits and hook calls are logs.
  \<^item> \<open>internal/wopiclient\<close>, \<open>internal/hostadapter\<close>: \<open>WopiTypes\<close>, \<open>WopiClient\<close>;
    \<open>internal/wopitest\<close>: \<open>WopiHost\<close>.
  \<^item> \<open>internal/session\<close>: \<open>Session\<close>, \<open>SessionTokens\<close>; \<open>internal/launch\<close>: \<open>Launch\<close>;
    \<open>internal/boardapi\<close>: \<open>BoardApi\<close>; \<open>internal/peers\<close>: \<open>Peers\<close>; \<open>internal/config\<close>: \<open>Config\<close>;
    \<open>internal/proof\<close>: \<open>Proof\<close>; \<open>internal/discovery\<close>: \<open>Discovery\<close>; \<open>internal/httpserver\<close>: \<open>HttpServer\<close>.
  \<^item> \<open>internal/app\<close> and \<open>cmd/excalidraw-wopi\<close>: \<open>App\<close> (test mode, addresses) and \<open>Server\<close>
    (\<open>NewServer\<close>, the adapters and hooks, the health check, the life of the process), \<open>Startup\<close>
    (\<open>run\<close> up to the listener, the exit code).
  \<^item> \<open>e2e\<close>: \<open>HashProxy\<close>, \<open>HarnessHost\<close> and \<open>TestPrograms\<close>, the programs of the test suites.

  \<^bold>\<open>What is shown.\<close>
  \<^item> Rooms. \<open>RoomInvariants\<close> has the locale \<open>loop_invariant\<close>, the contract between an invariant
    and the background loop: whoever shows that each atomic step keeps it gets it for every
    reachable state and every interleaving. \<open>RoomSafety\<close> and \<open>RoomSaves\<close> interpret it (or its part
    \<open>loop_steps\<close>): no edit is lost, a write happens under a lock, a conflict pauses the room, hooks are told
    the state. \<open>RoomLadder\<close> has a host that goes by tokens as a locale, on
    which a save lands exactly if some token may write; \<open>RoomClose\<close> the ways a room ends,
    and the defects there. \<open>RoomWorkers\<close> interleaves the loop, its workers and any number of
    \<open>Shutdown\<close> calls: a room has one worker, a room that was woken comes into a pass unless a
    worker closes it first, no pool can hang. \<open>EditPath\<close> follows
    a scene from the board API through the room and its save into the file of the host.
  \<^item> Relay. \<open>RelaySafety\<close> and \<open>RelaySyncer\<close>: over all runs of any number of sockets, only admitted
    sessions are members, and what the clients were told about the syncer role agrees with
    the registry; \<open>RelayTraffic\<close>: every body that is forwarded comes from a socket
    that joined the room, with a session that may send it, and goes to that room alone; \<open>RelayManager\<close>: the
    relay's calls of the hook, among the steps of the REST side and of the loop, keep the live user count of a room at the
    number of its sockets. There \<open>loop_invariant\<close> is interpreted once more, to show that those
    steps (\<open>loop_atom\<close>) make up every pass, flush and resolve. \<open>EmitLocks\<close>: the locks that make a join or a leave one step do exclude.
    \<open>Broadcast\<close>: the identity on the volatile channel is the sender's, the durable guard is not tight.
  \<^item> Host and client. \<open>WopiHost\<close>: the lock machine refines an abstract lock, which protects the
    file. \<open>WopiClientHost\<close>: the HTTP client over the host behaves as the abstract client that
    the rooms are verified with, for URLs that name a file of the host and texts that fit a header.
  \<^item> Sessions and the edge. \<open>SessionTokens\<close> (locale \<open>sealing\<close>, interpreted on AES-GCM): a minted
    token verifies to what it was minted with, until it expires. \<open>LaunchSafety\<close>, \<open>BoardSafety\<close>: whom
    a launch may call, what the page carries, who may change a room, put and get.
    \<open>Config\<close>: what a loaded configuration satisfies. \<open>Peers\<close>: ownership, one hop, the poll loop.
  \<^item> Proof keys. \<open>ProofSafety\<close>, \<open>DiscoverySafety\<close>: the signed bytes are unambiguous, replicas that start
    together agree on a key, the discovery document reads back, and what it publishes
    verifies what is signed.
  \<^item> The whole. \<open>ServerSafety\<close>: the wired client signs every request; a launched user gets into
    the room of the file on both channels; a shutdown may exit before the rooms are flushed.
    \<open>Startup\<close>: a production service has no route into test mode, and of two replicas that agree on
    the peers one has a file. \<open>HashProxy\<close>: the test proxy and the replicas agree on the owner.

  \<^bold>\<open>Interfaces.\<close> The locales are \<open>loop_steps\<close> and \<open>loop_invariant\<close> (an invariant
  against the atomic steps of the background loop) with \<open>room_local\<close>, one of its instances by
  \<open>sublocale\<close>, the token host of \<open>RoomLadder\<close> (what a save relies on), \<open>in_flight\<close> (what a pool of
  goroutines owes the rooms), \<open>sealing\<close> (a cipher with its encoding) and \<open>b64_alphabet\<close>; each is
  interpreted on the definitions of the model.

  \<^bold>\<open>Bounds and fuel.\<close> The JSON parser runs on fuel \<open>2 * length + 2\<close>, enough for every document,
  and stops at the nesting depth 10000 of the library. Replacing a token in an error text
  runs on the length of the text; an IPv6 address on nine groups, one more than it has;
  the reader of the discovery document on its length. A request's journey between replicas is
  followed for two hops, which \<open>routing_one_hop\<close> shows to be enough. The 64-bit scene counter,
  the time stamp and the size limit are kept at their width; \<open>no_edit_lost\<close> holds below
  \<open>2^64\<close> accepted scenes.

  \<^bold>\<open>Parameters.\<close> The JWT library (behaviour \<open>jwt_ok\<close>), PEM and x509 (\<open>codec_ok\<close>), random bytes,
  DNS answers, the transport below the client (with the in-memory host: the texts of its errors
  and of a mux redirect, \<open>netWords\<close>), \<open>strings.ToLower\<close> and \<open>ToUpper\<close> (beyond ASCII
  they follow the Unicode tables), the texts of \<open>url.Parse\<close> errors and of \<open>%q\<close>, the trip of a
  number through \<open>float64\<close>, the embedded file tree. Each hypothesis about one of them is met by
  a concrete instance in a witness.

  \<^bold>\<open>Not modelled.\<close> Logging; the socket.io library (delivery, transports, closing sockets) and
  \<open>net/http\<close> below the handlers (connections, proxying, timeouts, ranges, content types, the
  limit on the number of query parameters; of its mux, the routes of the service (\<open>dispatch_to\<close>) leave
  out \<open>CONNECT\<close>, whose paths it does not clean, and a slash escaped inside a segment); context cancellation; what the rooms look like
  inside a pass of several workers (\<open>RoomWorkers\<close> has the goroutines, \<open>RoomSave\<close> takes the rooms of a pass
  one after the other, with any other critical section between its own); the text of wrapped errors; \<open>time.Now\<close>
  behind the room clock, which is a field of the state; \<open>embed.go\<close>, which
  has no logic; listening, signals and the ready lines of the test programs.
\<close>

end
